(* ===== verification/Prelude.thy ===== *)
theory Prelude
  imports Main "HOL-Library.Word"
begin

text \<open>
  Shared vocabulary of the development: the machine integers of the C++ code, the faults a
  C++ execution can run into (values here, so that each of them is a branch of the model), the
  result type of a computation that can fault with its sequencing operator, bounds-checked reads
  and writes of buffers and vectors, and the contract of an event-driven component
  (locale \<open>event_system\<close>) whose invariants are lifted from single steps to whole runs.
\<close>

unbundle bit_operations_syntax

section \<open>Machine integers\<close>

type_synonym u8 = "8 word"
type_synonym u16 = "16 word"
type_synonym u32 = "32 word"

lemma unat_u8_less [simp]: "unat (b :: u8) < 256"
  using unsigned_less [of b, where ?'a = nat] by simp

lemma unat_u16_less [simp]: "unat (b :: u16) < 65536"
  using unsigned_less [of b, where ?'a = nat] by simp

section \<open>Faults and results\<close>

text \<open>
  A fault is undefined behaviour or non-termination of the C++ code: a read or a write outside an
  object, a dereferenced null pointer, an access to a destroyed object, a \<open>std::mutex\<close> locked again by the thread that holds it,
  a lock that is held by another thread, a mutex unlocked by a thread that does not hold it, a signed addition out of the range of
  \<open>int\<close>, a loop that does not end, an exception that leaves its thread.
\<close>

datatype fault = OobRead | OobWrite | NullDeref | UseAfterFree | Deadlock | Blocked | BadUnlock | IntOverflow | Diverge | Uncaught

type_synonym 'a res = "fault + 'a"

named_theorems res_simps "computation rules of the result type"
named_theorems ret_iff "when a computation returns"

definition bindR :: "'a res \<Rightarrow> ('a \<Rightarrow> 'b res) \<Rightarrow> 'b res" where
  "bindR m f = (case m of Inl e \<Rightarrow> Inl e | Inr x \<Rightarrow> f x)"

lemma bindR_Inl [simp, res_simps]: "bindR (Inl e) f = Inl e"
  by (simp add: bindR_def)

lemma bindR_Inr [simp, res_simps]: "bindR (Inr x) f = f x"
  by (simp add: bindR_def)

lemma bindR_eq_Inr [ret_iff]: "bindR m f = Inr y \<longleftrightarrow> (\<exists>x. m = Inr x \<and> f x = Inr y)"
  by (cases m) auto

lemma bindR_InrE:
  assumes "bindR m f = Inr y"
  obtains x where "m = Inr x" and "f x = Inr y"
  using assms by (auto simp: bindR_eq_Inr)

lemma bindR_eq_Inl: "bindR m f = Inl e \<longleftrightarrow> m = Inl e \<or> (\<exists>x. m = Inr x \<and> f x = Inl e)"
  by (cases m) auto

lemma bindR_assoc: "bindR (bindR m f) g = bindR m (\<lambda>x. bindR (f x) g)"
  by (cases m) auto

lemma bindR_cong [fundef_cong]:
  "m = m' \<Longrightarrow> (\<And>x. m' = Inr x \<Longrightarrow> f x = f' x) \<Longrightarrow> bindR m f = bindR m' f'"
  by (cases m') auto

lemma if_res_Inr [ret_iff]:
  "(if b then Inl e else m) = Inr y \<longleftrightarrow> \<not> b \<and> m = Inr y"
  "(if b then m else Inl e) = Inr y \<longleftrightarrow> b \<and> m = Inr y"
  by auto

text \<open>A computation returns, and its result satisfies a predicate.\<close>

definition returns :: "'a res \<Rightarrow> ('a \<Rightarrow> bool) \<Rightarrow> bool" where
  "returns m P = (case m of Inl e \<Rightarrow> False | Inr x \<Rightarrow> P x)"

lemma returns_iff: "returns m P \<longleftrightarrow> (\<exists>x. m = Inr x \<and> P x)"
  by (cases m) (auto simp: returns_def)

lemma returnsE:
  assumes "returns m P"
  obtains x where "m = Inr x" and "P x"
  using assms by (auto simp: returns_iff)

text \<open>A loop over a list whose body can fault.\<close>

fun foldR :: "('a \<Rightarrow> 's \<Rightarrow> 's res) \<Rightarrow> 'a list \<Rightarrow> 's \<Rightarrow> 's res" where
  "foldR f [] s = Inr s"
| "foldR f (x # xs) s = bindR (f x s) (foldR f xs)"

lemma foldR_append: "foldR f (xs @ ys) s = bindR (foldR f xs s) (foldR f ys)"
proof (induction xs arbitrary: s)
  case Nil
  then show ?case by simp
next
  case (Cons x xs)
  then have "foldR f (xs @ ys) = (\<lambda>s. bindR (foldR f xs s) (foldR f ys))" by blast
  then show ?case by (simp add: bindR_assoc)
qed

lemma foldR_inv:
  assumes "\<And>x s s'. x \<in> set xs \<Longrightarrow> P s \<Longrightarrow> f x s = Inr s' \<Longrightarrow> P s'"
  shows "P s \<Longrightarrow> foldR f xs s = Inr s' \<Longrightarrow> P s'"
  using assms by (induction xs arbitrary: s) (auto simp: ret_iff)

lemma foldR_pure: "(\<And>x s. x \<in> set xs \<Longrightarrow> f x s = Inr (g x s)) \<Longrightarrow> foldR f xs s = Inr (fold g xs s)"
  by (induction xs arbitrary: s) auto

section \<open>Bounds-checked memory\<close>

text \<open>
  A pointer into a buffer is an offset; a vector access is by index. An access outside the object
  is a fault.
\<close>

definition rd :: "'a list \<Rightarrow> nat \<Rightarrow> 'a res" where
  "rd d p = (if p < length d then Inr (d ! p) else Inl OobRead)"

definition wr :: "'a list \<Rightarrow> nat \<Rightarrow> 'a \<Rightarrow> 'a list res" where
  "wr d p x = (if p < length d then Inr (d[p := x]) else Inl OobWrite)"

lemma rd_eq_Inr [ret_iff]: "rd d p = Inr x \<longleftrightarrow> p < length d \<and> x = d ! p"
  by (auto simp: rd_def)

lemma wr_eq_Inr [ret_iff]: "wr d p x = Inr d' \<longleftrightarrow> p < length d \<and> d' = d[p := x]"
  by (auto simp: wr_def)

lemma rd_ok [simp]: "p < length d \<Longrightarrow> rd d p = Inr (d ! p)"
  by (simp add: rd_def)

lemma wr_ok [simp]: "p < length d \<Longrightarrow> wr d p x = Inr (d[p := x])"
  by (simp add: wr_def)

lemma rd_append: "rd (xs @ ys) (length xs + n) = rd ys n"
  by (auto simp: rd_def nth_append)

text \<open>Big-endian fields: \<open>(*p << 8u) + *(p + 1)\<close> and its wider relatives.\<close>

definition be16 :: "u8 \<Rightarrow> u8 \<Rightarrow> u16" where
  "be16 a b = push_bit 8 (ucast a) + ucast b"

definition be24 :: "u8 \<Rightarrow> u8 \<Rightarrow> u8 \<Rightarrow> u32" where
  "be24 a b c = push_bit 16 (ucast a) + push_bit 8 (ucast b) + ucast c"

definition be32 :: "u8 \<Rightarrow> u8 \<Rightarrow> u8 \<Rightarrow> u8 \<Rightarrow> u32" where
  "be32 a b c d = push_bit 24 (ucast a) + push_bit 16 (ucast b) + push_bit 8 (ucast c) + ucast d"

definition rd16 :: "u8 list \<Rightarrow> nat \<Rightarrow> u16 res" where
  "rd16 d p = bindR (rd d p) (\<lambda>a. bindR (rd d (p + 1)) (\<lambda>b. Inr (be16 a b)))"

definition rd32 :: "u8 list \<Rightarrow> nat \<Rightarrow> u32 res" where
  "rd32 d p = bindR (rd d p) (\<lambda>a. bindR (rd d (p + 1)) (\<lambda>b.
              bindR (rd d (p + 2)) (\<lambda>c. bindR (rd d (p + 3)) (\<lambda>e. Inr (be32 a b c e)))))"

text \<open>The 12-bit lengths of DVB sections: \<open>((*p & 0x0Fu) << 8u) + *(p + 1)\<close>.\<close>

definition rdlen :: "u8 list \<Rightarrow> nat \<Rightarrow> u16 res" where
  "rdlen d p = bindR (rd d p) (\<lambda>a. bindR (rd d (p + 1)) (\<lambda>b. Inr (be16 (a AND 0x0F) b)))"

lemma rd16_eq_Inr [ret_iff]:
  "rd16 d p = Inr w \<longleftrightarrow> p + 1 < length d \<and> w = be16 (d ! p) (d ! (p + 1))"
  by (auto simp: rd16_def rd_def)

lemma rdlen_eq_Inr [ret_iff]:
  "rdlen d p = Inr w \<longleftrightarrow> p + 1 < length d \<and> w = be16 (d ! p AND 0x0F) (d ! (p + 1))"
  by (auto simp: rdlen_def rd_def)

lemma unat_be16: "unat (be16 a b) = 256 * unat a + unat b"
proof -
  have a: "unat a < 256" and b: "unat b < 256"
    by simp_all
  have "unat a mod 65536 = unat a" and "unat b mod 65536 = unat b"
    by (rule mod_less, use a b in linarith)+
  then have ua: "unat (ucast a :: u16) = unat a" and ub: "unat (ucast b :: u16) = unat b"
    by (simp_all add: unsigned_ucast_eq take_bit_eq_mod)
  have pa: "unat (push_bit 8 (ucast a :: u16)) = 256 * unat a"
    using a ua by (simp add: push_bit_eq_mult unat_word_ariths)
  have "(256 * unat a + unat b) mod 65536 = 256 * unat a + unat b"
    by (rule mod_less) (use a b in linarith)
  then show ?thesis
    using pa ub by (simp add: be16_def unat_word_ariths)
qed

section \<open>Words\<close>

lemma u8_of_nat: "n < 256 \<Longrightarrow> unat (of_nat n :: u8) = n"
  by (simp add: unat_of_nat)

lemma u32_of_nat: "n < 4294967296 \<Longrightarrow> unat (of_nat n :: u32) = n"
  by (simp add: unat_of_nat)

lemma u16_of_nat: "n < 65536 \<Longrightarrow> unat (of_nat n :: u16) = n"
  by (simp add: unat_of_nat)

lemma or_plus: "(a :: 'a :: len word) AND b = 0 \<Longrightarrow> a + b = a OR b"
  by (rule disjunctive_add_eq_or)

lemma bit_u8_bound: "bit (b :: u8) j \<Longrightarrow> j < 8"
  using bit_imp_le_length [of b j] by simp

lemma be32_or: "be32 a b c d = push_bit 24 (ucast a) OR push_bit 16 (ucast b) OR push_bit 8 (ucast c) OR (ucast d :: u32)"
proof -
  let ?a = "push_bit 24 (ucast a) :: u32" and ?b = "push_bit 16 (ucast b) :: u32"
    and ?c = "push_bit 8 (ucast c) :: u32" and ?d = "ucast d :: u32"
  have ab: "?a + ?b = ?a OR ?b"
    by (rule or_plus, rule bit_word_eqI) (auto simp: bit_simps dest: bit_u8_bound)
  have abc: "(?a OR ?b) + ?c = ?a OR ?b OR ?c"
    by (subst or_plus, rule bit_word_eqI) (auto simp: bit_simps or.assoc dest: bit_u8_bound)
  have "(?a OR ?b OR ?c) + ?d = ?a OR ?b OR ?c OR ?d"
    by (subst or_plus, rule bit_word_eqI) (auto simp: bit_simps or.assoc dest: bit_u8_bound)
  then show ?thesis by (simp add: be32_def ab abc)
qed

lemma be32_bit:
  "bit (be32 a b c d) n \<longleftrightarrow>
     (if n < 8 then bit d n else if n < 16 then bit c (n - 8) else if n < 24 then bit b (n - 16) else n < 32 \<and> bit a (n - 24))"
  unfolding be32_or by (auto simp: bit_simps dest: bit_u8_bound)

lemma be32_enc: "be32 (ucast (drop_bit 24 w)) (ucast (drop_bit 16 w)) (ucast (drop_bit 8 w)) (ucast w) = w"
  by (rule bit_word_eqI) (auto simp: be32_bit bit_simps)

text \<open>\<open>std::vector::resize\<close>.\<close>

definition resize :: "'a list \<Rightarrow> nat \<Rightarrow> 'a \<Rightarrow> 'a list" where
  "resize xs n z = take n xs @ replicate (n - length xs) z"

lemma length_resize [simp]: "length (resize xs n z) = n"
  by (simp add: resize_def)

lemma resize_nth: "i < n \<Longrightarrow> resize xs n z ! i = (if i < length xs then xs ! i else z)"
  by (auto simp: resize_def nth_append)

section \<open>Event-driven components\<close>

text \<open>
  A component receives a sequence of events; each is handled by a step that may fault. The
  contract \<open>event_system\<close> asks that an invariant is kept by every step that returns; its client
  lemma lifts the invariant to every run. \<open>total_system\<close> also asks that no step faults from a
  state that satisfies the invariant, under a guard on events.
\<close>

fun run :: "('s \<Rightarrow> 'e \<Rightarrow> 's res) \<Rightarrow> 's \<Rightarrow> 'e list \<Rightarrow> 's res" where
  "run stp s [] = Inr s"
| "run stp s (e # es) = bindR (stp s e) (\<lambda>s'. run stp s' es)"

lemma run_append: "run stp s (es @ fs) = bindR (run stp s es) (\<lambda>s'. run stp s' fs)"
  by (induction es arbitrary: s) (auto simp: bindR_assoc)

locale event_system =
  fixes stp :: "'s \<Rightarrow> 'e \<Rightarrow> 's res"
    and inv :: "'s \<Rightarrow> bool"
  assumes stp_inv: "inv s \<Longrightarrow> stp s e = Inr s' \<Longrightarrow> inv s'"
begin

lemma run_inv: "inv s \<Longrightarrow> run stp s es = Inr s' \<Longrightarrow> inv s'"
  by (induction es arbitrary: s) (auto simp: ret_iff intro: stp_inv)

end

locale total_system = event_system stp inv
  for stp :: "'s \<Rightarrow> 'e \<Rightarrow> 's res" and inv :: "'s \<Rightarrow> bool" +
  fixes good :: "'e \<Rightarrow> bool"
  assumes stp_total: "inv s \<Longrightarrow> good e \<Longrightarrow> \<exists>s'. stp s e = Inr s'"
begin

lemma run_total: "inv s \<Longrightarrow> list_all good es \<Longrightarrow> \<exists>s'. run stp s es = Inr s' \<and> inv s'"
proof (induction es arbitrary: s)
  case Nil
  then show ?case by simp
next
  case (Cons e es)
  from Cons.prems obtain t where t: "stp s e = Inr t"
    using stp_total by fastforce
  with Cons.prems(1) have "inv t" by (rule stp_inv)
  with Cons.prems(2) Cons.IH [of t] t show ?case by simp
qed

end

section \<open>Evaluation\<close>

text \<open>With these congruences the simplifier evaluates a program from the outside in: it does not enter the continuation of
  a sequencing, the body of a \<open>let\<close> or of a loop before its input is a value.\<close>

lemma weak_congs:
  "m = m' \<Longrightarrow> bindR m f = bindR m' f" "m = m' \<Longrightarrow> returns m P = returns m' P"
  "xs = ys \<Longrightarrow> s = s' \<Longrightarrow> foldR g xs s = foldR g ys s'" "xs = ys \<Longrightarrow> u = u' \<Longrightarrow> fold h xs u = fold h ys u'"
  by simp_all

lemmas lazy = weak_congs let_weak_cong

end
