(* ===== verification/CppStrings.thy ===== *)
theory CppStrings
  imports Prelude "HOL-Library.Char_ord"
begin

text \<open>
  The operations of \<open>std::string\<close> and of the C string functions that the application manager
  uses. A \<open>std::string\<close> is a list of bytes (\<open>char\<close>s); \<open>npos\<close> is \<^const>\<open>None\<close>. A C string is the
  part before the first NUL.
\<close>

section \<open>Bytes and characters\<close>

definition chr_of :: "u8 \<Rightarrow> char" where
  "chr_of b = char_of (unat b)"

definition byte_of :: "char \<Rightarrow> u8" where
  "byte_of c = of_nat (of_char c)"

lemma byte_of_chr_of [simp]: "byte_of (chr_of b) = b"
  by (simp add: byte_of_def chr_of_def)

lemma chr_of_byte_of [simp]: "chr_of (byte_of c) = c"
proof -
  have "unat (of_nat (of_char c) :: u8) = of_char c"
    by (simp add: unat_of_nat)
  then show ?thesis by (simp add: byte_of_def chr_of_def)
qed

text \<open>\<open>std::string(reinterpret_cast<const char *>(p), n)\<close>: \<open>n\<close> bytes are read from the buffer.\<close>

definition rd_str :: "u8 list \<Rightarrow> nat \<Rightarrow> nat \<Rightarrow> string res" where
  "rd_str d p n = (if p + n \<le> length d then Inr (map chr_of (take n (drop p d))) else Inl OobRead)"

lemma rd_str_eq_Inr [ret_iff]:
  "rd_str d p n = Inr s \<longleftrightarrow> p + n \<le> length d \<and> s = map chr_of (take n (drop p d))"
  by (auto simp: rd_str_def)

section \<open>Searching and cutting\<close>

fun find_at :: "string \<Rightarrow> string \<Rightarrow> nat \<Rightarrow> nat option" where
  "find_at pat [] i = (if pat = [] then Some i else None)"
| "find_at pat (c # cs) i =
     (if take (length pat) (c # cs) = pat then Some i else find_at pat cs (Suc i))"

definition str_find :: "string \<Rightarrow> string \<Rightarrow> nat \<Rightarrow> nat option" where
  "str_find s pat pos = (if pos \<le> length s then find_at pat (drop pos s) pos else None)"

definition substr :: "string \<Rightarrow> nat \<Rightarrow> nat \<Rightarrow> string" where
  "substr s pos n = take n (drop pos s)"

text \<open>\<open>s.substr(0, s.find(c))\<close>: the whole string when the character is not found.\<close>

definition upto_find :: "string \<Rightarrow> nat option \<Rightarrow> string" where
  "upto_find s i = (case i of None \<Rightarrow> s | Some n \<Rightarrow> take n s)"

definition find_last_not_of :: "string \<Rightarrow> string \<Rightarrow> nat option" where
  "find_last_not_of s cs =
     (let t = dropWhile (\<lambda>c. c \<in> set cs) (rev s) in if t = [] then None else Some (length t - 1))"

text \<open>\<open>s.erase(s.find_last_not_of(cs) + 1)\<close>, where \<open>npos + 1\<close> wraps to 0.\<close>

definition erase_trailing :: "string \<Rightarrow> string \<Rightarrow> string" where
  "erase_trailing s cs = take (case find_last_not_of s cs of None \<Rightarrow> 0 | Some i \<Rightarrow> i + 1) s"

definition str_contains :: "string \<Rightarrow> string \<Rightarrow> bool" where
  "str_contains s pat = (str_find s pat 0 \<noteq> None)"

definition str_replace :: "char \<Rightarrow> char \<Rightarrow> string \<Rightarrow> string" where
  "str_replace a b s = map (\<lambda>c. if c = a then b else c) s"

lemma find_at_bounds: "find_at pat s i = Some j \<Longrightarrow> i \<le> j \<and> j + length pat \<le> i + length s"
proof (induction pat s i rule: find_at.induct)
  case (2 pat c cs i)
  show ?case
  proof (cases "take (length pat) (c # cs) = pat")
    case True
    then have "length pat \<le> length (c # cs)"
      by (metis length_take min.cobounded1)
    with True 2 show ?thesis by auto
  next
    case False
    with 2 show ?thesis by auto
  qed
qed (auto split: if_splits)

lemma str_find_bounds: "str_find s pat p = Some j \<Longrightarrow> p \<le> j \<and> j + length pat \<le> length s"
  using find_at_bounds by (fastforce simp: str_find_def split: if_splits)

lemma find_at_single_None: "find_at [c] s i = None \<longleftrightarrow> c \<notin> set s"
  by (induction s arbitrary: i) auto

lemma find_at_single_app:
  "c \<notin> set xs \<Longrightarrow> find_at [c] (xs @ c # ys) i = Some (i + length xs)"
  by (induction xs arbitrary: i) auto

lemma str_find_char_None: "str_find s [c] 0 = None \<longleftrightarrow> c \<notin> set s"
  by (simp add: str_find_def find_at_single_None)

lemma str_find_char_app: "c \<notin> set xs \<Longrightarrow> str_find (xs @ c # ys) [c] 0 = Some (length xs)"
  by (simp add: str_find_def find_at_single_app)

lemma erase_trailing_eq:
  "erase_trailing s cs = rev (dropWhile (\<lambda>c. c \<in> set cs) (rev s))"
proof -
  let ?t = "dropWhile (\<lambda>c. c \<in> set cs) (rev s)"
  have s: "s = rev ?t @ rev (takeWhile (\<lambda>c. c \<in> set cs) (rev s))"
    by (metis rev_append rev_rev_ident takeWhile_dropWhile_id)
  have "take (length ?t) s = rev ?t"
    by (subst s) simp
  then show ?thesis
    by (auto simp: erase_trailing_def find_last_not_of_def Let_def Suc_diff_1)
qed

lemma erase_trailing_idem [simp]: "erase_trailing (erase_trailing s cs) cs = erase_trailing s cs"
  by (simp add: erase_trailing_eq dropWhile_idem)

lemma erase_trailing_id: "s = [] \<or> last s \<notin> set cs \<Longrightarrow> erase_trailing s cs = s"
  by (cases s rule: rev_cases) (auto simp: erase_trailing_eq)

section \<open>Case-insensitive comparison\<close>

definition cstr :: "string \<Rightarrow> string" where
  "cstr s = takeWhile (\<lambda>c. of_char c \<noteq> (0::nat)) s"

definition to_lower :: "char \<Rightarrow> char" where
  "to_lower c = (let n = of_char c :: nat in if 65 \<le> n \<and> n \<le> 90 then char_of (n + 32) else c)"

definition strcasecmp_eq :: "string \<Rightarrow> string \<Rightarrow> bool" where
  "strcasecmp_eq a b = (map to_lower (cstr a) = map to_lower (cstr b))"

lemma strcasecmp_eq_refl [simp]: "strcasecmp_eq a a"
  by (simp add: strcasecmp_eq_def)

section \<open>Hexadecimal numbers\<close>

definition hex_val :: "char \<Rightarrow> nat option" where
  "hex_val c = (let n = of_char c :: nat in
     if 48 \<le> n \<and> n \<le> 57 then Some (n - 48)
     else if 97 \<le> n \<and> n \<le> 102 then Some (n - 87)
     else if 65 \<le> n \<and> n \<le> 70 then Some (n - 55)
     else None)"

definition is_hex :: "char \<Rightarrow> bool" where
  "is_hex c = (hex_val c \<noteq> None)"

definition is_space :: "char \<Rightarrow> bool" where
  "is_space c = (let n = of_char c :: nat in n = 32 \<or> 9 \<le> n \<and> n \<le> 13)"

fun hex_num :: "nat \<Rightarrow> string \<Rightarrow> nat" where
  "hex_num acc [] = acc"
| "hex_num acc (c # cs) =
     (case hex_val c of None \<Rightarrow> acc | Some v \<Rightarrow> hex_num (16 * acc + v) cs)"

text \<open>
  \<open>std::stoul(s, nullptr, 16)\<close> with a 64-bit \<open>unsigned long\<close>: leading white space, an optional
  sign, an optional \<open>0x\<close>, then the longest run of hexadecimal digits. \<^const>\<open>None\<close> is the thrown
  exception (\<open>std::invalid_argument\<close> without a digit, \<open>std::out_of_range\<close> above \<open>ULONG_MAX\<close>).
\<close>

definition strip_0x :: "string \<Rightarrow> string" where
  "strip_0x s = (case s of
     a # b # c # cs \<Rightarrow> if a = CHR ''0'' \<and> (b = CHR ''x'' \<or> b = CHR ''X'') \<and> is_hex c
                       then c # cs else s
   | _ \<Rightarrow> s)"

definition stoul16 :: "string \<Rightarrow> nat option" where
  "stoul16 s =
     (let t = dropWhile is_space (cstr s);
          neg = (case t of c # _ \<Rightarrow> c = CHR ''-'' | [] \<Rightarrow> False);
          u = (case t of c # cs \<Rightarrow> if c = CHR ''-'' \<or> c = CHR ''+'' then cs else t | [] \<Rightarrow> t);
          ds = takeWhile is_hex (strip_0x u);
          v = hex_num 0 ds
      in if ds = [] then None
         else if 2 ^ 64 \<le> v then None
         else Some (if neg then (2 ^ 64 - v) mod 2 ^ 64 else v))"

text \<open>The conversion \<open>%x\<close>.\<close>

definition hex_digit :: "nat \<Rightarrow> char" where
  "hex_digit v = char_of (if v < 10 then v + 48 else v + 87)"

fun to_hex :: "nat \<Rightarrow> string" where
  "to_hex n = (if n < 16 then [hex_digit n] else to_hex (n div 16) @ [hex_digit (n mod 16)])"

declare to_hex.simps [simp del]

lemma of_char_hex_digit:
  "v < 16 \<Longrightarrow> (of_char (hex_digit v) :: nat) = (if v < 10 then v + 48 else v + 87)"
  by (simp add: hex_digit_def)

lemma hex_val_hex_digit [simp]: "v < 16 \<Longrightarrow> hex_val (hex_digit v) = Some v"
  by (simp add: hex_val_def of_char_hex_digit)

lemma is_hex_hex_digit [simp]: "v < 16 \<Longrightarrow> is_hex (hex_digit v)"
  by (simp add: is_hex_def)

lemma to_hex_is_hex: "c \<in> set (to_hex n) \<Longrightarrow> is_hex c"
proof (induction n rule: to_hex.induct)
  case (1 n)
  then show ?case
    by (cases "n < 16") (auto simp: to_hex.simps [of n])
qed

lemma to_hex_neq_Nil [simp]: "to_hex n \<noteq> []"
  by (subst to_hex.simps) simp

lemma hex_num_append_digit:
  "\<forall>c \<in> set cs. is_hex c \<Longrightarrow> v < 16 \<Longrightarrow> hex_num a (cs @ [hex_digit v]) = 16 * hex_num a cs + v"
  by (induction cs arbitrary: a) (auto simp: is_hex_def)

lemma hex_num_to_hex [simp]: "hex_num 0 (to_hex n) = n"
proof (induction n rule: to_hex.induct)
  case (1 n)
  then show ?case
    by (cases "n < 16") (auto simp: to_hex.simps [of n] hex_num_append_digit to_hex_is_hex)
qed

lemma is_hex_not_space: "is_hex c \<Longrightarrow> \<not> is_space c"
  by (auto simp: is_hex_def hex_val_def is_space_def Let_def split: if_splits)

lemma is_hex_codes: "is_hex c \<Longrightarrow> c \<noteq> CHR ''-'' \<and> c \<noteq> CHR ''+'' \<and> c \<noteq> CHR ''x'' \<and> c \<noteq> CHR ''X''
    \<and> c \<noteq> CHR ''.'' \<and> c \<noteq> CHR ''/'' \<and> c \<noteq> CHR ''?'' \<and> c \<noteq> CHR ''#'' \<and> (of_char c :: nat) \<noteq> 0"
  by (auto simp: is_hex_def hex_val_def Let_def split: if_splits)

lemma strip_0x_hex: "\<forall>c \<in> set s. is_hex c \<Longrightarrow> strip_0x s = s"
  using is_hex_codes by (auto simp: strip_0x_def split: list.splits)

text \<open>Round trip: \<open>stoul\<close> reads back what \<open>%x\<close> prints.\<close>

lemma stoul16_to_hex: "n < 2 ^ 64 \<Longrightarrow> stoul16 (to_hex n) = Some n"
proof -
  assume n: "n < 2 ^ 64"
  let ?h = "to_hex n"
  have hex: "\<forall>c \<in> set ?h. is_hex c" using to_hex_is_hex by blast
  obtain c cs where h: "?h = c # cs" by (cases ?h) auto
  have c: "is_hex c" using hex h by simp
  have "cstr ?h = ?h"
    using hex is_hex_codes by (auto simp: cstr_def intro!: takeWhile_eq_all_conv [THEN iffD2])
  moreover have "dropWhile is_space ?h = ?h"
    using is_hex_not_space [OF c] h by simp
  moreover have tw: "takeWhile is_hex ?h = ?h"
    using hex by simp
  moreover have "(case ?h of c # _ \<Rightarrow> c = CHR ''-'' | [] \<Rightarrow> False) = False"
    and "(case ?h of c # cs \<Rightarrow> if c = CHR ''-'' \<or> c = CHR ''+'' then cs else ?h | [] \<Rightarrow> ?h) = ?h"
    using is_hex_codes [OF c] by (simp_all add: h)
  ultimately show ?thesis
    using n by (simp add: stoul16_def Let_def strip_0x_hex [OF hex] tw)
qed

end
