(* ===== verification/OrderedMap.thy ===== *)
theory OrderedMap
  imports Prelude
begin

text \<open>
  \<open>std::map\<close> and \<open>std::unordered_map\<close>. The contract the code relies on is the locale
  \<open>map_store\<close> (what a lookup returns after an insertion and after an erasure, which keys an
  iteration visits); \<open>ordered_store\<close> adds that the iteration visits the keys in increasing order,
  each once. Both are interpreted on association lists kept in key order, the representation used
  by the model. The code iterates over one unordered map only, to list the running applications;
  nothing is proved about the order of that list.
\<close>

section \<open>The contracts\<close>

locale map_store =
  fixes emp :: "'m"
    and get :: "'m \<Rightarrow> 'k \<Rightarrow> 'v option"
    and ins :: "'k \<Rightarrow> 'v \<Rightarrow> 'm \<Rightarrow> 'm"
    and del :: "'k \<Rightarrow> 'm \<Rightarrow> 'm"
    and keys :: "'m \<Rightarrow> 'k list"
    and ok :: "'m \<Rightarrow> bool"
  assumes ok_emp: "ok emp"
    and ok_ins: "ok m \<Longrightarrow> ok (ins k v m)"
    and ok_del: "ok m \<Longrightarrow> ok (del k m)"
    and get_emp: "get emp = Map.empty"
    and get_ins: "ok m \<Longrightarrow> get (ins k v m) = (get m)(k \<mapsto> v)"
    and get_del: "ok m \<Longrightarrow> get (del k m) = (get m)(k := None)"
    and keys_get: "ok m \<Longrightarrow> set (keys m) = dom (get m)"
begin

lemma get_ins_other: "ok m \<Longrightarrow> k' \<noteq> k \<Longrightarrow> get (ins k v m) k' = get m k'"
  by (simp add: get_ins)

lemma get_del_other: "ok m \<Longrightarrow> k' \<noteq> k \<Longrightarrow> get (del k m) k' = get m k'"
  by (simp add: get_del)

lemma keys_ins: "ok m \<Longrightarrow> set (keys (ins k v m)) = insert k (set (keys m))"
  by (simp add: keys_get ok_ins get_ins)

lemma keys_del: "ok m \<Longrightarrow> set (keys (del k m)) = set (keys m) - {k}"
  by (simp add: keys_get ok_del get_del)

lemma ok_fold: "ok m \<Longrightarrow> ok (fold (\<lambda>p. ins (fst p) (snd p)) ps m)"
  by (induction ps arbitrary: m) (auto intro: ok_ins)

text \<open>Filling a map from a list of pairs: the last value of a key wins.\<close>

lemma get_fold: "ok m \<Longrightarrow> get (fold (\<lambda>p. ins (fst p) (snd p)) ps m) = get m ++ map_of (rev ps)"
proof (induction ps arbitrary: m)
  case Nil
  then show ?case by simp
next
  case (Cons p ps)
  then show ?case
    by (cases p) (simp add: ok_ins get_ins map_add_def fun_eq_iff split: option.split)
qed

end

locale ordered_store = map_store emp get ins del keys ok
  for emp :: "'m" and get :: "'m \<Rightarrow> 'k :: linorder \<Rightarrow> 'v option" and ins and del
    and keys :: "'m \<Rightarrow> 'k list" and ok +
  assumes keys_sorted: "ok m \<Longrightarrow> sorted_wrt (<) (keys m)"
begin

lemma keys_distinct: "ok m \<Longrightarrow> distinct (keys m)"
  using keys_sorted strict_sorted_iff by blast

lemma length_keys: "ok m \<Longrightarrow> length (keys m) = card (dom (get m))"
  by (metis distinct_card keys_distinct keys_get)

end

section \<open>Association lists in key order\<close>

fun om_ins :: "'k :: linorder \<Rightarrow> 'v \<Rightarrow> ('k \<times> 'v) list \<Rightarrow> ('k \<times> 'v) list" where
  "om_ins k v [] = [(k, v)]"
| "om_ins k v ((k', v') # m) =
     (if k < k' then (k, v) # (k', v') # m
      else if k = k' then (k, v) # m
      else (k', v') # om_ins k v m)"

definition om_get :: "('k \<times> 'v) list \<Rightarrow> 'k \<Rightarrow> 'v option" where
  "om_get m k = map_of m k"

definition om_del :: "'k \<Rightarrow> ('k \<times> 'v) list \<Rightarrow> ('k \<times> 'v) list" where
  "om_del k m = filter (\<lambda>p. fst p \<noteq> k) m"

definition om_keys :: "('k \<times> 'v) list \<Rightarrow> 'k list" where
  "om_keys m = map fst m"

definition om_ok :: "('k :: linorder \<times> 'v) list \<Rightarrow> bool" where
  "om_ok m = sorted_wrt (<) (map fst m)"

lemma set_om_ins: "set (map fst (om_ins k v m)) = insert k (fst ` set m)"
  by (induction k v m rule: om_ins.induct) auto

lemma om_ok_ins: "om_ok m \<Longrightarrow> om_ok (om_ins k v m)"
proof (induction k v m rule: om_ins.induct)
  case (2 k v k' v' m)
  then show ?case
    using set_om_ins [of k v m] by (auto simp: om_ok_def)
qed (simp add: om_ok_def)

lemma om_get_ins_eq: "om_get (om_ins k v m) = (om_get m)(k \<mapsto> v)"
  by (induction k v m rule: om_ins.induct) (auto simp: om_get_def fun_eq_iff)

lemma om_get_del_eq: "om_get (om_del k m) = (om_get m)(k := None)"
  by (induction m) (auto simp: om_get_def om_del_def fun_eq_iff)

lemma om_ok_del: "om_ok m \<Longrightarrow> om_ok (om_del k m)"
  by (induction m) (auto simp: om_ok_def om_del_def)

interpretation om: ordered_store "[]" om_get om_ins om_del om_keys om_ok
proof unfold_locales
  show "om_ok []" by (simp add: om_ok_def)
  show "om_get [] = Map.empty" by (simp add: om_get_def fun_eq_iff)
  fix m :: "('a \<times> 'b) list" and k v
  assume ok: "om_ok m"
  show "om_ok (om_ins k v m)" by (rule om_ok_ins [OF ok])
  show "om_ok (om_del k m)" by (rule om_ok_del [OF ok])
  show "om_get (om_ins k v m) = (om_get m)(k \<mapsto> v)" by (rule om_get_ins_eq)
  show "om_get (om_del k m) = (om_get m)(k := None)" by (rule om_get_del_eq)
  have "om_get m = map_of m" by (simp add: om_get_def fun_eq_iff)
  then show "set (om_keys m) = dom (om_get m)"
    by (simp add: om_keys_def dom_map_of_conv_image_fst)
  show "sorted_wrt (<) (om_keys m)" using ok by (simp add: om_ok_def om_keys_def)
qed

lemma om_get_ins [simp]: "om_get (om_ins k v m) k' = (if k' = k then Some v else om_get m k')"
  by (simp add: om_get_ins_eq)

lemma om_get_del [simp]: "om_get (om_del k m) k' = (if k' = k then None else om_get m k')"
  by (simp add: om_get_del_eq)

lemma om_get_Nil [simp]: "om_get [] k = None"
  by (simp add: om_get_def)

lemma om_del_absent: "om_get m k = None \<Longrightarrow> om_del k m = m"
  by (auto simp: om_get_def om_del_def map_of_eq_None_iff image_iff intro!: filter_True)

end
