(* ===== verification/Utils.thy ===== *)
theory Utils
  imports CppStrings
begin

text \<open>
  The helpers of \<open>application_manager/utils.cpp\<close>: DVB triplets, the parser of application
  locators, comparison of URLs, the origin of a URL (a hand-written scanner in the code), the
  application boundary check and the merging of URL parameters. \<open>Utils::Timeout\<close> has a theory
  of its own.
\<close>

section \<open>DVB triplets\<close>

definition INVALID_ID :: u16 where
  "INVALID_ID = 0xFFFF"

record dvb_triplet =
  originalNetworkId :: u16
  transportStreamId :: u16
  serviceId :: u16

definition MakeInvalidDvbTriplet :: dvb_triplet where
  "MakeInvalidDvbTriplet =
     \<lparr>originalNetworkId = INVALID_ID, transportStreamId = INVALID_ID, serviceId = INVALID_ID\<rparr>"

definition IsInvalidDvbTriplet :: "dvb_triplet \<Rightarrow> bool" where
  "IsInvalidDvbTriplet t =
     (originalNetworkId t = INVALID_ID \<or> transportStreamId t = INVALID_ID \<or> serviceId t = INVALID_ID)"

lemma invalid_triplet [simp]: "IsInvalidDvbTriplet MakeInvalidDvbTriplet"
  by (simp add: IsInvalidDvbTriplet_def MakeInvalidDvbTriplet_def)

section \<open>Application locators\<close>

datatype create_locator_type =
    UNKNOWN_LOCATOR
  | AIT_APPLICATION_LOCATOR
  | ENTRY_PAGE_OR_XML_AIT_LOCATOR

record create_locator_info =
  loc_type :: create_locator_type
  loc_orgId :: u32
  loc_appId :: u16
  loc_parameters :: string

text \<open>
  Whether the AIT filter, the text between \<open>dvb://\<close> and \<open>.ait/\<close>, names the current service. The
  conjunction is evaluated from the left, and the first \<open>stoul\<close> that throws makes it false.
\<close>

definition ait_filter_is_current :: "string \<Rightarrow> dvb_triplet \<Rightarrow> bool" where
  "ait_filter_is_current sub currentService =
     (if sub = ''current'' then True
      else if IsInvalidDvbTriplet currentService then False
      else (case str_find sub ''.'' 0 of
              None \<Rightarrow> False
            | Some pos \<Rightarrow>
                (case str_find sub ''.'' (pos + 1) of
                   None \<Rightarrow> False
                 | Some pos2 \<Rightarrow>
                     (let original_network_id = substr sub 0 pos;
                          transport_stream_id = substr sub (pos + 1) (pos2 - (pos + 1));
                          service_id = drop (pos2 + 1) sub
                      in (case stoul16 original_network_id of
                            None \<Rightarrow> False
                          | Some onid \<Rightarrow>
                              if onid \<noteq> unat (originalNetworkId currentService) then False
                              else (case (if transport_stream_id = [] then Some (unat (transportStreamId currentService))
                                          else stoul16 transport_stream_id) of
                                      None \<Rightarrow> False
                                    | Some tsid \<Rightarrow>
                                        if tsid \<noteq> unat (transportStreamId currentService) then False
                                        else (case stoul16 service_id of
                                                None \<Rightarrow> False
                                              | Some sid \<Rightarrow> sid = unat (serviceId currentService))))))))"

text \<open>The part after \<open>.ait/\<close>: \<open>org_id "." app_id\<close> in hexadecimal, then a query or a fragment.\<close>

definition parse_ait_app_parts :: "string \<Rightarrow> create_locator_info \<Rightarrow> create_locator_info" where
  "parse_ait_app_parts urlParameters info =
     (let pos = (case str_find urlParameters ''?'' 0 of
                   None \<Rightarrow> str_find urlParameters ''#'' 0
                 | Some p \<Rightarrow> Some p);
          params = (case pos of None \<Rightarrow> [] | Some p \<Rightarrow> drop p urlParameters);
          path = upto_find urlParameters pos;
          info = info\<lparr>loc_parameters := params\<rparr>
      in (case str_find path ''.'' 0 of
            None \<Rightarrow> info
          | Some dot \<Rightarrow>
              (case stoul16 (substr path 0 dot) of
                 None \<Rightarrow> info\<lparr>loc_orgId := 0, loc_appId := 0, loc_type := UNKNOWN_LOCATOR\<rparr>
               | Some org \<Rightarrow>
                   (case stoul16 (drop (dot + 1) path) of
                      None \<Rightarrow> info\<lparr>loc_orgId := 0, loc_appId := 0, loc_type := UNKNOWN_LOCATOR\<rparr>
                    | Some app \<Rightarrow>
                        info\<lparr>loc_orgId := of_nat org, loc_appId := of_nat app,
                             loc_type := AIT_APPLICATION_LOCATOR\<rparr>))))"

definition ParseCreateLocatorInfo :: "string \<Rightarrow> dvb_triplet \<Rightarrow> create_locator_info" where
  "ParseCreateLocatorInfo url currentService =
     (let info = \<lparr>loc_type = UNKNOWN_LOCATOR, loc_orgId = 0, loc_appId = 0, loc_parameters = url\<rparr>
      in if substr url 0 6 = ''dvb://'' then
           (case str_find url ''.ait/'' 0 of
              None \<Rightarrow> info
            | Some pos \<Rightarrow>
                if ait_filter_is_current (substr url 6 (pos - 6)) currentService
                then parse_ait_app_parts (drop (pos + 5) url) info
                else info)
         else if substr url 0 7 = ''http://'' \<or> substr url 0 8 = ''https://'' then
           info\<lparr>loc_type := ENTRY_PAGE_OR_XML_AIT_LOCATOR\<rparr>
         else info)"

text \<open>
  The subtraction \<open>pos - 6\<close> on \<open>size_t\<close> does not wrap: the dot of \<open>.ait/\<close> cannot lie inside
  \<open>dvb://\<close>.
\<close>

lemma ait_pos_ge_6:
  assumes u: "substr url 0 6 = ''dvb://''" and f: "str_find url ''.ait/'' 0 = Some pos"
  shows "6 \<le> pos"
proof -
  obtain rest where r: "url = ''dvb://'' @ rest"
    by (metis append_take_drop_id drop_0 substr_def u)
  from f have "find_at ''.ait/'' (''dvb://'' @ rest) 0 = Some pos"
    by (simp add: str_find_def r)
  then have "find_at ''.ait/'' rest (Suc (Suc (Suc (Suc (Suc (Suc 0)))))) = Some pos"
    by simp
  from find_at_bounds [OF this] show ?thesis
    by simp
qed

section \<open>Comparing URLs\<close>

definition url_trailers :: string where
  "url_trailers = '' '' @ map char_of [9 :: nat, 10, 13, 12, 11] @ ''/''"

definition CompareUrls :: "string \<Rightarrow> string \<Rightarrow> bool" where
  "CompareUrls url1 url2 =
     (let str1 = erase_trailing url1 url_trailers;
          len1 = of_nat (length str1) :: u32;
          str2 = erase_trailing url2 url_trailers;
          len2 = of_nat (length str2) :: u32
      in if str1 \<noteq> [] \<and> str2 \<noteq> [] then len1 = len2 \<and> str1 = str2 else False)"

definition IsPartOf :: "string \<Rightarrow> string \<Rightarrow> bool" where
  "IsPartOf documentUrl appBaseUrl =
     (let str1 = erase_trailing documentUrl url_trailers;
          str2 = erase_trailing appBaseUrl url_trailers
      in if str1 \<noteq> [] \<and> str2 \<noteq> [] then substr str1 0 (length str2) = str2 else False)"

lemma CompareUrls_iff:
  "CompareUrls u v \<longleftrightarrow>
     erase_trailing u url_trailers \<noteq> [] \<and> erase_trailing u url_trailers = erase_trailing v url_trailers"
  by (auto simp: CompareUrls_def Let_def)

lemma CompareUrls_sym: "CompareUrls u v = CompareUrls v u"
  by (auto simp: CompareUrls_iff)

lemma CompareUrls_trans: "CompareUrls u v \<Longrightarrow> CompareUrls v w \<Longrightarrow> CompareUrls u w"
  by (auto simp: CompareUrls_iff)

lemma CompareUrls_IsPartOf: "CompareUrls u v \<Longrightarrow> IsPartOf u v"
  by (auto simp: CompareUrls_iff IsPartOf_def substr_def Let_def)

section \<open>The origin of a URL\<close>

text \<open>
  The scanner of \<open>StrGetUrlOrigin\<close>: its state (0 scheme, 1 \<open>://\<close>, 2 domain, 3 port, 4 end,
  5 error), the number of characters consumed, and the two six-byte arrays, kept as the characters
  written to them so far (the index of an array is the length of its list).
\<close>

record origin_scan =
  scan_state :: nat
  count_chars :: nat
  port_str :: string
  scheme_str :: string

definition origin_init :: origin_scan where
  "origin_init = \<lparr>scan_state = 0, count_chars = 0, port_str = [], scheme_str = []\<rparr>"

definition origin_step :: "string \<Rightarrow> origin_scan \<Rightarrow> origin_scan" where
  "origin_step url s =
     (let n = count_chars s; c = url ! n in
      if scan_state s = 0 then
        (if c = CHR '':'' then s\<lparr>scan_state := 1, count_chars := n + 1\<rparr>
         else if length (scheme_str s) < 6 then s\<lparr>scheme_str := scheme_str s @ [c], count_chars := n + 1\<rparr>
         else s\<lparr>scan_state := 5, count_chars := n + 1\<rparr>)
      else if scan_state s = 1 then
        (if substr url n 2 = ''//'' then s\<lparr>scan_state := 2, count_chars := n + 2\<rparr>
         else s\<lparr>scan_state := 5\<rparr>)
      else if scan_state s = 2 then
        (if c = CHR '':'' then s\<lparr>scan_state := 3, count_chars := n + 1\<rparr>
         else if c = CHR ''/'' then s\<lparr>scan_state := 4\<rparr>
         else s\<lparr>count_chars := n + 1\<rparr>)
      else
        (if c = CHR ''/'' then s\<lparr>scan_state := 4\<rparr>
         else if length (port_str s) > 5 then s\<lparr>scan_state := 5\<rparr>
         else s\<lparr>port_str := port_str s @ [c], count_chars := n + 1\<rparr>))"

function origin_loop :: "string \<Rightarrow> origin_scan \<Rightarrow> origin_scan" where
  "origin_loop url s =
     (if count_chars s < length url \<and> scan_state s < 4 then origin_loop url (origin_step url s) else s)"
  by pat_completeness auto
termination
  by (relation "measure (\<lambda>(url, s). 2 * (length url - count_chars s) + (if scan_state s < 4 then 1 else 0))")
     (auto simp: origin_step_def Let_def)

declare origin_loop.simps [simp del]

definition StrGetUrlOrigin :: "string \<Rightarrow> string" where
  "StrGetUrlOrigin url =
     (let s = origin_loop url origin_init;
          port = (if port_str s = [] then (if take 5 (scheme_str s) = ''https'' then ''443'' else ''80'')
                  else port_str s)
      in if 0 < count_chars s \<and> count_chars s \<le> length url \<and> scan_state s \<noteq> 5
         then take (count_chars s) url @ (if port_str s = [] then '':'' @ port else [])
         else [])"

text \<open>How the scanner walks over a scheme, a host and a port that hold none of its delimiters.\<close>

lemma origin_loop_done: "4 \<le> scan_state s \<or> length url \<le> count_chars s \<Longrightarrow> origin_loop url s = s"
  by (subst origin_loop.simps) auto

lemma origin_scheme:
  assumes "CHR '':'' \<notin> set cs" and "length sch + length cs \<le> 6"
  shows "origin_loop (pre @ cs @ rest)
           \<lparr>scan_state = 0, count_chars = length pre, port_str = p, scheme_str = sch\<rparr>
       = origin_loop (pre @ cs @ rest)
           \<lparr>scan_state = 0, count_chars = length pre + length cs, port_str = p, scheme_str = sch @ cs\<rparr>"
  using assms
proof (induction cs arbitrary: pre sch)
  case Nil
  then show ?case by simp
next
  case (Cons c cs)
  have "origin_loop (pre @ (c # cs) @ rest)
          \<lparr>scan_state = 0, count_chars = length pre, port_str = p, scheme_str = sch\<rparr>
      = origin_loop ((pre @ [c]) @ cs @ rest)
          \<lparr>scan_state = 0, count_chars = length (pre @ [c]), port_str = p, scheme_str = sch @ [c]\<rparr>"
    using Cons.prems by (subst origin_loop.simps) (auto simp: origin_step_def Let_def)
  with Cons.prems Cons.IH [of "sch @ [c]" "pre @ [c]"] show ?case
    by simp
qed

lemma origin_host:
  assumes "CHR '':'' \<notin> set cs" and "CHR ''/'' \<notin> set cs"
  shows "origin_loop (pre @ cs @ rest)
           \<lparr>scan_state = 2, count_chars = length pre, port_str = p, scheme_str = sch\<rparr>
       = origin_loop (pre @ cs @ rest)
           \<lparr>scan_state = 2, count_chars = length pre + length cs, port_str = p, scheme_str = sch\<rparr>"
  using assms
proof (induction cs arbitrary: pre)
  case Nil
  then show ?case by simp
next
  case (Cons c cs)
  have "origin_loop (pre @ (c # cs) @ rest)
          \<lparr>scan_state = 2, count_chars = length pre, port_str = p, scheme_str = sch\<rparr>
      = origin_loop ((pre @ [c]) @ cs @ rest)
          \<lparr>scan_state = 2, count_chars = length (pre @ [c]), port_str = p, scheme_str = sch\<rparr>"
    using Cons.prems by (subst origin_loop.simps) (auto simp: origin_step_def Let_def)
  with Cons.prems Cons.IH [of "pre @ [c]"] show ?case
    by simp
qed

lemma origin_port:
  assumes "CHR ''/'' \<notin> set cs" and "length p + length cs \<le> 6"
  shows "origin_loop (pre @ cs @ rest)
           \<lparr>scan_state = 3, count_chars = length pre, port_str = p, scheme_str = sch\<rparr>
       = origin_loop (pre @ cs @ rest)
           \<lparr>scan_state = 3, count_chars = length pre + length cs, port_str = p @ cs, scheme_str = sch\<rparr>"
  using assms
proof (induction cs arbitrary: pre p)
  case Nil
  then show ?case by simp
next
  case (Cons c cs)
  have "origin_loop (pre @ (c # cs) @ rest)
          \<lparr>scan_state = 3, count_chars = length pre, port_str = p, scheme_str = sch\<rparr>
      = origin_loop ((pre @ [c]) @ cs @ rest)
          \<lparr>scan_state = 3, count_chars = length (pre @ [c]), port_str = p @ [c], scheme_str = sch\<rparr>"
    using Cons.prems by (subst origin_loop.simps) (auto simp: origin_step_def Let_def)
  with Cons.prems Cons.IH [of "p @ [c]" "pre @ [c]"] show ?case
    by simp
qed

text \<open>A path is empty or starts with a slash; the scanner stops there.\<close>

definition is_path :: "string \<Rightarrow> bool" where
  "is_path p = (case p of [] \<Rightarrow> True | c # _ \<Rightarrow> c = CHR ''/'')"

lemma origin_at_path:
  assumes "is_path rest" and "st = 2 \<or> st = 3"
  shows "\<exists>st'. st' \<noteq> 5 \<and> origin_loop (pre @ rest)
           \<lparr>scan_state = st, count_chars = length pre, port_str = p, scheme_str = sch\<rparr>
       = \<lparr>scan_state = st', count_chars = length pre, port_str = p, scheme_str = sch\<rparr>"
proof (cases rest)
  case Nil
  then show ?thesis
    using assms(2) by (auto simp: origin_loop_done)
next
  case (Cons c cs)
  with assms(1) have "c = CHR ''/''" by (simp add: is_path_def)
  with Cons assms(2) show ?thesis
    by (subst origin_loop.simps) (auto simp: origin_step_def Let_def origin_loop_done)
qed

lemma origin_after_scheme:
  assumes "CHR '':'' \<notin> set sch" and "length sch \<le> 6"
  shows "origin_loop (sch @ ''://'' @ rest) origin_init =
         origin_loop (sch @ ''://'' @ rest)
           \<lparr>scan_state = 2, count_chars = length (sch @ ''://''), port_str = [], scheme_str = sch\<rparr>"
proof -
  let ?u = "sch @ ''://'' @ rest"
  have "origin_loop ?u origin_init = origin_loop ?u
          \<lparr>scan_state = 0, count_chars = length sch, port_str = [], scheme_str = sch\<rparr>"
    using origin_scheme [of sch "[]" "[]" "''://'' @ rest" "[]"] assms by (simp add: origin_init_def)
  also have "\<dots> = origin_loop ?u
          \<lparr>scan_state = 1, count_chars = length sch + 1, port_str = [], scheme_str = sch\<rparr>"
    by (subst origin_loop.simps) (simp add: origin_step_def Let_def nth_append)
  also have "\<dots> = origin_loop ?u
          \<lparr>scan_state = 2, count_chars = length (sch @ ''://''), port_str = [], scheme_str = sch\<rparr>"
    by (subst origin_loop.simps) (simp add: origin_step_def Let_def substr_def)
  finally show ?thesis .
qed

definition default_port :: "string \<Rightarrow> string" where
  "default_port sch = (if take 5 sch = ''https'' then '':443'' else '':80'')"

lemma origin_default_port:
  assumes "CHR '':'' \<notin> set sch" and "length sch \<le> 6"
    and "CHR '':'' \<notin> set host" and "CHR ''/'' \<notin> set host" and "is_path path"
  shows "StrGetUrlOrigin (sch @ ''://'' @ host @ path) = sch @ ''://'' @ host @ default_port sch"
proof -
  let ?u = "sch @ ''://'' @ host @ path"
  have "origin_loop ?u origin_init = origin_loop ?u
          \<lparr>scan_state = 2, count_chars = length (sch @ ''://''), port_str = [], scheme_str = sch\<rparr>"
    using origin_after_scheme [of sch "host @ path"] assms(1,2) by simp
  also have "\<dots> = origin_loop ?u
          \<lparr>scan_state = 2, count_chars = length (sch @ ''://'' @ host), port_str = [], scheme_str = sch\<rparr>"
    using origin_host [of host "sch @ ''://''" path "[]" sch] assms(3,4) by simp
  finally obtain st' where "st' \<noteq> 5" and "origin_loop ?u origin_init =
          \<lparr>scan_state = st', count_chars = length (sch @ ''://'' @ host), port_str = [], scheme_str = sch\<rparr>"
    using origin_at_path [of path 2 "sch @ ''://'' @ host" "[]" sch] assms(5) by auto
  then show ?thesis
    by (simp add: StrGetUrlOrigin_def Let_def default_port_def numeral_3_eq_3)
qed

lemma origin_explicit_port:
  assumes "CHR '':'' \<notin> set sch" and "length sch \<le> 6"
    and "CHR '':'' \<notin> set host" and "CHR ''/'' \<notin> set host" and "is_path path"
    and "CHR ''/'' \<notin> set port" and "port \<noteq> []" and "length port \<le> 6"
  shows "StrGetUrlOrigin (sch @ ''://'' @ host @ '':'' @ port @ path) = sch @ ''://'' @ host @ '':'' @ port"
proof -
  let ?u = "sch @ ''://'' @ host @ '':'' @ port @ path"
  have "origin_loop ?u origin_init = origin_loop ?u
          \<lparr>scan_state = 2, count_chars = length (sch @ ''://''), port_str = [], scheme_str = sch\<rparr>"
    using origin_after_scheme [of sch "host @ '':'' @ port @ path"] assms(1,2) by simp
  also have "\<dots> = origin_loop ?u
          \<lparr>scan_state = 2, count_chars = length (sch @ ''://'' @ host), port_str = [], scheme_str = sch\<rparr>"
    using origin_host [of host "sch @ ''://''" "'':'' @ port @ path" "[]" sch] assms(3,4) by simp
  also have "\<dots> = origin_loop ?u
          \<lparr>scan_state = 3, count_chars = length (sch @ ''://'' @ host @ '':''), port_str = [], scheme_str = sch\<rparr>"
    by (subst origin_loop.simps) (simp add: origin_step_def Let_def nth_append)
  also have "\<dots> = origin_loop ?u
          \<lparr>scan_state = 3, count_chars = length (sch @ ''://'' @ host @ '':'' @ port), port_str = port, scheme_str = sch\<rparr>"
    using origin_port [of port "[]" "sch @ ''://'' @ host @ '':''" path sch] assms(6,8)
    by (simp add: add.assoc)
  finally obtain st' where "st' \<noteq> 5" and "origin_loop ?u origin_init =
          \<lparr>scan_state = st', count_chars = length (sch @ ''://'' @ host @ '':'' @ port), port_str = port, scheme_str = sch\<rparr>"
    using origin_at_path [of path 3 "sch @ ''://'' @ host @ '':'' @ port" port sch] assms(5) by auto
  then show ?thesis
    using assms(7) by (simp add: StrGetUrlOrigin_def Let_def eval_nat_numeral)
qed

fun check_boundary_list :: "string \<Rightarrow> string list \<Rightarrow> bool" where
  "check_boundary_list origin1 [] = False"
| "check_boundary_list origin1 (b # bs) =
     (if CompareUrls origin1 (StrGetUrlOrigin b) then True else check_boundary_list origin1 bs)"

definition CheckBoundaries :: "string \<Rightarrow> string \<Rightarrow> string list \<Rightarrow> bool" where
  "CheckBoundaries url appUri appBoundaries =
     (let origin1 = StrGetUrlOrigin url;
          origin2 = StrGetUrlOrigin appUri;
          retval = CompareUrls origin1 origin2
      in if \<not> retval then check_boundary_list origin1 appBoundaries else retval)"

lemma check_boundary_list_iff:
  "check_boundary_list o1 bs \<longleftrightarrow> (\<exists>b \<in> set bs. CompareUrls o1 (StrGetUrlOrigin b))"
  by (induction bs) auto

lemma CheckBoundaries_iff:
  "CheckBoundaries url app bs \<longleftrightarrow>
     (\<exists>b \<in> set (app # bs). CompareUrls (StrGetUrlOrigin url) (StrGetUrlOrigin b))"
  by (simp add: CheckBoundaries_def Let_def check_boundary_list_iff)

section \<open>URL parameters\<close>

definition MergeUrlParams :: "string \<Rightarrow> string \<Rightarrow> string \<Rightarrow> string" where
  "MergeUrlParams base locn params =
     (let path = upto_find locn (str_find locn ''#'' 0);
          result = base @ path
      in if str_contains path ''?'' then result @ str_replace (CHR ''?'') (CHR ''&'') params
         else result @ params)"

section \<open>URLs by their parts\<close>

record url_parts =
  up_scheme :: string
  up_host :: string
  up_port :: "string option"
  up_path :: string

definition url_text :: "url_parts \<Rightarrow> string" where
  "url_text u = up_scheme u @ ''://'' @ up_host u
     @ (case up_port u of None \<Rightarrow> [] | Some p \<Rightarrow> '':'' @ p) @ up_path u"

definition is_port :: "string \<Rightarrow> bool" where
  "is_port p \<longleftrightarrow> p \<noteq> [] \<and> length p \<le> 5 \<and> list_all (\<lambda>c. c \<in> set ''0123456789'') p \<and> hd p \<noteq> CHR ''0''"

text \<open>The characters of a host name as it is written in an origin: letters are in lower case.\<close>

definition is_host_char :: "char \<Rightarrow> bool" where
  "is_host_char c \<longleftrightarrow> c \<in> set ''abcdefghijklmnopqrstuvwxyz0123456789-.''"

definition url_ok :: "url_parts \<Rightarrow> bool" where
  "url_ok u \<longleftrightarrow> (up_scheme u = ''http'' \<or> up_scheme u = ''https'')
     \<and> up_host u \<noteq> [] \<and> list_all is_host_char (up_host u)
     \<and> (case up_port u of None \<Rightarrow> True | Some p \<Rightarrow> is_port p) \<and> is_path (up_path u)"

lemma no_host_char: "\<not> is_host_char CHR '':''" "\<not> is_host_char CHR ''/''"
  by (simp_all add: is_host_char_def)

lemma url_ok_host: "url_ok u \<Longrightarrow> CHR '':'' \<notin> set (up_host u) \<and> CHR ''/'' \<notin> set (up_host u)"
  using no_host_char unfolding url_ok_def list_all_iff by blast

text \<open>The origin of RFC 6454: scheme, host and port, with the default port of the scheme.\<close>

definition origin_of :: "url_parts \<Rightarrow> string \<times> string \<times> string" where
  "origin_of u = (up_scheme u, up_host u,
     case up_port u of None \<Rightarrow> (if up_scheme u = ''https'' then ''443'' else ''80'') | Some p \<Rightarrow> p)"

definition origin_text :: "string \<times> string \<times> string \<Rightarrow> string" where
  "origin_text t = (case t of (sch, host, port) \<Rightarrow> sch @ ''://'' @ host @ '':'' @ port)"

lemma StrGetUrlOrigin_parts:
  assumes "url_ok u"
  shows "StrGetUrlOrigin (url_text u) = origin_text (origin_of u)"
proof -
  have sch: "CHR '':'' \<notin> set (up_scheme u)" "length (up_scheme u) \<le> 6"
      "default_port (up_scheme u) = (if up_scheme u = ''https'' then '':443'' else '':80'')"
    using assms by (auto simp: url_ok_def default_port_def)
  have host: "CHR '':'' \<notin> set (up_host u)" "CHR ''/'' \<notin> set (up_host u)" "is_path (up_path u)"
    using assms url_ok_host [OF assms] by (auto simp: url_ok_def)
  show ?thesis
  proof (cases "up_port u")
    case None
    with origin_default_port [OF sch(1,2) host] sch(3) show ?thesis
      by (simp add: url_text_def origin_of_def origin_text_def)
  next
    case (Some p)
    with assms have "CHR ''/'' \<notin> set p" "p \<noteq> []" "length p \<le> 6"
      by (auto simp: url_ok_def is_port_def list_all_iff)
    from origin_explicit_port [OF sch(1,2) host this] Some show ?thesis
      by (simp add: url_text_def origin_of_def origin_text_def)
  qed
qed

lemma split_first:
  "c \<notin> set xs \<Longrightarrow> c \<notin> set xs' \<Longrightarrow> xs @ c # ys = xs' @ c # ys' \<longleftrightarrow> xs = xs' \<and> ys = ys'"
proof (induction xs arbitrary: xs')
  case Nil
  then show ?case by (cases xs') auto
next
  case (Cons x xs)
  then show ?case by (cases xs') auto
qed

lemma origin_of_ok:
  assumes "url_ok u" and "origin_of u = (s, h, p)"
  shows "CHR '':'' \<notin> set s" and "CHR '':'' \<notin> set h" and "is_port p"
proof -
  have port: "is_port ''443''" "is_port ''80''" by (simp_all add: is_port_def)
  have sh: "s = up_scheme u" "h = up_host u" using assms(2) by (simp_all add: origin_of_def)
  show "CHR '':'' \<notin> set s" using assms(1) by (auto simp: url_ok_def sh)
  show "CHR '':'' \<notin> set h" using url_ok_host [OF assms(1)] by (simp add: sh)
  have p: "p = (case up_port u of None \<Rightarrow> (if up_scheme u = ''https'' then ''443'' else ''80'') | Some q \<Rightarrow> q)"
    using assms(2) by (simp add: origin_of_def)
  show "is_port p"
  proof (cases "up_port u")
    case None
    with port show ?thesis unfolding p by simp
  next
    case (Some q)
    with assms(1) show ?thesis unfolding p url_ok_def by simp
  qed
qed

lemma origin_text_inj:
  assumes "url_ok u" and "url_ok v"
  shows "origin_text (origin_of u) = origin_text (origin_of v) \<longleftrightarrow> origin_of u = origin_of v"
proof -
  obtain s h p s' h' p' where o: "origin_of u = (s, h, p)" "origin_of v = (s', h', p')"
    by (meson prod_cases3)
  have "origin_text (a, b, c) = a @ CHR '':'' # CHR ''/'' # CHR ''/'' # b @ CHR '':'' # c" for a b c
    by (simp add: origin_text_def)
  with origin_of_ok [OF assms(1) o(1)] origin_of_ok [OF assms(2) o(2)] show ?thesis
    unfolding o by (simp add: split_first)
qed

lemma digits_keep: "is_port p \<Longrightarrow> p \<noteq> [] \<and> last p \<notin> set url_trailers"
proof -
  assume p: "is_port p"
  have "list_all (\<lambda>c. c \<notin> set url_trailers) ''0123456789''" by code_simp
  then have "\<forall>c \<in> set ''0123456789''. c \<notin> set url_trailers" by (simp only: list_all_iff)
  moreover have "p \<noteq> []" "last p \<in> set ''0123456789''"
    using p unfolding is_port_def list_all_iff by (blast dest: last_in_set)+
  ultimately show ?thesis by blast
qed

lemma origin_text_keeps:
  assumes "url_ok u"
  shows "erase_trailing (origin_text (origin_of u)) url_trailers = origin_text (origin_of u)"
    and "origin_text (origin_of u) \<noteq> []"
proof -
  obtain s h p where o: "origin_of u = (s, h, p)" by (meson prod_cases3)
  note p = digits_keep [OF origin_of_ok(3) [OF assms o]]
  then have "last (origin_text (s, h, p)) = last p" by (simp add: origin_text_def)
  with p show "erase_trailing (origin_text (origin_of u)) url_trailers = origin_text (origin_of u)"
    unfolding o by (intro erase_trailing_id) simp
  show "origin_text (origin_of u) \<noteq> []" unfolding o by (simp add: origin_text_def)
qed

text \<open>
  C22. On addresses of the web the boundary check is the same-origin check of RFC 6454: for http and https addresses with a
  host in lower case, an optional port without leading zeros and a path that is empty or starts with a slash, a page lies within
  the boundaries of an application exactly when its scheme, host and port, the default port filled in, are those of the
  application or of one of the boundaries. Outside these addresses the code departs from the RFC (\<open>origin_of_query\<close>,
  \<open>origin_case\<close>).
\<close>

theorem boundaries_same_origin:
  assumes "url_ok u" and "url_ok app" and "\<forall>b \<in> set bs. url_ok b"
  shows "CheckBoundaries (url_text u) (url_text app) (map url_text bs) \<longleftrightarrow> origin_of u \<in> origin_of ` set (app # bs)"
proof -
  have "CompareUrls (StrGetUrlOrigin (url_text u)) (StrGetUrlOrigin (url_text b)) \<longleftrightarrow> origin_of u = origin_of b"
    if "url_ok b" for b
    using that assms(1)
    by (simp add: CompareUrls_iff StrGetUrlOrigin_parts origin_text_keeps origin_text_inj)
  with assms show ?thesis by (auto simp: CheckBoundaries_iff)
qed

theorem boundaries_same_origin_witness:
  "CheckBoundaries ''https://a.tv/x'' ''http://b.tv'' [''https://a.tv:443'']
   \<and> \<not> CheckBoundaries ''https://a.tv/x'' ''http://b.tv'' [''http://a.tv:443'']"
proof -
  let ?u = "\<lparr>up_scheme = ''https'', up_host = ''a.tv'', up_port = None, up_path = ''/x''\<rparr>"
  let ?a = "\<lparr>up_scheme = ''http'', up_host = ''b.tv'', up_port = None, up_path = []\<rparr>"
  let ?b = "\<lparr>up_scheme = ''https'', up_host = ''a.tv'', up_port = Some ''443'', up_path = []\<rparr>"
  let ?c = "\<lparr>up_scheme = ''http'', up_host = ''a.tv'', up_port = Some ''443'', up_path = []\<rparr>"
  have ok: "url_ok ?u" "url_ok ?a" "\<forall>b \<in> set [?b]. url_ok b" "\<forall>b \<in> set [?c]. url_ok b"
    by (simp_all add: url_ok_def is_port_def is_path_def is_host_char_def)
  show ?thesis
    using boundaries_same_origin [OF ok(1,2,3)] boundaries_same_origin [OF ok(1,2,4)]
    by (simp add: url_text_def origin_of_def)
qed

text \<open>A query right after the host becomes part of the host, and letters are compared as they are written, although the
  addresses have the same origin by RFC 6454.\<close>

lemma origin_of_query: "\<not> CheckBoundaries ''http://a.tv?x'' ''http://a.tv'' []"
  by code_simp

lemma origin_case: "\<not> CheckBoundaries ''http://A.tv/'' ''http://a.tv/'' []"
  by code_simp

text \<open>
  C23. An AIT locator is read back: \<open>dvb://current.ait/\<close> with an organisation and an application id
  printed in hexadecimal, and any parameters that start with \<open>?\<close>, gives these ids and parameters,
  whatever the current service.
\<close>

theorem locator_roundtrip:
  assumes "params = [] \<or> hd params = CHR ''?''" and "org < 2 ^ 32" and "app < 2 ^ 16"
  shows "ParseCreateLocatorInfo (''dvb://current.ait/'' @ to_hex org @ ''.'' @ to_hex app @ params) svc
       = \<lparr>loc_type = AIT_APPLICATION_LOCATOR, loc_orgId = of_nat org, loc_appId = of_nat app, loc_parameters = params\<rparr>"
proof -
  let ?p = "to_hex org @ CHR ''.'' # to_hex app"
  have hex: "\<forall>c \<in> set (to_hex n). is_hex c" for n using to_hex_is_hex by blast
  have c: "CHR ''?'' \<notin> set ?p" "CHR ''#'' \<notin> set ?p" "CHR ''.'' \<notin> set (to_hex org)"
    using hex is_hex_codes by fastforce+
  define u where "u = ?p @ params"
  define pos where "pos = (case str_find u ''?'' 0 of None \<Rightarrow> str_find u ''#'' 0 | Some p \<Rightarrow> Some p)"
  have pos: "upto_find u pos = ?p" "(case pos of None \<Rightarrow> [] | Some p \<Rightarrow> drop p u) = params"
  proof -
    show "upto_find u pos = ?p" "(case pos of None \<Rightarrow> [] | Some p \<Rightarrow> drop p u) = params"
      using assms(1) c str_find_char_None [of u "CHR ''?''"] str_find_char_None [of u "CHR ''#''"]
        str_find_char_app [OF c(1), of "tl params"]
      by (cases params; simp add: u_def pos_def upto_find_def)+
  qed
  have dot: "str_find ?p ''.'' 0 = Some (length (to_hex org))" by (rule str_find_char_app [OF c(3)])
  have "stoul16 (to_hex org) = Some org" "stoul16 (to_hex app) = Some app"
    using assms(2,3) by (simp_all add: stoul16_to_hex)
  then have parts: "parse_ait_app_parts u info =
      info\<lparr>loc_parameters := params, loc_orgId := of_nat org, loc_appId := of_nat app,
           loc_type := AIT_APPLICATION_LOCATOR\<rparr>" for info
    unfolding parse_ait_app_parts_def Let_def pos_def [symmetric] pos dot by (simp add: substr_def)
  have f: "str_find (''dvb://current.ait/'' @ u) ''.ait/'' 0 = Some 13" by (simp add: str_find_def)
  have "ParseCreateLocatorInfo (''dvb://current.ait/'' @ u) svc =
      \<lparr>loc_type = AIT_APPLICATION_LOCATOR, loc_orgId = of_nat org, loc_appId = of_nat app, loc_parameters = params\<rparr>"
    unfolding ParseCreateLocatorInfo_def Let_def f
    by (simp add: substr_def ait_filter_is_current_def parts)
  then show ?thesis by (simp add: u_def)
qed

theorem locator_roundtrip_witness:
  "ParseCreateLocatorInfo (''dvb://current.ait/'' @ to_hex 19 @ ''.'' @ to_hex 1 @ ''?x=1'') MakeInvalidDvbTriplet
   = \<lparr>loc_type = AIT_APPLICATION_LOCATOR, loc_orgId = 19, loc_appId = 1, loc_parameters = ''?x=1''\<rparr>"
  using locator_roundtrip [of "''?x=1''" 19 1 MakeInvalidDvbTriplet] by simp

end
