(* ===== verification/Timeout.thy ===== *)
theory Timeout
  imports Prelude
begin

text \<open>
  \<open>Utils::Timeout\<close>: a one-shot timer with a thread of its own that waits on a condition variable.
  The state keeps the fields of the class, whether the thread is still waiting, and which thread
  holds the mutex \<open>m_cvm\<close>, which is not recursive: locking it again from the thread that holds it is
  the fault \<^const>\<open>Deadlock\<close>, locking it while the other thread holds it is \<^const>\<open>Blocked\<close>.
  Times are in milliseconds; the clock is an argument.
\<close>

datatype thread_id = Caller | Timer

record timeout =
  to_stopped :: bool
  to_joinable :: bool
  to_waiting :: bool
  to_holder :: "thread_id option"
  to_start :: int
  to_timeout :: int

definition Timeout_new :: timeout where
  "Timeout_new = \<lparr>to_stopped = True, to_joinable = False, to_waiting = False, to_holder = None,
                  to_start = 0, to_timeout = 0\<rparr>"

definition cvm_lock :: "thread_id \<Rightarrow> timeout \<Rightarrow> timeout res" where
  "cvm_lock th t = (case to_holder t of
      None \<Rightarrow> Inr (t\<lparr>to_holder := Some th\<rparr>)
    | Some h \<Rightarrow> Inl (if h = th then Deadlock else Blocked))"

definition cvm_unlock :: "timeout \<Rightarrow> timeout" where
  "cvm_unlock t = t\<lparr>to_holder := None\<rparr>"

text \<open>
  \<open>stop()\<close> wakes the thread and joins it; called from the timer thread itself, the join can never
  return.
\<close>

definition Timeout_stop :: "thread_id \<Rightarrow> timeout \<Rightarrow> timeout res" where
  "Timeout_stop th t =
     (if to_joinable t then
        bindR (if \<not> to_stopped t
               then bindR (cvm_lock th t) (\<lambda>t. Inr (cvm_unlock (t\<lparr>to_stopped := True\<rparr>)))
               else Inr t)
          (\<lambda>t. if th = Timer then Inl Deadlock
               else Inr (t\<lparr>to_waiting := False, to_joinable := False\<rparr>))
      else Inr t)"

definition Timeout_start :: "thread_id \<Rightarrow> int \<Rightarrow> int \<Rightarrow> timeout \<Rightarrow> timeout res" where
  "Timeout_start th now timeout t =
     bindR (Timeout_stop th t)
       (\<lambda>t. Inr (t\<lparr>to_start := now, to_stopped := False, to_timeout := timeout,
                   to_joinable := True, to_waiting := True\<rparr>))"

definition Timeout_elapsed :: "thread_id \<Rightarrow> int \<Rightarrow> timeout \<Rightarrow> int res" where
  "Timeout_elapsed th now t =
     bindR (cvm_lock th t) (\<lambda>t. if to_stopped t then Inr 0 else Inr (now - to_start t))"

definition Timeout_remaining :: "thread_id \<Rightarrow> int \<Rightarrow> timeout \<Rightarrow> int res" where
  "Timeout_remaining th now t =
     bindR (cvm_lock th t)
       (\<lambda>t. if to_stopped t then Inr 0
            else bindR (Timeout_elapsed th now t) (\<lambda>e. Inr (to_timeout t - e)))"

definition Timeout_isStopped :: "thread_id \<Rightarrow> timeout \<Rightarrow> bool res" where
  "Timeout_isStopped th t = bindR (cvm_lock th t) (\<lambda>t. Inr (to_stopped t))"

text \<open>
  The thread: when the wait times out with \<open>m_stopped\<close> false, the callback runs while the thread
  holds the mutex; the thread ends afterwards. \<open>m_stopped\<close> stays false.
\<close>

definition Timeout_fire :: "timeout \<Rightarrow> timeout option" where
  "Timeout_fire t =
     (if to_waiting t \<and> \<not> to_stopped t \<and> to_holder t = None
      then Some (t\<lparr>to_holder := Some Timer, to_waiting := False\<rparr>) else None)"

definition Timeout_fired :: "timeout \<Rightarrow> timeout" where
  "Timeout_fired t = cvm_unlock t"

section \<open>The timer between calls\<close>

definition to_ok :: "timeout \<Rightarrow> bool" where
  "to_ok t \<longleftrightarrow> to_holder t = None \<and> (\<not> to_stopped t \<longrightarrow> to_joinable t) \<and> (to_waiting t \<longrightarrow> \<not> to_stopped t)"

datatype to_event = Start int int | Stop | Expire

definition to_step :: "timeout \<Rightarrow> to_event \<Rightarrow> timeout res" where
  "to_step t e = (case e of
      Start now d \<Rightarrow> Timeout_start Caller now d t
    | Stop \<Rightarrow> Timeout_stop Caller t
    | Expire \<Rightarrow> (case Timeout_fire t of None \<Rightarrow> Inr t | Some t' \<Rightarrow> Inr (Timeout_fired t')))"

lemmas timeout_defs = Timeout_stop_def Timeout_start_def Timeout_elapsed_def Timeout_remaining_def
  Timeout_isStopped_def Timeout_fire_def Timeout_fired_def cvm_lock_def cvm_unlock_def to_ok_def

lemma to_ok_new [simp]: "to_ok Timeout_new"
  by (simp add: Timeout_new_def to_ok_def)

text \<open>Between calls, \<open>stop()\<close> from another thread returns, and the timer can no longer expire.\<close>

lemma stop_ok: "to_ok t \<Longrightarrow> \<exists>t'. Timeout_stop Caller t = Inr t' \<and> to_ok t' \<and> to_stopped t' \<and> \<not> to_waiting t'"
  by (auto simp: timeout_defs)

lemma start_ok: "to_ok t \<Longrightarrow>
  \<exists>t'. Timeout_start Caller now d t = Inr t' \<and> to_ok t' \<and> \<not> to_stopped t' \<and> to_waiting t'
     \<and> to_start t' = now \<and> to_timeout t' = d"
  by (auto simp: timeout_defs)

lemma isStopped_ok: "to_ok t \<Longrightarrow> Timeout_isStopped th t = Inr (to_stopped t)"
  by (auto simp: timeout_defs)

interpretation timer: total_system to_step to_ok "\<lambda>_. True"
proof unfold_locales
  fix s e s'
  assume "to_ok s" and "to_step s e = Inr s'"
  then show "to_ok s'"
    by (cases e) (auto simp: to_step_def timeout_defs split: if_splits)
next
  fix s e
  assume "to_ok s"
  then show "\<exists>s'. to_step s e = Inr s'"
    by (cases e) (auto simp: to_step_def timeout_defs)
qed

text \<open>
  \<open>remaining()\<close> locks the mutex and then calls \<open>elapsed()\<close>, which locks it again: on a running timer
  it never returns.
\<close>

lemma remaining_running: "to_ok t \<Longrightarrow> \<not> to_stopped t \<Longrightarrow> Timeout_remaining th now t = Inl Deadlock"
  by (simp add: timeout_defs)

lemma remaining_stopped: "to_ok t \<Longrightarrow> to_stopped t \<Longrightarrow> Timeout_remaining th now t = Inr 0"
  by (simp add: timeout_defs)

text \<open>A callback that calls \<open>stop()\<close> on its own timer locks the mutex its thread holds.\<close>

lemma stop_in_callback:
  "to_ok t \<Longrightarrow> Timeout_fire t = Some t' \<Longrightarrow> Timeout_stop Timer t' = Inl Deadlock"
  by (auto simp: timeout_defs split: if_splits)

end
