(* ===== verification/AitTypes.thy ===== *)
theory AitTypes
  imports Utils
begin

text \<open>
  The data of \<open>application_manager/ait.h\<close>: application descriptions and tables, field by field.
  Counters and codes keep their width. The arrays of the structures are lists; the two-element
  \<open>transportArray\<close> is a list of length two in every value the code can build.
\<close>

section \<open>Constants\<close>

definition AIT_USAGE_TELETEXT :: u8 where "AIT_USAGE_TELETEXT = 0x01"
definition AIT_MAX_NUM_PROTOCOLS :: nat where "AIT_MAX_NUM_PROTOCOLS = 2"
definition AIT_PROTOCOL_OBJECT_CAROUSEL :: u16 where "AIT_PROTOCOL_OBJECT_CAROUSEL = 0x0001"
definition AIT_PROTOCOL_HTTP :: u16 where "AIT_PROTOCOL_HTTP = 0x0003"
definition AIT_NOT_VISIBLE_ALL :: u8 where "AIT_NOT_VISIBLE_ALL = 0x00"
definition AIT_NOT_VISIBLE_USERS :: u8 where "AIT_NOT_VISIBLE_USERS = 0x01"
definition AIT_VISIBLE_ALL :: u8 where "AIT_VISIBLE_ALL = 0x03"

lemmas ait_consts = AIT_USAGE_TELETEXT_def AIT_MAX_NUM_PROTOCOLS_def
  AIT_PROTOCOL_OBJECT_CAROUSEL_def AIT_PROTOCOL_HTTP_def AIT_NOT_VISIBLE_ALL_def
  AIT_NOT_VISIBLE_USERS_def AIT_VISIBLE_ALL_def

text \<open>The version of HbbTV is chosen when the library is built (\<open>ORB_HBBTV_VERSION\<close>).\<close>

record hbbtv_version =
  HBBTV_VERSION_MAJOR :: u8
  HBBTV_VERSION_MINOR :: u8
  HBBTV_VERSION_MICRO :: u8

definition hbbtv_204 :: hbbtv_version where
  "hbbtv_204 = \<lparr>HBBTV_VERSION_MAJOR = 1, HBBTV_VERSION_MINOR = 7, HBBTV_VERSION_MICRO = 1\<rparr>"

definition hbbtv_203 :: hbbtv_version where
  "hbbtv_203 = \<lparr>HBBTV_VERSION_MAJOR = 1, HBBTV_VERSION_MINOR = 6, HBBTV_VERSION_MICRO = 1\<rparr>"

definition LINKED_APP_SCHEME_1_1 :: string where
  "LINKED_APP_SCHEME_1_1 = ''urn:dvb:metadata:cs:LinkedApplicationCS:2019:1.1''"
definition LINKED_APP_SCHEME_1_2 :: string where
  "LINKED_APP_SCHEME_1_2 = ''urn:dvb:metadata:cs:LinkedApplicationCS:2019:1.2''"
definition LINKED_APP_SCHEME_2 :: string where
  "LINKED_APP_SCHEME_2 = ''urn:dvb:metadata:cs:LinkedApplicationCS:2019:2''"

definition APP_TYP_MHEG5 :: u16 where "APP_TYP_MHEG5 = 0x0008"
definition APP_TYP_HBBTV :: u16 where "APP_TYP_HBBTV = 0x0010"
definition APP_TYP_XML :: u16 where "APP_TYP_XML = 0x8000"

definition XML_TYP_UNKNOWN :: u8 where "XML_TYP_UNKNOWN = 0x00"
definition XML_TYP_OTHER :: u8 where "XML_TYP_OTHER = 0x01"
definition XML_TYP_DVB_HTML :: u8 where "XML_TYP_DVB_HTML = 0x10"
definition XML_TYP_DVB_J :: u8 where "XML_TYP_DVB_J = 0x11"

datatype app_control =
    APP_CTL_UNKNOWN
  | APP_CTL_AUTOSTART
  | APP_CTL_PRESENT
  | APP_CTL_DESTROY
  | APP_CTL_KILL
  | APP_CTL_PREFETCH
  | APP_CTL_REMOTE
  | APP_CTL_DISABLED
  | APP_CTL_PB_AUTO

fun control_code :: "app_control \<Rightarrow> u8" where
  "control_code APP_CTL_UNKNOWN = 0x00"
| "control_code APP_CTL_AUTOSTART = 0x01"
| "control_code APP_CTL_PRESENT = 0x02"
| "control_code APP_CTL_DESTROY = 0x03"
| "control_code APP_CTL_KILL = 0x04"
| "control_code APP_CTL_PREFETCH = 0x05"
| "control_code APP_CTL_REMOTE = 0x06"
| "control_code APP_CTL_DISABLED = 0x07"
| "control_code APP_CTL_PB_AUTO = 0x08"

lemma control_code_inj: "control_code a = control_code b \<longleftrightarrow> a = b"
  by (cases a; cases b) simp_all

section \<open>Structures\<close>

record lang_string =
  langCode :: u32
  lang_name :: string

record app_name_desc =
  numLangs :: u8
  names :: "lang_string list"

record oc_selector =
  oc_dvb :: dvb_triplet
  componentTag :: u8
  remoteConnection :: bool

record url_selector =
  baseUrl :: string
  extensionUrls :: "string list"

record transport_desc =
  protocolId :: u16
  transportProtocolLabel :: u8
  oc :: oc_selector
  url_sel :: url_selector
  failedToLoad :: bool

record app_profile =
  appProfile :: u16
  versionMajor :: u8
  versionMinor :: u8
  versionMicro :: u8

record app_desc =
  visibility :: u8
  priority :: u8
  numLabels :: u8
  appProfiles :: "app_profile list"
  transportProtocolLabels :: "u8 list"
  serviceBound :: bool

record parental_rating =
  pr_scheme :: string
  pr_region :: string
  pr_value :: u8

record ait_app_desc =
  orgId :: u32
  appId :: u16
  controlCode :: u8
  numTransports :: u8
  transportArray :: "transport_desc list"
  location :: string
  appName :: app_name_desc
  appDesc :: app_desc
  xmlType :: u8
  xmlVersion :: u8
  usageType :: u8
  boundaries :: "string list"
  parentalRatings :: "parental_rating list"
  graphicsConstraints :: "u16 list"
  scheme :: string
  appUsage :: string

record ait_table =
  sectionData :: "u8 list"
  appType :: u16
  version :: u8
  numApps :: u8
  appArray :: "ait_app_desc list"
  complete :: bool

text \<open>Value-initialised objects (\<open>resize\<close>, \<open>make_shared\<close>, \<open>make_unique\<close>).\<close>

definition zero_triplet :: dvb_triplet where
  "zero_triplet = \<lparr>originalNetworkId = 0, transportStreamId = 0, serviceId = 0\<rparr>"

definition zero_lang :: lang_string where
  "zero_lang = \<lparr>langCode = 0, lang_name = []\<rparr>"

definition zero_transport :: transport_desc where
  "zero_transport =
     \<lparr>protocolId = 0, transportProtocolLabel = 0,
      oc = \<lparr>oc_dvb = zero_triplet, componentTag = 0, remoteConnection = False\<rparr>,
      url_sel = \<lparr>baseUrl = [], extensionUrls = []\<rparr>, failedToLoad = False\<rparr>"

definition zero_app :: ait_app_desc where
  "zero_app =
     \<lparr>orgId = 0, appId = 0, controlCode = 0, numTransports = 0,
      transportArray = [zero_transport, zero_transport], location = [],
      appName = \<lparr>numLangs = 0, names = []\<rparr>,
      appDesc = \<lparr>visibility = 0, priority = 0, numLabels = 0, appProfiles = [],
                 transportProtocolLabels = [], serviceBound = False\<rparr>,
      xmlType = 0, xmlVersion = 0, usageType = 0, boundaries = [], parentalRatings = [],
      graphicsConstraints = [], scheme = [], appUsage = []\<rparr>"

definition zero_table :: ait_table where
  "zero_table = \<lparr>sectionData = replicate 32 0, appType = 0, version = 0, numApps = 0,
                 appArray = [], complete = False\<rparr>"

text \<open>
  Well-formed descriptions: there are two transport slots, the counter of transports is the number
  of slots in use, and the counter of names is the length of their vector. In a well-formed table
  the counter of applications does not run past the vector.
\<close>

definition filled :: "transport_desc list \<Rightarrow> nat" where
  "filled ts = length (filter (\<lambda>t. protocolId t \<noteq> 0) ts)"

lemma filled_le: "filled ts \<le> length ts"
  by (simp add: filled_def)

definition wf_app :: "ait_app_desc \<Rightarrow> bool" where
  "wf_app a \<longleftrightarrow> length (transportArray a) = AIT_MAX_NUM_PROTOCOLS
             \<and> unat (numTransports a) = filled (transportArray a)
             \<and> length (names (appName a)) = unat (numLangs (appName a))"

definition wf_table :: "ait_table \<Rightarrow> bool" where
  "wf_table t \<longleftrightarrow> length (sectionData t) = 32 \<and> unat (numApps t) \<le> length (appArray t)
               \<and> (\<forall>a \<in> set (appArray t). wf_app a)"

lemma wf_zero_app [simp]: "wf_app zero_app"
  by (simp add: wf_app_def zero_app_def filled_def zero_transport_def ait_consts)

lemma wf_app_slots:
  assumes "wf_app a"
  shows "unat (numTransports a) \<le> length (transportArray a)"
  using assms filled_le [of "transportArray a"] by (simp add: wf_app_def)

lemma wf_slots_bound: "wf_app a \<Longrightarrow> \<forall>i \<in> set [0 ..< unat (numTransports a)]. i < length (transportArray a)"
  using wf_app_slots [of a] by simp

lemma wf_tableI:
  "length (sectionData t) = 32 \<Longrightarrow> unat (numApps t) \<le> length (appArray t) \<Longrightarrow>
   (\<And>a. a \<in> set (appArray t) \<Longrightarrow> wf_app a) \<Longrightarrow> wf_table t"
  by (simp add: wf_table_def)

lemma wf_resize: "\<forall>a \<in> set as. wf_app a \<Longrightarrow> \<forall>a \<in> set (resize as n zero_app). wf_app a"
  by (auto simp: resize_def dest: in_set_takeD)

lemma wf_zero_table [simp]: "wf_table zero_table"
  by (simp add: wf_table_def zero_table_def)

end
