(* ===== verification/AitSelect.thy ===== *)
theory AitSelect
  imports AitTypes
begin

text \<open>
  The queries of \<open>ait.cpp\<close> on a parsed table: which application is started automatically, the
  Teletext application, the lookup by organisation and application id, the base URL and protocol of
  an application, and the parental control check. Reads of the arrays are bounds-checked; on a
  well-formed table no query faults.
\<close>

section \<open>Parental control\<close>

definition rating_accepts :: "parental_rating \<Rightarrow> int \<Rightarrow> string \<Rightarrow> string \<Rightarrow> bool" where
  "rating_accepts pr age region region3 =
     (pr_scheme pr = ''dvb-si'' \<and>
      (length (pr_region pr) = 2 \<and> strcasecmp_eq (pr_region pr) region \<or>
       length (pr_region pr) = 3 \<and> strcasecmp_eq (pr_region pr) region3) \<and>
      int (unat (pr_value pr)) \<le> age)"

fun age_loop :: "parental_rating list \<Rightarrow> int \<Rightarrow> string \<Rightarrow> string \<Rightarrow> bool \<Rightarrow> bool" where
  "age_loop [] age region region3 restricted = restricted"
| "age_loop (pr # prs) age region region3 restricted =
     age_loop prs age region region3
       (if rating_accepts pr age region region3 then False else restricted)"

definition IsAgeRestricted :: "parental_rating list \<Rightarrow> int \<Rightarrow> string \<Rightarrow> string \<Rightarrow> bool" where
  "IsAgeRestricted prs age region region3 =
     (if prs \<noteq> [] then age_loop prs age region region3 True else False)"

lemma age_loop_eq:
  "age_loop prs age r r3 b \<longleftrightarrow> b \<and> (\<forall>pr \<in> set prs. \<not> rating_accepts pr age r r3)"
  by (induction prs arbitrary: b) auto

lemma IsAgeRestricted_eq:
  "IsAgeRestricted prs age r r3 \<longleftrightarrow> prs \<noteq> [] \<and> (\<forall>pr \<in> set prs. \<not> rating_accepts pr age r r3)"
  by (simp add: IsAgeRestricted_def age_loop_eq)

section \<open>The application to start automatically\<close>

definition version_supported :: "hbbtv_version \<Rightarrow> app_profile \<Rightarrow> bool" where
  "version_supported v ad =
     (versionMajor ad < HBBTV_VERSION_MAJOR v \<or>
      versionMajor ad = HBBTV_VERSION_MAJOR v \<and> versionMinor ad < HBBTV_VERSION_MINOR v \<or>
      versionMajor ad = HBBTV_VERSION_MAJOR v \<and> versionMinor ad = HBBTV_VERSION_MINOR v \<and>
        versionMicro ad \<le> HBBTV_VERSION_MICRO v)"

fun profiles_supported :: "hbbtv_version \<Rightarrow> app_profile list \<Rightarrow> bool" where
  "profiles_supported v [] = False"
| "profiles_supported v (ad # ads) =
     (if version_supported v ad \<and> appProfile ad = 0 then True else profiles_supported v ads)"

definition transport_viable :: "transport_desc \<Rightarrow> bool" where
  "transport_viable t =
     ((protocolId t = AIT_PROTOCOL_HTTP \<or> protocolId t = AIT_PROTOCOL_OBJECT_CAROUSEL) \<and> \<not> failedToLoad t)"

fun viable_loop :: "transport_desc list \<Rightarrow> nat list \<Rightarrow> bool res" where
  "viable_loop ts [] = Inr False"
| "viable_loop ts (j # js) =
     bindR (rd ts j) (\<lambda>t. if transport_viable t then Inr True else viable_loop ts js)"

definition hasViableTransport :: "ait_app_desc \<Rightarrow> bool res" where
  "hasViableTransport a = viable_loop (transportArray a) [0 ..< unat (numTransports a)]"

fun autostart_loop :: "hbbtv_version \<Rightarrow> int \<Rightarrow> string \<Rightarrow> string \<Rightarrow> ait_app_desc list \<Rightarrow> nat list
    \<Rightarrow> ait_app_desc option \<Rightarrow> ait_app_desc option res" where
  "autostart_loop v age r r3 apps [] app = Inr app"
| "autostart_loop v age r r3 apps (i # is) app =
     bindR (rd apps i) (\<lambda>candidate.
       if controlCode candidate = control_code APP_CTL_AUTOSTART then
         if \<not> profiles_supported v (appProfiles (appDesc candidate)) then autostart_loop v age r r3 apps is app
         else if IsAgeRestricted (parentalRatings candidate) age r r3 then autostart_loop v age r r3 apps is app
         else bindR (hasViableTransport candidate) (\<lambda>viable.
           if viable then
             (case app of
                None \<Rightarrow> autostart_loop v age r r3 apps is (Some candidate)
              | Some a \<Rightarrow> autostart_loop v age r r3 apps is
                  (if priority (appDesc a) < priority (appDesc candidate) then Some candidate else app))
           else autostart_loop v age r r3 apps is app)
       else autostart_loop v age r r3 apps is app)"

text \<open>A null table has no application to start.\<close>

definition AutoStartApp :: "hbbtv_version \<Rightarrow> ait_table option \<Rightarrow> int \<Rightarrow> string \<Rightarrow> string \<Rightarrow> ait_app_desc option res" where
  "AutoStartApp v tab age r r3 = (case tab of
      None \<Rightarrow> Inr None
    | Some t \<Rightarrow> autostart_loop v age r r3 (appArray t) [0 ..< unat (numApps t)] None)"

section \<open>Lookups\<close>

fun teletext_loop :: "ait_app_desc list \<Rightarrow> nat list \<Rightarrow> ait_app_desc option res" where
  "teletext_loop apps [] = Inr None"
| "teletext_loop apps (i # is) =
     bindR (rd apps i) (\<lambda>a. if usageType a = AIT_USAGE_TELETEXT then Inr (Some a) else teletext_loop apps is)"

definition TeletextApp :: "ait_table option \<Rightarrow> ait_app_desc option res" where
  "TeletextApp tab = (case tab of
      None \<Rightarrow> Inr None
    | Some t \<Rightarrow> teletext_loop (appArray t) [0 ..< unat (numApps t)])"

text \<open>
  \<open>FindApp\<close> returns a pointer into the table, which \<open>AppSetTransportFailedToLoad\<close> later writes
  through: here the index of the application.
\<close>

fun find_loop :: "ait_app_desc list \<Rightarrow> u32 \<Rightarrow> u16 \<Rightarrow> nat list \<Rightarrow> nat option res" where
  "find_loop apps org app [] = Inr None"
| "find_loop apps org app (i # is) =
     bindR (rd apps i) (\<lambda>a. if orgId a = org \<and> appId a = app then Inr (Some i) else find_loop apps org app is)"

definition FindAppIx :: "ait_table option \<Rightarrow> u32 \<Rightarrow> u16 \<Rightarrow> nat option res" where
  "FindAppIx tab org app = (case tab of
      None \<Rightarrow> Inr None
    | Some t \<Rightarrow> find_loop (appArray t) org app [0 ..< unat (numApps t)])"

definition FindApp :: "ait_table option \<Rightarrow> u32 \<Rightarrow> u16 \<Rightarrow> ait_app_desc option res" where
  "FindApp tab org app = bindR (FindAppIx tab org app) (\<lambda>ix. case (tab, ix) of
      (Some t, Some i) \<Rightarrow> Inr (Some (appArray t ! i))
    | _ \<Rightarrow> Inr None)"

section \<open>Transports of an application\<close>

definition carousel_url :: "dvb_triplet \<Rightarrow> u8 \<Rightarrow> string" where
  "carousel_url dvb tag =
     ''dvb://'' @ to_hex (unat (originalNetworkId dvb)) @ ''.'' @ to_hex (unat (transportStreamId dvb))
       @ ''.'' @ to_hex (unat (serviceId dvb)) @ ''.'' @ to_hex (unat tag) @ ''/''"

fun base_url_loop :: "transport_desc list \<Rightarrow> dvb_triplet \<Rightarrow> bool \<Rightarrow> nat list \<Rightarrow> string res" where
  "base_url_loop ts currentService net [] = Inr []"
| "base_url_loop ts currentService net (i # is) =
     bindR (rd ts i) (\<lambda>t.
       if protocolId t = AIT_PROTOCOL_HTTP \<and> \<not> failedToLoad t \<and> net then Inr (baseUrl (url_sel t))
       else if protocolId t = AIT_PROTOCOL_OBJECT_CAROUSEL \<and> \<not> failedToLoad t then
         (if remoteConnection (oc t) then Inr (carousel_url (oc_dvb (oc t)) (componentTag (oc t)))
          else Inr (carousel_url currentService (componentTag (oc t))))
       else base_url_loop ts currentService net is)"

definition ExtractBaseURL :: "ait_app_desc \<Rightarrow> dvb_triplet \<Rightarrow> bool \<Rightarrow> string res" where
  "ExtractBaseURL a currentService net =
     base_url_loop (transportArray a) currentService net [0 ..< unat (numTransports a)]"

fun protocol_loop :: "transport_desc list \<Rightarrow> bool \<Rightarrow> nat list \<Rightarrow> u16 res" where
  "protocol_loop ts net [] = Inr 0"
| "protocol_loop ts net (i # is) =
     bindR (rd ts i) (\<lambda>t.
       if protocolId t = AIT_PROTOCOL_HTTP \<and> \<not> failedToLoad t \<and> net then Inr AIT_PROTOCOL_HTTP
       else if protocolId t = AIT_PROTOCOL_OBJECT_CAROUSEL \<and> \<not> failedToLoad t
       then Inr AIT_PROTOCOL_OBJECT_CAROUSEL
       else protocol_loop ts net is)"

definition ExtractProtocolId :: "ait_app_desc \<Rightarrow> bool \<Rightarrow> u16 res" where
  "ExtractProtocolId a net = protocol_loop (transportArray a) net [0 ..< unat (numTransports a)]"

fun has_transport_loop :: "transport_desc list \<Rightarrow> u16 \<Rightarrow> nat list \<Rightarrow> bool res" where
  "has_transport_loop ts p [] = Inr False"
| "has_transport_loop ts p (i # is) =
     bindR (rd ts i) (\<lambda>t. if protocolId t = p then Inr True else has_transport_loop ts p is)"

definition AppHasTransport :: "ait_app_desc \<Rightarrow> u16 \<Rightarrow> bool res" where
  "AppHasTransport a p = has_transport_loop (transportArray a) p [0 ..< unat (numTransports a)]"

text \<open>\<^const>\<open>None\<close> is the null pointer.\<close>

definition AppSetTransportFailedToLoad :: "ait_app_desc option \<Rightarrow> u16 \<Rightarrow> ait_app_desc res" where
  "AppSetTransportFailedToLoad app p = (case app of
      None \<Rightarrow> Inl NullDeref
    | Some a \<Rightarrow>
        bindR (foldR (\<lambda>i ts. bindR (rd ts i) (\<lambda>t.
                 if protocolId t = p then wr ts i (t\<lparr>failedToLoad := True\<rparr>) else Inr ts))
               [0 ..< unat (numTransports a)] (transportArray a))
          (\<lambda>ts. Inr (a\<lparr>transportArray := ts\<rparr>)))"

section \<open>Absence of faults on well-formed data\<close>

lemma viable_loop_ok:
  "\<forall>j \<in> set js. j < length ts \<Longrightarrow> viable_loop ts js = Inr (\<exists>j \<in> set js. transport_viable (ts ! j))"
  by (induction js) auto

definition viable :: "ait_app_desc \<Rightarrow> bool" where
  "viable a = (\<exists>j < unat (numTransports a). transport_viable (transportArray a ! j))"

lemma hasViableTransport_ok: "wf_app a \<Longrightarrow> hasViableTransport a = Inr (viable a)"
  using wf_slots_bound [of a] by (auto simp: hasViableTransport_def viable_loop_ok viable_def)

lemma profiles_supported_iff:
  "profiles_supported v ads \<longleftrightarrow> (\<exists>ad \<in> set ads. version_supported v ad \<and> appProfile ad = 0)"
  by (induction ads) auto

definition eligible :: "hbbtv_version \<Rightarrow> int \<Rightarrow> string \<Rightarrow> string \<Rightarrow> ait_app_desc \<Rightarrow> bool" where
  "eligible v age r r3 a \<longleftrightarrow>
     controlCode a = control_code APP_CTL_AUTOSTART
   \<and> (\<exists>ad \<in> set (appProfiles (appDesc a)). version_supported v ad \<and> appProfile ad = 0)
   \<and> \<not> IsAgeRestricted (parentalRatings a) age r r3
   \<and> viable a"

text \<open>The loop as a pure fold: keep the best eligible candidate, the first among equals.\<close>

definition better :: "hbbtv_version \<Rightarrow> int \<Rightarrow> string \<Rightarrow> string \<Rightarrow> ait_app_desc option \<Rightarrow> ait_app_desc \<Rightarrow> ait_app_desc option" where
  "better v age r r3 best c =
     (if eligible v age r r3 c then
        (case best of None \<Rightarrow> Some c
         | Some a \<Rightarrow> if priority (appDesc a) < priority (appDesc c) then Some c else best)
      else best)"

lemma autostart_loop_ok:
  assumes "\<forall>i \<in> set is. i < length apps" and "\<forall>a \<in> set apps. wf_app a"
  shows "autostart_loop v age r r3 apps is best
       = Inr (foldl (better v age r r3) best (map ((!) apps) is))"
  using assms(1)
proof (induction "is" arbitrary: best)
  case Nil
  then show ?case by simp
next
  case (Cons i "is")
  then have "wf_app (apps ! i)" using assms(2) by simp
  with Cons show ?case
    by (auto simp: hasViableTransport_ok better_def eligible_def profiles_supported_iff
             split: option.split)
qed

lemma AutoStartApp_ok:
  assumes "wf_table t"
  shows "AutoStartApp v (Some t) age r r3
       = Inr (foldl (better v age r r3) None (take (unat (numApps t)) (appArray t)))"
proof -
  from assms have le: "unat (numApps t) \<le> length (appArray t)" by (simp add: wf_table_def)
  then have "map ((!) (appArray t)) [0 ..< unat (numApps t)] = take (unat (numApps t)) (appArray t)"
    by (intro nth_equalityI) auto
  with autostart_loop_ok [of "[0 ..< unat (numApps t)]" "appArray t" v age r r3 None] assms le
  show ?thesis by (simp add: AutoStartApp_def wf_table_def)
qed

text \<open>What the fold returns: the first candidate of maximal priority among the eligible ones.\<close>

definition best_of :: "(ait_app_desc \<Rightarrow> bool) \<Rightarrow> ait_app_desc list \<Rightarrow> ait_app_desc option \<Rightarrow> bool" where
  "best_of el as best = (case best of
      None \<Rightarrow> \<forall>a \<in> set as. \<not> el a
    | Some a \<Rightarrow> \<exists>i < length as. as ! i = a \<and> el a
        \<and> (\<forall>j < length as. el (as ! j) \<longrightarrow> priority (appDesc (as ! j)) \<le> priority (appDesc a))
        \<and> (\<forall>j < i. el (as ! j) \<longrightarrow> priority (appDesc (as ! j)) < priority (appDesc a)))"

lemma best_of_snoc:
  assumes "best_of (eligible v age r r3) as best"
  shows "best_of (eligible v age r r3) (as @ [c]) (better v age r r3 best c)"
proof (cases "eligible v age r r3 c")
  case False
  then have b: "better v age r r3 best c = best" by (simp add: better_def)
  show ?thesis
    using assms False unfolding b
    by (force simp: best_of_def nth_append less_Suc_eq split: option.splits)
next
  case el: True
  show ?thesis
  proof (cases best)
    case None
    with assms el show ?thesis
      by (auto simp: best_of_def better_def nth_append less_Suc_eq intro!: exI [of _ "length as"])
  next
    case (Some a)
    then obtain i where i: "i < length as" "as ! i = a" "eligible v age r r3 a"
      and mx: "\<forall>j < length as. eligible v age r r3 (as ! j) \<longrightarrow> priority (appDesc (as ! j)) \<le> priority (appDesc a)"
      and fst: "\<forall>j < i. eligible v age r r3 (as ! j) \<longrightarrow> priority (appDesc (as ! j)) < priority (appDesc a)"
      using assms by (auto simp: best_of_def)
    show ?thesis
    proof (cases "priority (appDesc a) < priority (appDesc c)")
      case True
      with Some el have b: "better v age r r3 best c = Some c" by (simp add: better_def)
      have "\<forall>j < length as. eligible v age r r3 (as ! j) \<longrightarrow> priority (appDesc (as ! j)) < priority (appDesc c)"
        using mx True by (meson le_less_trans)
      with el show ?thesis
        unfolding b best_of_def
        by (auto simp: nth_append less_Suc_eq intro!: exI [of _ "length as"] intro: less_imp_le)
    next
      case False
      with Some el have b: "better v age r r3 best c = Some a" by (simp add: better_def)
      show ?thesis
        using i mx fst False unfolding b best_of_def
        by (auto simp: nth_append less_Suc_eq not_less intro!: exI [of _ i])
    qed
  qed
qed

lemma best_of_in: "best_of el as (Some d) \<Longrightarrow> d \<in> set as \<and> el d"
  by (auto simp: best_of_def intro: nth_mem)

lemma best_of_foldl: "best_of (eligible v age r r3) as (foldl (better v age r r3) None as)"
proof (induction as rule: rev_induct)
  case Nil
  show ?case by (simp add: best_of_def)
next
  case (snoc c as)
  then show ?case by (simp add: best_of_snoc)
qed

lemma teletext_loop_ok:
  "\<forall>i \<in> set is. i < length apps \<Longrightarrow>
   teletext_loop apps is = Inr (find (\<lambda>a. usageType a = AIT_USAGE_TELETEXT) (map ((!) apps) is))"
  by (induction "is") auto

lemma find_loop_ok:
  "\<forall>i \<in> set is. i < length apps \<Longrightarrow>
   find_loop apps org app is = Inr (find (\<lambda>i. orgId (apps ! i) = org \<and> appId (apps ! i) = app) is)"
  by (induction "is") auto

lemma FindAppIx_ok:
  assumes "wf_table t"
  shows "\<exists>ix. FindAppIx (Some t) org app = Inr ix
     \<and> (case ix of None \<Rightarrow> \<forall>i < unat (numApps t). \<not> (orgId (appArray t ! i) = org \<and> appId (appArray t ! i) = app)
        | Some i \<Rightarrow> i < unat (numApps t) \<and> orgId (appArray t ! i) = org \<and> appId (appArray t ! i) = app)"
proof -
  from assms have "\<forall>i \<in> set [0 ..< unat (numApps t)]. i < length (appArray t)"
    by (auto simp: wf_table_def)
  then have "FindAppIx (Some t) org app
      = Inr (find (\<lambda>i. orgId (appArray t ! i) = org \<and> appId (appArray t ! i) = app) [0 ..< unat (numApps t)])"
    by (simp add: FindAppIx_def find_loop_ok)
  then show ?thesis
    by (auto simp: find_None_iff find_Some_iff split: option.split)
qed

lemma FindApp_None [simp]: "FindApp None org app = Inr None"
  by (simp add: FindApp_def FindAppIx_def)

lemma FindApp_ok:
  assumes "wf_table t"
  shows "\<exists>res. FindApp (Some t) org app = Inr res
     \<and> (case res of None \<Rightarrow> \<forall>i < unat (numApps t). \<not> (orgId (appArray t ! i) = org \<and> appId (appArray t ! i) = app)
        | Some a \<Rightarrow> a \<in> set (take (unat (numApps t)) (appArray t)) \<and> wf_app a \<and> orgId a = org \<and> appId a = app)"
proof -
  obtain ix where ix: "FindAppIx (Some t) org app = Inr ix"
    and spec: "case ix of None \<Rightarrow> \<forall>i < unat (numApps t). \<not> (orgId (appArray t ! i) = org \<and> appId (appArray t ! i) = app)
        | Some i \<Rightarrow> i < unat (numApps t) \<and> orgId (appArray t ! i) = org \<and> appId (appArray t ! i) = app"
    using FindAppIx_ok [OF assms] by blast
  show ?thesis
  proof (cases ix)
    case None
    with ix spec show ?thesis by (simp add: FindApp_def)
  next
    case (Some i)
    with assms spec have i: "i < length (take (unat (numApps t)) (appArray t))"
      by (auto simp: wf_table_def)
    from nth_mem [OF i] i have a: "appArray t ! i \<in> set (take (unat (numApps t)) (appArray t))" by simp
    then have "wf_app (appArray t ! i)" using assms by (auto simp: wf_table_def dest: in_set_takeD)
    with a Some ix spec show ?thesis by (simp add: FindApp_def)
  qed
qed

lemma base_url_loop_ok: "\<forall>i \<in> set is. i < length ts \<Longrightarrow> \<exists>u. base_url_loop ts cs net is = Inr u"
  by (induction "is") auto

lemma ExtractBaseURL_ok: "wf_app a \<Longrightarrow> \<exists>u. ExtractBaseURL a cs net = Inr u"
  unfolding ExtractBaseURL_def by (intro base_url_loop_ok wf_slots_bound)

lemma protocol_loop_ok:
  "\<forall>i \<in> set is. i < length ts \<Longrightarrow>
   \<exists>p. protocol_loop ts net is = Inr p \<and> p \<in> {0, AIT_PROTOCOL_HTTP, AIT_PROTOCOL_OBJECT_CAROUSEL}"
  by (induction "is") auto

lemma ExtractProtocolId_ok: "wf_app a \<Longrightarrow> \<exists>p. ExtractProtocolId a net = Inr p"
  unfolding ExtractProtocolId_def using protocol_loop_ok [OF wf_slots_bound] by blast

lemma has_transport_loop_ok:
  "\<forall>i \<in> set is. i < length ts \<Longrightarrow> has_transport_loop ts p is = Inr (\<exists>i \<in> set is. protocolId (ts ! i) = p)"
  by (induction "is") auto

definition mark_failed :: "u16 \<Rightarrow> transport_desc \<Rightarrow> transport_desc" where
  "mark_failed p t = (if protocolId t = p then t\<lparr>failedToLoad := True\<rparr> else t)"

lemma protocolId_mark_failed [simp]: "protocolId (mark_failed p t) = protocolId t"
  by (simp add: mark_failed_def)

lemma filled_mark: "filled (map (mark_failed p) (take n ts) @ drop n ts) = filled ts"
proof -
  have "filled (map (mark_failed p) (take n ts) @ drop n ts) = filled (take n ts @ drop n ts)"
    unfolding filled_def filter_append filter_map by (simp add: comp_def)
  then show ?thesis by simp
qed

lemma mark_loop:
  "n \<le> length ts \<Longrightarrow>
   foldR (\<lambda>i ts. bindR (rd ts i) (\<lambda>t. if protocolId t = p then wr ts i (t\<lparr>failedToLoad := True\<rparr>) else Inr ts))
     [0 ..< n] ts
   = Inr (map (mark_failed p) (take n ts) @ drop n ts)"
proof (induction n)
  case 0
  then show ?case by simp
next
  case (Suc n)
  define m where "m = map (mark_failed p) (take n ts)"
  have n: "n < length ts" using Suc.prems by simp
  then have lm: "length m = n" by (simp add: m_def)
  have d: "drop n ts = ts ! n # drop (Suc n) ts"
    using n by (simp add: Cons_nth_drop_Suc)
  have t: "map (mark_failed p) (take (Suc n) ts) = m @ [mark_failed p (ts ! n)]"
    using n by (simp add: take_Suc_conv_app_nth m_def)
  show ?case
    using Suc.IH n lm
    by (simp add: foldR_append d t rd_def wr_def nth_append list_update_append flip: m_def)
       (simp add: mark_failed_def)
qed

lemma AppSetTransportFailedToLoad_ok:
  assumes "wf_app a"
  shows "AppSetTransportFailedToLoad (Some a) p
       = Inr (a\<lparr>transportArray := map (mark_failed p) (take (unat (numTransports a)) (transportArray a))
               @ drop (unat (numTransports a)) (transportArray a)\<rparr>)"
  using mark_loop [of "unat (numTransports a)" "transportArray a" p] wf_app_slots [OF assms]
  by (simp add: AppSetTransportFailedToLoad_def)

lemma AppSetTransportFailedToLoad_wf:
  "wf_app a \<Longrightarrow> AppSetTransportFailedToLoad (Some a) p = Inr a' \<Longrightarrow> wf_app a'"
  using filled_mark [of p "unat (numTransports a)" "transportArray a"]
  by (auto simp: AppSetTransportFailedToLoad_ok wf_app_def)

text \<open>A protocol chosen by \<open>ExtractProtocolId\<close> is the one of a transport that has not failed.\<close>

lemma protocol_loop_sound:
  "\<forall>i \<in> set is. i < length ts \<Longrightarrow> protocol_loop ts net is = Inr p \<Longrightarrow> p \<noteq> 0 \<Longrightarrow>
   \<exists>i \<in> set is. protocolId (ts ! i) = p \<and> \<not> failedToLoad (ts ! i)"
  by (induction "is") (auto split: if_splits)

lemma ExtractProtocolId_sound:
  assumes "wf_app a" and "ExtractProtocolId a net = Inr p" and "p \<noteq> 0"
  shows "\<exists>i < unat (numTransports a). protocolId (transportArray a ! i) = p \<and> \<not> failedToLoad (transportArray a ! i)"
  using protocol_loop_sound [of "[0 ..< unat (numTransports a)]" "transportArray a" net p] assms
  wf_slots_bound [OF assms(1)]
  by (auto simp: ExtractProtocolId_def)

lemma AppHasTransport_ok:
  "wf_app a \<Longrightarrow> AppHasTransport a p = Inr (\<exists>i < unat (numTransports a). protocolId (transportArray a ! i) = p)"
  using wf_slots_bound [of a] by (auto simp: AppHasTransport_def has_transport_loop_ok)

section \<open>What the queries promise\<close>

text \<open>A table for the witnesses: two autostart applications over HTTP, of priority 1 and 5.\<close>

definition demo_candidate :: "u16 \<Rightarrow> u8 \<Rightarrow> ait_app_desc" where
  "demo_candidate i prio =
     zero_app\<lparr>orgId := 19, appId := i, controlCode := 1, numTransports := 1,
       transportArray := [zero_transport\<lparr>protocolId := AIT_PROTOCOL_HTTP,
                            url_sel := \<lparr>baseUrl = ''http://a'', extensionUrls = []\<rparr>\<rparr>, zero_transport],
       appDesc := (appDesc zero_app)\<lparr>priority := prio,
         appProfiles := [\<lparr>appProfile = 0, versionMajor = 1, versionMinor = 1, versionMicro = 1\<rparr>]\<rparr>\<rparr>"

definition demo_table :: ait_table where
  "demo_table = zero_table\<lparr>numApps := 2, appArray := [demo_candidate 1 1, demo_candidate 2 5]\<rparr>"

lemma demo_table_wf: "wf_table demo_table"
  by (simp add: demo_table_def wf_table_def zero_table_def demo_candidate_def wf_app_def zero_app_def
      zero_transport_def filled_def ait_consts)

text \<open>
  C18. \<open>AutoStartApp\<close> on a well-formed table: none of the signalled applications when none is
  eligible (AUTOSTART, a supported basic profile, not age-restricted, a usable transport), otherwise
  the first of the eligible ones with the highest priority.
\<close>

theorem autostart_best:
  assumes "wf_table t"
  shows "\<exists>best. AutoStartApp v (Some t) age r r3 = Inr best
    \<and> (case best of
         None \<Rightarrow> \<forall>a \<in> set (take (unat (numApps t)) (appArray t)). \<not> eligible v age r r3 a
       | Some a \<Rightarrow> \<exists>i < unat (numApps t). appArray t ! i = a \<and> eligible v age r r3 a
           \<and> (\<forall>j < unat (numApps t). eligible v age r r3 (appArray t ! j) \<longrightarrow>
                 priority (appDesc (appArray t ! j)) \<le> priority (appDesc a))
           \<and> (\<forall>j < i. eligible v age r r3 (appArray t ! j) \<longrightarrow>
                 priority (appDesc (appArray t ! j)) < priority (appDesc a)))"
proof -
  let ?as = "take (unat (numApps t)) (appArray t)"
  let ?best = "foldl (better v age r r3) None ?as"
  have len: "length ?as = unat (numApps t)" using assms by (simp add: wf_table_def)
  have nth: "?as ! j = appArray t ! j" if "j < unat (numApps t)" for j using that by simp
  have b: "best_of (eligible v age r r3) ?as ?best" by (rule best_of_foldl)
  show ?thesis
  proof (cases ?best)
    case None
    with b show ?thesis by (simp add: AutoStartApp_ok [OF assms] best_of_def)
  next
    case (Some a)
    from b have "best_of (eligible v age r r3) ?as (Some a)" by (simp only: Some)
    then obtain i where i: "i < unat (numApps t)" "?as ! i = a" "eligible v age r r3 a"
      "\<forall>j < unat (numApps t). eligible v age r r3 (?as ! j) \<longrightarrow> priority (appDesc (?as ! j)) \<le> priority (appDesc a)"
      "\<forall>j < i. eligible v age r r3 (?as ! j) \<longrightarrow> priority (appDesc (?as ! j)) < priority (appDesc a)"
      by (auto simp only: best_of_def option.case len)
    then show ?thesis
      unfolding AutoStartApp_ok [OF assms] Some by (intro exI [of _ "Some a"]) (auto intro!: exI [of _ i])
  qed
qed

theorem autostart_best_witness:
  "wf_table demo_table \<and> (\<exists>best. AutoStartApp hbbtv_204 (Some demo_table) 18 ''GB'' ''GBR'' = Inr best
     \<and> best = Some (demo_candidate 2 5))"
proof -
  have v: "AutoStartApp hbbtv_204 (Some demo_table) 18 ''GB'' ''GBR'' = Inr (Some (demo_candidate 2 5))"
    by code_simp
  obtain best where "AutoStartApp hbbtv_204 (Some demo_table) 18 ''GB'' ''GBR'' = Inr best"
    using autostart_best [OF demo_table_wf, of hbbtv_204 18 "''GB''" "''GBR''"] by blast
  with v demo_table_wf show ?thesis by simp
qed

text \<open>
  \<open>FindApp\<close> returns a signalled application with the given organisation and application id
  exactly when there is one.
\<close>

theorem find_app:
  assumes "wf_table t"
  shows "\<exists>res. FindApp (Some t) org app = Inr res
    \<and> (res = None \<longleftrightarrow> (\<forall>a \<in> set (take (unat (numApps t)) (appArray t)). \<not> (orgId a = org \<and> appId a = app)))
    \<and> (\<forall>a. res = Some a \<longrightarrow> a \<in> set (take (unat (numApps t)) (appArray t)) \<and> orgId a = org \<and> appId a = app)"
proof -
  obtain res where r: "FindApp (Some t) org app = Inr res"
    and s: "case res of None \<Rightarrow> \<forall>i < unat (numApps t). \<not> (orgId (appArray t ! i) = org \<and> appId (appArray t ! i) = app)
        | Some a \<Rightarrow> a \<in> set (take (unat (numApps t)) (appArray t)) \<and> wf_app a \<and> orgId a = org \<and> appId a = app"
    using FindApp_ok [OF assms] by blast
  show ?thesis
  proof (cases res)
    case None
    with s have n: "\<not> (orgId (appArray t ! i) = org \<and> appId (appArray t ! i) = app)"
      if "i < unat (numApps t)" for i using that by simp
    have "\<not> (orgId a = org \<and> appId a = app)" if a: "a \<in> set (take (unat (numApps t)) (appArray t))" for a
    proof -
      from a obtain i where "i < unat (numApps t)" "a = appArray t ! i" by (auto simp: in_set_conv_nth)
      with n [of i] show ?thesis by simp
    qed
    with r None show ?thesis by (simp add: Ball_def)
  next
    case (Some a)
    with r s show ?thesis by auto
  qed
qed

theorem find_app_witness:
  "\<exists>res. FindApp (Some demo_table) 19 2 = Inr res \<and> res \<noteq> None"
proof -
  have "demo_candidate 2 5 \<in> set (take (unat (numApps demo_table)) (appArray demo_table))"
    "orgId (demo_candidate 2 5) = 19" "appId (demo_candidate 2 5) = 2"
    by (simp_all add: demo_table_def demo_candidate_def)
  with find_app [OF demo_table_wf, of 19 2] show ?thesis by blast
qed

text \<open>
  A transport that has been marked as failed is not chosen again: the protocol and the base URL
  then come from another transport, or from none.
\<close>

theorem failed_transport_avoided:
  assumes "wf_app a" and "p \<noteq> 0"
  shows "\<exists>a' q. AppSetTransportFailedToLoad (Some a) p = Inr a' \<and> wf_app a'
    \<and> ExtractProtocolId a' net = Inr q \<and> q \<noteq> p"
proof -
  let ?n = "unat (numTransports a)"
  let ?a = "a\<lparr>transportArray := map (mark_failed p) (take ?n (transportArray a)) @ drop ?n (transportArray a)\<rparr>"
  have m: "AppSetTransportFailedToLoad (Some a) p = Inr ?a" by (rule AppSetTransportFailedToLoad_ok [OF assms(1)])
  then have wf: "wf_app ?a" by (rule AppSetTransportFailedToLoad_wf [OF assms(1)])
  obtain q where q: "ExtractProtocolId ?a net = Inr q" using ExtractProtocolId_ok [OF wf] by blast
  have "q \<noteq> p"
  proof
    assume "q = p"
    with ExtractProtocolId_sound [OF wf q] assms(2) obtain i
      where i: "i < ?n" "protocolId (transportArray ?a ! i) = p" "\<not> failedToLoad (transportArray ?a ! i)" by auto
    have "i < length (transportArray a)" using i(1) wf_app_slots [OF assms(1)] by simp
    with i show False by (auto simp: nth_append mark_failed_def split: if_splits)
  qed
  with m wf q show ?thesis by blast
qed

theorem failed_transport_avoided_witness:
  "\<exists>a' q. ExtractProtocolId (demo_candidate 1 1) True = Inr AIT_PROTOCOL_HTTP
     \<and> AppSetTransportFailedToLoad (Some (demo_candidate 1 1)) AIT_PROTOCOL_HTTP = Inr a'
     \<and> ExtractProtocolId a' True = Inr q \<and> q \<noteq> AIT_PROTOCOL_HTTP"
proof -
  have "ExtractProtocolId (demo_candidate 1 1) True = Inr AIT_PROTOCOL_HTTP" by code_simp
  moreover have "wf_app (demo_candidate 1 1)" using demo_table_wf by (simp add: wf_table_def demo_table_def)
  ultimately show ?thesis
    using failed_transport_avoided [of "demo_candidate 1 1" AIT_PROTOCOL_HTTP True] by (auto simp: ait_consts)
qed

text \<open>
  An application is age-restricted exactly when it carries ratings and none of them is a DVB
  rating for the set region with an age at most the set one.
\<close>

theorem age_restricted:
  "IsAgeRestricted prs age r r3 \<longleftrightarrow>
     prs \<noteq> [] \<and> \<not> (\<exists>pr \<in> set prs. pr_scheme pr = ''dvb-si'' \<and> int (unat (pr_value pr)) \<le> age
       \<and> (length (pr_region pr) = 2 \<and> strcasecmp_eq (pr_region pr) r
          \<or> length (pr_region pr) = 3 \<and> strcasecmp_eq (pr_region pr) r3))"
  by (auto simp: IsAgeRestricted_eq rating_accepts_def)

end
