(* ===== verification/AitParse.thy ===== *)
theory AitParse
  imports AitSelect
begin

text \<open>
  The descriptor parsers of \<open>ait.cpp\<close>. A section is a buffer of bytes; the parsers walk over it with
  a pointer (an offset) and 8-bit lengths that wrap, exactly as the code computes them, and every
  read is checked against the end of the buffer. A parser is called with the offset of the
  descriptor's length byte.
\<close>

section \<open>The application descriptor\<close>

text \<open>The loop over profiles: \<open>(pointer, descLen, profiles)\<close> when fewer than five bytes are left.\<close>

lemma unat_sub5: "5 \<le> (w :: u8) \<Longrightarrow> unat (w - 5) < unat w"
  by (simp add: unat_sub word_le_nat_alt)

function profile_loop :: "u8 list \<Rightarrow> nat \<Rightarrow> u8 \<Rightarrow> u8 \<Rightarrow> app_profile list
    \<Rightarrow> (nat \<times> u8 \<times> app_profile list) res" where
  "profile_loop d p profileLen descLen profs =
     (if 5 \<le> profileLen then
        bindR (rd16 d p) (\<lambda>prof.
        bindR (rd d (p + 2)) (\<lambda>major.
        bindR (rd d (p + 3)) (\<lambda>minor.
        bindR (rd d (p + 4)) (\<lambda>micro.
          profile_loop d (p + 5) (profileLen - 5) (descLen - 5)
            (profs @ [\<lparr>appProfile = prof, versionMajor = major, versionMinor = minor,
                       versionMicro = micro\<rparr>])))))
      else Inr (p, descLen, profs))"
  by pat_completeness auto
termination
  by (relation "measure (\<lambda>(d, p, profileLen, descLen, profs). unat profileLen)") (auto simp: unat_sub5)

declare profile_loop.simps [simp del]

definition rd_bytes :: "u8 list \<Rightarrow> nat \<Rightarrow> nat \<Rightarrow> u8 list res" where
  "rd_bytes d p n = (if p + n \<le> length d then Inr (take n (drop p d)) else Inl OobRead)"

definition ParseAppDesc :: "u8 list \<Rightarrow> nat \<Rightarrow> app_desc \<Rightarrow> app_desc res" where
  "ParseAppDesc d p desc =
     (if visibility desc = 2 then
        bindR (rd d p) (\<lambda>descLen.
        bindR (rd d (p + 1)) (\<lambda>profileLen.
        bindR (profile_loop d (p + 2) profileLen (descLen - 1) (appProfiles desc)) (\<lambda>(q, descLen, profs).
        bindR (rd d q) (\<lambda>flags.
        bindR (rd d (q + 1)) (\<lambda>prio.
        bindR (rd_bytes d (q + 2) (unat (descLen - 2))) (\<lambda>labels.
          Inr (desc\<lparr>appProfiles := profs,
                    serviceBound := flags AND 0x80 \<noteq> 0,
                    visibility := drop_bit 5 (flags AND 0x60),
                    priority := prio,
                    numLabels := descLen - 2,
                    transportProtocolLabels := labels\<rparr>)))))))
      else Inr desc)"

section \<open>The application name descriptor\<close>

text \<open>
  Two passes over the list of names: the first counts the non-empty ones, the second stores them.
  Neither pass moves its pointer over the text of a name.
\<close>

function name_count_loop :: "u8 list \<Rightarrow> nat \<Rightarrow> u8 \<Rightarrow> u8 \<Rightarrow> u8 res" where
  "name_count_loop d p descLen num =
     (if 4 < descLen then
        bindR (rd d (p + 3)) (\<lambda>nameLen.
          name_count_loop d (p + 4) (descLen - (nameLen + 4)) (if 0 < nameLen then num + 1 else num))
      else Inr num)"
  by pat_completeness auto
termination
  by (relation "measure (\<lambda>(d, p, descLen, num). length d - p)") (auto simp: ret_iff)

declare name_count_loop.simps [simp del]

function name_fill_loop :: "u8 list \<Rightarrow> nat \<Rightarrow> u8 \<Rightarrow> u8 \<Rightarrow> lang_string list \<Rightarrow> lang_string list res" where
  "name_fill_loop d p descLen num ns =
     (if 4 < descLen then
        bindR (rd d p) (\<lambda>a.
        bindR (rd d (p + 1)) (\<lambda>b.
        bindR (rd d (p + 2)) (\<lambda>c.
        bindR (rd d (p + 3)) (\<lambda>nameLen.
          if 0 < nameLen then
            bindR (rd_str d (p + 4) (unat nameLen)) (\<lambda>s.
            bindR (wr ns (unat num) \<lparr>langCode = be24 a b c, lang_name = s\<rparr>) (\<lambda>ns.
              name_fill_loop d (p + 4) (descLen - (nameLen + 4)) (num + 1) ns))
          else name_fill_loop d (p + 4) (descLen - (nameLen + 4)) num ns))))
      else Inr ns)"
  by pat_completeness auto
termination
  by (relation "measure (\<lambda>(d, p, descLen, num, ns). length d - p)") (auto simp: ret_iff)

declare name_fill_loop.simps [simp del]

definition ParseAppNameDesc :: "u8 list \<Rightarrow> nat \<Rightarrow> app_name_desc \<Rightarrow> app_name_desc res" where
  "ParseAppNameDesc d p nm =
     (if names nm = [] then
        bindR (rd d p) (\<lambda>descLen.
        bindR (name_count_loop d (p + 1) descLen 0) (\<lambda>num.
        bindR (name_fill_loop d (p + 1) descLen 0 (resize (names nm) (unat num) zero_lang)) (\<lambda>ns.
          Inr (nm\<lparr>numLangs := num, names := ns\<rparr>))))
      else Inr nm)"

section \<open>The transport protocol descriptor\<close>

text \<open>
  The search for a slot: the index where the loop stopped (the slot of this protocol, or the number
  of slots) and the first free slot seen before. Without a free slot the code resets the index.
\<close>

fun slot_loop :: "transport_desc list \<Rightarrow> u16 \<Rightarrow> nat list \<Rightarrow> nat \<Rightarrow> (nat \<times> nat) res" where
  "slot_loop trns pid [] free = Inr (AIT_MAX_NUM_PROTOCOLS, free)"
| "slot_loop trns pid (i # is) free =
     bindR (rd trns i) (\<lambda>t.
       if pid = protocolId t then Inr (i, free)
       else slot_loop trns pid is
              (if protocolId t = 0 \<and> free = AIT_MAX_NUM_PROTOCOLS then i else free))"

definition find_slot :: "transport_desc list \<Rightarrow> u16 \<Rightarrow> (nat \<times> nat) res" where
  "find_slot trns pid =
     bindR (slot_loop trns pid [0 ..< AIT_MAX_NUM_PROTOCOLS] AIT_MAX_NUM_PROTOCOLS) (\<lambda>(i, free).
       Inr (if free = AIT_MAX_NUM_PROTOCOLS then AIT_MAX_NUM_PROTOCOLS else i, free))"

definition parse_oc_selector :: "u8 list \<Rightarrow> nat \<Rightarrow> oc_selector res" where
  "parse_oc_selector d p =
     bindR (rd d p) (\<lambda>flags.
       let remote = (flags AND 0x80 \<noteq> 0) in
       bindR (if remote then
                bindR (rd16 d (p + 1)) (\<lambda>onid.
                bindR (rd16 d (p + 3)) (\<lambda>tsid.
                bindR (rd16 d (p + 5)) (\<lambda>sid.
                  Inr (p + 7, \<lparr>originalNetworkId = onid, transportStreamId = tsid, serviceId = sid\<rparr>))))
              else Inr (p + 1, zero_triplet)) (\<lambda>(q, dvb).
       bindR (rd d q) (\<lambda>tag.
         Inr \<lparr>oc_dvb = dvb, componentTag = tag, remoteConnection = remote\<rparr>)))"

fun ext_url_loop :: "u8 list \<Rightarrow> nat \<Rightarrow> nat \<Rightarrow> string list \<Rightarrow> string list res" where
  "ext_url_loop d p 0 exts = Inr exts"
| "ext_url_loop d p (Suc n) exts =
     bindR (rd d p) (\<lambda>urlLen.
     bindR (rd_str d (p + 1) (unat urlLen)) (\<lambda>s.
       ext_url_loop d (p + 1 + unat urlLen) n (exts @ [s])))"

definition parse_url_selector :: "u8 list \<Rightarrow> nat \<Rightarrow> url_selector \<Rightarrow> url_selector res" where
  "parse_url_selector d p u =
     bindR (rd d p) (\<lambda>urlLen.
     bindR (rd_str d (p + 1) (unat urlLen)) (\<lambda>base.
     bindR (rd d (p + 1 + unat urlLen)) (\<lambda>n.
     bindR (ext_url_loop d (p + 2 + unat urlLen) (unat n) (extensionUrls u)) (\<lambda>exts.
       Inr (u\<lparr>baseUrl := base, extensionUrls := exts\<rparr>)))))"

definition parse_transport_body :: "u8 list \<Rightarrow> nat \<Rightarrow> u8 \<Rightarrow> u16 \<Rightarrow> transport_desc \<Rightarrow> transport_desc res" where
  "parse_transport_body d p descLen pid t =
     bindR (rd d (p + 2)) (\<lambda>lab.
       let t = t\<lparr>protocolId := pid, transportProtocolLabel := lab\<rparr> in
       bindR (if 0 < descLen - 3 then
                (if pid = AIT_PROTOCOL_OBJECT_CAROUSEL then
                   bindR (parse_oc_selector d (p + 3)) (\<lambda>s. Inr (t\<lparr>oc := s\<rparr>))
                 else if pid = AIT_PROTOCOL_HTTP then
                   bindR (parse_url_selector d (p + 3) (url_sel t)) (\<lambda>u. Inr (t\<lparr>url_sel := u\<rparr>))
                 else Inr t)
              else Inr t) (\<lambda>t. Inr (t\<lparr>failedToLoad := False\<rparr>)))"

definition ParseTransportProtocolDesc :: "u8 list \<Rightarrow> nat \<Rightarrow> transport_desc list
    \<Rightarrow> (bool \<times> transport_desc list) res" where
  "ParseTransportProtocolDesc d p trns =
     bindR (rd d p) (\<lambda>descLen.
       if 3 \<le> descLen then
         bindR (rd16 d (p + 1)) (\<lambda>pid.
         bindR (find_slot trns pid) (\<lambda>(i, free).
           if AIT_MAX_NUM_PROTOCOLS \<le> i then
             (if free < length trns then
                bindR (parse_transport_body d (p + 1) descLen pid (trns ! free)) (\<lambda>t.
                  Inr (True, trns[free := t]))
              else Inl OobWrite)
           else Inr (False, trns)))
       else Inr (False, trns))"

section \<open>The remaining descriptors\<close>

definition ParseSimpleAppLocationDesc :: "u8 list \<Rightarrow> nat \<Rightarrow> string \<Rightarrow> string res" where
  "ParseSimpleAppLocationDesc d p str =
     (if str = [] then
        bindR (rd d p) (\<lambda>descLen.
          if 0 < descLen then rd_str d (p + 1) (unat descLen) else Inr str)
      else Inr str)"

fun boundary_loop :: "u8 list \<Rightarrow> nat \<Rightarrow> nat \<Rightarrow> string list \<Rightarrow> string list res" where
  "boundary_loop d p 0 bs = Inr bs"
| "boundary_loop d p (Suc n) bs =
     bindR (rd d p) (\<lambda>extLength.
     bindR (rd_str d (p + 1) (unat extLength)) (\<lambda>s.
       boundary_loop d (p + 1 + unat extLength) n (bs @ [s])))"

definition ParseSimpleAppBoundaryDesc :: "u8 list \<Rightarrow> nat \<Rightarrow> string list \<Rightarrow> string list res" where
  "ParseSimpleAppBoundaryDesc d p bs =
     bindR (rd d (p + 1)) (\<lambda>count. boundary_loop d (p + 2) (unat count) bs)"

text \<open>The \<open>do ... while (descLen > 4)\<close> loop.\<close>

function rating_loop :: "u8 list \<Rightarrow> nat \<Rightarrow> u8 \<Rightarrow> parental_rating list \<Rightarrow> parental_rating list res" where
  "rating_loop d p descLen prs =
     bindR (rd_str d p 3) (\<lambda>region.
     bindR (rd d (p + 3)) (\<lambda>v.
       let prs = prs @ [\<lparr>pr_scheme = ''dvb-si'', pr_region = region, pr_value = v + 3\<rparr>];
           descLen = descLen - 4
       in if 4 < descLen then rating_loop d (p + 4) descLen prs else Inr prs))"
  by pat_completeness auto
termination
  by (relation "measure (\<lambda>(d, p, descLen, prs). length d - p)") (auto simp: ret_iff)

declare rating_loop.simps [simp del]

definition ParseParentalRatingDesc :: "u8 list \<Rightarrow> nat \<Rightarrow> parental_rating list \<Rightarrow> parental_rating list res" where
  "ParseParentalRatingDesc d p prs =
     (if prs = [] then bindR (rd d p) (\<lambda>descLen. rating_loop d (p + 1) descLen prs) else Inr prs)"

fun graphics_loop :: "u8 list \<Rightarrow> nat \<Rightarrow> nat \<Rightarrow> u16 list \<Rightarrow> u16 list res" where
  "graphics_loop d p 0 gs = Inr gs"
| "graphics_loop d p (Suc n) gs =
     bindR (rd d (p + 1)) (\<lambda>i.
       graphics_loop d (p + 1) n
         (if i = 4 then gs @ [1080] else if i = 5 then gs @ [2160] else if i = 6 then gs @ [4320] else gs))"

definition ParseGraphicsConstraints :: "u8 list \<Rightarrow> nat \<Rightarrow> u16 list \<Rightarrow> u16 list res" where
  "ParseGraphicsConstraints d p gs =
     (if gs = [] then
        bindR (rd d p) (\<lambda>len. graphics_loop d (p + 1) (nat (int (unat len) - 1)) [720])
      else Inr gs)"

section \<open>The descriptor loop of an application\<close>

definition DTAG_APP_DESC :: u8 where "DTAG_APP_DESC = 0x00"
definition DTAG_APP_NAME :: u8 where "DTAG_APP_NAME = 0x01"
definition DTAG_TRANSPORT_PROTOCOL :: u8 where "DTAG_TRANSPORT_PROTOCOL = 0x02"
definition DTAG_GRAPHICS_CONSTRAINTS :: u8 where "DTAG_GRAPHICS_CONSTRAINTS = 0x14"
definition DTAG_SIMPLE_APP_LOCATION :: u8 where "DTAG_SIMPLE_APP_LOCATION = 0x15"
definition DTAG_APP_USAGE :: u8 where "DTAG_APP_USAGE = 0x16"
definition DTAG_SIMPLE_APP_BOUNDARY :: u8 where "DTAG_SIMPLE_APP_BOUNDARY = 0x17"
definition DTAG_PARENTAL_RATING :: u8 where "DTAG_PARENTAL_RATING = 0x55"

lemmas dtags = DTAG_APP_DESC_def DTAG_APP_NAME_def DTAG_TRANSPORT_PROTOCOL_def
  DTAG_GRAPHICS_CONSTRAINTS_def DTAG_SIMPLE_APP_LOCATION_def DTAG_APP_USAGE_def
  DTAG_SIMPLE_APP_BOUNDARY_def DTAG_PARENTAL_RATING_def

definition parse_descriptor :: "u8 list \<Rightarrow> u8 \<Rightarrow> nat \<Rightarrow> ait_app_desc \<Rightarrow> ait_app_desc res" where
  "parse_descriptor d tag p app =
     (if tag = DTAG_APP_DESC then
        bindR (ParseAppDesc d p (appDesc app)) (\<lambda>x. Inr (app\<lparr>appDesc := x\<rparr>))
      else if tag = DTAG_APP_NAME then
        bindR (ParseAppNameDesc d p (appName app)) (\<lambda>x. Inr (app\<lparr>appName := x\<rparr>))
      else if tag = DTAG_TRANSPORT_PROTOCOL then
        bindR (ParseTransportProtocolDesc d p (transportArray app)) (\<lambda>(new, trns).
          Inr (app\<lparr>transportArray := trns,
                   numTransports := (if new then numTransports app + 1 else numTransports app)\<rparr>))
      else if tag = DTAG_SIMPLE_APP_LOCATION then
        bindR (ParseSimpleAppLocationDesc d p (location app)) (\<lambda>x. Inr (app\<lparr>location := x\<rparr>))
      else if tag = DTAG_APP_USAGE then
        bindR (rd d p) (\<lambda>len.
          if len = 1 \<and> usageType app \<noteq> 1
          then bindR (rd d (p + 1)) (\<lambda>u. Inr (app\<lparr>usageType := u\<rparr>))
          else Inr app)
      else if tag = DTAG_SIMPLE_APP_BOUNDARY then
        bindR (ParseSimpleAppBoundaryDesc d p (boundaries app)) (\<lambda>x. Inr (app\<lparr>boundaries := x\<rparr>))
      else if tag = DTAG_PARENTAL_RATING then
        bindR (ParseParentalRatingDesc d p (parentalRatings app)) (\<lambda>x. Inr (app\<lparr>parentalRatings := x\<rparr>))
      else if tag = DTAG_GRAPHICS_CONSTRAINTS then
        bindR (ParseGraphicsConstraints d p (graphicsConstraints app)) (\<lambda>x. Inr (app\<lparr>graphicsConstraints := x\<rparr>))
      else Inr app)"

function app_desc_loop :: "u8 list \<Rightarrow> nat \<Rightarrow> u16 \<Rightarrow> u16 \<Rightarrow> ait_app_desc \<Rightarrow> ait_app_desc res" where
  "app_desc_loop d p done len app =
     (if done < len then
        bindR (rd d p) (\<lambda>tag.
        bindR (parse_descriptor d tag (p + 1) app) (\<lambda>app.
        bindR (rd d (p + 1)) (\<lambda>tmp.
          app_desc_loop d (p + 2 + unat tmp) (done + (ucast tmp + 2)) len app)))
      else Inr app)"
  by pat_completeness auto
termination
  by (relation "measure (\<lambda>(d, p, done, len, app). length d - p)") (auto simp: ret_iff)

declare app_desc_loop.simps [simp del]

definition ParseApplication :: "u8 list \<Rightarrow> nat \<Rightarrow> u16 \<Rightarrow> ait_app_desc \<Rightarrow> ait_app_desc res" where
  "ParseApplication d p len app = app_desc_loop d p 0 len app"

section \<open>Parsing keeps descriptions well-formed\<close>

lemma name_fill_loop_length: "name_fill_loop d p descLen num ns = Inr ns' \<Longrightarrow> length ns' = length ns"
proof (induction "length d - p" arbitrary: p descLen num ns rule: less_induct)
  case less
  show ?case
  proof (cases "4 < descLen \<and> p + 3 < length d")
    case True
    then have smaller: "length d - (p + 4) < length d - p" by linarith
    from less.prems True less.hyps [OF smaller] show ?thesis
      by (subst (asm) name_fill_loop.simps) (auto simp: ret_iff split: if_splits)
  next
    case False
    with less.prems show ?thesis
      by (subst (asm) name_fill_loop.simps) (auto simp: ret_iff split: if_splits)
  qed
qed

lemma ParseAppNameDesc_wf:
  assumes "length (names nm) = unat (numLangs nm)" and "ParseAppNameDesc d p nm = Inr nm'"
  shows "length (names nm') = unat (numLangs nm')"
  using assms by (auto simp: ParseAppNameDesc_def ret_iff dest!: name_fill_loop_length split: if_splits)

text \<open>A slot is taken only when it was free, and never for protocol 0.\<close>

lemma find_slot_free:
  assumes "length trns = AIT_MAX_NUM_PROTOCOLS" and "find_slot trns pid = Inr (i, free)"
    and "AIT_MAX_NUM_PROTOCOLS \<le> i" and "free < length trns"
  shows "protocolId (trns ! free) = 0" and "pid \<noteq> 0"
proof -
  from assms(1) obtain t0 t1 where t: "trns = [t0, t1]"
    by (auto simp: ait_consts length_Suc_conv numeral_2_eq_2)
  have u: "[0 ..< 2] = [0, 1 :: nat]" by (simp add: upt_rec)
  from assms(2-4) show "protocolId (trns ! free) = 0" and "pid \<noteq> 0"
    by (auto simp: t find_slot_def ait_consts u split: if_splits)
qed

lemma filled_update:
  assumes "k < length ts" and "protocolId (ts ! k) = 0" and "protocolId t \<noteq> 0"
  shows "filled (ts[k := t]) = filled ts + 1"
proof -
  have ts: "ts = take k ts @ ts ! k # drop (Suc k) ts"
    using assms(1) by (simp add: id_take_nth_drop)
  have "filled (ts[k := t]) = filled (take k ts @ t # drop (Suc k) ts)"
    using assms(1) by (simp add: upd_conv_take_nth_drop)
  also have "\<dots> = filled (take k ts @ ts ! k # drop (Suc k) ts) + 1"
    using assms(2,3) by (simp add: filled_def)
  finally show ?thesis by (simp flip: ts)
qed

lemma parse_transport_body_protocol:
  "parse_transport_body d p descLen pid t = Inr t' \<Longrightarrow> protocolId t' = pid"
  by (auto simp: parse_transport_body_def Let_def ret_iff split: if_splits)

lemma ParseTransportProtocolDesc_wf:
  assumes "length trns = AIT_MAX_NUM_PROTOCOLS" and "ParseTransportProtocolDesc d p trns = Inr (new, trns')"
  shows "length trns' = AIT_MAX_NUM_PROTOCOLS"
    and "filled trns' = (if new then filled trns + 1 else filled trns)"
proof -
  have "length trns' = AIT_MAX_NUM_PROTOCOLS \<and> filled trns' = (if new then filled trns + 1 else filled trns)"
  proof (cases new)
    case False
    with assms show ?thesis
      by (auto simp: ParseTransportProtocolDesc_def ret_iff split: if_splits prod.splits)
  next
    case True
    with assms(2) obtain pid i k t descLen
      where k: "find_slot trns pid = Inr (i, k)" "AIT_MAX_NUM_PROTOCOLS \<le> i" "k < length trns"
        and t: "parse_transport_body d (p + 1) descLen pid (trns ! k) = Inr t" "trns' = trns[k := t]"
      by (auto simp: ParseTransportProtocolDesc_def ret_iff split: if_splits)
    from find_slot_free [OF assms(1) k] parse_transport_body_protocol [OF t(1)]
    show ?thesis using True assms(1) filled_update [OF k(3)] t(2) by simp
  qed
  then show "length trns' = AIT_MAX_NUM_PROTOCOLS"
    and "filled trns' = (if new then filled trns + 1 else filled trns)" by auto
qed

lemma parse_descriptor_wf:
  assumes "wf_app app" and "parse_descriptor d tag p app = Inr app'"
  shows "wf_app app'"
proof (cases "tag = DTAG_TRANSPORT_PROTOCOL")
  case True
  with assms(2) obtain new trns
    where p: "ParseTransportProtocolDesc d p (transportArray app) = Inr (new, trns)"
      and app': "app' = app\<lparr>transportArray := trns,
                   numTransports := (if new then numTransports app + 1 else numTransports app)\<rparr>"
    by (auto simp: parse_descriptor_def dtags ret_iff)
  from assms(1) have len: "length (transportArray app) = AIT_MAX_NUM_PROTOCOLS" by (simp add: wf_app_def)
  note w = ParseTransportProtocolDesc_wf [OF len p]
  have "filled trns \<le> 2" using filled_le [of trns] w(1) by (simp add: ait_consts)
  moreover have n: "unat (numTransports app) = filled (transportArray app)"
    using assms(1) by (simp add: wf_app_def)
  ultimately have "unat (if new then numTransports app + 1 else numTransports app) = filled trns"
    using w(2) by (auto simp: unat_word_ariths)
  with assms(1) w show ?thesis by (simp add: wf_app_def app')
next
  case False
  with assms show ?thesis
    by (auto simp: parse_descriptor_def wf_app_def ret_iff split: if_splits dest: ParseAppNameDesc_wf)
qed

lemma app_desc_loop_wf: "wf_app app \<Longrightarrow> app_desc_loop d p done len app = Inr app' \<Longrightarrow> wf_app app'"
proof (induction d p "done" len app arbitrary: app' rule: app_desc_loop.induct)
  case (1 d p "done" len app)
  from "1.prems" show ?case
    by (subst (asm) app_desc_loop.simps)
      (auto simp: ret_iff split: if_splits dest: parse_descriptor_wf intro: "1.IH")
qed

lemma ParseApplication_wf: "wf_app app \<Longrightarrow> ParseApplication d p len app = Inr app' \<Longrightarrow> wf_app app'"
  unfolding ParseApplication_def by (rule app_desc_loop_wf)

text \<open>What the descriptor loop does not touch.\<close>

lemma parse_descriptor_frame:
  "parse_descriptor d tag p app = Inr app' \<Longrightarrow>
   orgId app' = orgId app \<and> appId app' = appId app \<and> controlCode app' = controlCode app
   \<and> scheme app' = scheme app \<and> appUsage app' = appUsage app"
  by (auto simp: parse_descriptor_def ret_iff split: if_splits)

lemma app_desc_loop_frame:
  "app_desc_loop d p done len app = Inr app' \<Longrightarrow>
   orgId app' = orgId app \<and> appId app' = appId app \<and> controlCode app' = controlCode app
   \<and> scheme app' = scheme app \<and> appUsage app' = appUsage app"
proof (induction d p "done" len app arbitrary: app' rule: app_desc_loop.induct)
  case (1 d p "done" len app)
  show ?case
  proof (cases "done < len")
    case True
    with "1.prems" obtain tag a tmp where
      s: "rd d p = Inr tag" "parse_descriptor d tag (p + 1) app = Inr a" "rd d (p + 1) = Inr tmp"
        "app_desc_loop d (p + 2 + unat tmp) (done + (ucast tmp + 2)) len a = Inr app'"
      by (subst (asm) app_desc_loop.simps) (auto simp: ret_iff)
    from "1.IH" [OF True s] parse_descriptor_frame [OF s(2)] show ?thesis by simp
  next
    case False
    with "1.prems" show ?thesis by (subst (asm) app_desc_loop.simps) simp
  qed
qed

end
