(* ===== verification/AitSection.thy ===== *)
theory AitSection
  imports AitParse
begin

text \<open>
  Sections of an AIT: the received-section mask, the two passes over the application loop of a
  section, \<open>ParseSection\<close> and \<open>ProcessSection\<close>, and the two tables the class \<open>Ait\<close> keeps (the one
  being collected and the last completed one).
\<close>

section \<open>The received-section mask\<close>

definition section_mask_index :: "u8 \<Rightarrow> nat" where
  "section_mask_index n = unat n div 8"

definition section_mask_shift :: "u8 \<Rightarrow> nat" where
  "section_mask_shift n = unat n mod 8"

definition SectionReceived :: "ait_table \<Rightarrow> u8 \<Rightarrow> bool res" where
  "SectionReceived t n =
     bindR (rd (sectionData t) (section_mask_index n)) (\<lambda>b.
       Inr (b AND push_bit (section_mask_shift n) 1 \<noteq> 0))"

fun full_slots :: "u8 list \<Rightarrow> nat list \<Rightarrow> bool res" where
  "full_slots sm [] = Inr True"
| "full_slots sm (i # is) = bindR (rd sm i) (\<lambda>b. if b \<noteq> 0xFF then Inr False else full_slots sm is)"

definition MarkSectionReceived :: "ait_table \<Rightarrow> u8 \<Rightarrow> u8 \<Rightarrow> (bool \<times> ait_table) res" where
  "MarkSectionReceived t sectionNumber lastSectionNumber =
     (let index = section_mask_index sectionNumber;
          bits = push_bit (section_mask_shift sectionNumber) 1 :: u8
      in bindR (rd (sectionData t) index) (\<lambda>b.
         bindR (wr (sectionData t) index (b OR bits)) (\<lambda>sm.
           let t = t\<lparr>sectionData := sm\<rparr> in
           if sectionNumber = 0 \<and> lastSectionNumber = 0 then Inr (True, t)
           else
             let index = section_mask_index lastSectionNumber in
             bindR (full_slots sm [0 ..< index]) (\<lambda>complete.
               if complete then
                 bindR (rd sm index) (\<lambda>b.
                   let bits = push_bit (section_mask_shift lastSectionNumber + 1) 1 - 1 :: u8
                   in Inr (b = bits, t))
               else Inr (False, t)))))"

section \<open>The application loop\<close>

text \<open>The index of an application id among the first \<open>numApps\<close> of a table, or \<open>numApps\<close>.\<close>

fun app_index_loop :: "ait_app_desc list \<Rightarrow> u16 \<Rightarrow> nat list \<Rightarrow> nat \<Rightarrow> nat res" where
  "app_index_loop apps app [] n = Inr n"
| "app_index_loop apps app (i # is) n =
     bindR (rd apps i) (\<lambda>a. if appId a = app then Inr i else app_index_loop apps app is n)"

definition app_index :: "ait_table \<Rightarrow> u16 \<Rightarrow> nat res" where
  "app_index t app = app_index_loop (appArray t) app [0 ..< unat (numApps t)] (unat (numApps t))"

text \<open>First pass: count the applications of the section, and those the table does not hold yet.\<close>

function count_apps_loop :: "u8 list \<Rightarrow> nat \<Rightarrow> nat \<Rightarrow> ait_table option \<Rightarrow> u8 \<Rightarrow> u8 \<Rightarrow> (u8 \<times> u8) res" where
  "count_apps_loop d p loopEnd m_ait num new =
     (if p < loopEnd then
        bindR (rd16 d (p + 4)) (\<lambda>app.
        bindR (rdlen d (p + 7)) (\<lambda>appDescLen.
        bindR (case m_ait of
                 None \<Rightarrow> Inr new
               | Some t \<Rightarrow> bindR (app_index t app) (\<lambda>i. Inr (if i = unat (numApps t) then new + 1 else new)))
          (\<lambda>new. count_apps_loop d (p + 9 + unat appDescLen) loopEnd m_ait (num + 1) new)))
      else Inr (num, new))"
  by pat_completeness auto
termination
  by (relation "measure (\<lambda>(d, p, loopEnd, m_ait, num, new). loopEnd - p)") auto

declare count_apps_loop.simps [simp del]

text \<open>
  Second pass: every application is parsed into its slot. For one that the table already holds the
  code moves seven bytes on from the application's control code before it reads the length of the
  descriptor loop.
\<close>

function apps_loop :: "u8 list \<Rightarrow> nat \<Rightarrow> nat \<Rightarrow> bool \<Rightarrow> u8 \<Rightarrow> ait_table \<Rightarrow> ait_table res" where
  "apps_loop d p loopEnd had_ait num t =
     (if p < loopEnd then
        bindR (rd32 d p) (\<lambda>org.
        bindR (rd16 d (p + 4)) (\<lambda>app.
        bindR (if had_ait then app_index t app else Inr (unat num)) (\<lambda>i.
          if \<not> had_ait \<or> i = unat (numApps t) then
            (if i < length (appArray t) then
               bindR (rd d (p + 6)) (\<lambda>code.
               bindR (rdlen d (p + 7)) (\<lambda>appDescLen.
               let a = appArray t ! i;
                   a = a\<lparr>orgId := org, appId := app, controlCode := code,
                         appDesc := (appDesc a)\<lparr>visibility := 2\<rparr>\<rparr>
               in bindR (ParseApplication d (p + 9) appDescLen a) (\<lambda>a.
                    apps_loop d (p + 9 + unat appDescLen) loopEnd had_ait (num + 1)
                      (t\<lparr>numApps := numApps t + 1, appArray := (appArray t)[i := a]\<rparr>))))
             else Inl OobWrite)
          else
            bindR (rdlen d (p + 13)) (\<lambda>appDescLen.
            bindR (rd (appArray t) i) (\<lambda>a.
            bindR (ParseApplication d (p + 15) appDescLen a) (\<lambda>a.
              apps_loop d (p + 15 + unat appDescLen) loopEnd had_ait (num + 1)
                (t\<lparr>appArray := (appArray t)[i := a]\<rparr>)))))))
      else Inr t)"
  by pat_completeness auto
termination
  by (relation "measure (\<lambda>(d, p, loopEnd, had_ait, num, t). loopEnd - p)") auto

declare apps_loop.simps [simp del]

section \<open>The class Ait\<close>

text \<open>
  \<open>m_ait\<close> and \<open>m_aitCompleted\<close> are shared pointers; after \<open>ApplyAitTable\<close> both point to one object,
  which \<open>ait_shared\<close> records.
\<close>

record ait_state =
  m_ait :: "ait_table option"
  m_aitCompleted :: "ait_table option"
  ait_shared :: bool

definition Ait_new :: ait_state where
  "Ait_new = \<lparr>m_ait = None, m_aitCompleted = None, ait_shared = False\<rparr>"

definition Ait_Get :: "ait_state \<Rightarrow> ait_table option" where
  "Ait_Get st = m_aitCompleted st"

definition Ait_Clear :: "ait_state \<Rightarrow> ait_state" where
  "Ait_Clear st = st\<lparr>m_ait := None, m_aitCompleted := None, ait_shared := False\<rparr>"

definition ApplyAitTable :: "ait_table \<Rightarrow> ait_state \<Rightarrow> ait_state" where
  "ApplyAitTable t st = st\<lparr>m_ait := Some t, m_aitCompleted := Some t, ait_shared := True\<rparr>"

text \<open>A write through the pointer that \<open>Get()\<close> returned.\<close>

definition Ait_update :: "ait_table \<Rightarrow> ait_state \<Rightarrow> ait_state" where
  "Ait_update t st = st\<lparr>m_aitCompleted := Some t, m_ait := (if ait_shared st then Some t else m_ait st)\<rparr>"

definition section_new :: "ait_table option \<Rightarrow> u8 \<Rightarrow> u8 \<Rightarrow> bool res" where
  "section_new m v sectionNumber = (case m of
      None \<Rightarrow> Inr True
    | Some t \<Rightarrow> bindR (SectionReceived t sectionNumber) (\<lambda>received.
        Inr (\<not> received \<or> version t \<noteq> v)))"

text \<open>From the common descriptors on: both passes over the section, into a copy of the table.\<close>

definition parse_section_apps :: "u8 list \<Rightarrow> ait_table option \<Rightarrow> u16 \<Rightarrow> u8 \<Rightarrow> u8 \<Rightarrow> u8 \<Rightarrow> ait_table res" where
  "parse_section_apps d m typ v sectionNumber lastSectionNumber =
     bindR (rdlen d 8) (\<lambda>commonLen.
     bindR (rdlen d (10 + unat commonLen)) (\<lambda>descLen.
       let start = 12 + unat commonLen; loopEnd = start + unat descLen in
       bindR (count_apps_loop d start loopEnd m 0 0) (\<lambda>(num, new).
         let new = (if m = None then num else new);
             t = (case m of
                    None \<Rightarrow> zero_table\<lparr>appType := typ, version := v, numApps := 0\<rparr>
                  | Some t \<Rightarrow> t)
         in bindR (MarkSectionReceived t sectionNumber lastSectionNumber) (\<lambda>(complete, t).
              let t = t\<lparr>complete := complete\<rparr> in
              if 0 < new then
                apps_loop d start loopEnd (m \<noteq> None) 0
                  (t\<lparr>appArray := resize (appArray t) (unat (numApps t) + unat new) zero_app\<rparr>)
              else Inr t))))"

definition ParseSection :: "u8 list \<Rightarrow> ait_state \<Rightarrow> (bool \<times> ait_state) res" where
  "ParseSection d st =
     bindR (rd16 d 3) (\<lambda>typ.
     bindR (rd d 5) (\<lambda>vb.
     bindR (rd d 6) (\<lambda>sectionNumber.
     bindR (rd d 7) (\<lambda>lastSectionNumber.
       let v = drop_bit 1 (vb AND 0x3E) in
       if typ \<noteq> APP_TYP_HBBTV then Inr (False, st)
       else bindR (section_new (m_ait st) v sectionNumber) (\<lambda>changed.
         if changed then
           (let m = (case m_ait st of None \<Rightarrow> None | Some t \<Rightarrow> if version t \<noteq> v then None else Some t)
            in bindR (parse_section_apps d m typ v sectionNumber lastSectionNumber) (\<lambda>t.
                 Inr (True, st\<lparr>m_ait := Some t, ait_shared := False\<rparr>)))
         else Inr (False, st))))))"

text \<open>\<open>nbytes\<close> is the size of the buffer.\<close>

definition ProcessSection :: "u8 list \<Rightarrow> ait_state \<Rightarrow> (bool \<times> ait_state) res" where
  "ProcessSection d st =
     (let nbytes = of_nat (length d) :: u32 in
      if 2 < nbytes then
        bindR (rd d 1) (\<lambda>a. bindR (rd d 2) (\<lambda>b.
          let aitSize = ((push_bit 8 (ucast a) OR ucast b) AND 0xFFF) + 3 :: u32
          in if nbytes \<noteq> aitSize then Inr (False, st)
             else bindR (ParseSection d st) (\<lambda>(changed, st).
               if changed then
                 (case m_ait st of
                    Some t \<Rightarrow> if complete t
                              then Inr (True, st\<lparr>m_aitCompleted := Some t, ait_shared := False\<rparr>)
                              else Inr (False, st)
                  | None \<Rightarrow> Inr (False, st))
               else Inr (False, st))))
      else Inr (False, st))"

section \<open>The mask as a set of section numbers\<close>

definition received :: "ait_table \<Rightarrow> nat \<Rightarrow> bool" where
  "received t k \<longleftrightarrow> bit (sectionData t ! (k div 8)) (k mod 8)"

lemma full_slots_ok:
  "\<forall>i \<in> set is. i < length sm \<Longrightarrow> full_slots sm is = Inr (\<forall>i \<in> set is. sm ! i = 0xFF)"
  by (induction "is") auto

lemma byte_eq_FF: "(b :: u8) = 0xFF \<longleftrightarrow> (\<forall>j < 8. bit b j)"
proof -
  have "(0xFF :: u8) = - 1" by simp
  then show ?thesis by (auto simp: bit_eq_iff dest: bit_u8_bound)
qed

lemma byte_eq_low:
  assumes "s < 8"
  shows "(b :: u8) = push_bit (s + 1) 1 - 1 \<longleftrightarrow> (\<forall>j < 8. bit b j \<longleftrightarrow> j \<le> s)"
proof -
  have "push_bit (s + 1) 1 - 1 = (mask (s + 1) :: u8)"
    by (simp add: mask_eq_exp_minus_1 push_bit_eq_mult del: power_Suc)
  then show ?thesis
    by (auto simp: bit_eq_iff bit_mask_iff less_Suc_eq_le dest: bit_u8_bound)
qed

lemma SectionReceived_ok:
  "length (sectionData t) = 32 \<Longrightarrow> SectionReceived t n = Inr (received t (unat n))"
proof -
  assume len: "length (sectionData t) = 32"
  have "unat n div 8 < 32" by (simp add: less_mult_imp_div_less)
  moreover have "b AND push_bit k 1 \<noteq> 0 \<longleftrightarrow> bit b k" if "k < 8" for b :: u8 and k
    by (simp add: and_exp_eq_0_iff_not_bit push_bit_eq_mult)
  ultimately show ?thesis
    using len by (simp add: SectionReceived_def section_mask_index_def section_mask_shift_def received_def)
qed

lemma received_wr:
  assumes "k < 256" and "length (sectionData t) = 32"
  shows "received (t\<lparr>sectionData := (sectionData t)
             [unat n div 8 := sectionData t ! (unat n div 8) OR push_bit (unat n mod 8) 1]\<rparr>) k
         \<longleftrightarrow> received t k \<or> k = unat (n :: u8)"
proof -
  have n: "unat n div 8 < 32" by (simp add: less_mult_imp_div_less)
  have "bit (push_bit (unat n mod 8) (1::u8)) (k mod 8) \<longleftrightarrow> k mod 8 = unat n mod 8"
    by (auto simp: push_bit_eq_mult bit_exp_iff)
  moreover have "k = unat n \<longleftrightarrow> k div 8 = unat n div 8 \<and> k mod 8 = unat n mod 8"
    by (metis div_mult_mod_eq)
  ultimately show ?thesis
    using assms n by (auto simp: received_def bit_or_iff nth_list_update)
qed


lemma all_received_split:
  "(\<forall>k \<le> l. received t k) \<longleftrightarrow>
   (\<forall>i < l div 8. \<forall>j < 8. bit (sectionData t ! i) j) \<and> (\<forall>j \<le> l mod 8. bit (sectionData t ! (l div 8)) j)"
  (is "?L \<longleftrightarrow> ?R1 \<and> ?R2")
proof (intro iffI conjI allI impI)
  fix i j
  assume L: ?L and i: "i < l div 8" and j: "j < (8::nat)"
  have "8 * i + j \<le> l" using i j by linarith
  with L have "received t (8 * i + j)" by blast
  with j show "bit (sectionData t ! i) j" by (simp add: received_def)
next
  fix j
  assume L: ?L and j: "j \<le> l mod 8"
  then have j8: "j < 8" by (meson le_less_trans mod_less_divisor zero_less_numeral)
  have "8 * (l div 8) + j \<le> l" using j by (metis add_le_cancel_left mult_div_mod_eq)
  with L have "received t (8 * (l div 8) + j)" by blast
  with j8 show "bit (sectionData t ! (l div 8)) j" by (simp add: received_def)
next
  fix k
  assume R: "?R1 \<and> ?R2" and k: "k \<le> l"
  show "received t k"
  proof (cases "k div 8 = l div 8")
    case True
    with k have "k mod 8 \<le> l mod 8" by (metis add_le_cancel_left mult_div_mod_eq)
    with R True show ?thesis by (simp add: received_def)
  next
    case False
    with k have "k div 8 < l div 8" by (meson div_le_mono le_neq_implies_less)
    with R show ?thesis by (simp add: received_def)
  qed
qed

definition mark_bit :: "ait_table \<Rightarrow> u8 \<Rightarrow> ait_table" where
  "mark_bit t n = t\<lparr>sectionData := (sectionData t)
     [unat n div 8 := sectionData t ! (unat n div 8) OR push_bit (unat n mod 8) 1]\<rparr>"

lemma MarkSectionReceived_ok:
  assumes len: "length (sectionData t) = 32" and n: "n \<le> lst"
    and inv: "\<forall>k < 256. received t k \<longrightarrow> k \<le> unat lst"
  shows "MarkSectionReceived t n lst = Inr (\<forall>k \<le> unat lst. received (mark_bit t n) k, mark_bit t n)"
proof -
  let ?sm = "sectionData (mark_bit t n)"
  let ?l = "unat lst"
  have l256: "?l < 256" by simp
  have ix: "unat n div 8 < 32" and lx: "?l div 8 < 32" by (simp_all add: less_mult_imp_div_less)
  have n': "unat n \<le> ?l" using n by (simp add: word_le_nat_alt)
  have len': "length ?sm = 32" using len by (simp add: mark_bit_def)
  have rec: "received (mark_bit t n) k \<longleftrightarrow> received t k \<or> k = unat n" if "k < 256" for k
    using received_wr [OF that len] by (simp add: mark_bit_def)
  have above: "j \<le> ?l mod 8" if "j < 8" and "bit (?sm ! (?l div 8)) j" for j
  proof -
    let ?k = "8 * (?l div 8) + j"
    have k: "?k < 256" using lx that(1) by linarith
    have "received (mark_bit t n) ?k" using that by (simp add: received_def)
    then have "?k \<le> ?l" using rec [OF k] inv k n' by auto
    then show ?thesis by (metis add_le_cancel_left mult_div_mod_eq)
  qed
  have full: "full_slots ?sm [0 ..< ?l div 8] = Inr (\<forall>i < ?l div 8. ?sm ! i = 0xFF)"
    using lx len' by (subst full_slots_ok) auto
  have eq: "?sm ! (?l div 8) = push_bit (?l mod 8 + 1) 1 - 1 \<longleftrightarrow> (\<forall>j \<le> ?l mod 8. bit (?sm ! (?l div 8)) j)"
    using above by (subst byte_eq_low) (auto simp: less_Suc_eq_le dest: bit_u8_bound)
  have complete: "(\<forall>k \<le> ?l. received (mark_bit t n) k) \<longleftrightarrow>
      (\<forall>i < ?l div 8. ?sm ! i = 0xFF) \<and> ?sm ! (?l div 8) = push_bit (?l mod 8 + 1) 1 - 1"
    unfolding eq by (subst all_received_split) (simp only: byte_eq_FF)
  show ?thesis
  proof (cases "n = 0 \<and> lst = 0")
    case True
    moreover have "received (mark_bit t n) (unat n)" by (subst rec) simp_all
    ultimately show ?thesis
      using len by (simp add: MarkSectionReceived_def section_mask_index_def section_mask_shift_def
          Let_def mark_bit_def)
  next
    case False
    have "MarkSectionReceived t n lst =
      bindR (full_slots ?sm [0 ..< ?l div 8]) (\<lambda>c.
        if c then bindR (rd ?sm (?l div 8)) (\<lambda>b. Inr (b = push_bit (?l mod 8 + 1) 1 - 1, mark_bit t n))
        else Inr (False, mark_bit t n))"
      using False len ix
      unfolding MarkSectionReceived_def section_mask_index_def section_mask_shift_def Let_def mark_bit_def
      by (auto cong: if_cong)
    also have "\<dots> = Inr (\<forall>k \<le> ?l. received (mark_bit t n) k, mark_bit t n)"
      using lx len' by (auto simp: full complete)
    finally show ?thesis .
  qed
qed

section \<open>Parsing keeps tables well-formed\<close>

lemma app_index_loop_bound:
  "app_index_loop apps app is n = Inr i \<Longrightarrow> i = n \<or> i \<in> set is"
  by (induction "is") (auto simp: ret_iff split: if_splits)

lemma app_index_bound: "app_index t app = Inr i \<Longrightarrow> i \<le> unat (numApps t)"
  using app_index_loop_bound by (fastforce simp: app_index_def)

lemma unat_plus1_le: "unat (w + 1 :: u8) \<le> unat w + 1"
  by (simp add: unat_word_ariths)

lemma wf_table_add:
  assumes "wf_table t" and "wf_app a" and "i < length (appArray t)" and "unat (numApps t) \<le> i"
  shows "wf_table (t\<lparr>numApps := numApps t + 1, appArray := (appArray t)[i := a]\<rparr>)"
proof (rule wf_tableI)
  show "unat (numApps (t\<lparr>numApps := numApps t + 1, appArray := (appArray t)[i := a]\<rparr>))
      \<le> length (appArray (t\<lparr>numApps := numApps t + 1, appArray := (appArray t)[i := a]\<rparr>))"
    using unat_plus1_le [of "numApps t"] assms(3,4) by simp
qed (use assms set_update_subset_insert [of "appArray t" i a] in \<open>auto simp: wf_table_def\<close>)

lemma wf_table_replace:
  "wf_table t \<Longrightarrow> wf_app a \<Longrightarrow> wf_table (t\<lparr>appArray := (appArray t)[i := a]\<rparr>)"
  using set_update_subset_insert [of "appArray t" i a] by (auto simp: wf_table_def)

lemma apps_loop_wf:
  "wf_table t \<Longrightarrow> (\<not> had_ait \<Longrightarrow> num = numApps t) \<Longrightarrow> apps_loop d p loopEnd had_ait num t = Inr t'
   \<Longrightarrow> wf_table t'"
proof (induction "loopEnd - p" arbitrary: p num t rule: less_induct)
  case less
  show ?case
  proof (cases "p < loopEnd")
    case False
    with less.prems show ?thesis by (subst (asm) apps_loop.simps) simp
  next
    case True
    with less.prems(3) obtain org app i
      where org: "rd32 d p = Inr org" and app: "rd16 d (p + 4) = Inr app"
        and i: "(if had_ait then app_index t app else Inr (unat num)) = Inr i"
      by (subst (asm) apps_loop.simps) (auto simp: bindR_eq_Inr)
    show ?thesis
    proof (cases "\<not> had_ait \<or> i = unat (numApps t)")
      case new: True
      with less.prems(2,3) True org app i obtain code len a
        where il: "i < length (appArray t)"
          and a: "ParseApplication d (p + 9) len
               ((appArray t ! i)\<lparr>orgId := org, appId := app, controlCode := code,
                                appDesc := (appDesc (appArray t ! i))\<lparr>visibility := 2\<rparr>\<rparr>) = Inr a"
          and rest: "apps_loop d (p + 9 + unat len) loopEnd had_ait (num + 1)
               (t\<lparr>numApps := numApps t + 1, appArray := (appArray t)[i := a]\<rparr>) = Inr t'"
        by (subst (asm) apps_loop.simps) (auto simp: ret_iff Let_def split: if_splits)
      have "wf_app (appArray t ! i)" using less.prems(1) il by (simp add: wf_table_def)
      then have "wf_app a" by (intro ParseApplication_wf [OF _ a]) (simp add: wf_app_def)
      moreover have "unat (numApps t) \<le> i" using new i less.prems(2) by (auto split: if_splits)
      ultimately have "wf_table (t\<lparr>numApps := numApps t + 1, appArray := (appArray t)[i := a]\<rparr>)"
        using less.prems(1) il by (intro wf_table_add)
      then show ?thesis
        using less.prems(2) by (intro less.hyps [OF _ _ _ rest]) (use True in auto)
    next
      case False
      with less.prems(3) True org app i obtain len a
        where il: "i < length (appArray t)" and a: "ParseApplication d (p + 15) len (appArray t ! i) = Inr a"
          and rest: "apps_loop d (p + 15 + unat len) loopEnd had_ait (num + 1)
               (t\<lparr>appArray := (appArray t)[i := a]\<rparr>) = Inr t'"
        by (subst (asm) apps_loop.simps) (auto simp: ret_iff split: if_splits)
      have "wf_app a" using less.prems(1) il by (intro ParseApplication_wf [OF _ a]) (simp add: wf_table_def)
      then show ?thesis
        using less.prems(1) False by (intro less.hyps [OF _ _ _ rest] wf_table_replace) (use True in auto)
    qed
  qed
qed

lemma MarkSectionReceived_frame:
  "MarkSectionReceived t n l = Inr (c, t') \<Longrightarrow>
   length (sectionData t') = length (sectionData t) \<and> numApps t' = numApps t \<and> appArray t' = appArray t
   \<and> version t' = version t \<and> appType t' = appType t"
  by (auto simp: MarkSectionReceived_def Let_def ret_iff split: if_splits)

definition tables_wf :: "ait_state \<Rightarrow> bool" where
  "tables_wf st \<longleftrightarrow> (\<forall>t. m_ait st = Some t \<or> m_aitCompleted st = Some t \<longrightarrow> wf_table t)"

lemma tables_wf_new [simp]: "tables_wf Ait_new"
  by (simp add: tables_wf_def Ait_new_def)

lemma tables_wf_Clear [simp]: "tables_wf (Ait_Clear st)"
  by (simp add: tables_wf_def Ait_Clear_def)

lemma tables_wf_Apply: "wf_table t \<Longrightarrow> tables_wf (ApplyAitTable t st)"
  by (simp add: tables_wf_def ApplyAitTable_def)

lemma tables_wf_update: "tables_wf st \<Longrightarrow> wf_table t \<Longrightarrow> tables_wf (Ait_update t st)"
  by (auto simp: tables_wf_def Ait_update_def)

lemma tables_wf_Get: "tables_wf st \<Longrightarrow> Ait_Get st = Some t \<Longrightarrow> wf_table t"
  by (simp add: tables_wf_def Ait_Get_def)

lemma second_pass_wf:
  assumes "wf_table t" and "had_ait \<or> numApps t = 0"
    and mk: "MarkSectionReceived t s l = Inr (c, t1)"
    and r: "(if b then apps_loop d p e had_ait 0
               (t1\<lparr>complete := c, appArray := resize (appArray (t1\<lparr>complete := c\<rparr>))
                  (unat (numApps (t1\<lparr>complete := c\<rparr>)) + n) zero_app\<rparr>)
             else Inr (t1\<lparr>complete := c\<rparr>)) = Inr t'"
  shows "wf_table t'"
proof -
  have wf1: "wf_table (t1\<lparr>complete := c\<rparr>)"
    using assms(1) MarkSectionReceived_frame [OF mk] by (simp add: wf_table_def)
  then have "wf_table (t1\<lparr>complete := c, appArray := resize (appArray t1) (unat (numApps t1) + n) zero_app\<rparr>)"
    using wf_resize [of "appArray t1"] by (simp add: wf_table_def)
  note wf2 = this
  have n0: "\<not> had_ait \<Longrightarrow> 0 = numApps t1"
    using assms(2) MarkSectionReceived_frame [OF mk] by simp
  show ?thesis
  proof (cases b)
    case True
    with r have "apps_loop d p e had_ait 0
        (t1\<lparr>complete := c, appArray := resize (appArray t1) (unat (numApps t1) + n) zero_app\<rparr>) = Inr t'"
      by simp
    then show ?thesis using n0 by (intro apps_loop_wf [OF wf2]) simp_all
  next
    case False
    with r wf1 show ?thesis by simp
  qed
qed

lemma parse_section_apps_wf:
  assumes m: "\<And>t. m = Some t \<Longrightarrow> wf_table t" and p: "parse_section_apps d m typ v s l = Inr t'"
  shows "wf_table t'"
proof -
  define t where "t = (case m of None \<Rightarrow> zero_table\<lparr>appType := typ, version := v, numApps := 0\<rparr> | Some t \<Rightarrow> t)"
  have t: "wf_table t" "m \<noteq> None \<or> numApps t = 0"
    using m wf_zero_table by (auto simp: t_def wf_table_def split: option.split)
  from p show ?thesis
    unfolding parse_section_apps_def Let_def bindR_eq_Inr t_def [symmetric]
    by (elim exE conjE, clarsimp simp: bindR_eq_Inr) (rule second_pass_wf [OF t], assumption+)
qed

lemma ParseSection_wf:
  assumes st: "tables_wf st" and p: "ParseSection d st = Inr (b, st')"
  shows "tables_wf st'"
proof -
  from p consider "st' = st"
    | v w ty s lst t where
        "parse_section_apps d (case m_ait st of None \<Rightarrow> None | Some t \<Rightarrow> if version t \<noteq> v then None else Some t)
           ty w s lst = Inr t" "st' = st\<lparr>m_ait := Some t, ait_shared := False\<rparr>"
    unfolding ParseSection_def Let_def by (auto simp: bindR_eq_Inr split: if_splits)
  then show ?thesis
  proof cases
    case 1
    with st show ?thesis by simp
  next
    case 2
    have "wf_table t"
      by (rule parse_section_apps_wf [OF _ 2(1)])
        (use st in \<open>auto simp: tables_wf_def split: option.splits if_splits\<close>)
    with st 2(2) show ?thesis by (auto simp: tables_wf_def)
  qed
qed

lemma ProcessSection_cases:
  assumes "ProcessSection d st = Inr (b, st')"
  obtains "st' = st" "\<not> b"
    | c st1 where "ParseSection d st = Inr (c, st1)"
        "st' = st1 \<and> \<not> b \<or> (\<exists>t. m_ait st1 = Some t \<and> complete t \<and> b
                        \<and> st' = st1\<lparr>m_aitCompleted := Some t, ait_shared := False\<rparr>)"
  using assms unfolding ProcessSection_def Let_def
  by (auto simp: bindR_eq_Inr split: if_splits option.splits)

lemma ProcessSection_wf:
  assumes "tables_wf st" and "ProcessSection d st = Inr (b, st')"
  shows "tables_wf st'"
  using assms(2)
proof (cases rule: ProcessSection_cases)
  case 1
  with assms(1) show ?thesis by simp
next
  case (2 c st1)
  with ParseSection_wf [OF assms(1) 2(1)] show ?thesis by (auto simp: tables_wf_def)
qed

section \<open>What the class promises\<close>

text \<open>A section that has been marked is a received section, and the second pass does not change that.\<close>

lemma MarkSectionReceived_received:
  assumes "MarkSectionReceived t n l = Inr (c, t')"
  shows "SectionReceived t' n = Inr True"
proof -
  let ?i = "section_mask_index n" and ?k = "section_mask_shift n"
  from assms have i: "?i < length (sectionData t)"
    and t': "sectionData t' = (sectionData t)[?i := sectionData t ! ?i OR push_bit ?k 1]"
    by (auto simp: MarkSectionReceived_def Let_def ret_iff split: if_splits)
  have k: "?k < 8" by (simp add: section_mask_shift_def)
  have "bit (sectionData t ! ?i OR push_bit ?k 1) ?k" using k by (simp add: bit_or_iff push_bit_eq_mult bit_exp_iff)
  then have "(sectionData t ! ?i OR push_bit ?k 1) AND push_bit ?k 1 \<noteq> 0"
    using k by (simp add: and_exp_eq_0_iff_not_bit push_bit_eq_mult)
  with i t' show ?thesis by (simp add: SectionReceived_def)
qed

lemma apps_loop_step:
  assumes "apps_loop d p loopEnd had_ait num t = Inr t'" and "p < loopEnd"
  obtains q num1 t1 where "p < q" "apps_loop d q loopEnd had_ait num1 t1 = Inr t'"
    "sectionData t1 = sectionData t \<and> version t1 = version t \<and> appType t1 = appType t \<and> complete t1 = complete t"
proof -
  from assms obtain app i where app: "rd16 d (p + 4) = Inr app"
      and i: "(if had_ait then app_index t app else Inr (unat num)) = Inr i"
    by (subst (asm) apps_loop.simps [of d p loopEnd had_ait num t]) (auto simp: bindR_eq_Inr)
  show thesis
  proof (cases "\<not> had_ait \<or> i = unat (numApps t)")
    case True
    with assms app i obtain len :: u16 and a where
      "apps_loop d (p + 9 + unat len) loopEnd had_ait (num + 1)
         (t\<lparr>numApps := numApps t + 1, appArray := (appArray t)[i := a]\<rparr>) = Inr t'"
      by (subst (asm) apps_loop.simps [of d p loopEnd had_ait num t]) (auto simp: ret_iff Let_def split: if_splits)
    then show thesis by (rule that [rotated]) auto
  next
    case False
    with assms app i obtain len :: u16 and a where
      "apps_loop d (p + 15 + unat len) loopEnd had_ait (num + 1) (t\<lparr>appArray := (appArray t)[i := a]\<rparr>) = Inr t'"
      by (subst (asm) apps_loop.simps [of d p loopEnd had_ait num t]) (auto simp: ret_iff split: if_splits)
    then show thesis by (rule that [rotated]) auto
  qed
qed

lemma apps_loop_frame:
  "apps_loop d p loopEnd had_ait num t = Inr t' \<Longrightarrow>
   sectionData t' = sectionData t \<and> version t' = version t \<and> appType t' = appType t \<and> complete t' = complete t"
proof (induction "loopEnd - p" arbitrary: p num t rule: less_induct)
  case less
  show ?case
  proof (cases "p < loopEnd")
    case False
    with less.prems show ?thesis by (subst (asm) apps_loop.simps) simp
  next
    case True
    with less.prems obtain q num1 t1 where q: "p < q" "apps_loop d q loopEnd had_ait num1 t1 = Inr t'"
      and t1: "sectionData t1 = sectionData t \<and> version t1 = version t \<and> appType t1 = appType t \<and> complete t1 = complete t"
      by (rule apps_loop_step)
    have "loopEnd - q < loopEnd - p" using True q(1) by simp
    from less.hyps [OF this q(2)] t1 show ?thesis by simp
  qed
qed

lemma parse_section_apps_received:
  assumes "parse_section_apps d m ty v s l = Inr t'"
    and "\<And>t. m = Some t \<Longrightarrow> version t = v"
  shows "version t' = v \<and> SectionReceived t' s = Inr True"
proof -
  define t where "t = (case m of None \<Rightarrow> zero_table\<lparr>appType := ty, version := v, numApps := 0\<rparr> | Some t \<Rightarrow> t)"
  have v: "version t = v" using assms(2) by (auto simp: t_def split: option.split)
  from assms(1) obtain c t1 where mk: "MarkSectionReceived t s l = Inr (c, t1)"
    and s': "sectionData t' = sectionData t1 \<and> version t' = version t1"
    unfolding parse_section_apps_def Let_def bindR_eq_Inr t_def [symmetric]
    by (elim exE conjE) (auto simp: bindR_eq_Inr split: if_splits dest!: apps_loop_frame)
  from MarkSectionReceived_received [OF mk] MarkSectionReceived_frame [OF mk] s' v
  show ?thesis by (simp add: SectionReceived_def)
qed

lemma ParseSection_changed:
  assumes "ParseSection d st = Inr (True, st1)" and "m_ait st2 = m_ait st1"
  shows "ParseSection d st2 = Inr (False, st2)"
proof -
  define cur where "cur v = (case m_ait st of None \<Rightarrow> None | Some t \<Rightarrow> if version t \<noteq> v then None else Some t)" for v
  from assms(1) obtain vb s l t where
      r: "rd16 d 3 = Inr APP_TYP_HBBTV" "rd d 5 = Inr vb" "rd d 6 = Inr s" "rd d 7 = Inr l"
    and p: "parse_section_apps d (cur (drop_bit 1 (vb AND 0x3E))) APP_TYP_HBBTV (drop_bit 1 (vb AND 0x3E)) s l = Inr t"
    and st1: "st1 = st\<lparr>m_ait := Some t, ait_shared := False\<rparr>"
    unfolding ParseSection_def Let_def cur_def by (auto simp: bindR_eq_Inr split: if_splits)
  have "version t = drop_bit 1 (vb AND 0x3E) \<and> SectionReceived t s = Inr True"
    by (rule parse_section_apps_received [OF p]) (auto simp: cur_def split: option.splits if_splits)
  with r st1 assms(2) show ?thesis
    by (simp add: ParseSection_def Let_def section_new_def)
qed

text \<open>
  C19. Sections are collected once: a section that has just been processed is ignored when it is
  received again, whatever it did the first time, and the tables stay as they are.
\<close>

theorem section_repeated:
  assumes "ProcessSection d st = Inr (b, st')"
  shows "ProcessSection d st' = Inr (False, st')"
  using assms
proof (cases rule: ProcessSection_cases)
  case 1
  with assms show ?thesis by simp
next
  case (2 c st1)
  show ?thesis
  proof (cases c)
    case True
    from 2 have "m_ait st' = m_ait st1" by auto
    with ParseSection_changed [of d st st1 st'] 2(1) True have "ParseSection d st' = Inr (False, st')" by simp
    with assms show ?thesis
      unfolding ProcessSection_def Let_def by (auto simp: bindR_eq_Inr split: if_splits)
  next
    case False
    with 2(1) have "st1 = st"
      unfolding ParseSection_def Let_def by (auto simp: bindR_eq_Inr split: if_splits)
    with assms 2(1) False have "b = False \<and> st' = st"
      unfolding ProcessSection_def Let_def by (auto simp: bindR_eq_Inr split: if_splits)
    with assms show ?thesis by simp
  qed
qed

text \<open>A section with one HTTP application, for the witnesses.\<close>

definition small_section :: "u8 list" where
  "small_section =
     [0x74, 0xF0, 0x28, 0x00, 0x10, 0xC3, 0, 0, 0xF0, 0, 0xF0, 0x1B,
      0, 0, 0, 19, 0, 1, 1, 0xF0, 0x12,
      0x02, 0x0E, 0, 3, 1, 8, 104, 116, 116, 112, 58, 47, 47, 97, 0, 0,
      0x16, 0,
      0, 0, 0, 0]"

theorem section_repeated_witness:
  "\<exists>st. ProcessSection small_section Ait_new = Inr (True, st)
     \<and> ProcessSection small_section st = Inr (False, st)"
proof -
  have "returns (ProcessSection small_section Ait_new) fst" by code_simp
  then obtain st where "ProcessSection small_section Ait_new = Inr (True, st)" by (auto elim!: returnsE)
  with section_repeated [OF this] show ?thesis by blast
qed

text \<open>Marking one section after another; the result is what the last call reports.\<close>

fun mark_sections :: "ait_table \<Rightarrow> u8 list \<Rightarrow> u8 \<Rightarrow> (bool \<times> ait_table) res" where
  "mark_sections t [] lst = Inr (False, t)"
| "mark_sections t [n] lst = MarkSectionReceived t n lst"
| "mark_sections t (n # m # ns) lst = bindR (MarkSectionReceived t n lst) (\<lambda>(c, t). mark_sections t (m # ns) lst)"

lemma u8_bound: "k \<le> unat (w :: u8) \<Longrightarrow> k < 256"
proof -
  assume k: "k \<le> unat w"
  have "unat w < 256" by simp
  with k show "k < 256" by linarith
qed

lemma received_mark_bit:
  "k < 256 \<Longrightarrow> length (sectionData t) = 32 \<Longrightarrow> received (mark_bit t n) k \<longleftrightarrow> received t k \<or> k = unat n"
  unfolding mark_bit_def by (rule received_wr)

lemma mark_sections_ok:
  assumes "length (sectionData t) = 32" and "\<forall>n \<in> set ns. n \<le> lst" and "ns \<noteq> []"
    and "\<forall>k < 256. received t k \<longrightarrow> k \<le> unat lst"
  shows "\<exists>t'. mark_sections t ns lst =
      Inr (\<forall>k \<le> unat lst. received t k \<or> (\<exists>n \<in> set ns. k = unat n), t')
    \<and> length (sectionData t') = 32
    \<and> (\<forall>k < 256. received t' k \<longleftrightarrow> received t k \<or> (\<exists>n \<in> set ns. k = unat n))"
  using assms
proof (induction t ns lst rule: mark_sections.induct)
  case (1 t lst)
  then show ?case by simp
next
  case (2 t n lst)
  from 2 show ?case
    by (intro exI [of _ "mark_bit t n"])
      (auto simp: MarkSectionReceived_ok received_mark_bit u8_bound, auto simp: mark_bit_def)
next
  case (3 t n m ns lst)
  let ?t = "mark_bit t n"
  have len: "length (sectionData ?t) = 32" using "3.prems"(1) by (simp add: mark_bit_def)
  have rec: "\<And>k. k < 256 \<Longrightarrow> received ?t k \<longleftrightarrow> received t k \<or> k = unat n"
    using "3.prems"(1) by (rule received_mark_bit [rotated])
  have n: "n \<le> lst" using "3.prems"(2) by simp
  have mk: "MarkSectionReceived t n lst = Inr (\<forall>k \<le> unat lst. received ?t k, ?t)"
    by (rule MarkSectionReceived_ok [OF "3.prems"(1) n "3.prems"(4)])
  have inv: "\<forall>k < 256. received ?t k \<longrightarrow> k \<le> unat lst"
    using "3.prems"(4) n rec by (auto simp: word_le_nat_alt)
  obtain t' where t': "mark_sections ?t (m # ns) lst =
        Inr (\<forall>k \<le> unat lst. received ?t k \<or> (\<exists>n \<in> set (m # ns). k = unat n), t')"
      "length (sectionData t') = 32"
      "\<forall>k < 256. received t' k \<longleftrightarrow> received ?t k \<or> (\<exists>n \<in> set (m # ns). k = unat n)"
    using "3.IH" [of "(\<forall>k \<le> unat lst. received ?t k, ?t)" "\<forall>k \<le> unat lst. received ?t k" ?t] mk len
      "3.prems"(2) inv by (simp, blast)
  from t' rec mk show ?case by (intro exI [of _ t']) (auto simp: u8_bound)
qed

text \<open>
  C20. A new table is complete exactly when every section from 0 to the last one has been received,
  in whatever order and however often the sections arrive.
\<close>

theorem sections_complete:
  assumes "sectionData t = replicate 32 0" and "ns \<noteq> []" and "\<forall>n \<in> set ns. n \<le> lst"
  shows "\<exists>t'. mark_sections t ns lst = Inr ({0 .. lst} \<subseteq> set ns, t')
    \<and> (\<forall>n. SectionReceived t' n = Inr (n \<in> set ns))"
proof -
  have len: "length (sectionData t) = 32" using assms(1) by simp
  have z: "\<not> received t k" if "k < 256" for k
    using that assms(1) by (simp add: received_def less_mult_imp_div_less)
  have un: "k = unat n \<longleftrightarrow> of_nat k = n" if "k < 256" for k and n :: u8
    using that by (auto simp: unat_of_nat)
  have eq: "(\<forall>k \<le> unat lst. received t k \<or> (\<exists>n \<in> set ns. k = unat n)) \<longleftrightarrow> {0 .. lst} \<subseteq> set ns" (is "?L \<longleftrightarrow> ?R")
  proof
    assume L: ?L
    show ?R
    proof
      fix n :: u8
      assume "n \<in> {0 .. lst}"
      then have "unat n \<le> unat lst" by (simp add: word_le_nat_alt)
      with L z u8_bound show "n \<in> set ns" by (metis word_unat_eq_iff)
    qed
  next
    assume R: ?R
    show ?L
    proof (intro allI impI disjI2)
      fix k
      assume k: "k \<le> unat lst"
      then have u: "unat (of_nat k :: u8) = k" using u8_bound [of k lst] by (simp add: unat_of_nat)
      then have "(of_nat k :: u8) \<in> {0 .. lst}" using k by (simp add: word_le_nat_alt)
      with R u show "\<exists>n \<in> set ns. k = unat n" by (intro bexI [of _ "of_nat k"]) auto
    qed
  qed
  from mark_sections_ok [OF len assms(3,2)] z eq obtain t'
    where "mark_sections t ns lst = Inr ({0 .. lst} \<subseteq> set ns, t')" and l: "length (sectionData t') = 32"
      and r: "\<forall>k < 256. received t' k \<longleftrightarrow> received t k \<or> (\<exists>n \<in> set ns. k = unat n)" by auto
  moreover have "SectionReceived t' n = Inr (n \<in> set ns)" for n
  proof -
    have b: "unat n < 256" by simp
    have "received t' (unat n) \<longleftrightarrow> n \<in> set ns" using r [rule_format, OF b] z [OF b] by (metis word_unat_eq_iff)
    with SectionReceived_ok [OF l] show ?thesis by simp
  qed
  ultimately show ?thesis by blast
qed

theorem sections_complete_witness:
  "\<exists>t'. mark_sections zero_table [9, 0, 3, 1, 2, 4, 8, 5, 6, 7, 9] 9 = Inr (True, t')"
proof -
  have z: "sectionData zero_table = replicate 32 0" by (simp add: zero_table_def)
  have "n \<in> set [9, 0, 3, 1, 2, 4, 8, 5, 6, 7, 9]" if "n \<in> {0 .. 9}" for n :: u8
  proof -
    from that have "unat n \<le> 9" by (simp add: word_le_nat_alt)
    then have "unat n \<in> {0, 1, 2, 3, 4, 5, 6, 7, 8, 9}" by auto
    then show ?thesis by (auto simp: word_unat_eq_iff)
  qed
  then have "{0 .. 9} \<subseteq> set [9, 0, 3, 1, 2, 4, 8, 5, 6, 7, 9 :: u8]" by blast
  with sections_complete [OF z, of "[9, 0, 3, 1, 2, 4, 8, 5, 6, 7, 9]" 9] show ?thesis by auto
qed

end
