(* ===== verification/AitRoundtrip.thy ===== *)
theory AitRoundtrip
  imports AitSection
begin

text \<open>
  The wire format of an AIT section, stated as an encoder of descriptors, applications and sections
  (ETSI TS 102 809, clause 5.3), and the proof that the parsers read it back: one lemma per
  descriptor, composed over the descriptor loop, the application loop and the section.
\<close>

section \<open>Bytes at an offset\<close>

definition bytes_at :: "u8 list \<Rightarrow> nat \<Rightarrow> u8 list \<Rightarrow> bool" where
  "bytes_at d p bs \<longleftrightarrow> p + length bs \<le> length d \<and> take (length bs) (drop p d) = bs"

named_theorems at_simps "reading fields out of a known run of bytes"

lemma bytes_at_whole: "bytes_at (pre @ bs @ post) (length pre) bs"
  by (simp add: bytes_at_def)

lemma bytes_at_Nil [at_simps]: "bytes_at d p [] \<longleftrightarrow> p \<le> length d"
  by (simp add: bytes_at_def)

lemma bytes_at_Cons [at_simps]: "bytes_at d p (b # bs) \<longleftrightarrow> rd d p = Inr b \<and> bytes_at d (p + 1) bs"
proof (cases "p < length d")
  case True
  then have "drop p d = d ! p # drop (p + 1) d" by (simp add: Cons_nth_drop_Suc)
  with True show ?thesis by (auto simp: bytes_at_def rd_def)
next
  case False
  then show ?thesis by (simp add: bytes_at_def rd_def)
qed

lemma bytes_at_append [at_simps]:
  "bytes_at d p (xs @ ys) \<longleftrightarrow> bytes_at d p xs \<and> bytes_at d (p + length xs) ys"
  by (induction xs arbitrary: p) (auto simp: at_simps, auto simp: bytes_at_def)

lemma bytes_at_str: "bytes_at d p (map byte_of s) \<Longrightarrow> n = length s \<Longrightarrow> rd_str d p n = Inr s"
  by (auto simp: bytes_at_def rd_str_def comp_def)

lemma bytes_at_bytes: "bytes_at d p bs \<Longrightarrow> n = length bs \<Longrightarrow> rd_bytes d p n = Inr bs"
  by (simp add: bytes_at_def rd_bytes_def)

section \<open>Fields\<close>

definition enc16 :: "u16 \<Rightarrow> u8 list" where
  "enc16 w = [ucast (drop_bit 8 w), ucast w]"

definition enc32 :: "u32 \<Rightarrow> u8 list" where
  "enc32 w = [ucast (drop_bit 24 w), ucast (drop_bit 16 w), ucast (drop_bit 8 w), ucast w]"

text \<open>A 12-bit length below four reserved bits that are set.\<close>

definition enc12 :: "nat \<Rightarrow> u8 list" where
  "enc12 n = [0xF0 OR of_nat (n div 256), of_nat (n mod 256)]"

definition enc_str :: "string \<Rightarrow> u8 list" where
  "enc_str s = of_nat (length s) # map byte_of s"

lemma length_enc [simp]:
  "length (enc16 w) = 2" "length (enc32 v) = 4" "length (enc12 n) = 2" "length (enc_str s) = 1 + length s"
  by (simp_all add: enc16_def enc32_def enc12_def enc_str_def)

lemma be16_enc: "be16 (ucast (drop_bit 8 w)) (ucast w) = w"
proof -
  have "push_bit 8 (ucast (ucast (drop_bit 8 w) :: u8)) + ucast (ucast w :: u8) =
      push_bit 8 (ucast (ucast (drop_bit 8 w) :: u8)) OR (ucast (ucast w :: u8) :: u16)"
    by (rule or_plus, rule bit_eqI) (auto simp: bit_simps)
  also have "\<dots> = w"
    by (rule bit_eqI) (auto simp: bit_simps)
  finally show ?thesis by (simp add: be16_def)
qed

lemma rd16_enc [at_simps]: "bytes_at d p (enc16 w) \<Longrightarrow> rd16 d p = Inr w"
  by (auto simp: enc16_def at_simps rd16_def be16_enc)

lemma rd32_enc [at_simps]: "bytes_at d p (enc32 w) \<Longrightarrow> rd32 d p = Inr w"
  by (auto simp: enc32_def at_simps rd32_def be32_enc numeral_2_eq_2 numeral_3_eq_3)

lemma rdlen_enc [at_simps]:
  assumes "bytes_at d p (enc12 n)" and "n < 4096"
  shows "rdlen d p = Inr (of_nat n)"
proof -
  let ?h = "of_nat (n div 256) :: u8" and ?l = "of_nat (n mod 256) :: u8"
  have "unat ?h = n div 256" "unat ?l = n mod 256" using assms(2) by (simp_all add: u8_of_nat)
  moreover have "(0xF0 OR ?h) AND 0x0F = ?h"
  proof -
    have "?h AND 0x0F = ?h AND mask 4" by (simp add: mask_eq_exp_minus_1)
    also have "\<dots> = take_bit 4 ?h" by (simp add: take_bit_eq_mask)
    also have "\<dots> = ?h"
      using assms(2) by (simp add: word_unat_eq_iff unsigned_take_bit_eq u8_of_nat take_bit_nat_eq_self)
    finally show ?thesis by (simp add: bit.conj_disj_distrib2)
  qed
  ultimately have "unat (be16 ((0xF0 OR ?h) AND 0x0F) ?l) = n" by (simp add: unat_be16)
  then have "be16 ((0xF0 OR ?h) AND 0x0F) ?l = of_nat n" 
    using assms(2) by (simp add: word_unat_eq_iff u16_of_nat)
  with assms(1) show ?thesis by (auto simp: enc12_def at_simps rdlen_def)
qed

section \<open>Descriptors\<close>

datatype descriptor =
    DApplication "app_profile list" bool u8 u8 "u8 list"
  | DName u8 u8 u8 string
  | DHttp u8 string "string list"
  | DCarousel u8 "dvb_triplet option" u8
  | DLocation string
  | DUsage u8
  | DBoundary "string list"
  | DRatings "(string \<times> u8) list"
  | DGraphics "u8 list"

definition enc_profile :: "app_profile \<Rightarrow> u8 list" where
  "enc_profile p = enc16 (appProfile p) @ [versionMajor p, versionMinor p, versionMicro p]"

definition enc_rating :: "string \<times> u8 \<Rightarrow> u8 list" where
  "enc_rating r = map byte_of (fst r) @ [snd r]"

text \<open>The body of a descriptor, after its tag and its length.\<close>

fun desc_body :: "descriptor \<Rightarrow> u8 list" where
  "desc_body (DApplication ps sb vis prio labels) =
     of_nat (5 * length ps) # concat (map enc_profile ps)
       @ [(if sb then 0x80 else 0) OR push_bit 5 vis, prio] @ labels"
| "desc_body (DName a b c s) = [a, b, c] @ enc_str s"
| "desc_body (DHttp lab base exts) =
     enc16 AIT_PROTOCOL_HTTP @ [lab] @ enc_str base @ [of_nat (length exts)] @ concat (map enc_str exts)"
| "desc_body (DCarousel lab None tag) = enc16 AIT_PROTOCOL_OBJECT_CAROUSEL @ [lab, 0, tag]"
| "desc_body (DCarousel lab (Some t) tag) =
     enc16 AIT_PROTOCOL_OBJECT_CAROUSEL @ [lab, 0x80]
       @ enc16 (originalNetworkId t) @ enc16 (transportStreamId t) @ enc16 (serviceId t) @ [tag]"
| "desc_body (DLocation s) = map byte_of s"
| "desc_body (DUsage u) = [u]"
| "desc_body (DBoundary bs) = of_nat (length bs) # concat (map enc_str bs)"
| "desc_body (DRatings rs) = concat (map enc_rating rs)"
| "desc_body (DGraphics ids) = 0 # ids"

fun desc_tag :: "descriptor \<Rightarrow> u8" where
  "desc_tag (DApplication ps sb vis prio labels) = DTAG_APP_DESC"
| "desc_tag (DName a b c s) = DTAG_APP_NAME"
| "desc_tag (DHttp lab base exts) = DTAG_TRANSPORT_PROTOCOL"
| "desc_tag (DCarousel lab t tag) = DTAG_TRANSPORT_PROTOCOL"
| "desc_tag (DLocation s) = DTAG_SIMPLE_APP_LOCATION"
| "desc_tag (DUsage u) = DTAG_APP_USAGE"
| "desc_tag (DBoundary bs) = DTAG_SIMPLE_APP_BOUNDARY"
| "desc_tag (DRatings rs) = DTAG_PARENTAL_RATING"
| "desc_tag (DGraphics ids) = DTAG_GRAPHICS_CONSTRAINTS"

definition enc_desc :: "descriptor \<Rightarrow> u8 list" where
  "enc_desc x = [desc_tag x, of_nat (length (desc_body x))] @ desc_body x"

text \<open>What a descriptor says about an application.\<close>

definition graphics_of :: "u8 \<Rightarrow> u16 list" where
  "graphics_of i = (if i = 4 then [1080] else if i = 5 then [2160] else if i = 6 then [4320] else [])"

definition rating_of :: "string \<times> u8 \<Rightarrow> parental_rating" where
  "rating_of r = \<lparr>pr_scheme = ''dvb-si'', pr_region = fst r, pr_value = snd r + 3\<rparr>"

text \<open>A transport goes to the first free slot.\<close>

definition free_slot :: "ait_app_desc \<Rightarrow> nat" where
  "free_slot a = (if protocolId (transportArray a ! 0) = 0 then 0 else 1)"

definition add_transport :: "(transport_desc \<Rightarrow> transport_desc) \<Rightarrow> ait_app_desc \<Rightarrow> ait_app_desc" where
  "add_transport f a =
     a\<lparr>transportArray := (transportArray a)[free_slot a := f (transportArray a ! free_slot a)],
       numTransports := numTransports a + 1\<rparr>"

fun apply_desc :: "descriptor \<Rightarrow> ait_app_desc \<Rightarrow> ait_app_desc" where
  "apply_desc (DApplication ps sb vis prio labels) a =
     a\<lparr>appDesc := \<lparr>visibility = vis, priority = prio, numLabels = of_nat (length labels),
                   appProfiles = appProfiles (appDesc a) @ ps, transportProtocolLabels = labels,
                   serviceBound = sb\<rparr>\<rparr>"
| "apply_desc (DName x y z s) a =
     a\<lparr>appName := \<lparr>numLangs = 1, names = [\<lparr>langCode = be24 x y z, lang_name = s\<rparr>]\<rparr>\<rparr>"
| "apply_desc (DHttp lab base exts) a =
     add_transport (\<lambda>t. t\<lparr>protocolId := AIT_PROTOCOL_HTTP, transportProtocolLabel := lab,
       url_sel := \<lparr>baseUrl = base, extensionUrls = extensionUrls (url_sel t) @ exts\<rparr>, failedToLoad := False\<rparr>) a"
| "apply_desc (DCarousel lab dvb tag) a =
     add_transport (\<lambda>t. t\<lparr>protocolId := AIT_PROTOCOL_OBJECT_CAROUSEL, transportProtocolLabel := lab,
       oc := \<lparr>oc_dvb = (case dvb of None \<Rightarrow> zero_triplet | Some x \<Rightarrow> x), componentTag = tag,
              remoteConnection = (dvb \<noteq> None)\<rparr>, failedToLoad := False\<rparr>) a"
| "apply_desc (DLocation s) a = a\<lparr>location := s\<rparr>"
| "apply_desc (DUsage u) a = a\<lparr>usageType := u\<rparr>"
| "apply_desc (DBoundary bs) a = a\<lparr>boundaries := boundaries a @ bs\<rparr>"
| "apply_desc (DRatings rs) a = a\<lparr>parentalRatings := map rating_of rs\<rparr>"
| "apply_desc (DGraphics ids) a = a\<lparr>graphicsConstraints := 720 # concat (map graphics_of ids)\<rparr>"

text \<open>
  When the parser reads a descriptor as it is meant: its parts fit their length fields, the field of
  the application has not been set by an earlier descriptor, a transport finds a free slot and is not
  a repetition, there is one name and one rating (of several names and ratings not all are read).
\<close>

definition slot_ok :: "u16 \<Rightarrow> ait_app_desc \<Rightarrow> bool" where
  "slot_ok pid a \<longleftrightarrow> length (transportArray a) = 2 \<and> protocolId (transportArray a ! 1) = 0
     \<and> protocolId (transportArray a ! 0) \<noteq> pid"

fun desc_ok :: "descriptor \<Rightarrow> ait_app_desc \<Rightarrow> bool" where
  "desc_ok (DApplication ps sb vis prio labels) a \<longleftrightarrow> visibility (appDesc a) = 2 \<and> vis < 4"
| "desc_ok (DName x y z s) a \<longleftrightarrow> names (appName a) = [] \<and> s \<noteq> []"
| "desc_ok (DHttp lab base exts) a \<longleftrightarrow> slot_ok AIT_PROTOCOL_HTTP a"
| "desc_ok (DCarousel lab dvb tag) a \<longleftrightarrow> slot_ok AIT_PROTOCOL_OBJECT_CAROUSEL a"
| "desc_ok (DLocation s) a \<longleftrightarrow> location a = [] \<and> s \<noteq> []"
| "desc_ok (DUsage u) a \<longleftrightarrow> usageType a \<noteq> 1"
| "desc_ok (DBoundary bs) a \<longleftrightarrow> True"
| "desc_ok (DRatings rs) a \<longleftrightarrow> parentalRatings a = [] \<and> length rs = 1 \<and> length (fst (rs ! 0)) = 3"
| "desc_ok (DGraphics ids) a \<longleftrightarrow> graphicsConstraints a = []"

section \<open>Each descriptor is read back\<close>

lemma flag_bits:
  assumes "vis < (4 :: u8)"
  shows "((if sb then 0x80 else 0) OR push_bit 5 vis) AND 0x80 \<noteq> 0 \<longleftrightarrow> sb"
    and "drop_bit 5 (((if sb then 0x80 else 0) OR push_bit 5 vis) AND 0x60) = vis"
proof -
  have "unat vis < 4" using assms by (simp add: word_less_nat_alt)
  then have "unat vis \<in> {0, 1, 2, 3}" by auto
  then have "vis \<in> {0, 1, 2, 3}" by (auto simp: word_unat_eq_iff)
  then show "((if sb then 0x80 else 0) OR push_bit 5 vis) AND 0x80 \<noteq> 0 \<longleftrightarrow> sb"
    and "drop_bit 5 (((if sb then 0x80 else 0) OR push_bit 5 vis) AND 0x60) = vis"
    by auto
qed

lemma oc_remote:
  assumes "rd d p = Inr 0x80" "rd16 d (p + 1) = Inr x" "rd16 d (p + 3) = Inr y" "rd16 d (p + 5) = Inr z"
    "rd d (p + 7) = Inr tag"
  shows "parse_oc_selector d p = Inr \<lparr>oc_dvb = \<lparr>originalNetworkId = x, transportStreamId = y, serviceId = z\<rparr>,
           componentTag = tag, remoteConnection = True\<rparr>"
  using assms by (simp add: parse_oc_selector_def Let_def)

text \<open>Offsets are kept as sums of numerals.\<close>

declare One_nat_def [simp del] add_2_eq_Suc [simp del] add_2_eq_Suc' [simp del]

lemma profile_loop_enc:
  assumes "bytes_at d p (concat (map enc_profile ps))" and "5 * length ps < 256"
  shows "profile_loop d p (of_nat (5 * length ps)) dl acc =
    Inr (p + 5 * length ps, dl - of_nat (5 * length ps), acc @ ps)"
  using assms
proof (induction ps arbitrary: p dl acc)
  case Nil
  then show ?case by (subst profile_loop.simps) simp
next
  case (Cons x ps)
  have five: "5 \<le> (of_nat (5 * length (x # ps)) :: u8)"
    unfolding word_le_nat_alt u8_of_nat [OF Cons.prems(2)] by simp
  have split: "of_nat (5 * length (x # ps)) - 5 = (of_nat (5 * length ps) :: u8)" by simp
  have r: "rd16 d p = Inr (appProfile x)" "rd d (p + 2) = Inr (versionMajor x)"
      "rd d (p + 3) = Inr (versionMinor x)" "rd d (p + 4) = Inr (versionMicro x)"
      "bytes_at d (p + 5) (concat (map enc_profile ps))"
    using Cons.prems(1) by (auto simp: enc_profile_def [of x] at_simps add.assoc)
  have ih: "profile_loop d (p + 5) (of_nat (5 * length ps)) (dl - 5) (acc @ [x]) =
      Inr (p + 5 + 5 * length ps, dl - 5 - of_nat (5 * length ps), (acc @ [x]) @ ps)"
    using Cons.prems by (intro Cons.IH r(5)) simp
  have eta: "\<lparr>appProfile = appProfile x, versionMajor = versionMajor x, versionMinor = versionMinor x,
      versionMicro = versionMicro x\<rparr> = x" by simp
  show ?case
    by (subst profile_loop.simps) (use five split r ih in \<open>simp add: eta algebra_simps del: of_nat_mult\<close>)
qed


lemma length_enc_profiles [simp]: "length (concat (map enc_profile ps)) = 5 * length ps"
  by (induction ps) (simp_all add: enc_profile_def)

lemma read_application:
  assumes b: "bytes_at d p (of_nat (length (desc_body x)) # desc_body x)" and l: "length (desc_body x) < 256"
    and x: "x = DApplication ps sb vis prio labels" and ok: "visibility desc = 2" "vis < 4"
  shows "ParseAppDesc d p desc = Inr \<lparr>visibility = vis, priority = prio, numLabels = of_nat (length labels),
           appProfiles = appProfiles desc @ ps, transportProtocolLabels = labels, serviceBound = sb\<rparr>"
proof -
  let ?n = "5 * length ps"
  let ?fl = "(if sb then 0x80 else 0) OR push_bit 5 vis"
  have n: "?n + 3 + length labels < 256" using l by (simp add: x)
  have r: "rd d p = Inr (of_nat (?n + 3 + length labels))" "rd d (p + 1) = Inr (of_nat ?n)"
      "bytes_at d (p + 2) (concat (map enc_profile ps))" "rd d (p + 2 + ?n) = Inr ?fl"
      "rd d (p + 2 + ?n + 1) = Inr prio" "bytes_at d (p + 2 + ?n + 2) labels"
    using b by (auto simp: x at_simps add.assoc)
  have dl: "of_nat (?n + (3 + length labels)) - of_nat ?n - 3 = (of_nat (length labels) :: u8)" by simp
  have pl: "profile_loop d (p + 2) (of_nat ?n) (of_nat (?n + 3 + length labels) - 1) (appProfiles desc)
      = Inr (p + 2 + ?n, of_nat (?n + 3 + length labels) - 1 - of_nat ?n, appProfiles desc @ ps)"
    using n by (intro profile_loop_enc r(3)) simp
  have lb: "rd_bytes d (p + 2 + ?n + 2) (unat (of_nat (length labels) :: u8)) = Inr labels"
    using n by (intro bytes_at_bytes r(6)) (simp add: u8_of_nat)
  show ?thesis
    using ok(1) flag_bits [OF ok(2), of sb] r pl lb
    by (simp add: ParseAppDesc_def dl add.assoc del: of_nat_add of_nat_mult)
qed

lemma read_name:
  assumes b: "bytes_at d p (of_nat (length (desc_body x)) # desc_body x)" and l: "length (desc_body x) < 256"
    and x: "x = DName u v w s" and ok: "names nm = []" "s \<noteq> []"
  shows "ParseAppNameDesc d p nm = Inr \<lparr>numLangs = 1, names = [\<lparr>langCode = be24 u v w, lang_name = s\<rparr>]\<rparr>"
proof -
  let ?l = "length s"
  have n: "?l + 4 < 256" using l by (simp add: x enc_str_def)
  have r: "rd d p = Inr (of_nat (?l + 4))" "rd d (p + 1) = Inr u" "rd d (p + 2) = Inr v" "rd d (p + 3) = Inr w"
      "rd d (p + 4) = Inr (of_nat ?l)" "bytes_at d (p + 5) (map byte_of s)"
    using b by (auto simp: x at_simps enc_str_def add.assoc)
  have str: "rd_str d (p + 5) (unat (of_nat ?l :: u8)) = Inr s"
    using n by (intro bytes_at_str r(6)) (simp add: u8_of_nat)
  have "unat (of_nat (?l + 4) :: u8) = ?l + 4" by (rule u8_of_nat [OF n])
  then have gt: "4 < (of_nat (?l + 4) :: u8)" using ok(2) by (simp add: word_less_nat_alt del: of_nat_add)
  have "unat (of_nat ?l :: u8) = ?l" using n by (intro u8_of_nat) simp
  then have pos: "0 < (of_nat ?l :: u8)" using ok(2) by (simp add: word_less_nat_alt)
  have z: "of_nat (?l + 4) - (of_nat ?l + 4) = (0 :: u8)" by simp
  have c: "name_count_loop d (p + 1) (of_nat (?l + 4)) 0 = Inr 1"
    by (subst name_count_loop.simps, subst name_count_loop.simps)
      (use gt pos z r in \<open>simp add: add.assoc del: of_nat_add\<close>)
  have f: "name_fill_loop d (p + 1) (of_nat (?l + 4)) 0 [zero_lang] = Inr [\<lparr>langCode = be24 u v w, lang_name = s\<rparr>]"
    by (subst name_fill_loop.simps)
      (use gt pos z r str in \<open>simp add: name_fill_loop.simps [of d "p + 5" 0] add.assoc wr_def del: of_nat_add\<close>)
  show ?thesis
    using ok(1) r(1) c f by (simp add: ParseAppNameDesc_def resize_def One_nat_def del: of_nat_add)
qed

lemma ext_urls_enc:
  assumes "bytes_at d p (concat (map enc_str ss))" and "\<forall>s \<in> set ss. length s < 256"
  shows "ext_url_loop d p (length ss) acc = Inr (acc @ ss)"
  using assms
proof (induction ss arbitrary: p acc)
  case Nil
  then show ?case by simp
next
  case (Cons s ss)
  have r: "rd d p = Inr (of_nat (length s))" "bytes_at d (p + 1) (map byte_of s)"
      "bytes_at d (p + 1 + length s) (concat (map enc_str ss))"
    using Cons.prems(1) by (auto simp: enc_str_def [of s] at_simps add.assoc)
  have l: "unat (of_nat (length s) :: u8) = length s" using Cons.prems(2) by (simp add: u8_of_nat)
  have str: "rd_str d (p + 1) (length s) = Inr s" by (rule bytes_at_str [OF r(2) refl])
  show ?case using r str l Cons.IH [OF r(3), of "acc @ [s]"] Cons.prems(2) by simp
qed

lemma boundary_enc: "boundary_loop d p n bs = ext_url_loop d p n bs"
  by (induction n arbitrary: p bs) simp_all

lemma concat_str_bound: "length (concat (map enc_str ss)) < n \<Longrightarrow> s \<in> set ss \<Longrightarrow> length s < n"
  by (induction ss) auto

lemma length_concat_str: "length ss \<le> length (concat (map enc_str ss))"
  by (induction ss) auto

lemma read_boundary:
  assumes b: "bytes_at d p (of_nat (length (desc_body x)) # desc_body x)" and l: "length (desc_body x) < 256"
    and x: "x = DBoundary ss"
  shows "ParseSimpleAppBoundaryDesc d p bs = Inr (bs @ ss)"
proof -
  have r: "rd d (p + 1) = Inr (of_nat (length ss))" "bytes_at d (p + 2) (concat (map enc_str ss))"
    using b by (auto simp: x at_simps add.assoc)
  have l': "length (concat (map enc_str ss)) < 255" using l by (simp add: x)
  then have n: "unat (of_nat (length ss) :: u8) = length ss"
    using length_concat_str [of ss] by (intro u8_of_nat) simp
  have "\<forall>s \<in> set ss. length s < 256" using concat_str_bound [OF l'] by fastforce
  with r n ext_urls_enc [OF r(2)] show ?thesis by (simp add: ParseSimpleAppBoundaryDesc_def boundary_enc)
qed

lemma find_slot_ok:
  assumes "slot_ok pid a" and "pid \<noteq> 0"
  shows "find_slot (transportArray a) pid = Inr (2, free_slot a)" and "free_slot a < 2"
    and "free_slot a < length (transportArray a)"
proof -
  obtain t0 t1 where t: "transportArray a = [t0, t1]"
    using assms(1) by (auto simp: slot_ok_def length_Suc_conv numeral_2_eq_2)
  have u: "[0 ..< 2] = [0, 1 :: nat]" by (simp add: upt_rec)
  show "find_slot (transportArray a) pid = Inr (2, free_slot a)"
    using assms by (auto simp: t find_slot_def slot_ok_def free_slot_def ait_consts u)
  show "free_slot a < 2" "free_slot a < length (transportArray a)" by (simp_all add: free_slot_def t)
qed

lemma read_http:
  assumes b: "bytes_at d p (of_nat (length (desc_body x)) # desc_body x)" and l: "length (desc_body x) < 256"
    and x: "x = DHttp lab base exts" and ok: "slot_ok AIT_PROTOCOL_HTTP a"
  shows "ParseTransportProtocolDesc d p (transportArray a) = Inr (True, transportArray (apply_desc x a))"
proof -
  let ?k = "free_slot a" and ?b = "length base"
  let ?n = "?b + 5 + length (concat (map enc_str exts))"
  have n: "?n < 256" using l by (simp add: x add.assoc)
  have r: "rd d p = Inr (of_nat ?n)" "bytes_at d (p + 1) (enc16 AIT_PROTOCOL_HTTP)" "rd d (p + 3) = Inr lab"
      "rd d (p + 4) = Inr (of_nat ?b)" "bytes_at d (p + 5) (map byte_of base)"
      "rd d (p + 5 + ?b) = Inr (of_nat (length exts))" "bytes_at d (p + 6 + ?b) (concat (map enc_str exts))"
    using b by (auto simp: x at_simps enc_str_def [of base] ac_simps)
  have un: "unat (of_nat ?n :: u8) = ?n" "unat (of_nat ?b :: u8) = ?b"
      "unat (of_nat (length exts) :: u8) = length exts"
    using n length_concat_str [of exts] by (simp_all add: u8_of_nat del: of_nat_add)
  have three: "3 \<le> (of_nat ?n :: u8)" "0 < (of_nat ?n :: u8) - 3"
    using un(1) by (simp_all add: word_le_nat_alt word_less_nat_alt unat_sub del: of_nat_add)
  have str: "rd_str d (p + 5) ?b = Inr base" by (rule bytes_at_str [OF r(5) refl])
  have "length (concat (map enc_str exts)) < 256" using n by simp
  then have "\<forall>s \<in> set exts. length s < 256" using concat_str_bound by blast
  from ext_urls_enc [OF r(7) this]
  have ext: "ext_url_loop d (p + 6 + ?b) (length exts) acc = Inr (acc @ exts)" for acc .
  have pid: "AIT_PROTOCOL_HTTP \<noteq> 0" "AIT_PROTOCOL_HTTP \<noteq> AIT_PROTOCOL_OBJECT_CAROUSEL" by (simp_all add: ait_consts)
  have url: "parse_url_selector d (p + 4) u = Inr (u\<lparr>baseUrl := base, extensionUrls := extensionUrls u @ exts\<rparr>)" for u
    using r(4,6) un(2,3) str ext [of "extensionUrls u"]
    by (simp add: parse_url_selector_def ac_simps)
  have "parse_transport_body d (p + 1) (of_nat ?n) AIT_PROTOCOL_HTTP t =
      Inr (t\<lparr>protocolId := AIT_PROTOCOL_HTTP, transportProtocolLabel := lab,
             url_sel := \<lparr>baseUrl = base, extensionUrls = extensionUrls (url_sel t) @ exts\<rparr>, failedToLoad := False\<rparr>)" for t
    using r(3) three pid url by (simp add: parse_transport_body_def Let_def add.assoc)
  moreover note find_slot_ok [OF ok pid(1)]
  ultimately show ?thesis
    using r(1) three rd16_enc [OF r(2)] ok
    by (simp add: ParseTransportProtocolDesc_def AIT_MAX_NUM_PROTOCOLS_def x add_transport_def slot_ok_def)
qed

lemma read_carousel:
  assumes b: "bytes_at d p (of_nat (length (desc_body x)) # desc_body x)" and l: "length (desc_body x) < 256"
    and x: "x = DCarousel lab dvb tag" and ok: "slot_ok AIT_PROTOCOL_OBJECT_CAROUSEL a"
  shows "ParseTransportProtocolDesc d p (transportArray a) = Inr (True, transportArray (apply_desc x a))"
proof -
  let ?n = "length (desc_body x)"
  let ?oc = "\<lparr>oc_dvb = (case dvb of None \<Rightarrow> zero_triplet | Some y \<Rightarrow> y), componentTag = tag,
              remoteConnection = (dvb \<noteq> None)\<rparr>"
  have n: "?n = (if dvb = None then 5 else 11)" by (cases dvb) (simp_all add: x)
  have r: "rd d p = Inr (of_nat ?n)" "bytes_at d (p + 1) (enc16 AIT_PROTOCOL_OBJECT_CAROUSEL)" "rd d (p + 3) = Inr lab"
    using b by (cases dvb; auto simp: x at_simps add.assoc)+
  have three: "3 \<le> (of_nat ?n :: u8)" "0 < (of_nat ?n :: u8) - 3" by (simp_all add: n)
  have oc: "parse_oc_selector d (p + 4) = Inr ?oc"
  proof (cases dvb)
    case None
    then have "rd d (p + 4) = Inr 0" "rd d (p + 5) = Inr tag" using b by (auto simp: x at_simps add.assoc)
    with None show ?thesis by (simp add: parse_oc_selector_def Let_def add.assoc)
  next
    case (Some t)
    then have "rd d (p + 4) = Inr 0x80" "bytes_at d (p + 5) (enc16 (originalNetworkId t))"
        "bytes_at d (p + 7) (enc16 (transportStreamId t))" "bytes_at d (p + 9) (enc16 (serviceId t))"
        "rd d (p + 11) = Inr tag"
      using b by (auto simp: x at_simps add.assoc)
    with oc_remote [of d "p + 4" "originalNetworkId t" "transportStreamId t" "serviceId t" tag] Some
      rd16_enc [of d "p + 5"] rd16_enc [of d "p + 7"] rd16_enc [of d "p + 9"]
    show ?thesis by (simp add: add.assoc)
  qed
  have pid: "AIT_PROTOCOL_OBJECT_CAROUSEL \<noteq> 0" by (simp add: ait_consts)
  have "parse_transport_body d (p + 1) (of_nat ?n) AIT_PROTOCOL_OBJECT_CAROUSEL t =
      Inr (t\<lparr>protocolId := AIT_PROTOCOL_OBJECT_CAROUSEL, transportProtocolLabel := lab, oc := ?oc, failedToLoad := False\<rparr>)" for t
    using r(3) three oc by (simp add: parse_transport_body_def Let_def add.assoc)
  moreover note find_slot_ok [OF ok pid]
  ultimately show ?thesis
    using r(1) three rd16_enc [OF r(2)] ok
    by (simp add: ParseTransportProtocolDesc_def AIT_MAX_NUM_PROTOCOLS_def x add_transport_def slot_ok_def)
qed

lemma graphics_enc:
  "bytes_at d (p + 1) bs \<Longrightarrow> graphics_loop d p (length bs) gs = Inr (gs @ concat (map graphics_of bs))"
proof (induction bs arbitrary: p gs)
  case Nil
  then show ?case by simp
next
  case (Cons b bs)
  then have "rd d (p + 1) = Inr b" "bytes_at d (p + 1 + 1) bs" by (simp_all add: at_simps)
  with Cons.IH [of "p + 1"] show ?case by (auto simp: graphics_of_def)
qed

lemma read_graphics:
  assumes b: "bytes_at d p (of_nat (length (desc_body x)) # desc_body x)" and l: "length (desc_body x) < 256"
    and x: "x = DGraphics ids" and ok: "gs = []"
  shows "ParseGraphicsConstraints d p gs = Inr (720 # concat (map graphics_of ids))"
proof -
  have r: "rd d p = Inr (of_nat (length ids + 1))" "bytes_at d (p + 1 + 1) ids"
    using b by (auto simp: x at_simps add.commute)
  have "unat (of_nat (length ids + 1) :: u8) = length ids + 1" using l by (intro u8_of_nat) (simp add: x)
  then have n: "nat (int (unat (of_nat (length ids + 1) :: u8)) - 1) = length ids" by (simp only: of_nat_add of_nat_1 add_diff_cancel_right' nat_int)
  show ?thesis
    unfolding ParseGraphicsConstraints_def r(1) bindR_Inr n ok using graphics_enc [OF r(2), of "[720]"] by simp
qed

lemma read_rating:
  assumes b: "bytes_at d p (of_nat (length (desc_body x)) # desc_body x)"
    and x: "x = DRatings rs" and ok: "length rs = 1" "length (fst (rs ! 0)) = 3"
  shows "ParseParentalRatingDesc d p [] = Inr (map rating_of rs)"
proof -
  obtain region v where rs: "rs = [(region, v)]" and len: "length region = 3"
    using ok by (cases rs) (auto simp: One_nat_def)
  have r: "rd d p = Inr 4" "bytes_at d (p + 1) (map byte_of region)" "rd d (p + 1 + 3) = Inr v"
    using b len by (auto simp: x rs enc_rating_def at_simps add.assoc)
  have "rd_str d (p + 1) 3 = Inr region" using r(2) len by (intro bytes_at_str) simp_all
  with r have "rating_loop d (p + 1) 4 [] = Inr [rating_of (region, v)]"
    by (subst rating_loop.simps) (simp add: Let_def rating_of_def One_nat_def)
  with r(1) show ?thesis by (simp add: ParseParentalRatingDesc_def rs)
qed

lemma read_location:
  assumes b: "bytes_at d p (of_nat (length (desc_body x)) # desc_body x)" and l: "length (desc_body x) < 256"
    and x: "x = DLocation s" and ok: "s \<noteq> []"
  shows "ParseSimpleAppLocationDesc d p [] = Inr s"
proof -
  have r: "rd d p = Inr (of_nat (length s))" "bytes_at d (p + 1) (map byte_of s)"
    using b by (auto simp: x at_simps)
  have u: "unat (of_nat (length s) :: u8) = length s" using l by (intro u8_of_nat) (simp add: x)
  then have "0 < (of_nat (length s) :: u8)" using ok by (simp add: word_less_nat_alt)
  with r(1) u bytes_at_str [OF r(2) refl] show ?thesis by (simp add: ParseSimpleAppLocationDesc_def)
qed

lemma read_desc:
  assumes b: "bytes_at d p (of_nat (length (desc_body x)) # desc_body x)" and l: "length (desc_body x) < 256"
    and ok: "desc_ok x a"
  shows "parse_descriptor d (desc_tag x) p a = Inr (apply_desc x a)"
proof (cases x)
  case (DApplication ps sb vis prio labels)
  with ok read_application [OF b l DApplication, of "appDesc a"] show ?thesis
    by (simp add: parse_descriptor_def dtags)
next
  case (DName u v w s)
  with ok read_name [OF b l DName, of "appName a"] show ?thesis by (simp add: parse_descriptor_def dtags)
next
  case (DHttp lab base exts)
  with ok read_http [OF b l DHttp, of a] show ?thesis
    by (simp add: parse_descriptor_def dtags add_transport_def)
next
  case (DCarousel lab t tag)
  with ok read_carousel [OF b l DCarousel, of a] show ?thesis
    by (simp add: parse_descriptor_def dtags add_transport_def)
next
  case (DLocation s)
  with ok read_location [OF b l DLocation] show ?thesis by (simp add: parse_descriptor_def dtags)
next
  case (DUsage u)
  with ok b show ?thesis by (simp add: parse_descriptor_def dtags at_simps)
next
  case (DBoundary bs)
  with read_boundary [OF b l DBoundary] show ?thesis by (simp add: parse_descriptor_def dtags)
next
  case (DRatings rs)
  with ok read_rating [OF b DRatings] show ?thesis by (simp add: parse_descriptor_def dtags)
next
  case (DGraphics ids)
  with ok read_graphics [OF b l DGraphics] show ?thesis by (simp add: parse_descriptor_def dtags)
qed

section \<open>The descriptor loop\<close>

definition enc_descs :: "descriptor list \<Rightarrow> u8 list" where
  "enc_descs xs = concat (map enc_desc xs)"

fun descs_ok :: "descriptor list \<Rightarrow> ait_app_desc \<Rightarrow> bool" where
  "descs_ok [] a \<longleftrightarrow> True"
| "descs_ok (x # xs) a \<longleftrightarrow> length (desc_body x) < 256 \<and> desc_ok x a \<and> descs_ok xs (apply_desc x a)"

lemma read_descs:
  assumes "bytes_at d p (enc_descs xs)" and "descs_ok xs a"
    and "unat dn + length (enc_descs xs) = unat len"
  shows "app_desc_loop d p dn len a = Inr (fold apply_desc xs a)"
  using assms
proof (induction xs arbitrary: p dn a)
  case Nil
  then have "dn = len" by (simp add: enc_descs_def word_unat_eq_iff)
  then show ?case by (subst app_desc_loop.simps) simp
next
  case (Cons x xs)
  let ?n = "length (desc_body x)"
  have n: "?n < 256" and ok: "desc_ok x a" "descs_ok xs (apply_desc x a)" using Cons.prems(2) by auto
  have tot: "unat dn + (?n + 2) + length (enc_descs xs) = unat len"
    using Cons.prems(3) by (simp add: enc_descs_def enc_desc_def add.assoc)
  have r: "rd d p = Inr (desc_tag x)" "rd d (p + 1) = Inr (of_nat ?n)"
      "bytes_at d (p + 1) (of_nat ?n # desc_body x)" "bytes_at d (p + 2 + ?n) (enc_descs xs)"
  proof -
    from Cons.prems(1) have b: "bytes_at d p (enc_desc x)" "bytes_at d (p + length (enc_desc x)) (enc_descs xs)"
      by (simp_all add: enc_descs_def bytes_at_append)
    from b(1) show "rd d p = Inr (desc_tag x)" "rd d (p + 1) = Inr (of_nat ?n)"
      "bytes_at d (p + 1) (of_nat ?n # desc_body x)"
      by (simp_all add: enc_desc_def at_simps add.assoc)
    have "p + length (enc_desc x) = p + 2 + ?n" by (simp add: enc_desc_def)
    with b(2) show "bytes_at d (p + 2 + ?n) (enc_descs xs)" by (simp only:)
  qed
  have u8: "unat (of_nat ?n :: u8) = ?n" by (rule u8_of_nat [OF n])
  have lt: "unat len < 65536" by simp
  have step: "unat (ucast (of_nat ?n :: u8) + 2 :: u16) = ?n + 2"
    using n by (simp add: unat_word_ariths unsigned_ucast_eq take_bit_eq_mod u8)
  have dn': "unat (dn + (ucast (of_nat ?n :: u8) + 2)) = unat dn + (?n + 2)"
  proof -
    have "unat dn + (?n + 2) < 65536" using tot lt by linarith
    then show ?thesis using step by (subst unat_add_lem [THEN iffD1]) (simp_all add: One_nat_def)
  qed
  have less: "dn < len" using tot by (simp add: word_less_nat_alt)
  have ih: "app_desc_loop d (p + 2 + ?n) (dn + (ucast (of_nat ?n :: u8) + 2)) len (apply_desc x a)
      = Inr (fold apply_desc xs (apply_desc x a))"
    using tot dn' by (intro Cons.IH r(4) ok(2)) simp
  show ?case
    by (subst app_desc_loop.simps) (simp add: less r(1,2) read_desc [OF r(3) n ok(1)] u8 ih)
qed

section \<open>The application loop\<close>

type_synonym app_spec = "u32 \<times> u16 \<times> u8 \<times> descriptor list"

definition enc_app :: "app_spec \<Rightarrow> u8 list" where
  "enc_app s = (case s of (org, app, code, xs) \<Rightarrow>
     enc32 org @ enc16 app @ [code] @ enc12 (length (enc_descs xs)) @ enc_descs xs)"

definition fresh_app :: "u32 \<Rightarrow> u16 \<Rightarrow> u8 \<Rightarrow> ait_app_desc" where
  "fresh_app org app code =
     zero_app\<lparr>orgId := org, appId := app, controlCode := code,
              appDesc := (appDesc zero_app)\<lparr>visibility := 2\<rparr>\<rparr>"

definition app_of :: "app_spec \<Rightarrow> ait_app_desc" where
  "app_of s = (case s of (org, app, code, xs) \<Rightarrow> fold apply_desc xs (fresh_app org app code))"

definition app_spec_ok :: "app_spec \<Rightarrow> bool" where
  "app_spec_ok s \<longleftrightarrow> (case s of (org, app, code, xs) \<Rightarrow>
     length (enc_descs xs) < 4096 \<and> descs_ok xs (fresh_app org app code))"

definition enc_apps :: "app_spec list \<Rightarrow> u8 list" where
  "enc_apps ss = concat (map enc_app ss)"

lemma app_bytes:
  assumes "bytes_at d p (enc_apps ((org, app, code, xs) # ss))" and "length (enc_descs xs) < 4096"
  shows "rd32 d p = Inr org" "rd16 d (p + 4) = Inr app" "rd d (p + 6) = Inr code"
    "rdlen d (p + 7) = Inr (of_nat (length (enc_descs xs)))" "bytes_at d (p + 9) (enc_descs xs)"
    "bytes_at d (p + 9 + length (enc_descs xs)) (enc_apps ss)"
  using assms by (auto simp: enc_apps_def enc_app_def at_simps add.assoc)

lemma length_enc_apps:
  "length (enc_apps ((org, app, code, xs) # ss)) = 9 + length (enc_descs xs) + length (enc_apps ss)"
  by (simp add: enc_apps_def enc_app_def)

lemma count_enc:
  assumes "bytes_at d p (enc_apps ss)" and "\<forall>s \<in> set ss. app_spec_ok s"
  shows "count_apps_loop d p (p + length (enc_apps ss)) None num new = Inr (num + of_nat (length ss), new)"
  using assms
proof (induction ss arbitrary: p num)
  case Nil
  then show ?case by (subst count_apps_loop.simps) (simp add: enc_apps_def)
next
  case (Cons s ss)
  obtain org app code xs where s: "s = (org, app, code, xs)" by (cases s)
  let ?n = "length (enc_descs xs)"
  have n: "?n < 4096" using Cons.prems(2) by (simp add: s app_spec_ok_def)
  note r = app_bytes [OF Cons.prems(1) [unfolded s] n]
  have u: "unat (of_nat ?n :: u16) = ?n" using n by (intro u16_of_nat) simp
  have "p + length (enc_apps (s # ss)) = p + 9 + ?n + length (enc_apps ss)"
    unfolding s length_enc_apps by simp
  moreover have "count_apps_loop d (p + 9 + ?n) (p + 9 + ?n + length (enc_apps ss)) None (num + 1) new
      = Inr (num + 1 + of_nat (length ss), new)"
    using Cons.prems(2) by (intro Cons.IH r(6)) simp
  ultimately show ?case
    by (subst count_apps_loop.simps) (simp add: r u ac_simps)
qed

lemma apps_enc:
  assumes "bytes_at d p (enc_apps ss)" and "\<forall>s \<in> set ss. app_spec_ok s"
    and "appArray t = done @ replicate (length ss) zero_app" and "unat num = length done"
    and "length done + length ss < 256"
  shows "apps_loop d p (p + length (enc_apps ss)) False num t =
    Inr (t\<lparr>numApps := numApps t + of_nat (length ss), appArray := done @ map app_of ss\<rparr>)"
  using assms
proof (induction ss arbitrary: p num t "done")
  case Nil
  then show ?case by (subst apps_loop.simps) (simp add: enc_apps_def)
next
  case (Cons s ss)
  obtain org app code xs where s: "s = (org, app, code, xs)" by (cases s)
  let ?n = "length (enc_descs xs)" and ?z = "fresh_app org app code"
  let ?t = "t\<lparr>numApps := numApps t + 1, appArray := (appArray t)[length done := app_of s]\<rparr>"
  have n: "?n < 4096" and ok: "descs_ok xs ?z" using Cons.prems(2) by (simp_all add: s app_spec_ok_def)
  note r = app_bytes [OF Cons.prems(1) [unfolded s] n]
  have u: "unat (of_nat ?n :: u16) = ?n" using n by (intro u16_of_nat) simp
  have num1: "unat (num + 1) = length done + 1"
    using Cons.prems(4,5) by (simp add: unat_word_ariths One_nat_def)
  have z: "appArray t ! length done = zero_app" "length done < length (appArray t)"
    using Cons.prems(3) by (simp_all add: nth_append One_nat_def)
  have parse: "ParseApplication d (p + 9) (of_nat ?n) ?z = Inr (app_of s)"
    unfolding ParseApplication_def using read_descs [OF r(5) ok, of 0] u by (simp add: s app_of_def)
  have ih: "apps_loop d (p + 9 + ?n) (p + 9 + ?n + length (enc_apps ss)) False (num + 1) ?t =
      Inr (?t\<lparr>numApps := numApps ?t + of_nat (length ss), appArray := (done @ [app_of s]) @ map app_of ss\<rparr>)"
    using Cons.prems num1 by (intro Cons.IH r(6)) (simp_all add: list_update_append One_nat_def)
  have e: "p + length (enc_apps (s # ss)) = p + 9 + ?n + length (enc_apps ss)"
    unfolding s length_enc_apps by simp
  show ?case
    unfolding e using parse ih
    by (subst apps_loop.simps) (simp add: r u z Cons.prems(4) Let_def fresh_app_def add.assoc)
qed

section \<open>The section\<close>

text \<open>Section 0 of 0 with version \<open>v\<close>, the given applications and the four bytes of a checksum.\<close>

definition enc_section :: "u8 \<Rightarrow> app_spec list \<Rightarrow> u8 list \<Rightarrow> u8 list" where
  "enc_section v ss crc =
     [0x74] @ enc12 (9 + length (enc_apps ss) + length crc) @ enc16 APP_TYP_HBBTV
       @ [0xC1 OR push_bit 1 v, 0, 0] @ enc12 0 @ enc12 (length (enc_apps ss)) @ enc_apps ss @ crc"

lemma take_bit_size:
  "take_bit 12 (push_bit 8 (ucast a) OR (ucast l :: u32)) = push_bit 8 (ucast (take_bit 4 (a :: u8))) OR ucast (l :: u8)"
  by (rule bit_word_eqI) (auto simp: bit_simps dest: bit_u8_bound)

lemma size_enc:
  assumes "n < 4096"
  shows "(push_bit 8 (ucast (0xF0 OR of_nat (n div 256) :: u8)) OR ucast (of_nat (n mod 256) :: u8)) AND 0xFFF
       = (of_nat n :: u32)"
proof -
  let ?h = "of_nat (n div 256) :: u8" and ?l = "of_nat (n mod 256) :: u8"
  have h: "unat ?h = n div 256" and l: "unat ?l = n mod 256" using assms by (simp_all add: u8_of_nat)
  have "(push_bit 8 (ucast (0xF0 OR ?h)) OR ucast ?l) AND 0xFFF = take_bit 12 (push_bit 8 (ucast (0xF0 OR ?h)) OR (ucast ?l :: u32))"
    by (simp add: take_bit_eq_mask mask_eq_exp_minus_1)
  also have "\<dots> = push_bit 8 (ucast (take_bit 4 (0xF0 OR ?h))) OR ucast ?l"
    by (rule take_bit_size)
  also have "take_bit 4 (0xF0 OR ?h) = ?h"
  proof -
    have "take_bit 4 (0xF0 OR ?h) = take_bit 4 ?h" by (simp add: One_nat_def)
    also have "\<dots> = ?h" using assms by (simp add: word_unat_eq_iff unsigned_take_bit_eq h take_bit_nat_eq_self)
    finally show ?thesis .
  qed
  also have "push_bit 8 (ucast ?h) OR ucast ?l = push_bit 8 (ucast ?h) + (ucast ?l :: u32)"
    by (rule or_plus [symmetric], rule bit_word_eqI) (auto simp: bit_simps)
  also have "\<dots> = of_nat n"
  proof -
    have "ucast ?h = (of_nat (n div 256) :: u32)" and "ucast ?l = (of_nat (n mod 256) :: u32)"
      by (subst of_nat_unat [symmetric], simp only: h l)+
    then have "push_bit 8 (ucast ?h) + (ucast ?l :: u32) = of_nat (n div 256) * 256 + of_nat (n mod 256)"
      by (simp add: push_bit_eq_mult)
    also have "\<dots> = of_nat (n div 256 * 256 + n mod 256)" by (simp only: of_nat_add of_nat_mult of_nat_numeral)
    finally show ?thesis by (simp only: div_mult_mod_eq)
  qed
  finally show ?thesis .
qed

lemma version_byte:
  assumes "v < (32 :: u8)"
  shows "drop_bit 1 ((0xC1 OR push_bit 1 v) AND 0x3E) = v"
proof -
  have "\<forall>k \<in> set [0 ..< 32]. drop_bit 1 ((0xC1 OR push_bit 1 (of_nat k)) AND 0x3E) = (of_nat k :: u8)"
    by code_simp
  moreover have "unat v \<in> set [0 ..< 32]" using assms by (simp add: word_less_nat_alt)
  ultimately have "drop_bit 1 ((0xC1 OR push_bit 1 (of_nat (unat v))) AND 0x3E) = (of_nat (unat v) :: u8)" by blast
  then show ?thesis by simp
qed


lemma section_bytes:
  fixes v ss crc
  defines "n \<equiv> 9 + length (enc_apps ss) + length crc"
  assumes "bytes_at d 0 (enc_section v ss crc)"
  shows "rd d 1 = Inr (0xF0 OR of_nat (n div 256))" and "rd d 2 = Inr (of_nat (n mod 256))"
    and "bytes_at d 3 (enc16 APP_TYP_HBBTV)" and "rd d 5 = Inr (0xC1 OR push_bit 1 v)"
    and "rd d 6 = Inr 0" and "rd d 7 = Inr 0" and "bytes_at d 8 (enc12 0)"
    and "bytes_at d 10 (enc12 (length (enc_apps ss)))" and "bytes_at d 12 (enc_apps ss)"
  using assms(2) by (simp_all add: enc_section_def enc12_def [of n] at_simps flip: n_def)

declare One_nat_def [simp] add_2_eq_Suc [simp] add_2_eq_Suc' [simp]


text \<open>Two applications, over HTTP and over a carousel.\<close>

definition demo_specs :: "app_spec list" where
  "demo_specs =
     [(19, 1, 1,
       [DApplication [\<lparr>appProfile = 0, versionMajor = 1, versionMinor = 1, versionMicro = 1\<rparr>] True 3 5 [1],
        DName 101 110 103 ''News'', DHttp 1 ''http://a/'' [''http://b/''], DLocation ''i.html'',
        DBoundary [''http://c''], DRatings [(''GBR'', 15)]]),
      (19, 2, 2, [DCarousel 2 (Some \<lparr>originalNetworkId = 1, transportStreamId = 2, serviceId = 3\<rparr>) 9,
                  DUsage 1, DGraphics [4, 6]])]"


section \<open>Where the parser does not read what was sent\<close>

text \<open>The loop over ratings stops before the last one.\<close>

lemma rating_loop_enc:
  assumes "bytes_at d p (concat (map enc_rating rs))" and "\<forall>r \<in> set rs. length (fst r) = 3"
    and "2 \<le> length rs" and "length rs < 64"
  shows "rating_loop d p (of_nat (4 * length rs)) acc = Inr (acc @ map rating_of (butlast rs))"
  using assms
proof (induction rs arbitrary: p acc)
  case Nil
  then show ?case by simp
next
  case (Cons r rs)
  have len: "length (fst r) = 3" using Cons.prems(2) by simp
  have b: "bytes_at d p (map byte_of (fst r))" "rd d (p + 3) = Inr (snd r)"
      "bytes_at d (p + 4) (concat (map enc_rating rs))"
    using Cons.prems(1) len by (simp_all add: enc_rating_def [of r] at_simps add.commute)
  have str: "rd_str d p 3 = Inr (fst r)" using b(1) len by (intro bytes_at_str) simp_all
  have sub: "of_nat (4 * length (r # rs)) - 4 = (of_nat (4 * length rs) :: u8)" by simp
  have u: "unat (of_nat (4 * length rs) :: u8) = 4 * length rs" using Cons.prems(4) by (intro u8_of_nat) simp
  have step: "rating_loop d p (of_nat (4 * length (r # rs))) acc =
      (if 4 < (of_nat (4 * length rs) :: u8) then rating_loop d (p + 4) (of_nat (4 * length rs)) (acc @ [rating_of r])
       else Inr (acc @ [rating_of r]))"
    using str b(2) by (subst rating_loop.simps) (simp add: Let_def rating_of_def sub del: of_nat_mult)
  show ?case
  proof (cases "2 \<le> length rs")
    case True
    then have "4 < (of_nat (4 * length rs) :: u8)" using u by (simp add: word_less_nat_alt del: of_nat_mult)
    with step Cons.IH [OF b(3) _ True] Cons.prems(2,4) True show ?thesis by auto
  next
    case False
    with Cons.prems(3) have "length rs = 1" by simp
    then obtain q where "rs = [q]" by (auto simp: length_Suc_conv)
    with step show ?thesis by simp
  qed
qed

text \<open>
  Of the parental ratings of a descriptor with two or more, all but the last are stored.
\<close>

theorem last_rating_dropped:
  assumes "bytes_at d p (of_nat (4 * length rs) # concat (map enc_rating rs))"
    and "\<forall>r \<in> set rs. length (fst r) = 3" and "2 \<le> length rs" and "length rs < 64"
  shows "ParseParentalRatingDesc d p [] = Inr (map rating_of (butlast rs))"
proof -
  have "rd d p = Inr (of_nat (4 * length rs))" "bytes_at d (p + 1) (concat (map enc_rating rs))"
    using assms(1) by (simp_all add: at_simps)
  with rating_loop_enc [OF _ assms(2-4), of d "p + 1" "[]"] show ?thesis
    by (simp add: ParseParentalRatingDesc_def del: of_nat_mult)
qed

theorem last_rating_dropped_witness:
  "ParseParentalRatingDesc ([8] @ map byte_of ''GBR'' @ [15] @ map byte_of ''DEU'' @ [13]) 0 []
   = Inr [\<lparr>pr_scheme = ''dvb-si'', pr_region = ''GBR'', pr_value = 18\<rparr>]"
proof -
  let ?rs = "[(''GBR'', 15), (''DEU'', 13 :: u8)]"
  have "bytes_at ([8] @ map byte_of ''GBR'' @ [15] @ map byte_of ''DEU'' @ [13]) 0
      (of_nat (4 * length ?rs) # concat (map enc_rating ?rs))" by code_simp
  from last_rating_dropped [OF this] show ?thesis by (simp add: rating_of_def)
qed

text \<open>
  A transport descriptor for a protocol that the application has already, or for a third
  protocol, makes the parser write past the two transports of the application.
\<close>

theorem transport_overflow:
  assumes "length trns = AIT_MAX_NUM_PROTOCOLS" and "rd d p = Inr len" and "3 \<le> len"
    and "rd16 d (p + 1) = Inr pid" and "protocolId (trns ! 0) \<noteq> 0"
    and "protocolId (trns ! 0) = pid \<or> protocolId (trns ! 1) \<noteq> 0"
  shows "ParseTransportProtocolDesc d p trns = Inl OobWrite"
proof -
  obtain t0 t1 where t: "trns = [t0, t1]"
    using assms(1) by (auto simp: ait_consts length_Suc_conv numeral_2_eq_2)
  have u: "[0 ..< 2] = [0, 1 :: nat]" by (simp add: upt_rec)
  have "find_slot trns pid = Inr (2, 2)"
    using assms(5,6) by (auto simp: t find_slot_def ait_consts u)
  with assms(1-4) show ?thesis by (simp add: ParseTransportProtocolDesc_def ait_consts)
qed

theorem transport_overflow_witness:
  "ParseTransportProtocolDesc (enc_desc (DHttp 1 ''http://b'' [])) 1
     (transportArray (apply_desc (DHttp 1 ''http://a'' []) zero_app)) = Inl OobWrite"
proof -
  let ?d = "enc_desc (DHttp 1 ''http://b'' [])" and ?a = "apply_desc (DHttp 1 ''http://a'' []) zero_app"
  have "length (transportArray ?a) = AIT_MAX_NUM_PROTOCOLS" "rd ?d 1 = Inr 13" "3 \<le> (13 :: u8)"
    "rd16 ?d (1 + 1) = Inr AIT_PROTOCOL_HTTP" "protocolId (transportArray ?a ! 0) \<noteq> 0"
    "protocolId (transportArray ?a ! 0) = AIT_PROTOCOL_HTTP \<or> protocolId (transportArray ?a ! 1) \<noteq> 0"
    by code_simp+
  then show ?thesis by (rule transport_overflow)
qed

end
