(* ===== verification/Session.thy ===== *)
theory Session
  imports AitTypes
begin

text \<open>
  What the application manager sees of its environment. The abstract class
  \<open>ApplicationSessionCallback\<close> is implemented by the integrations: its commands are recorded, in
  order, as events; its queries, the XML library's parser, the build's HbbTV version and the contents
  of memory the code reads without having initialised it are the fields of a record that every
  operation takes as an argument.
\<close>

section \<open>XML documents\<close>

text \<open>
  The part of a libxml2 tree the code looks at: elements with a name, attributes and children;
  and nodes of the other kinds with their content. An attribute without a value has no child node.
\<close>

datatype xnode =
    Element (xname: string) (xattrs: "(string \<times> string option) list") (xchildren: "xnode list")
  | Leaf "string option"

text \<open>\<open>xmlReadMemory\<close> and \<open>xmlDocGetRootElement\<close>: no document, a document without a root, a root.\<close>

datatype xml_result = NoDoc | EmptyDoc | Doc xnode

section \<open>Commands to the session\<close>

datatype cb_event =
    LoadApplication int string "u16 list option"
  | ShowApp int
  | HideApp int
  | StopBroadcast
  | ResetBroadcastPresentation
  | DispatchApplicationLoadErrorEvent
  | DispatchTransitionedToBroadcastRelatedEvent int
  | DispatchApplicationSchemeUpdatedEvent int string
  | DispatchOperatorApplicationStateChange int string string

record session =
  se_xml_contents :: "string \<Rightarrow> string"
  se_pc_age :: int
  se_pc_region :: string
  se_pc_region3 :: string
  se_is_instance :: "dvb_triplet \<Rightarrow> bool"
  se_read_xml :: "string \<Rightarrow> xml_result"
  se_version :: hbbtv_version
  se_raw_desc :: ait_app_desc
  se_raw_profile :: app_profile

text \<open>
  A default-initialised \<open>S_AIT_APP_DESC\<close>: its strings and vectors are empty, its scalars hold
  whatever the memory held.
\<close>

definition fresh_desc :: "session \<Rightarrow> ait_app_desc" where
  "fresh_desc se =
     (let r = se_raw_desc se in
      r\<lparr>transportArray := map (\<lambda>t. t\<lparr>url_sel := \<lparr>baseUrl = [], extensionUrls = []\<rparr>\<rparr>)
                            (resize (transportArray r) AIT_MAX_NUM_PROTOCOLS zero_transport),
        location := [],
        appName := (appName r)\<lparr>names := []\<rparr>,
        appDesc := (appDesc r)\<lparr>appProfiles := [], transportProtocolLabels := []\<rparr>,
        boundaries := [], parentalRatings := [], graphicsConstraints := [],
        scheme := [], appUsage := []\<rparr>)"

text \<open>A session for the witnesses: no parental control below age 18, an empty network.\<close>

definition demo_session :: session where
  "demo_session =
     \<lparr>se_xml_contents = (\<lambda>_. []), se_pc_age = 18, se_pc_region = ''GB'', se_pc_region3 = ''GBR'',
      se_is_instance = (\<lambda>_. False), se_read_xml = (\<lambda>_. NoDoc), se_version = hbbtv_204,
      se_raw_desc = zero_app,
      se_raw_profile = \<lparr>appProfile = 0, versionMajor = 0, versionMinor = 0, versionMicro = 0\<rparr>\<rparr>"

end
