(* ===== verification/HbbtvApp.thy ===== *)
theory HbbtvApp
  imports AitSelect Session OrderedMap Timeout
begin

text \<open>
  The class \<open>HbbTVApp\<close> of \<open>hbbtv_app.cpp\<close> (and the fields \<open>OpApp\<close> adds to it): its construction
  from a URL or from an AIT description, the update from a new description, the transitions between
  broadcast-related and broadcast-independent, the key set and the visibility state. An operation
  returns its result, the new object and the commands it sends to the session.
\<close>

section \<open>State\<close>

datatype app_type = HBBTV_APP_TYPE | OPAPP_TYPE

datatype app_state =
    FOREGROUND_STATE
  | BACKGROUND_STATE
  | TRANSIENT_STATE
  | OVERLAID_FOREGROUND_STATE
  | OVERLAID_TRANSIENT_STATE

definition INVALID_APP_ID :: int where "INVALID_APP_ID = 0"

record app =
  m_type :: app_type
  m_id :: int
  loadedUrl :: string
  m_keySetMask :: u16
  m_otherKeys :: "u16 list"
  m_entryUrl :: string
  m_baseUrl :: string
  m_service :: dvb_triplet
  m_protocolId :: u16
  m_isActivated :: bool
  m_isTrusted :: bool
  m_isBroadcast :: bool
  m_aitDesc :: ait_app_desc
  m_names :: "(u32 \<times> string) list"
  m_scheme :: string
  m_versionMinor :: u8
  m_state :: app_state
  m_countdown :: timeout

section \<open>Linked application schemes\<close>

definition getAppSchemeFromUrlParams :: "string \<Rightarrow> string" where
  "getAppSchemeFromUrlParams urlParams =
     (if str_contains urlParams ''lloc=service'' then LINKED_APP_SCHEME_1_2
      else if str_contains urlParams ''lloc=availability'' then LINKED_APP_SCHEME_2
      else LINKED_APP_SCHEME_1_1)"

definition getUrlParamsFromAppScheme :: "string \<Rightarrow> string" where
  "getUrlParamsFromAppScheme s =
     (if s = LINKED_APP_SCHEME_1_2 then ''?lloc=service''
      else if s = LINKED_APP_SCHEME_2 then ''?lloc=availability''
      else [])"

definition GetScheme :: "app \<Rightarrow> string" where
  "GetScheme a = (if m_scheme a \<noteq> [] then m_scheme a else LINKED_APP_SCHEME_1_1)"

section \<open>Construction and update\<close>

definition IsAllowedByParentalControl :: "session \<Rightarrow> ait_app_desc \<Rightarrow> bool" where
  "IsAllowedByParentalControl se desc =
     (if IsAgeRestricted (parentalRatings desc) (se_pc_age se) (se_pc_region se) (se_pc_region3 se)
      then False else True)"

text \<open>
  The loop over the profiles has an 8-bit counter: with 256 profiles or more it never ends, and
  the value is \<^const>\<open>None\<close>.
\<close>

partial_function (option) minor_loop :: "app_profile list \<Rightarrow> u8 \<Rightarrow> u8 \<Rightarrow> u8 option" where
  "minor_loop ps i m =
     (if unat i < length ps
      then minor_loop ps (i + 1)
             (if versionMinor (ps ! unat i) \<le> m then versionMinor (ps ! unat i) else m)
      else Some m)"

declare minor_loop.simps [code]

definition update_names :: "app_name_desc \<Rightarrow> (u32 \<times> string) list res" where
  "update_names nm =
     foldR (\<lambda>i m. bindR (rd (names nm) i) (\<lambda>l. Inr (om_ins (langCode l) (lang_name l) m)))
       [0 ..< unat (numLangs nm)] []"

definition update_scheme :: "ait_app_desc \<Rightarrow> app \<Rightarrow> app" where
  "update_scheme desc a =
     (let a = a\<lparr>m_scheme := scheme desc\<rparr> in
      if scheme desc \<noteq> [] then
        (let index = str_find (scheme desc) ''?'' 0;
             a = a\<lparr>m_scheme := upto_find (scheme desc) index\<rparr>;
             a = a\<lparr>loadedUrl := MergeUrlParams [] (loadedUrl a) (getUrlParamsFromAppScheme (GetScheme a))\<rparr>
         in (case index of
               None \<Rightarrow> a
             | Some i \<Rightarrow> a\<lparr>loadedUrl := MergeUrlParams [] (m_entryUrl a) (drop i (scheme desc))\<rparr>))
      else a)"

text \<open>\<^const>\<open>None\<close> is the thrown \<open>std::runtime_error\<close>; nothing has been changed then.\<close>

definition HbbTVApp_Update :: "session \<Rightarrow> ait_app_desc \<Rightarrow> bool \<Rightarrow> app \<Rightarrow> (app \<times> cb_event list) option res" where
  "HbbTVApp_Update se desc net a =
     (if \<not> IsAllowedByParentalControl se desc then Inr None
      else bindR (ExtractProtocolId desc net) (\<lambda>pid.
        (case minor_loop (appProfiles (appDesc desc)) 0 (m_versionMinor a) of
           None \<Rightarrow> Inl Diverge
         | Some vm \<Rightarrow>
             bindR (update_names (appName desc)) (\<lambda>nm.
               let a = a\<lparr>m_protocolId := pid, m_aitDesc := desc, m_versionMinor := vm, m_names := nm,
                         m_isActivated := (controlCode desc \<noteq> control_code APP_CTL_AUTOSTART)\<rparr>;
                   a = update_scheme desc a
               in Inr (Some (a, [DispatchApplicationSchemeUpdatedEvent (m_id a) (m_scheme a)]))))))"

definition app_defaults :: "session \<Rightarrow> app_type \<Rightarrow> int \<Rightarrow> app" where
  "app_defaults se ty i =
     \<lparr>m_type = ty, m_id = i, loadedUrl = [], m_keySetMask = 0, m_otherKeys = [], m_entryUrl = [],
      m_baseUrl = [], m_service = MakeInvalidDvbTriplet, m_protocolId = 0, m_isActivated = True,
      m_isTrusted = False, m_isBroadcast = False, m_aitDesc = fresh_desc se, m_names = [],
      m_scheme = [], m_versionMinor = 0, m_state = FOREGROUND_STATE, m_countdown = Timeout_new\<rparr>"

definition HbbTVApp_from_url :: "session \<Rightarrow> app_type \<Rightarrow> string \<Rightarrow> int \<Rightarrow> app option" where
  "HbbTVApp_from_url se ty url i =
     (if url = [] then None
      else Some ((app_defaults se ty i)\<lparr>loadedUrl := url, m_entryUrl := url, m_baseUrl := url,
                                       m_scheme := getAppSchemeFromUrlParams url\<rparr>))"

definition INT8_MAX :: u8 where "INT8_MAX = 127"

definition HbbTVApp_from_desc :: "session \<Rightarrow> app_type \<Rightarrow> ait_app_desc \<Rightarrow> dvb_triplet \<Rightarrow> bool \<Rightarrow> string
    \<Rightarrow> bool \<Rightarrow> bool \<Rightarrow> int \<Rightarrow> (app \<times> cb_event list) option res" where
  "HbbTVApp_from_desc se ty desc currentService net urlParams isBroadcast isTrusted i =
     (let a = (app_defaults se ty i)\<lparr>m_service := currentService, m_isTrusted := isTrusted,
                 m_isBroadcast := isBroadcast, m_versionMinor := INT8_MAX\<rparr>
      in bindR (ExtractBaseURL desc (m_service a) net) (\<lambda>base.
           let a = a\<lparr>m_baseUrl := base\<rparr>;
               a = a\<lparr>m_entryUrl := MergeUrlParams (m_baseUrl a) (location desc) urlParams\<rparr>;
               a = a\<lparr>loadedUrl := m_entryUrl a,
                     m_state := (if isBroadcast then BACKGROUND_STATE else FOREGROUND_STATE)\<rparr>
           in HbbTVApp_Update se desc net a))"

section \<open>Broadcast-related and broadcast-independent\<close>

definition HbbTVApp_TransitionToBroadcastRelated :: "app \<Rightarrow> bool \<times> app \<times> cb_event list" where
  "HbbTVApp_TransitionToBroadcastRelated a =
     (if controlCode (m_aitDesc a) \<noteq> control_code APP_CTL_AUTOSTART
         \<and> controlCode (m_aitDesc a) \<noteq> control_code APP_CTL_PRESENT then (False, a, [])
      else if m_protocolId a = AIT_PROTOCOL_HTTP then
        (if \<not> CheckBoundaries (m_entryUrl a) (m_baseUrl a) (boundaries (m_aitDesc a)) then (False, a, [])
         else if \<not> CheckBoundaries (loadedUrl a) (m_baseUrl a) (boundaries (m_aitDesc a)) then (False, a, [])
         else (True, a\<lparr>m_isBroadcast := True\<rparr>, [DispatchTransitionedToBroadcastRelatedEvent (m_id a)]))
      else (False, a, []))"

definition HbbTVApp_TransitionToBroadcastIndependent :: "app \<Rightarrow> bool \<times> app" where
  "HbbTVApp_TransitionToBroadcastIndependent a = (True, a\<lparr>m_isBroadcast := False\<rparr>)"

section \<open>Keys\<close>

definition KEY_SET_RED :: u16 where "KEY_SET_RED = 0x1"
definition KEY_SET_GREEN :: u16 where "KEY_SET_GREEN = 0x2"
definition KEY_SET_YELLOW :: u16 where "KEY_SET_YELLOW = 0x4"
definition KET_SET_BLUE :: u16 where "KET_SET_BLUE = 0x8"
definition KEY_SET_NAVIGATION :: u16 where "KEY_SET_NAVIGATION = 0x10"
definition KEY_SET_VCR :: u16 where "KEY_SET_VCR = 0x20"
definition KEY_SET_SCROLL :: u16 where "KEY_SET_SCROLL = 0x40"
definition KEY_SET_INFO :: u16 where "KEY_SET_INFO = 0x80"
definition KEY_SET_NUMERIC :: u16 where "KEY_SET_NUMERIC = 0x100"
definition KEY_SET_ALPHA :: u16 where "KEY_SET_ALPHA = 0x200"
definition KEY_SET_OTHER :: u16 where "KEY_SET_OTHER = 0x400"

lemmas key_sets = KEY_SET_RED_def KEY_SET_GREEN_def KEY_SET_YELLOW_def KET_SET_BLUE_def
  KEY_SET_NAVIGATION_def KEY_SET_VCR_def KEY_SET_SCROLL_def KEY_SET_INFO_def KEY_SET_NUMERIC_def
  KEY_SET_ALPHA_def KEY_SET_OTHER_def

definition IsKeyNavigation :: "u16 \<Rightarrow> bool" where
  "IsKeyNavigation c = (c = 38 \<or> c = 40 \<or> c = 37 \<or> c = 39 \<or> c = 13 \<or> c = 461)"

definition IsKeyNumeric :: "u16 \<Rightarrow> bool" where
  "IsKeyNumeric c = (48 \<le> c \<and> c \<le> 57)"

definition IsKeyAlpha :: "u16 \<Rightarrow> bool" where
  "IsKeyAlpha c = (65 \<le> c \<and> c \<le> 90)"

definition IsKeyVcr :: "u16 \<Rightarrow> bool" where
  "IsKeyVcr c = (c = 415 \<or> c = 413 \<or> c = 19 \<or> c = 417 \<or> c = 412 \<or> c = 425 \<or> c = 424 \<or> c = 402)"

definition IsKeyScroll :: "u16 \<Rightarrow> bool" where
  "IsKeyScroll c = (c = 33 \<or> c = 34)"

definition GetKeySetMaskForKeyCode :: "u16 \<Rightarrow> u16" where
  "GetKeySetMaskForKeyCode c =
     (if IsKeyNavigation c then KEY_SET_NAVIGATION
      else if IsKeyNumeric c then KEY_SET_NUMERIC
      else if IsKeyAlpha c then KEY_SET_ALPHA
      else if IsKeyVcr c then KEY_SET_VCR
      else if IsKeyScroll c then KEY_SET_SCROLL
      else if c = 403 then KEY_SET_RED
      else if c = 404 then KEY_SET_GREEN
      else if c = 405 then KEY_SET_YELLOW
      else if c = 406 then KET_SET_BLUE
      else if c = 457 then KEY_SET_INFO
      else if c = 416 then KEY_SET_OTHER
      else 0)"

definition HbbTVApp_SetKeySetMask :: "u16 \<Rightarrow> u16 list \<Rightarrow> app \<Rightarrow> u16 \<times> app" where
  "HbbTVApp_SetKeySetMask keySetMask otherKeys a =
     (let currentScheme = GetScheme a;
          isOldVersion = (1 < m_versionMinor a);
          isLinkedAppScheme12 = (currentScheme = LINKED_APP_SCHEME_1_2);
          isException = (isLinkedAppScheme12 \<and> m_versionMinor a = 7);
          k = keySetMask;
          k = (if \<not> m_isActivated a \<and> currentScheme \<noteq> LINKED_APP_SCHEME_2 then
                 (let k = (if k AND KEY_SET_VCR \<noteq> 0 \<and> isOldVersion \<and> \<not> isException
                           then k AND NOT KEY_SET_VCR else k);
                      k = (if k AND KEY_SET_NUMERIC \<noteq> 0 \<and> \<not> isLinkedAppScheme12 \<and> isOldVersion
                           then k AND NOT KEY_SET_NUMERIC else k);
                      k = (if k AND KEY_SET_OTHER \<noteq> 0 \<and> \<not> isLinkedAppScheme12 \<and> isOldVersion
                           then k AND NOT KEY_SET_OTHER else k)
                  in k)
               else k);
          a = a\<lparr>m_keySetMask := k\<rparr>;
          a = (if k AND KEY_SET_OTHER \<noteq> 0 then a\<lparr>m_otherKeys := otherKeys\<rparr> else a)
      in (k, a))"

definition HbbTVApp_InKeySet :: "u16 \<Rightarrow> app \<Rightarrow> bool \<times> app" where
  "HbbTVApp_InKeySet keyCode a =
     (if m_keySetMask a AND GetKeySetMaskForKeyCode keyCode \<noteq> 0 then
        (if m_keySetMask a AND KEY_SET_OTHER \<noteq> 0 \<and> keyCode \<notin> set (m_otherKeys a) then (False, a)
         else (True, if \<not> m_isActivated a then a\<lparr>m_isActivated := True\<rparr> else a))
      else (False, a))"

section \<open>Visibility\<close>

definition HbbTVApp_SetState :: "app_state \<Rightarrow> app \<Rightarrow> bool \<times> app \<times> cb_event list" where
  "HbbTVApp_SetState s a =
     (if s = BACKGROUND_STATE \<or> s = FOREGROUND_STATE then
        (if s \<noteq> m_state a then
           (True, a\<lparr>m_state := s\<rparr>,
            [if s = BACKGROUND_STATE then HideApp (m_id a) else ShowApp (m_id a)])
         else (True, a, []))
      else (False, a, []))"

section \<open>The update loop returns below 256 profiles, and only there\<close>

lemma minor_loop_returns_imp:
  assumes "minor_loop ps i m = Some r"
  shows "length ps < 256"
proof (rule minor_loop.raw_induct [where P = "\<lambda>ps i m r. length ps < 256", OF _ assms])
  fix f :: "app_profile list \<Rightarrow> u8 \<Rightarrow> u8 \<Rightarrow> u8 option" and ps i m r
  assume IH: "\<And>ps i m r. f ps i m = Some r \<Longrightarrow> length ps < 256"
    and eq: "(if unat i < length ps
              then f ps (i + 1) (if versionMinor (ps ! unat i) \<le> m then versionMinor (ps ! unat i) else m)
              else Some m) = Some r"
  show "length ps < 256"
  proof (cases "unat i < length ps")
    case True
    with eq IH show ?thesis by auto
  next
    case False
    moreover have "unat i < 256" by simp
    ultimately show ?thesis by linarith
  qed
qed

definition minor_of :: "app_profile list \<Rightarrow> u8 \<Rightarrow> u8" where
  "minor_of ps m = fold (\<lambda>p m. min (versionMinor p) m) ps m"

lemma minor_loop_from:
  assumes "length ps < 256"
  shows "n \<le> length ps \<Longrightarrow> minor_loop ps (of_nat n) m = Some (minor_of (drop n ps) m)"
proof (induction "length ps - n" arbitrary: n m)
  case 0
  then have "unat (of_nat n :: u8) = n" using assms by (simp add: unat_of_nat)
  with 0 show ?case by (subst minor_loop.simps) (simp add: minor_of_def)
next
  case (Suc k)
  then have n: "n < length ps" by simp
  with assms have u: "unat (of_nat n :: u8) = n" by (simp add: unat_of_nat)
  have mn: "(if versionMinor (ps ! n) \<le> m then versionMinor (ps ! n) else m) = min (versionMinor (ps ! n)) m"
    by (simp add: min_def)
  have "minor_loop ps (of_nat n) m = minor_loop ps (of_nat (Suc n)) (min (versionMinor (ps ! n)) m)"
    using n by (subst minor_loop.simps) (simp add: u mn add.commute)
  also have "\<dots> = Some (minor_of (drop (Suc n) ps) (min (versionMinor (ps ! n)) m))"
    by (rule Suc.hyps(1)) (use Suc n in simp_all)
  also have "\<dots> = Some (minor_of (drop n ps) m)"
    using n by (simp add: minor_of_def flip: Cons_nth_drop_Suc)
  finally show ?case .
qed

lemma minor_loop_ok: "length ps < 256 \<Longrightarrow> minor_loop ps 0 m = Some (minor_of ps m)"
  using minor_loop_from [of ps 0 m] by simp

lemma minor_loop_diverges: "256 \<le> length ps \<Longrightarrow> minor_loop ps i m = None"
  using minor_loop_returns_imp by (cases "minor_loop ps i m") fastforce+

lemma update_names_ok: "length (names nm) = unat (numLangs nm) \<Longrightarrow>
   update_names nm = Inr (fold (\<lambda>l. om_ins (langCode l) (lang_name l)) (names nm) [])"
proof -
  assume len: "length (names nm) = unat (numLangs nm)"
  have "update_names nm = Inr (fold (\<lambda>i. om_ins (langCode (names nm ! i)) (lang_name (names nm ! i)))
          [0 ..< unat (numLangs nm)] [])"
    unfolding update_names_def using len by (intro foldR_pure) simp
  also have "fold (\<lambda>i. om_ins (langCode (names nm ! i)) (lang_name (names nm ! i))) [0 ..< unat (numLangs nm)] []
     = fold (\<lambda>l. om_ins (langCode l) (lang_name l)) (map ((!) (names nm)) [0 ..< length (names nm)]) []"
    by (simp add: fold_map comp_def len)
  also have "map ((!) (names nm)) [0 ..< length (names nm)] = names nm"
    by (rule map_nth)
  finally show ?thesis .
qed

text \<open>What an update leaves alone, and what it sets.\<close>

lemma update_scheme_frame [simp]:
  "m_type (update_scheme d a) = m_type a" "m_id (update_scheme d a) = m_id a"
  "m_isBroadcast (update_scheme d a) = m_isBroadcast a" "m_isTrusted (update_scheme d a) = m_isTrusted a"
  "m_aitDesc (update_scheme d a) = m_aitDesc a" "m_state (update_scheme d a) = m_state a"
  "m_protocolId (update_scheme d a) = m_protocolId a" "m_entryUrl (update_scheme d a) = m_entryUrl a"
  "m_baseUrl (update_scheme d a) = m_baseUrl a" "m_countdown (update_scheme d a) = m_countdown a"
  "m_names (update_scheme d a) = m_names a" "m_versionMinor (update_scheme d a) = m_versionMinor a"
  "m_isActivated (update_scheme d a) = m_isActivated a" "m_keySetMask (update_scheme d a) = m_keySetMask a"
  "m_otherKeys (update_scheme d a) = m_otherKeys a"
  by (simp_all add: update_scheme_def Let_def split: option.split)

lemma HbbTVApp_Update_frame:
  assumes "HbbTVApp_Update se desc net a = Inr (Some (a', evs))"
  shows "m_type a' = m_type a" "m_id a' = m_id a" "m_isBroadcast a' = m_isBroadcast a"
    "m_isTrusted a' = m_isTrusted a" "m_aitDesc a' = desc" "m_state a' = m_state a"
    "m_countdown a' = m_countdown a" "m_entryUrl a' = m_entryUrl a" "m_baseUrl a' = m_baseUrl a"
    "ExtractProtocolId desc net = Inr (m_protocolId a')" "IsAllowedByParentalControl se desc"
  using assms
  by (auto simp: HbbTVApp_Update_def Let_def ret_iff split: if_splits option.splits)

lemma HbbTVApp_Update_ok:
  assumes "wf_app desc" and "length (appProfiles (appDesc desc)) < 256"
  shows "\<exists>r. HbbTVApp_Update se desc net a = Inr r"
proof -
  from assms(1) obtain p where "ExtractProtocolId desc net = Inr p" using ExtractProtocolId_ok by blast
  with assms show ?thesis
    by (auto simp: HbbTVApp_Update_def minor_loop_ok wf_app_def update_names_ok Let_def)
qed

lemma HbbTVApp_Update_keeps:
  "HbbTVApp_Update se desc net a = Inr (Some (a', evs)) \<Longrightarrow>
     m_type a' = m_type a \<and> m_id a' = m_id a \<and> m_isBroadcast a' = m_isBroadcast a
   \<and> m_isTrusted a' = m_isTrusted a \<and> m_aitDesc a' = desc \<and> m_state a' = m_state a
   \<and> m_countdown a' = m_countdown a \<and> ExtractProtocolId desc net = Inr (m_protocolId a')
   \<and> IsAllowedByParentalControl se desc"
  using HbbTVApp_Update_frame [of se desc net a a' evs] by blast

lemma HbbTVApp_from_desc_frame:
  "HbbTVApp_from_desc se ty desc cs net ps br tr i = Inr (Some (a, evs)) \<Longrightarrow>
     m_type a = ty \<and> m_id a = i \<and> m_isBroadcast a = br \<and> m_isTrusted a = tr \<and> m_aitDesc a = desc
   \<and> m_state a = (if br then BACKGROUND_STATE else FOREGROUND_STATE) \<and> m_countdown a = Timeout_new
   \<and> IsAllowedByParentalControl se desc \<and> ExtractProtocolId desc net = Inr (m_protocolId a)"
  by (auto simp: HbbTVApp_from_desc_def Let_def ret_iff app_defaults_def dest!: HbbTVApp_Update_keeps)

lemma HbbTVApp_from_url_frame:
  "HbbTVApp_from_url se ty url i = Some a \<Longrightarrow>
     m_type a = ty \<and> m_id a = i \<and> \<not> m_isTrusted a \<and> \<not> m_isBroadcast a
   \<and> m_entryUrl a = url \<and> m_countdown a = Timeout_new \<and> url \<noteq> []"
  by (auto simp: HbbTVApp_from_url_def app_defaults_def split: if_splits)

lemma HbbTVApp_from_desc_ok:
  assumes "wf_app desc" and "length (appProfiles (appDesc desc)) < 256"
  shows "\<exists>r. HbbTVApp_from_desc se ty desc cs net ps br tr i = Inr r"
proof -
  obtain base where "ExtractBaseURL desc cs net = Inr base" using ExtractBaseURL_ok [OF assms(1)] by blast
  then show ?thesis
    using HbbTVApp_Update_ok [OF assms] by (simp add: HbbTVApp_from_desc_def Let_def)
qed

section \<open>What the class promises\<close>

lemma category_vcr: "IsKeyVcr c \<Longrightarrow> GetKeySetMaskForKeyCode c = KEY_SET_VCR"
  by (auto simp: IsKeyVcr_def GetKeySetMaskForKeyCode_def IsKeyNavigation_def IsKeyNumeric_def IsKeyAlpha_def)

lemma category_numeric: "IsKeyNumeric c \<Longrightarrow> GetKeySetMaskForKeyCode c = KEY_SET_NUMERIC"
  by (auto simp: GetKeySetMaskForKeyCode_def IsKeyNavigation_def IsKeyNumeric_def)

lemma category_other: "GetKeySetMaskForKeyCode 416 = KEY_SET_OTHER"
  by (simp add: IsKeyVcr_def GetKeySetMaskForKeyCode_def IsKeyNavigation_def IsKeyNumeric_def IsKeyAlpha_def
      IsKeyScroll_def)

text \<open>
  A linked application of scheme 1.1 that the user has not activated yet never gets the VCR keys,
  the numeric keys or the other keys, whatever key set it asks for, unless it is of version 1.1.1; a
  key that it gets activates it and changes nothing else.
\<close>

theorem unactivated_keys:
  assumes "\<not> m_isActivated a" and "GetScheme a = LINKED_APP_SCHEME_1_1" and "1 < m_versionMinor a"
    and "HbbTVApp_SetKeySetMask k others a = (k', a1)" and "HbbTVApp_InKeySet c a1 = (True, a2)"
  shows "\<not> IsKeyVcr c \<and> \<not> IsKeyNumeric c \<and> c \<noteq> 416 \<and> k' AND k = k' \<and> a2 = a1\<lparr>m_isActivated := True\<rparr>"
proof -
  have sch: "LINKED_APP_SCHEME_1_1 \<noteq> LINKED_APP_SCHEME_1_2" "LINKED_APP_SCHEME_1_1 \<noteq> LINKED_APP_SCHEME_2"
    by (simp_all add: LINKED_APP_SCHEME_1_1_def LINKED_APP_SCHEME_1_2_def LINKED_APP_SCHEME_2_def)
  have clear: "(if x AND m \<noteq> 0 then x AND NOT m else x) = x AND NOT m" for x m :: u16
    by (auto simp: bit_eq_iff bit_simps)
  define K where "K = ((k AND NOT KEY_SET_VCR) AND NOT KEY_SET_NUMERIC) AND NOT KEY_SET_OTHER"
  have disj: "K AND KEY_SET_VCR = 0" "K AND KEY_SET_NUMERIC = 0" "K AND KEY_SET_OTHER = 0" "K AND k = K"
    unfolding K_def by (auto simp: bit_eq_iff bit_simps)
  have "HbbTVApp_SetKeySetMask k others a = (K, a\<lparr>m_keySetMask := K\<rparr>)"
    using disj(3) by (simp add: HbbTVApp_SetKeySetMask_def Let_def assms(1-3) sch clear flip: K_def)
  with assms(4) have k': "k' = K" and a1: "m_keySetMask a1 = K" "m_isActivated a1 = m_isActivated a" by auto
  have in_set: "K AND GetKeySetMaskForKeyCode c \<noteq> 0" and a2: "a2 = a1\<lparr>m_isActivated := True\<rparr>"
    using assms(1,5) a1 disj(3) by (auto simp: HbbTVApp_InKeySet_def split: if_splits)
  with in_set a2 disj show ?thesis unfolding k' using category_vcr category_numeric category_other by metis
qed

theorem unactivated_keys_witness:
  "\<exists>a1 a2. HbbTVApp_SetKeySetMask 0x3FF [] ((app_defaults demo_session HBBTV_APP_TYPE 1)\<lparr>m_isActivated := False, m_versionMinor := 6\<rparr>)
       = (0x2DF, a1) \<and> HbbTVApp_InKeySet 403 a1 = (True, a2) \<and> m_isActivated a2"
proof -
  let ?a = "(app_defaults demo_session HBBTV_APP_TYPE 1)\<lparr>m_isActivated := False, m_versionMinor := 6\<rparr>"
  have a: "\<not> m_isActivated ?a" "GetScheme ?a = LINKED_APP_SCHEME_1_1" "1 < m_versionMinor ?a"
    by (simp_all add: app_defaults_def GetScheme_def)
  obtain k' a1 where s: "HbbTVApp_SetKeySetMask 0x3FF [] ?a = (k', a1)" by fastforce
  have "fst (HbbTVApp_SetKeySetMask 0x3FF [] ?a) = 0x2DF"
      "fst (HbbTVApp_InKeySet 403 (snd (HbbTVApp_SetKeySetMask 0x3FF [] ?a)))"
    by code_simp+
  with s obtain a2 where "k' = 0x2DF" and i: "HbbTVApp_InKeySet 403 a1 = (True, a2)"
    by (cases "HbbTVApp_InKeySet 403 a1") auto
  with unactivated_keys [OF a s i] s show ?thesis by auto
qed

text \<open>
  C24. The update of an application from a well-formed description that parental control allows
  returns exactly when the description has fewer than 256 profiles; otherwise its loop never ends.
\<close>

theorem update_returns:
  assumes "wf_app desc" and "IsAllowedByParentalControl se desc"
  shows "if length (appProfiles (appDesc desc)) < 256
         then \<exists>a' evs. HbbTVApp_Update se desc net a = Inr (Some (a', evs)) \<and> m_aitDesc a' = desc
                \<and> m_versionMinor a' \<le> m_versionMinor a
         else HbbTVApp_Update se desc net a = Inl Diverge"
proof -
  obtain p where p: "ExtractProtocolId desc net = Inr p" using ExtractProtocolId_ok [OF assms(1)] by blast
  have le: "minor_of ps m \<le> m" for ps m
    by (induction ps arbitrary: m) (auto simp: minor_of_def min_def intro: order_trans)
  show ?thesis
  proof (cases "length (appProfiles (appDesc desc)) < 256")
    case True
    with assms p le show ?thesis
      by (simp add: HbbTVApp_Update_def minor_loop_ok wf_app_def update_names_ok Let_def)
  next
    case False
    with assms p show ?thesis by (simp add: HbbTVApp_Update_def minor_loop_diverges)
  qed
qed

theorem update_returns_witness:
  "HbbTVApp_Update demo_session
     (zero_app\<lparr>appDesc := (appDesc zero_app)\<lparr>appProfiles := replicate 256 (se_raw_profile demo_session)\<rparr>\<rparr>) True
     (app_defaults demo_session HBBTV_APP_TYPE 1) = Inl Diverge"
proof -
  let ?d = "zero_app\<lparr>appDesc := (appDesc zero_app)\<lparr>appProfiles := replicate 256 (se_raw_profile demo_session)\<rparr>\<rparr>"
  have "wf_app ?d" using wf_zero_app by (simp add: wf_app_def)
  moreover have "IsAllowedByParentalControl demo_session ?d"
    by (simp add: IsAllowedByParentalControl_def IsAgeRestricted_def zero_app_def)
  ultimately show ?thesis
    using update_returns [of ?d demo_session True "app_defaults demo_session HBBTV_APP_TYPE 1"] by simp
qed

end
