(* ===== verification/XmlParser.thy ===== *)
theory XmlParser
  imports AitParse Session
begin

text \<open>
  The XML AIT parser of \<open>xml_parser.cpp\<close>, over the document tree that libxml2 returns. Content and
  attribute values are C strings; a read past their terminating NUL is a fault, as is a write
  outside the application or transport array.
\<close>

section \<open>Content of nodes\<close>

text \<open>\<open>NODE_CONTENT_GET\<close>: the content of the first child, null for an element child or no child.\<close>

fun node_content :: "xnode \<Rightarrow> string option" where
  "node_content (Element nm attrs (Leaf c # _)) = c"
| "node_content _ = None"

text \<open>\<open>XmlGetPropertyContent\<close>: the first attribute of that name that has a value.\<close>

fun prop_loop :: "(string \<times> string option) list \<Rightarrow> string \<Rightarrow> string option" where
  "prop_loop [] prop = None"
| "prop_loop ((nm, v) # attrs) prop =
     (case v of
        Some c \<Rightarrow> if nm = prop then Some c else prop_loop attrs prop
      | None \<Rightarrow> prop_loop attrs prop)"

fun XmlGetPropertyContent :: "xnode \<Rightarrow> string \<Rightarrow> string option" where
  "XmlGetPropertyContent (Element nm attrs cs) prop = prop_loop attrs prop"
| "XmlGetPropertyContent (Leaf c) prop = None"

definition dec_val :: "char \<Rightarrow> nat option" where
  "dec_val c = (let n = of_char c :: nat in if 48 \<le> n \<and> n \<le> 57 then Some (n - 48) else None)"

fun int_loop :: "string \<Rightarrow> u32 \<Rightarrow> u32" where
  "int_loop [] num = num"
| "int_loop (c # cs) num = (case dec_val c of None \<Rightarrow> num | Some v \<Rightarrow> int_loop cs (num * 10 + of_nat v))"

definition XmlParseInt :: "string \<Rightarrow> u32" where
  "XmlParseInt s = int_loop s 0"

fun hex_loop :: "nat \<Rightarrow> string \<Rightarrow> u32 \<Rightarrow> u32" where
  "hex_loop 0 s num = num"
| "hex_loop (Suc n) [] num = num"
| "hex_loop (Suc n) (c # cs) num =
     (case hex_val c of None \<Rightarrow> num | Some v \<Rightarrow> hex_loop n cs (num * 16 + of_nat v))"

definition XmlParseHex :: "string \<Rightarrow> nat \<Rightarrow> u32" where
  "XmlParseHex s nibbles = hex_loop nibbles s 0"

definition XmlGetContentInt :: "xnode \<Rightarrow> u32" where
  "XmlGetContentInt node = (case node_content node of Some s \<Rightarrow> XmlParseInt s | None \<Rightarrow> 0)"

definition XmlGetContentHex :: "xnode \<Rightarrow> nat \<Rightarrow> u32" where
  "XmlGetContentHex node nibbles = (case node_content node of Some s \<Rightarrow> XmlParseHex s nibbles | None \<Rightarrow> 0)"

definition XmlGetContentBool :: "xnode \<Rightarrow> bool" where
  "XmlGetContentBool node = (case node_content node of Some s \<Rightarrow> s = ''true'' | None \<Rightarrow> False)"

definition XmlGetContentString :: "xnode \<Rightarrow> string" where
  "XmlGetContentString node = (case node_content node of Some s \<Rightarrow> s | None \<Rightarrow> [])"

text \<open>A byte of a C string, up to and including the terminating NUL.\<close>

definition cstr_rd :: "string \<Rightarrow> nat \<Rightarrow> u8 res" where
  "cstr_rd s i = (if i < length s then Inr (byte_of (s ! i)) else if i = length s then Inr 0 else Inl OobRead)"

text \<open>\<open>!xmlStrncmp(cptr, "application", 11)\<close> and then a comparison of the rest.\<close>

definition app_element :: "string \<Rightarrow> string \<Rightarrow> bool" where
  "app_element nm suffix = (take 11 nm = ''application'' \<and> drop 11 nm = suffix)"

section \<open>Allocation\<close>

definition alloc_node :: "xnode \<Rightarrow> u8 \<times> u8 \<Rightarrow> u8 \<times> u8" where
  "alloc_node node counts = (case node of
      Leaf c \<Rightarrow> counts
    | Element nm attrs cs \<Rightarrow>
        if nm = ''appName'' then
          (if node_content node \<noteq> None then (fst counts + 1, snd counts) else counts)
        else if app_element nm ''Transport'' then (fst counts, snd counts + 1)
        else counts)"

definition XmlAllocApplication :: "xnode list \<Rightarrow> ait_app_desc \<Rightarrow> ait_app_desc" where
  "XmlAllocApplication nodes app =
     (let (num_langs, numTransp) = fold alloc_node nodes (0, 0)
      in app\<lparr>appName := \<lparr>numLangs = num_langs, names = resize (names (appName app)) (unat num_langs) zero_lang\<rparr>,
             numTransports := numTransp\<rparr>)"

section \<open>Elements of an application\<close>

fun free_name_loop :: "lang_string list \<Rightarrow> nat list \<Rightarrow> nat option res" where
  "free_name_loop ns [] = Inr None"
| "free_name_loop ns (i # is) =
     bindR (rd ns i) (\<lambda>l. if langCode l = 0 then Inr (Some i) else free_name_loop ns is)"

definition XmlParseAppName :: "xnode \<Rightarrow> app_name_desc \<Rightarrow> app_name_desc res" where
  "XmlParseAppName node nm =
     bindR (free_name_loop (names nm) [0 ..< unat (numLangs nm)]) (\<lambda>ix. case ix of
       None \<Rightarrow> Inr nm
     | Some i \<Rightarrow>
         bindR (case XmlGetPropertyContent node ''Language'' of
                  None \<Rightarrow> Inr (names nm ! i)
                | Some s \<Rightarrow>
                    bindR (cstr_rd s 0) (\<lambda>a. bindR (cstr_rd s 1) (\<lambda>b. bindR (cstr_rd s 2) (\<lambda>c.
                      Inr ((names nm ! i)\<lparr>langCode := be24 a b c\<rparr>))))) (\<lambda>l.
         let l = (case node_content node of None \<Rightarrow> l | Some s \<Rightarrow> l\<lparr>lang_name := s\<rparr>)
         in Inr (nm\<lparr>names := (names nm)[i := l]\<rparr>)))"

definition XmlParseAppId :: "xnode \<Rightarrow> ait_app_desc \<Rightarrow> ait_app_desc" where
  "XmlParseAppId node app =
     fold (\<lambda>n app. case n of
         Leaf c \<Rightarrow> app
       | Element nm attrs cs \<Rightarrow>
           if nm = ''orgId'' then app\<lparr>orgId := XmlGetContentInt n\<rparr>
           else if nm = ''appId'' then app\<lparr>appId := ucast (XmlGetContentInt n)\<rparr>
           else app) (xchildren node) app"

definition XmlParseAppUsage :: "xnode \<Rightarrow> ait_app_desc \<Rightarrow> ait_app_desc" where
  "XmlParseAppUsage node app =
     fold (\<lambda>n app. case n of
         Leaf c \<Rightarrow> app
       | Element nm attrs cs \<Rightarrow>
           if nm = ''ApplicationUsage'' then app\<lparr>appUsage := XmlGetContentString n\<rparr> else app)
       (xchildren node) app"

definition XmlGetContentEnumControl :: "xnode \<Rightarrow> app_control" where
  "XmlGetContentEnumControl node = (case node_content node of
      None \<Rightarrow> APP_CTL_UNKNOWN
    | Some s \<Rightarrow>
        if s = ''AUTOSTART'' then APP_CTL_AUTOSTART
        else if s = ''PRESENT'' then APP_CTL_PRESENT
        else if s = ''DESTROY'' then APP_CTL_DESTROY
        else if s = ''KILL'' then APP_CTL_KILL
        else if s = ''PREFETCH'' then APP_CTL_PREFETCH
        else if s = ''REMOTE'' then APP_CTL_REMOTE
        else if s = ''DISABLED'' then APP_CTL_DISABLED
        else if s = ''PLAYBACK_AUTOSTART'' then APP_CTL_PB_AUTO
        else APP_CTL_UNKNOWN)"

definition XmlGetContentVisibility :: "xnode \<Rightarrow> u8" where
  "XmlGetContentVisibility node = (case node_content node of
      None \<Rightarrow> AIT_NOT_VISIBLE_ALL
    | Some s \<Rightarrow>
        if s = ''VISIBLE_ALL'' then AIT_VISIBLE_ALL
        else if s = ''NOT_VISIBLE_ALL'' then AIT_NOT_VISIBLE_ALL
        else if s = ''NOT_VISIBLE_USERS'' then AIT_NOT_VISIBLE_USERS
        else AIT_NOT_VISIBLE_ALL)"

text \<open>
  The type of the application: the code compares the name of the element (not its content) with the
  MIME type and the DVB application types.
\<close>

definition XmlParseAppDescType :: "xnode \<Rightarrow> ait_app_desc \<Rightarrow> ait_app_desc" where
  "XmlParseAppDescType node app =
     fold (\<lambda>n app. case n of
         Leaf c \<Rightarrow> app
       | Element nm attrs cs \<Rightarrow>
           if nm = ''OtherApp'' then
             (if node_content n \<noteq> None \<and> nm = ''application/vnd.hbbtv.xhtml+xml''
              then app\<lparr>xmlType := XML_TYP_OTHER\<rparr> else app)
           else if nm = ''DvbApp'' then
             (if node_content n \<noteq> None then
                (if nm = ''DVB-J'' then app\<lparr>xmlType := XML_TYP_DVB_J\<rparr>
                 else if nm = ''DVB-HTML'' then app\<lparr>xmlType := XML_TYP_DVB_HTML\<rparr>
                 else app)
              else app)
           else app) (xchildren node) app"

text \<open>The profile is a local that the code does not initialise: it starts as the session's raw profile.\<close>

definition XmlParseAppDescProfile :: "session \<Rightarrow> xnode \<Rightarrow> ait_app_desc \<Rightarrow> ait_app_desc" where
  "XmlParseAppDescProfile se node app =
     (let prof = fold (\<lambda>n prof. case n of
            Leaf c \<Rightarrow> prof
          | Element nm attrs cs \<Rightarrow>
              if nm = ''profile'' then prof\<lparr>appProfile := ucast (XmlGetContentHex n 4)\<rparr>
              else if take 8 nm = ''versionM'' then
                (if drop 8 nm = ''ajor'' then prof\<lparr>versionMajor := ucast (XmlGetContentHex n 2)\<rparr>
                 else if drop 8 nm = ''inor'' then prof\<lparr>versionMinor := ucast (XmlGetContentHex n 2)\<rparr>
                 else if drop 8 nm = ''icro'' then prof\<lparr>versionMicro := ucast (XmlGetContentHex n 2)\<rparr>
                 else prof)
              else prof) (xchildren node) (se_raw_profile se)
      in app\<lparr>appDesc := (appDesc app)\<lparr>appProfiles := appProfiles (appDesc app) @ [prof]\<rparr>\<rparr>)"

definition graphics_resolution :: "string \<Rightarrow> u16 option" where
  "graphics_resolution s =
     (if s = ''urn:hbbtv:graphics:resolution:1920x1080'' then Some 1080
      else if s = ''urn:hbbtv:graphics:resolution:3840x2160'' then Some 2160
      else if s = ''urn:hbbtv:graphics:resolution:7680x4320'' then Some 4320
      else None)"

definition XmlParseAppDescGraphics :: "xnode \<Rightarrow> ait_app_desc \<Rightarrow> ait_app_desc" where
  "XmlParseAppDescGraphics node app =
     (let gs = fold (\<lambda>n gs. case n of
            Leaf c \<Rightarrow> gs
          | Element nm attrs cs \<Rightarrow>
              if nm = ''GraphicsConfiguration'' then
                (case node_content n of
                   None \<Rightarrow> gs
                 | Some s \<Rightarrow> (case graphics_resolution s of None \<Rightarrow> gs | Some r \<Rightarrow> gs @ [r]))
              else gs) (xchildren node) (graphicsConstraints app @ [720])
      in app\<lparr>graphicsConstraints := gs\<rparr>)"

definition xml_rating :: "xnode \<Rightarrow> parental_rating" where
  "xml_rating n =
     \<lparr>pr_scheme = (case XmlGetPropertyContent n ''Scheme'' of None \<Rightarrow> [] | Some s \<Rightarrow> s),
      pr_region = (case XmlGetPropertyContent n ''Region'' of None \<Rightarrow> [] | Some s \<Rightarrow> s),
      pr_value = ucast (XmlGetContentInt n)\<rparr>"

definition xml_desc_node :: "session \<Rightarrow> xnode \<Rightarrow> ait_app_desc \<Rightarrow> ait_app_desc" where
  "xml_desc_node se n app = (case n of
      Leaf c \<Rightarrow> app
    | Element nm attrs cs \<Rightarrow>
        if nm = ''type'' then XmlParseAppDescType n app
        else if nm = ''controlCode'' then app\<lparr>controlCode := control_code (XmlGetContentEnumControl n)\<rparr>
        else if nm = ''visibility'' then app\<lparr>appDesc := (appDesc app)\<lparr>visibility := XmlGetContentVisibility n\<rparr>\<rparr>
        else if nm = ''serviceBound'' then app\<lparr>appDesc := (appDesc app)\<lparr>serviceBound := XmlGetContentBool n\<rparr>\<rparr>
        else if nm = ''priority'' then app\<lparr>appDesc := (appDesc app)\<lparr>priority := ucast (XmlGetContentHex n 2)\<rparr>\<rparr>
        else if nm = ''version'' then app\<lparr>xmlVersion := ucast (XmlGetContentInt n)\<rparr>
        else if nm = ''mhpVersion'' then XmlParseAppDescProfile se n app
        else if nm = ''icon'' then app
        else if nm = ''storageCapabilities'' then app
        else if nm = ''ParentalRating'' then app\<lparr>parentalRatings := parentalRatings app @ [xml_rating n]\<rparr>
        else if nm = ''GraphicsConstraints'' then XmlParseAppDescGraphics n app
        else app)"

definition XmlParseAppDesc :: "session \<Rightarrow> xnode \<Rightarrow> ait_app_desc \<Rightarrow> ait_app_desc" where
  "XmlParseAppDesc se node app =
     fold (xml_desc_node se) (xchildren node) (app\<lparr>appDesc := (appDesc app)\<lparr>serviceBound := True\<rparr>\<rparr>)"

definition XmlParseAppBoundary :: "xnode \<Rightarrow> ait_app_desc \<Rightarrow> ait_app_desc" where
  "XmlParseAppBoundary node app =
     fold (\<lambda>n app. case n of
         Leaf c \<Rightarrow> app
       | Element nm attrs cs \<Rightarrow>
           if nm = ''BoundaryExtension'' then
             (case node_content n of None \<Rightarrow> app | Some s \<Rightarrow> app\<lparr>boundaries := boundaries app @ [s]\<rparr>)
           else app) (xchildren node) app"

section \<open>Transports\<close>

definition XmlParseDvbTriplet :: "xnode \<Rightarrow> dvb_triplet \<Rightarrow> dvb_triplet" where
  "XmlParseDvbTriplet node dvb =
     (let dvb = (case XmlGetPropertyContent node ''OrigNetId'' of
                   None \<Rightarrow> dvb | Some s \<Rightarrow> dvb\<lparr>originalNetworkId := ucast (XmlParseInt s)\<rparr>);
          dvb = (case XmlGetPropertyContent node ''TSId'' of
                   None \<Rightarrow> dvb | Some s \<Rightarrow> dvb\<lparr>transportStreamId := ucast (XmlParseInt s)\<rparr>)
      in (case XmlGetPropertyContent node ''ServiceId'' of
            None \<Rightarrow> dvb | Some s \<Rightarrow> dvb\<lparr>serviceId := ucast (XmlParseInt s)\<rparr>))"

definition xml_protocol :: "xnode \<Rightarrow> u16" where
  "xml_protocol node = (case XmlGetPropertyContent node ''type'' of
      None \<Rightarrow> 0
    | Some s \<Rightarrow> if s = ''mhp:HTTPTransportType'' then AIT_PROTOCOL_HTTP
                else if s = ''mhp:OCTransportType'' then AIT_PROTOCOL_OBJECT_CAROUSEL
                else 0)"

definition xml_http_node :: "xnode \<Rightarrow> url_selector \<Rightarrow> url_selector" where
  "xml_http_node n u = (case n of
      Leaf c \<Rightarrow> u
    | Element nm attrs cs \<Rightarrow>
        if nm = ''URLBase'' then (case node_content n of None \<Rightarrow> u | Some s \<Rightarrow> u\<lparr>baseUrl := s\<rparr>)
        else if nm = ''URLExtension'' then
          (case node_content n of None \<Rightarrow> u | Some s \<Rightarrow> u\<lparr>extensionUrls := extensionUrls u @ [s]\<rparr>)
        else u)"

definition xml_oc_node :: "xnode \<Rightarrow> oc_selector \<Rightarrow> oc_selector" where
  "xml_oc_node n u = (case n of
      Leaf c \<Rightarrow> u
    | Element nm attrs cs \<Rightarrow>
        if nm = ''DvbTriplet'' then u\<lparr>oc_dvb := XmlParseDvbTriplet n (oc_dvb u), remoteConnection := True\<rparr>
        else if nm = ''TextualId'' then u
        else if nm = ''ComponentTag'' then
          (case XmlGetPropertyContent n ''ComponentTag'' of
             None \<Rightarrow> u | Some s \<Rightarrow> u\<lparr>componentTag := ucast (XmlParseHex s 2)\<rparr>)
        else u)"

definition xml_transport_body :: "xnode \<Rightarrow> u16 \<Rightarrow> transport_desc \<Rightarrow> transport_desc" where
  "xml_transport_body node pid t =
     (let t = t\<lparr>protocolId := pid\<rparr>;
          t = (if pid = AIT_PROTOCOL_HTTP then t\<lparr>url_sel := fold xml_http_node (xchildren node) (url_sel t)\<rparr>
               else if pid = AIT_PROTOCOL_OBJECT_CAROUSEL then t\<lparr>oc := fold xml_oc_node (xchildren node) (oc t)\<rparr>
               else t)
      in t\<lparr>failedToLoad := False\<rparr>)"

definition XmlParseAppTransport :: "xnode \<Rightarrow> transport_desc list \<Rightarrow> transport_desc list res" where
  "XmlParseAppTransport node trns =
     (let pid = xml_protocol node in
      bindR (find_slot trns pid) (\<lambda>(i, free).
        if AIT_MAX_NUM_PROTOCOLS \<le> i then
          (if free < length trns then
             Inr (trns[free := xml_transport_body node pid (trns ! free)])
           else Inl OobWrite)
        else Inr trns))"

definition XmlParseAppLocation :: "xnode \<Rightarrow> ait_app_desc \<Rightarrow> ait_app_desc" where
  "XmlParseAppLocation node app =
     (case node_content node of None \<Rightarrow> app | Some s \<Rightarrow> app\<lparr>location := s\<rparr>)"

section \<open>Applications and the document\<close>

definition xml_app_node :: "session \<Rightarrow> xnode \<Rightarrow> ait_app_desc \<Rightarrow> ait_app_desc res" where
  "xml_app_node se n app = (case n of
      Leaf c \<Rightarrow> Inr app
    | Element nm attrs cs \<Rightarrow>
        if nm = ''appName'' then bindR (XmlParseAppName n (appName app)) (\<lambda>x. Inr (app\<lparr>appName := x\<rparr>))
        else if app_element nm ''Identifier'' then Inr (XmlParseAppId n app)
        else if app_element nm ''Descriptor'' then Inr (XmlParseAppDesc se n app)
        else if app_element nm ''UsageDescriptor'' then Inr (XmlParseAppUsage n app)
        else if app_element nm ''Boundary'' then Inr (XmlParseAppBoundary n app)
        else if app_element nm ''Transport'' then
          bindR (XmlParseAppTransport n (transportArray app)) (\<lambda>x. Inr (app\<lparr>transportArray := x\<rparr>))
        else if app_element nm ''Location'' then Inr (XmlParseAppLocation n app)
        else if nm = ''GraphicsConstraints'' then Inr (XmlParseAppDescGraphics n app)
        else Inr app)"

definition XmlParseApplication :: "session \<Rightarrow> xnode list \<Rightarrow> ait_app_desc \<Rightarrow> ait_app_desc res" where
  "XmlParseApplication se nodes app = foldR (xml_app_node se) nodes app"

text \<open>The three nested loops, as the list of the \<open>Application\<close> elements they visit, in order.\<close>

definition child_elements :: "string \<Rightarrow> xnode list \<Rightarrow> xnode list" where
  "child_elements nm nodes =
     filter (\<lambda>n. case n of Element m attrs cs \<Rightarrow> m = nm | Leaf c \<Rightarrow> False) nodes"

definition application_elements :: "xnode list \<Rightarrow> xnode list" where
  "application_elements nodes =
     concat (map (\<lambda>disc. concat (map (\<lambda>lst. child_elements ''Application'' (xchildren lst))
                            (child_elements ''ApplicationList'' (xchildren disc))))
              (child_elements ''ApplicationDiscovery'' nodes))"

fun xml_apps_loop :: "session \<Rightarrow> nat \<Rightarrow> xnode list \<Rightarrow> ait_app_desc list \<Rightarrow> ait_app_desc list res" where
  "xml_apps_loop se index [] apps = Inr apps"
| "xml_apps_loop se index (n # ns) apps =
     (if index < length apps then
        bindR (XmlParseApplication se (xchildren n) (XmlAllocApplication (xchildren n) (apps ! index)))
          (\<lambda>a. xml_apps_loop se (index + 1) ns (apps[index := a]))
      else Inl OobWrite)"

definition XmlParseApplications :: "session \<Rightarrow> xnode list \<Rightarrow> ait_table \<Rightarrow> ait_table res" where
  "XmlParseApplications se nodes t =
     bindR (xml_apps_loop se 0 (application_elements nodes) (appArray t)) (\<lambda>apps. Inr (t\<lparr>appArray := apps\<rparr>))"

definition XmlCountApplications :: "xnode list \<Rightarrow> u32" where
  "XmlCountApplications nodes = of_nat (length (application_elements nodes))"

definition root_children :: "xnode \<Rightarrow> xnode list" where
  "root_children n = (case n of Element nm attrs cs \<Rightarrow> cs | Leaf c \<Rightarrow> [])"

definition XmlParseAit :: "session \<Rightarrow> string \<Rightarrow> ait_table option res" where
  "XmlParseAit se content = (case se_read_xml se content of
      NoDoc \<Rightarrow> Inr None
    | EmptyDoc \<Rightarrow> Inr None
    | Doc root \<Rightarrow>
        (let nodes = root_children root;
             n = ucast (XmlCountApplications nodes) :: u8;
             t = zero_table\<lparr>appType := APP_TYP_XML, numApps := n, appArray := replicate (unat n) zero_app\<rparr>
         in bindR (XmlParseApplications se nodes t) (\<lambda>t. Inr (Some t))))"

section \<open>Parsed documents are well-formed\<close>

definition is_transport :: "xnode \<Rightarrow> bool" where
  "is_transport n = (case n of Element nm attrs cs \<Rightarrow> app_element nm ''Transport'' | Leaf c \<Rightarrow> False)"

lemma appName_no_transport [simp]: "\<not> app_element ''appName'' s"
  by (simp add: app_element_def)

lemma alloc_transports:
  "snd (fold alloc_node nodes c) = snd c + of_nat (length (filter is_transport nodes))"
proof (induction nodes arbitrary: c)
  case Nil
  then show ?case by simp
next
  case (Cons n nodes)
  have "snd (alloc_node n c) = snd c + (if is_transport n then 1 else 0)"
    by (auto simp: alloc_node_def is_transport_def split: xnode.split)
  with Cons show ?case by simp
qed

text \<open>
  While the slots fill from the first, a transport whose protocol is already there finds no free
  slot before it: the only way to return is to take a new slot.
\<close>

definition prefix_filled :: "transport_desc list \<Rightarrow> bool" where
  "prefix_filled ts \<longleftrightarrow> length ts = AIT_MAX_NUM_PROTOCOLS \<and> (protocolId (ts ! 1) \<noteq> 0 \<longrightarrow> protocolId (ts ! 0) \<noteq> 0)"

lemma find_slot_prefix:
  assumes "prefix_filled trns" and "find_slot trns pid = Inr (i, k)"
  shows "AIT_MAX_NUM_PROTOCOLS \<le> i"
    and "k < length trns \<Longrightarrow> protocolId t = pid \<Longrightarrow> prefix_filled (trns[k := t]) \<and> filled (trns[k := t]) = filled trns + 1"
proof -
  from assms(1) obtain t0 t1 where ts: "trns = [t0, t1]"
    by (auto simp: prefix_filled_def ait_consts length_Suc_conv numeral_2_eq_2)
  have u: "[0 ..< 2] = [0, 1 :: nat]" by (simp add: upt_rec)
  from assms show "AIT_MAX_NUM_PROTOCOLS \<le> i"
    and "k < length trns \<Longrightarrow> protocolId t = pid \<Longrightarrow> prefix_filled (trns[k := t]) \<and> filled (trns[k := t]) = filled trns + 1"
    by (auto simp: ts prefix_filled_def filled_def find_slot_def ait_consts u split: if_splits)
qed

lemma XmlParseAppTransport_wf:
  assumes "prefix_filled trns" and p: "XmlParseAppTransport node trns = Inr trns'"
  shows "prefix_filled trns' \<and> filled trns' = filled trns + 1"
proof -
  have body: "protocolId (xml_transport_body node pid t) = pid" for pid t
    by (simp add: xml_transport_body_def Let_def)
  from p obtain i k where f: "find_slot trns (xml_protocol node) = Inr (i, k)"
    and r: "AIT_MAX_NUM_PROTOCOLS \<le> i \<Longrightarrow> k < length trns
              \<and> trns' = trns[k := xml_transport_body node (xml_protocol node) (trns ! k)]"
    by (auto simp: XmlParseAppTransport_def Let_def bindR_eq_Inr split: if_splits)
  from find_slot_prefix [OF assms(1) f] r body show ?thesis by auto
qed

text \<open>What the elements of an application do to its transports and names.\<close>

definition same_slots :: "ait_app_desc \<Rightarrow> ait_app_desc \<Rightarrow> bool" where
  "same_slots a b \<longleftrightarrow> transportArray b = transportArray a \<and> numTransports b = numTransports a
     \<and> appName b = appName a"

lemma same_slots_refl [simp]: "same_slots a a"
  by (simp add: same_slots_def)

lemma same_slots_trans: "same_slots a b \<Longrightarrow> same_slots b c \<Longrightarrow> same_slots a c"
  by (simp add: same_slots_def)

lemma same_slots_fold: "(\<And>n a. same_slots a (f n a)) \<Longrightarrow> same_slots a (fold f ns a)"
proof (induction ns arbitrary: a)
  case Nil
  then show ?case by simp
next
  case (Cons n ns)
  then have "same_slots (f n a) (fold f ns (f n a))" by blast
  with Cons.prems [of a n] show ?case using same_slots_trans by fastforce
qed

lemma same_slots_nodes:
  "same_slots a (XmlParseAppId node a)" "same_slots a (XmlParseAppUsage node a)"
  "same_slots a (XmlParseAppDescType node a)" "same_slots a (XmlParseAppDescProfile se node a)"
  "same_slots a (XmlParseAppDescGraphics node a)" "same_slots a (XmlParseAppBoundary node a)"
  "same_slots a (XmlParseAppLocation node a)"
  unfolding XmlParseAppId_def XmlParseAppUsage_def XmlParseAppDescType_def XmlParseAppBoundary_def
  by ((rule same_slots_fold)?,
      simp add: same_slots_def XmlParseAppDescProfile_def XmlParseAppDescGraphics_def
        XmlParseAppLocation_def Let_def split: xnode.split option.split)+

lemma same_slots_desc: "same_slots a (XmlParseAppDesc se node a)"
proof -
  have "same_slots a (xml_desc_node se n a)" for n a
    using same_slots_nodes [of a] by (cases n) (simp_all add: xml_desc_node_def same_slots_def)
  then have "same_slots b (fold (xml_desc_node se) ns b)" for b ns
    by (rule same_slots_fold)
  then show ?thesis
    by (simp add: XmlParseAppDesc_def same_slots_def)
qed

lemma XmlParseAppName_length:
  "XmlParseAppName node nm = Inr nm' \<Longrightarrow> length (names nm') = length (names nm) \<and> numLangs nm' = numLangs nm"
proof -
  assume "XmlParseAppName node nm = Inr nm'"
  then obtain ix where ix: "(case ix of None \<Rightarrow> Inr nm | Some i \<Rightarrow>
      bindR (case XmlGetPropertyContent node ''Language'' of
                  None \<Rightarrow> Inr (names nm ! i)
                | Some s \<Rightarrow>
                    bindR (cstr_rd s 0) (\<lambda>a. bindR (cstr_rd s 1) (\<lambda>b. bindR (cstr_rd s 2) (\<lambda>c.
                      Inr ((names nm ! i)\<lparr>langCode := be24 a b c\<rparr>))))) (\<lambda>l.
         let l = (case node_content node of None \<Rightarrow> l | Some s \<Rightarrow> l\<lparr>lang_name := s\<rparr>)
         in Inr (nm\<lparr>names := (names nm)[i := l]\<rparr>))) = Inr nm'"
    unfolding XmlParseAppName_def bindR_eq_Inr by blast
  show ?thesis
  proof (cases ix)
    case None
    with ix show ?thesis by simp
  next
    case (Some i)
    with ix obtain l where "nm' = nm\<lparr>names := (names nm)[i := l]\<rparr>"
      by (auto simp: Let_def bindR_eq_Inr)
    then show ?thesis by simp
  qed
qed

lemma xml_app_node_wf:
  assumes "prefix_filled (transportArray a)" and "xml_app_node se n a = Inr a'"
  shows "prefix_filled (transportArray a')"
    and "filled (transportArray a') = filled (transportArray a) + (if is_transport n then 1 else 0)"
    and "numTransports a' = numTransports a"
    and "length (names (appName a')) = length (names (appName a))"
    and "numLangs (appName a') = numLangs (appName a)"
proof -
  have "prefix_filled (transportArray a')
    \<and> filled (transportArray a') = filled (transportArray a) + (if is_transport n then 1 else 0)
    \<and> numTransports a' = numTransports a
    \<and> length (names (appName a')) = length (names (appName a))
    \<and> numLangs (appName a') = numLangs (appName a)"
  proof (cases "is_transport n")
    case True
    then obtain nm attrs cs where n: "n = Element nm attrs cs" and nm: "app_element nm ''Transport''"
      by (auto simp: is_transport_def split: xnode.splits)
    from nm have "nm \<noteq> ''appName''" by auto
    with assms(2) nm n obtain ts where "XmlParseAppTransport n (transportArray a) = Inr ts"
      "a' = a\<lparr>transportArray := ts\<rparr>"
      by (auto simp: xml_app_node_def app_element_def bindR_eq_Inr)
    with XmlParseAppTransport_wf [OF assms(1)] True show ?thesis by auto
  next
    case False
    then have "same_slots a a' \<or> (\<exists>nm. XmlParseAppName n (appName a) = Inr nm \<and> a' = a\<lparr>appName := nm\<rparr>)"
      using assms(2) same_slots_nodes [of a] same_slots_desc [of a se n]
      by (auto simp: xml_app_node_def is_transport_def bindR_eq_Inr split: xnode.splits if_splits)
    with assms(1) False XmlParseAppName_length show ?thesis
      by (fastforce simp: same_slots_def)
  qed
  then show "prefix_filled (transportArray a')"
    and "filled (transportArray a') = filled (transportArray a) + (if is_transport n then 1 else 0)"
    and "numTransports a' = numTransports a"
    and "length (names (appName a')) = length (names (appName a))"
    and "numLangs (appName a') = numLangs (appName a)" by auto
qed

lemma XmlParseApplication_wf:
  assumes "prefix_filled (transportArray a)" and "XmlParseApplication se nodes a = Inr a'"
  shows "prefix_filled (transportArray a')
    \<and> filled (transportArray a') = filled (transportArray a) + length (filter is_transport nodes)
    \<and> numTransports a' = numTransports a
    \<and> length (names (appName a')) = length (names (appName a))
    \<and> numLangs (appName a') = numLangs (appName a)"
  using assms
proof (induction nodes arbitrary: a)
  case Nil
  then show ?case by (simp add: XmlParseApplication_def)
next
  case (Cons n nodes)
  from Cons.prems(2) obtain b where b: "xml_app_node se n a = Inr b"
    and r: "XmlParseApplication se nodes b = Inr a'"
    by (auto simp: XmlParseApplication_def bindR_eq_Inr)
  note w = xml_app_node_wf [OF Cons.prems(1) b]
  from Cons.IH [OF w(1) r] w show ?case by simp
qed

lemma alloc_parse_wf:
  assumes "XmlParseApplication se nodes (XmlAllocApplication nodes zero_app) = Inr a"
  shows "wf_app a"
proof -
  let ?z = "XmlAllocApplication nodes zero_app"
  have z: "transportArray ?z = [zero_transport, zero_transport]"
    "numTransports ?z = of_nat (length (filter is_transport nodes))"
    "length (names (appName ?z)) = unat (numLangs (appName ?z))"
    using alloc_transports [of nodes "(0, 0)"]
    by (auto simp: XmlAllocApplication_def Let_def zero_app_def split: prod.splits)
  have pf: "prefix_filled (transportArray ?z)" and f0: "filled (transportArray ?z) = 0"
    by (simp_all add: z prefix_filled_def filled_def ait_consts zero_transport_def)
  note w = XmlParseApplication_wf [OF pf assms]
  then have len: "length (transportArray a) = AIT_MAX_NUM_PROTOCOLS" by (simp add: prefix_filled_def)
  then have le: "length (filter is_transport nodes) \<le> 2"
    using w f0 filled_le [of "transportArray a"] by (simp add: ait_consts)
  then have "length (filter is_transport nodes) mod 256 = length (filter is_transport nodes)" by simp
  then have "unat (numTransports a) = filled (transportArray a)"
    using w f0 z(2) by (simp add: unat_of_nat)
  with w z(3) len show ?thesis by (simp add: wf_app_def)
qed

lemma xml_apps_loop_wf:
  assumes "\<forall>i. index \<le> i \<longrightarrow> i < length apps \<longrightarrow> apps ! i = zero_app" and "\<forall>a \<in> set apps. wf_app a"
    and "xml_apps_loop se index nodes apps = Inr apps'"
  shows "length apps' = length apps \<and> (\<forall>a \<in> set apps'. wf_app a)"
  using assms
proof (induction nodes arbitrary: index apps)
  case Nil
  then show ?case by simp
next
  case (Cons n ns)
  from Cons.prems(3) obtain a where ix: "index < length apps"
    and a: "XmlParseApplication se (xchildren n) (XmlAllocApplication (xchildren n) (apps ! index)) = Inr a"
    and r: "xml_apps_loop se (index + 1) ns (apps[index := a]) = Inr apps'"
    by (auto simp: bindR_eq_Inr split: if_splits)
  from Cons.prems(1) ix have "apps ! index = zero_app" by simp
  with a have "wf_app a" using alloc_parse_wf by simp
  with Cons.prems(2) have "\<forall>b \<in> set (apps[index := a]). wf_app b"
    using set_update_subset_insert [of apps index a] by auto
  with Cons.IH [OF _ _ r] Cons.prems(1) show ?case by simp
qed

lemma XmlParseAit_wf:
  assumes "XmlParseAit se content = Inr (Some t)"
  shows "wf_table t"
proof -
  from assms obtain root as
    where "xml_apps_loop se 0 (application_elements (root_children root))
        (replicate (unat (ucast (XmlCountApplications (root_children root)) :: u8)) zero_app) = Inr as"
      and t: "t = zero_table\<lparr>appType := APP_TYP_XML,
               numApps := ucast (XmlCountApplications (root_children root)), appArray := as\<rparr>"
    by (auto simp: XmlParseAit_def XmlParseApplications_def Let_def bindR_eq_Inr split: xml_result.splits)
  from xml_apps_loop_wf [OF _ _ this(1)] t show ?thesis
    by (simp add: wf_table_def zero_table_def)
qed

section \<open>The type of an XML application\<close>

lemma fold_keeps: "(\<And>n a. g (f n a) = g a) \<Longrightarrow> g (fold f ns a) = g a"
  by (induction ns arbitrary: a) auto

lemma type_never_set: "XmlParseAppDescType node app = app"
  unfolding XmlParseAppDescType_def
  by (rule fold_keeps [of "\<lambda>x. x" _ _ app, simplified]) (auto split: xnode.split)

lemma keeps_type:
  "xmlType (XmlParseAppId node a) = xmlType a" "xmlType (XmlParseAppUsage node a) = xmlType a"
  "xmlType (XmlParseAppDescType node a) = xmlType a" "xmlType (XmlParseAppDescProfile se node a) = xmlType a"
  "xmlType (XmlParseAppDescGraphics node a) = xmlType a" "xmlType (XmlParseAppBoundary node a) = xmlType a"
  "xmlType (XmlParseAppLocation node a) = xmlType a"
  unfolding XmlParseAppId_def XmlParseAppUsage_def XmlParseAppDescType_def XmlParseAppBoundary_def
  by ((rule fold_keeps)?,
      simp add: XmlParseAppDescProfile_def XmlParseAppDescGraphics_def
        XmlParseAppLocation_def Let_def split: xnode.split option.split)+

lemma desc_keeps_type: "xmlType (XmlParseAppDesc se node a) = xmlType a"
proof -
  have "xmlType (xml_desc_node se n a) = xmlType a" for n a
    by (cases n) (simp_all add: xml_desc_node_def keeps_type)
  then have "xmlType (fold (xml_desc_node se) ns b) = xmlType b" for b ns
    by (rule fold_keeps)
  then show ?thesis by (simp add: XmlParseAppDesc_def)
qed

lemma app_node_keeps_type: "xml_app_node se n a = Inr a' \<Longrightarrow> xmlType a' = xmlType a"
  by (auto simp: xml_app_node_def bindR_eq_Inr keeps_type desc_keeps_type split: xnode.splits if_splits)

lemma application_keeps_type: "XmlParseApplication se nodes a = Inr a' \<Longrightarrow> xmlType a' = xmlType a"
  unfolding XmlParseApplication_def
  by (induction nodes arbitrary: a) (auto simp: bindR_eq_Inr dest: app_node_keeps_type)

lemma apps_loop_type:
  assumes "xml_apps_loop se index nodes apps = Inr apps'" and "\<forall>a \<in> set apps. xmlType a = 0"
  shows "\<forall>a \<in> set apps'. xmlType a = 0"
  using assms
proof (induction nodes arbitrary: index apps)
  case Nil
  then show ?case by simp
next
  case (Cons n ns)
  from Cons.prems(1) obtain a where ix: "index < length apps"
    and a: "XmlParseApplication se (xchildren n) (XmlAllocApplication (xchildren n) (apps ! index)) = Inr a"
    and r: "xml_apps_loop se (index + 1) ns (apps[index := a]) = Inr apps'"
    by (auto simp: bindR_eq_Inr split: if_splits)
  have "xmlType a = xmlType (apps ! index)"
    using application_keeps_type [OF a] by (auto simp: XmlAllocApplication_def Let_def split: prod.splits)
  with Cons.prems(2) ix have "\<forall>b \<in> set (apps[index := a]). xmlType b = 0"
    using set_update_subset_insert [of apps index a] by auto
  with Cons.IH [OF r] show ?case by simp
qed

text \<open>
  C26. A table that \<open>ParseAit\<close> returns is well-formed: its counters do not run past its vectors, so
  that the queries on it return. The type of none of its applications is ever set.
\<close>

theorem xml_table:
  assumes "XmlParseAit se content = Inr (Some t)"
  shows "wf_table t \<and> appType t = APP_TYP_XML
    \<and> (\<exists>best. AutoStartApp v (Some t) age r r3 = Inr best)
    \<and> (\<forall>a \<in> set (appArray t). xmlType a = XML_TYP_UNKNOWN)"
proof -
  have wf: "wf_table t" by (rule XmlParseAit_wf [OF assms])
  from assms obtain root as
    where l: "xml_apps_loop se 0 (application_elements (root_children root))
        (replicate (unat (ucast (XmlCountApplications (root_children root)) :: u8)) zero_app) = Inr as"
      and t: "appArray t = as" "appType t = APP_TYP_XML"
    by (auto simp: XmlParseAit_def XmlParseApplications_def Let_def bindR_eq_Inr split: xml_result.splits)
  from apps_loop_type [OF l] t wf AutoStartApp_ok [OF wf] show ?thesis
    by (simp add: zero_app_def XML_TYP_UNKNOWN_def)
qed

text \<open>A document with one application of type HbbTV.\<close>

definition typed_session :: session where
  "typed_session = demo_session\<lparr>se_read_xml := (\<lambda>_. Doc (Element ''ServiceDiscovery'' []
     [Element ''ApplicationDiscovery'' [] [Element ''ApplicationList'' [] [Element ''Application'' []
       [Element ''applicationIdentifier'' [] [Element ''orgId'' [] [Leaf (Some ''7'')]],
        Element ''applicationDescriptor'' [] [Element ''type'' []
          [Element ''OtherApp'' [] [Leaf (Some ''application/vnd.hbbtv.xhtml+xml'')]]]]]]]))\<rparr>"

theorem xml_table_witness:
  "\<exists>t. XmlParseAit typed_session ''xml'' = Inr (Some t) \<and> map orgId (appArray t) = [7]
     \<and> map xmlType (appArray t) = [XML_TYP_UNKNOWN]"
proof -
  have "returns (XmlParseAit typed_session ''xml'') (\<lambda>r. case r of None \<Rightarrow> False
      | Some t \<Rightarrow> map orgId (appArray t) = [7])" by code_simp
  then obtain t where t: "XmlParseAit typed_session ''xml'' = Inr (Some t)" and o: "map orgId (appArray t) = [7]"
    by (auto elim!: returnsE split: option.splits)
  from xml_table [OF t] have "\<forall>a \<in> set (appArray t). xmlType a = XML_TYP_UNKNOWN" by blast
  moreover from o obtain a where "appArray t = [a]" by (auto simp: map_eq_Cons_conv)
  ultimately show ?thesis using t o by auto
qed

end
