(* ===== verification/OpApp.thy ===== *)
theory OpApp
  imports HbbtvApp
begin

text \<open>
  The class \<open>OpApp\<close> of \<open>opapp.cpp\<close>: operator applications have the five states of TS 103 606 and a
  one-minute countdown in the transient ones. The virtual methods of \<open>HbbTVApp\<close> are dispatched on
  the type of the object; the contract that callers of \<open>SetState\<close> rely on is the locale
  \<open>stateful_app\<close>, interpreted for both classes.
\<close>

section \<open>States\<close>

definition COUNT_DOWN_TIMEOUT :: int where "COUNT_DOWN_TIMEOUT = 60000"

fun opAppStateToString :: "app_state \<Rightarrow> string" where
  "opAppStateToString BACKGROUND_STATE = ''background''"
| "opAppStateToString FOREGROUND_STATE = ''foreground''"
| "opAppStateToString TRANSIENT_STATE = ''transient''"
| "opAppStateToString OVERLAID_TRANSIENT_STATE = ''overlaid-transient''"
| "opAppStateToString OVERLAID_FOREGROUND_STATE = ''overlaid-foreground''"

definition CanTransitionToState :: "app_state \<Rightarrow> app_state \<Rightarrow> bool" where
  "CanTransitionToState current s =
     (if s \<noteq> current then
        (case current of
           FOREGROUND_STATE \<Rightarrow> s = BACKGROUND_STATE \<or> s = TRANSIENT_STATE
         | TRANSIENT_STATE \<Rightarrow> s = FOREGROUND_STATE \<or> s = BACKGROUND_STATE
         | OVERLAID_TRANSIENT_STATE \<Rightarrow> s = FOREGROUND_STATE \<or> s = BACKGROUND_STATE
         | OVERLAID_FOREGROUND_STATE \<Rightarrow> s = FOREGROUND_STATE \<or> s = BACKGROUND_STATE
         | BACKGROUND_STATE \<Rightarrow> False)
      else True)"

definition OpApp_SetState :: "thread_id \<Rightarrow> int \<Rightarrow> app_state \<Rightarrow> app \<Rightarrow> (bool \<times> app \<times> cb_event list) res" where
  "OpApp_SetState th now s a =
     (if CanTransitionToState (m_state a) s then
        (let (a, evs) =
           (if s \<noteq> m_state a then
              (a\<lparr>m_state := s\<rparr>,
               [DispatchOperatorApplicationStateChange (m_id a) (opAppStateToString (m_state a)) (opAppStateToString s),
                if s = BACKGROUND_STATE then HideApp (m_id a) else ShowApp (m_id a)])
            else (a, []))
         in bindR (if s = TRANSIENT_STATE \<or> s = OVERLAID_TRANSIENT_STATE
                   then Timeout_start th now COUNT_DOWN_TIMEOUT (m_countdown a)
                   else Timeout_stop th (m_countdown a))
              (\<lambda>t. Inr (True, a\<lparr>m_countdown := t\<rparr>, evs)))
      else Inr (False, a, []))"

definition OpApp_TransitionToBroadcastRelated :: "app \<Rightarrow> bool \<times> app \<times> cb_event list" where
  "OpApp_TransitionToBroadcastRelated a =
     (if m_state a = FOREGROUND_STATE then HbbTVApp_TransitionToBroadcastRelated a else (False, a, []))"

section \<open>Construction\<close>

definition OpApp_from_url :: "session \<Rightarrow> string \<Rightarrow> int \<Rightarrow> app option" where
  "OpApp_from_url se url i =
     map_option (\<lambda>a. a\<lparr>m_state := BACKGROUND_STATE\<rparr>) (HbbTVApp_from_url se OPAPP_TYPE url i)"

definition OpApp_from_desc :: "session \<Rightarrow> ait_app_desc \<Rightarrow> bool \<Rightarrow> int \<Rightarrow> (app \<times> cb_event list) option res" where
  "OpApp_from_desc se desc net i =
     bindR (HbbTVApp_from_desc se OPAPP_TYPE desc MakeInvalidDvbTriplet net [] True False i) (\<lambda>r.
       Inr (map_option (\<lambda>(a, evs). (a\<lparr>m_state := BACKGROUND_STATE\<rparr>, evs)) r))"

text \<open>An operator application that inherits the state of another one.\<close>

definition OpApp_inherit :: "session \<Rightarrow> int \<Rightarrow> app \<Rightarrow> string \<Rightarrow> int \<Rightarrow> app option res" where
  "OpApp_inherit se now other url i =
     (case HbbTVApp_from_url se OPAPP_TYPE url i of
        None \<Rightarrow> Inr None
      | Some a \<Rightarrow>
          bindR (Timeout_isStopped Caller (m_countdown other)) (\<lambda>stopped.
            if \<not> stopped then
              bindR (Timeout_remaining Caller now (m_countdown other)) (\<lambda>rem.
              bindR (Timeout_start Caller now rem (m_countdown a)) (\<lambda>t.
                Inr (Some (a\<lparr>m_state := m_state other, m_countdown := t\<rparr>))))
            else Inr (Some (a\<lparr>m_state := m_state other\<rparr>))))"

text \<open>The countdown expires: the timer thread calls \<open>SetState(BACKGROUND_STATE)\<close>.\<close>

definition OpApp_countdown_expires :: "int \<Rightarrow> app \<Rightarrow> (app \<times> cb_event list) res" where
  "OpApp_countdown_expires now a =
     (case Timeout_fire (m_countdown a) of
        None \<Rightarrow> Inr (a, [])
      | Some t \<Rightarrow>
          bindR (OpApp_SetState Timer now BACKGROUND_STATE (a\<lparr>m_countdown := t\<rparr>)) (\<lambda>(_, a, evs).
            Inr (a\<lparr>m_countdown := Timeout_fired (m_countdown a)\<rparr>, evs)))"

section \<open>Virtual methods\<close>

definition App_SetState :: "int \<Rightarrow> app_state \<Rightarrow> app \<Rightarrow> (bool \<times> app \<times> cb_event list) res" where
  "App_SetState now s a =
     (case m_type a of
        HBBTV_APP_TYPE \<Rightarrow> Inr (HbbTVApp_SetState s a)
      | OPAPP_TYPE \<Rightarrow> OpApp_SetState Caller now s a)"

definition App_TransitionToBroadcastRelated :: "app \<Rightarrow> bool \<times> app \<times> cb_event list" where
  "App_TransitionToBroadcastRelated a =
     (case m_type a of
        HBBTV_APP_TYPE \<Rightarrow> HbbTVApp_TransitionToBroadcastRelated a
      | OPAPP_TYPE \<Rightarrow> OpApp_TransitionToBroadcastRelated a)"

lemma OpApp_from_desc_frame:
  "OpApp_from_desc se desc net i = Inr (Some (a, evs)) \<Longrightarrow>
     m_type a = OPAPP_TYPE \<and> m_id a = i \<and> \<not> m_isTrusted a \<and> m_isBroadcast a
   \<and> m_state a = BACKGROUND_STATE \<and> m_countdown a = Timeout_new"
  by (auto simp: OpApp_from_desc_def ret_iff dest!: HbbTVApp_from_desc_frame)

lemma OpApp_from_url_frame:
  "OpApp_from_url se url i = Some a \<Longrightarrow>
     m_type a = OPAPP_TYPE \<and> m_id a = i \<and> \<not> m_isTrusted a \<and> \<not> m_isBroadcast a
   \<and> m_state a = BACKGROUND_STATE \<and> m_countdown a = Timeout_new"
  by (auto simp: OpApp_from_url_def dest!: HbbTVApp_from_url_frame)

section \<open>The contract of SetState\<close>

definition app_ok :: "app \<Rightarrow> bool" where
  "app_ok a \<longleftrightarrow> to_ok (m_countdown a)"

locale stateful_app =
  fixes set_state :: "int \<Rightarrow> app_state \<Rightarrow> app \<Rightarrow> (bool \<times> app \<times> cb_event list) res"
    and supports :: "app_state \<Rightarrow> app_state \<Rightarrow> bool"
  assumes returns: "app_ok a \<Longrightarrow> \<exists>b a' evs. set_state now s a = Inr (b, a', evs)"
    and keeps_ok: "app_ok a \<Longrightarrow> set_state now s a = Inr (b, a', evs) \<Longrightarrow> app_ok a'"
    and keeps: "set_state now s a = Inr (b, a', evs) \<Longrightarrow>
      m_type a' = m_type a \<and> m_id a' = m_id a \<and> m_isBroadcast a' = m_isBroadcast a
      \<and> m_isTrusted a' = m_isTrusted a \<and> m_aitDesc a' = m_aitDesc a"
    and accepts: "set_state now s a = Inr (b, a', evs) \<Longrightarrow> b \<longleftrightarrow> supports (m_state a) s"
    and reaches: "set_state now s a = Inr (True, a', evs) \<Longrightarrow> m_state a' = s"
    and refuses: "set_state now s a = Inr (False, a', evs) \<Longrightarrow> a' = a \<and> evs = []"
    and shows_or_hides: "set_state now s a = Inr (True, a', evs) \<Longrightarrow> s \<noteq> m_state a \<Longrightarrow>
      (if s = BACKGROUND_STATE then HideApp (m_id a) else ShowApp (m_id a)) \<in> set evs"
begin

text \<open>The state after a call is the requested one exactly when the call reports success or was there already.\<close>

lemma state_after:
  assumes "set_state now s a = Inr (b, a', evs)"
  shows "m_state a' = (if b then s else m_state a)"
proof (cases b)
  case True
  with assms reaches [of now s a a' evs] show ?thesis by simp
next
  case False
  with assms refuses [of now s a a' evs] show ?thesis by simp
qed

lemma repeat_refused: "set_state now s a = Inr (False, a', evs) \<Longrightarrow> \<not> supports (m_state a') s"
  using accepts refuses by blast

end

definition hbbtv_supports :: "app_state \<Rightarrow> app_state \<Rightarrow> bool" where
  "hbbtv_supports current s \<longleftrightarrow> s = BACKGROUND_STATE \<or> s = FOREGROUND_STATE"

interpretation hbbtv: stateful_app "\<lambda>now s a. Inr (HbbTVApp_SetState s a)" hbbtv_supports
  by unfold_locales
    (auto simp: HbbTVApp_SetState_def hbbtv_supports_def app_ok_def split: if_splits)

lemma OpApp_SetState_returns: "app_ok a \<Longrightarrow>
   \<exists>b a' evs. OpApp_SetState Caller now s a = Inr (b, a', evs) \<and> app_ok a'"
  using start_ok [of "m_countdown a" now COUNT_DOWN_TIMEOUT] stop_ok [of "m_countdown a"]
  by (auto simp: OpApp_SetState_def app_ok_def Let_def split: prod.splits)

interpretation opapp: stateful_app "OpApp_SetState Caller" CanTransitionToState
proof unfold_locales
  fix a now s
  assume "app_ok a"
  then show "\<exists>b a' evs. OpApp_SetState Caller now s a = Inr (b, a', evs)"
    using OpApp_SetState_returns by blast
next
  fix a now s b a' evs
  assume "app_ok a" and "OpApp_SetState Caller now s a = Inr (b, a', evs)"
  then show "app_ok a'"
    using OpApp_SetState_returns [of a now s] by auto
qed (auto simp: OpApp_SetState_def ret_iff Let_def split: if_splits prod.splits)

end
