(* ===== verification/AppManager.thy ===== *)
theory AppManager
  imports AitSection XmlParser OpApp "HOL-Library.Char_ord" "HOL-Library.List_Lexorder"
begin

text \<open>
  \<open>ApplicationManager\<close> (\<open>application_manager.cpp\<close>): it owns the AIT of the selected service, at most
  one HbbTV application and one operator application, and decides which application runs. Every
  public operation holds the recursive mutex \<open>m_lock\<close>, so an operation is one step; the thread of
  the AIT timer first takes the timer's own mutex and only then \<open>m_lock\<close>, so the expiry of that
  timer is two steps (\<open>AitTimerExpires\<close>, \<open>AitTimerCallback\<close>).
\<close>

section \<open>State\<close>

text \<open>
  \<open>g_id\<close> is the static counter of \<open>hbbtv_app.cpp\<close>; \<open>events\<close> are the commands sent to the session so
  far. A \<open>unique_ptr\<close> that \<open>operator[]\<close> inserts for an absent key is null: dereferencing it is
  \<^const>\<open>NullDeref\<close>.
\<close>

record mgr =
  g_id :: int
  mg_ait :: ait_state
  m_apps :: "(int \<times> app) list"
  m_hbbtvAppId :: int
  m_opAppId :: int
  m_currentService :: dvb_triplet
  m_previousService :: dvb_triplet
  m_currentServiceReceivedFirstAit :: bool
  m_currentServiceAitPid :: u16
  m_isNetworkAvailable :: bool
  m_aitTimeout :: timeout
  events :: "cb_event list"

definition ApplicationManager_new :: mgr where
  "ApplicationManager_new =
     \<lparr>g_id = INVALID_APP_ID, mg_ait = Ait_new, m_apps = [], m_hbbtvAppId = INVALID_APP_ID,
      m_opAppId = INVALID_APP_ID, m_currentService = MakeInvalidDvbTriplet,
      m_previousService = MakeInvalidDvbTriplet, m_currentServiceReceivedFirstAit = False,
      m_currentServiceAitPid = 0, m_isNetworkAvailable = False, m_aitTimeout = Timeout_new,
      events = []\<rparr>"

definition AIT_TIMEOUT :: int where "AIT_TIMEOUT = 5000"

definition emit :: "cb_event list \<Rightarrow> mgr \<Rightarrow> mgr" where
  "emit es m = m\<lparr>events := events m @ es\<rparr>"

definition running :: "mgr \<Rightarrow> int \<Rightarrow> bool" where
  "running m i = (om_get (m_apps m) i \<noteq> None)"

definition deref :: "mgr \<Rightarrow> int \<Rightarrow> app res" where
  "deref m i = (case om_get (m_apps m) i of None \<Rightarrow> Inl NullDeref | Some a \<Rightarrow> Inr a)"

definition put_app :: "int \<Rightarrow> app \<Rightarrow> mgr \<Rightarrow> mgr" where
  "put_app i a m = m\<lparr>m_apps := om_ins i a (m_apps m)\<rparr>"

section \<open>Running and killing applications\<close>

definition RunApp :: "app \<Rightarrow> mgr \<Rightarrow> int \<times> mgr" where
  "RunApp a m =
     (let slot = (case m_type a of OPAPP_TYPE \<Rightarrow> m_opAppId m | HBBTV_APP_TYPE \<Rightarrow> m_hbbtvAppId m);
          m = m\<lparr>m_apps := om_del slot (m_apps m)\<rparr>;
          m = (if \<not> m_isBroadcast a \<and> \<not> IsInvalidDvbTriplet (m_currentService m) then
                 (emit [StopBroadcast] m)\<lparr>m_currentService := MakeInvalidDvbTriplet,
                                          m_previousService := MakeInvalidDvbTriplet\<rparr>
               else m);
          m = emit [LoadApplication (m_id a) (m_entryUrl a) (Some (graphicsConstraints (m_aitDesc a)))] m;
          m = (case m_type a of
                 OPAPP_TYPE \<Rightarrow> m\<lparr>m_opAppId := m_id a\<rparr>
               | HBBTV_APP_TYPE \<Rightarrow> m\<lparr>m_hbbtvAppId := m_id a\<rparr>);
          m = put_app (m_id a) a m;
          m = emit [if m_state a \<noteq> BACKGROUND_STATE then ShowApp (m_id a) else HideApp (m_id a)] m
      in (m_id a, m))"

definition CreateAndRunApp_url :: "session \<Rightarrow> string \<Rightarrow> bool \<Rightarrow> mgr \<Rightarrow> int \<times> mgr" where
  "CreateAndRunApp_url se url runAsOpApp m =
     (let i = g_id m + 1; m = m\<lparr>g_id := i\<rparr> in
      (case (if runAsOpApp then OpApp_from_url se url i else HbbTVApp_from_url se HBBTV_APP_TYPE url i) of
         None \<Rightarrow> (INVALID_APP_ID, m)
       | Some a \<Rightarrow> RunApp a m))"

definition is_opapp_usage :: "string \<Rightarrow> bool" where
  "is_opapp_usage u = (u = ''urn:hbbtv:opapp:privileged:2017'' \<or> u = ''urn:hbbtv:opapp:opspecific:2017'')"

definition construct_app :: "session \<Rightarrow> ait_app_desc \<Rightarrow> string \<Rightarrow> bool \<Rightarrow> bool \<Rightarrow> bool \<Rightarrow> mgr \<Rightarrow> int
    \<Rightarrow> (app \<times> cb_event list) option res" where
  "construct_app se desc urlParams isBroadcast isTrusted runAsOpApp m i =
     (if runAsOpApp \<or> is_opapp_usage (appUsage desc)
      then OpApp_from_desc se desc (m_isNetworkAvailable m) i
      else HbbTVApp_from_desc se HBBTV_APP_TYPE desc (m_currentService m) (m_isNetworkAvailable m)
             urlParams isBroadcast isTrusted i)"

definition CreateAndRunApp_desc :: "session \<Rightarrow> ait_app_desc \<Rightarrow> string \<Rightarrow> bool \<Rightarrow> bool \<Rightarrow> bool \<Rightarrow> mgr
    \<Rightarrow> (int \<times> mgr) res" where
  "CreateAndRunApp_desc se desc urlParams isBroadcast isTrusted runAsOpApp m =
     bindR (construct_app se desc urlParams isBroadcast isTrusted runAsOpApp m (g_id m + 1))
       (\<lambda>r. let m = m\<lparr>g_id := g_id m + 1\<rparr> in
            (case r of
               None \<Rightarrow> Inr (INVALID_APP_ID, m)
             | Some (a, evs) \<Rightarrow> Inr (RunApp a (emit evs m))))"

definition KillRunningApp :: "int \<Rightarrow> mgr \<Rightarrow> mgr" where
  "KillRunningApp i m =
     (if (m_hbbtvAppId m = i \<or> m_opAppId m = i) \<and> running m i then
        (let m = m\<lparr>m_apps := om_del i (m_apps m)\<rparr>;
             m = emit [HideApp i, LoadApplication INVALID_APP_ID ''about:blank'' None] m
         in if i = m_hbbtvAppId m then m\<lparr>m_hbbtvAppId := INVALID_APP_ID\<rparr>
            else m\<lparr>m_opAppId := INVALID_APP_ID\<rparr>)
      else m)"

text \<open>The flag is false when \<open>Update\<close> throws.\<close>

definition UpdateRunningApp :: "session \<Rightarrow> ait_app_desc \<Rightarrow> mgr \<Rightarrow> (bool \<times> mgr) res" where
  "UpdateRunningApp se desc m =
     bindR (deref m (m_hbbtvAppId m)) (\<lambda>a.
     bindR (HbbTVApp_Update se desc (m_isNetworkAvailable m) a) (\<lambda>r. case r of
         None \<Rightarrow> Inr (False, m)
       | Some (a, evs) \<Rightarrow> Inr (True, emit evs (put_app (m_hbbtvAppId m) a m))))"

definition TransitionRunningAppToBroadcastRelated :: "session \<Rightarrow> mgr \<Rightarrow> (bool \<times> mgr) res" where
  "TransitionRunningAppToBroadcastRelated se m =
     (case Ait_Get (mg_ait m) of
        None \<Rightarrow> Inr (False, m)
      | Some t \<Rightarrow>
          if \<not> running m (m_hbbtvAppId m) then Inr (False, m)
          else bindR (deref m (m_hbbtvAppId m)) (\<lambda>a.
            let aitDesc = m_aitDesc a in
            if appId aitDesc = 0 \<or> orgId aitDesc = 0 then Inr (False, m)
            else bindR (FindApp (Some t) (orgId aitDesc) (appId aitDesc)) (\<lambda>found. case found of
                None \<Rightarrow> Inr (False, m)
              | Some desc \<Rightarrow>
                  bindR (UpdateRunningApp se desc m) (\<lambda>(ok, m).
                    if \<not> ok then Inr (False, m)
                    else bindR (deref m (m_hbbtvAppId m)) (\<lambda>a.
                      let (b, a, evs) = App_TransitionToBroadcastRelated a
                      in Inr (b, emit evs (put_app (m_hbbtvAppId m) a m)))))))"

definition TransitionRunningAppToBroadcastIndependent :: "mgr \<Rightarrow> (bool \<times> mgr) res" where
  "TransitionRunningAppToBroadcastIndependent m =
     (if running m (m_hbbtvAppId m) then
        bindR (deref m (m_hbbtvAppId m)) (\<lambda>a.
          let (b, a) = HbbTVApp_TransitionToBroadcastIndependent a
          in Inr (b, put_app (m_hbbtvAppId m) a m))
      else Inr (True, m))"

definition IsAppTrusted :: "bool \<Rightarrow> bool" where
  "IsAppTrusted is_broadcast = False"

definition GetAutoStartApp :: "session \<Rightarrow> ait_table option \<Rightarrow> ait_app_desc option res" where
  "GetAutoStartApp se t = AutoStartApp (se_version se) t (se_pc_age se) (se_pc_region se) (se_pc_region3 se)"

definition GetOrganizationId :: "mgr \<Rightarrow> u32" where
  "GetOrganizationId m = (case om_get (m_apps m) (m_hbbtvAppId m) of
      Some a \<Rightarrow> orgId (m_aitDesc a)
    | None \<Rightarrow> - 1)"


section \<open>Service selection and AIT handlers\<close>

definition OnPerformBroadcastAutostart :: "session \<Rightarrow> mgr \<Rightarrow> mgr res" where
  "OnPerformBroadcastAutostart se m =
     (if \<not> m_currentServiceReceivedFirstAit m \<or> Ait_Get (mg_ait m) = None then Inr m
      else bindR (GetAutoStartApp se (Ait_Get (mg_ait m))) (\<lambda>app_desc. case app_desc of
          Some desc \<Rightarrow> bindR (CreateAndRunApp_desc se desc [] True False False m) (\<lambda>(r, m). Inr m)
        | None \<Rightarrow> Inr m))"

definition OnRunningAppExited :: "session \<Rightarrow> mgr \<Rightarrow> mgr res" where
  "OnRunningAppExited se m =
     (if \<not> IsInvalidDvbTriplet (m_currentService m) then OnPerformBroadcastAutostart se m else Inr m)"

text \<open>The update that both AIT handlers make: an application whose update throws is killed.\<close>

definition update_or_kill :: "session \<Rightarrow> ait_app_desc \<Rightarrow> mgr \<Rightarrow> mgr res" where
  "update_or_kill se signalled m =
     bindR (UpdateRunningApp se signalled m) (\<lambda>(ok, m).
       Inr (if \<not> ok then KillRunningApp (m_hbbtvAppId m) m else m))"

text \<open>First part: the fate of an application that was running before the AIT came.\<close>

definition ait_received_existing :: "session \<Rightarrow> ait_table \<Rightarrow> mgr \<Rightarrow> mgr res" where
  "ait_received_existing se t m =
     (if running m (m_hbbtvAppId m) then
        bindR (deref m (m_hbbtvAppId m)) (\<lambda>a.
          if m_isBroadcast a then
            (let aitDesc = m_aitDesc a in
             if serviceBound (appDesc aitDesc) \<and> \<not> se_is_instance se (m_previousService m)
             then Inr (KillRunningApp (m_hbbtvAppId m) m)
             else bindR (FindApp (Some t) (orgId aitDesc) (appId aitDesc)) (\<lambda>signalled. case signalled of
                 None \<Rightarrow> Inr (KillRunningApp (m_hbbtvAppId m) m)
               | Some s \<Rightarrow>
                   if controlCode s = control_code APP_CTL_KILL then Inr (KillRunningApp (m_hbbtvAppId m) m)
                   else bindR (AppHasTransport s (m_protocolId a)) (\<lambda>has.
                     if \<not> has then Inr (KillRunningApp (m_hbbtvAppId m) m)
                     else update_or_kill se s m)))
          else
            bindR (TransitionRunningAppToBroadcastRelated se m) (\<lambda>(ok, m).
              Inr (if \<not> ok then KillRunningApp (m_hbbtvAppId m) m else m)))
      else Inr m)"

definition OnSelectedServiceAitReceived :: "session \<Rightarrow> mgr \<Rightarrow> mgr res" where
  "OnSelectedServiceAitReceived se m =
     (case Ait_Get (mg_ait m) of
        None \<Rightarrow> Inr m
      | Some t \<Rightarrow>
          bindR (ait_received_existing se t m) (\<lambda>m.
            if \<not> running m (m_hbbtvAppId m) then OnPerformBroadcastAutostart se m
            else bindR (deref m (m_hbbtvAppId m)) (\<lambda>a.
              bindR (FindApp (Some t) (orgId (m_aitDesc a)) (appId (m_aitDesc a))) (\<lambda>signalled.
                case signalled of
                  None \<Rightarrow> Inr m
                | Some s \<Rightarrow> update_or_kill se s m))))"

text \<open>The callback of the AIT timer.\<close>

definition OnSelectedServiceAitTimeout :: "mgr \<Rightarrow> mgr" where
  "OnSelectedServiceAitTimeout m = KillRunningApp (m_hbbtvAppId m) m"

definition ait_updated_existing :: "session \<Rightarrow> ait_table \<Rightarrow> app \<Rightarrow> mgr \<Rightarrow> mgr res" where
  "ait_updated_existing se t a m =
     bindR (FindApp (Some t) (orgId (m_aitDesc a)) (appId (m_aitDesc a))) (\<lambda>signalled. case signalled of
         None \<Rightarrow> Inr (KillRunningApp (m_hbbtvAppId m) m)
       | Some s \<Rightarrow>
           bindR (AppHasTransport s (m_protocolId a)) (\<lambda>has.
             if \<not> has then Inr (KillRunningApp (m_hbbtvAppId m) m)
             else if controlCode s = control_code APP_CTL_KILL then Inr (KillRunningApp (m_hbbtvAppId m) m)
             else update_or_kill se s m))"

definition OnSelectedServiceAitUpdated :: "session \<Rightarrow> mgr \<Rightarrow> mgr res" where
  "OnSelectedServiceAitUpdated se m =
     (case Ait_Get (mg_ait m) of
        None \<Rightarrow> Inr m
      | Some t \<Rightarrow>
          if running m (m_hbbtvAppId m) then
            bindR (deref m (m_hbbtvAppId m)) (\<lambda>a.
              if \<not> m_isBroadcast a then Inr m
              else bindR (ait_updated_existing se t a m) (\<lambda>m.
                if \<not> running m (m_hbbtvAppId m) then OnPerformBroadcastAutostart se m else Inr m))
          else OnPerformBroadcastAutostart se m)"

definition first_ait :: "session \<Rightarrow> mgr \<Rightarrow> mgr res" where
  "first_ait se m =
     (if \<not> m_currentServiceReceivedFirstAit m then
        bindR (Timeout_stop Caller (m_aitTimeout m)) (\<lambda>t.
          OnSelectedServiceAitReceived se
            (m\<lparr>m_aitTimeout := t, m_currentServiceReceivedFirstAit := True\<rparr>))
      else OnSelectedServiceAitUpdated se m)"

text \<open>A section from another PID starts a new table, unless no PID was known.\<close>

definition select_ait_pid :: "u16 \<Rightarrow> mgr \<Rightarrow> mgr" where
  "select_ait_pid aitPid m =
     (if aitPid \<noteq> m_currentServiceAitPid m then
        (let m = (if m_currentServiceAitPid m \<noteq> 0 then m\<lparr>mg_ait := Ait_Clear (mg_ait m)\<rparr> else m)
         in m\<lparr>m_currentServiceAitPid := aitPid\<rparr>)
      else m)"

definition ProcessAitSection :: "session \<Rightarrow> u16 \<Rightarrow> u16 \<Rightarrow> u8 list \<Rightarrow> mgr \<Rightarrow> mgr res" where
  "ProcessAitSection se aitPid sid sectionBytes m =
     (if sid \<noteq> serviceId (m_currentService m) then Inr m
      else
        let m = select_ait_pid aitPid m
        in bindR (ProcessSection sectionBytes (mg_ait m)) (\<lambda>(updated, st).
             let m = m\<lparr>mg_ait := st\<rparr> in
             if \<not> updated then Inr m
             else if Ait_Get (mg_ait m) = None then Inr m
             else first_ait se m))"

definition bool_to_int :: "bool \<Rightarrow> int" where
  "bool_to_int b = (if b then 1 else 0)"

text \<open>The result passes through a variable of type \<open>bool\<close>.\<close>

definition ProcessXmlAit :: "session \<Rightarrow> string \<Rightarrow> bool \<Rightarrow> string \<Rightarrow> mgr \<Rightarrow> (int \<times> mgr) res" where
  "ProcessXmlAit se xmlAit isDvbi sch m =
     (if xmlAit = [] then Inr (INVALID_APP_ID, m)
      else bindR (XmlParseAit se xmlAit) (\<lambda>parsed. case parsed of
          None \<Rightarrow> Inr (INVALID_APP_ID, m)
        | Some t \<Rightarrow>
            if numApps t = 0 then Inr (INVALID_APP_ID, m)
            else bindR (foldR (\<lambda>i as. bindR (rd as i) (\<lambda>a. wr as i (a\<lparr>scheme := sch\<rparr>)))
                          [0 ..< unat (numApps t)] (appArray t)) (\<lambda>as.
              let t = t\<lparr>appArray := as\<rparr> in
              if isDvbi then
                bindR (first_ait se (m\<lparr>mg_ait := ApplyAitTable t (Ait_Clear (mg_ait m)),
                                       m_currentServiceAitPid := 0xFFFF\<rparr>))
                  (\<lambda>m. Inr (bool_to_int (m_hbbtvAppId m \<noteq> 0), m))
              else bindR (GetAutoStartApp se (Some t)) (\<lambda>found. case found of
                  None \<Rightarrow> Inr (bool_to_int (INVALID_APP_ID \<noteq> 0), m)
                | Some desc \<Rightarrow>
                    bindR (CreateAndRunApp_desc se desc [] isDvbi False False m) (\<lambda>(r, m).
                      Inr (bool_to_int (r \<noteq> 0), m))))))"

section \<open>Requests of applications\<close>

definition create_from_locator :: "session \<Rightarrow> string \<Rightarrow> bool \<Rightarrow> create_locator_info \<Rightarrow> mgr \<Rightarrow> (int \<times> mgr) res" where
  "create_from_locator se url runAsOpApp info m =
     (case loc_type info of
        AIT_APPLICATION_LOCATOR \<Rightarrow>
          if Ait_Get (mg_ait m) = None then Inr (INVALID_APP_ID, m)
          else bindR (FindApp (Ait_Get (mg_ait m)) (loc_orgId info) (loc_appId info)) (\<lambda>found.
            case found of
              Some desc \<Rightarrow> CreateAndRunApp_desc se desc (loc_parameters info) True False runAsOpApp m
            | None \<Rightarrow> Inr (INVALID_APP_ID, m))
      | ENTRY_PAGE_OR_XML_AIT_LOCATOR \<Rightarrow>
          (let contents = se_xml_contents se url in
           if contents \<noteq> [] then ProcessXmlAit se contents False LINKED_APP_SCHEME_1_1 m
           else Inr (CreateAndRunApp_url se url runAsOpApp m))
      | UNKNOWN_LOCATOR \<Rightarrow> Inr (INVALID_APP_ID, m))"

definition CreateApplication :: "session \<Rightarrow> int \<Rightarrow> string \<Rightarrow> bool \<Rightarrow> mgr \<Rightarrow> (int \<times> mgr) res" where
  "CreateApplication se callingAppId url runAsOpApp m =
     (if \<not> running m callingAppId then Inr (INVALID_APP_ID, m)
      else if url = [] then Inr (INVALID_APP_ID, emit [DispatchApplicationLoadErrorEvent] m)
      else bindR (deref m callingAppId) (\<lambda>caller.
        if runAsOpApp \<and> m_type caller \<noteq> OPAPP_TYPE then Inr (INVALID_APP_ID, m)
        else bindR (create_from_locator se url runAsOpApp (ParseCreateLocatorInfo url (m_currentService m)) m)
          (\<lambda>(result, m).
             Inr (result, if result = INVALID_APP_ID then emit [DispatchApplicationLoadErrorEvent] m else m))))"

definition DestroyApplication :: "session \<Rightarrow> int \<Rightarrow> mgr \<Rightarrow> mgr res" where
  "DestroyApplication se callingAppId m =
     bindR (if callingAppId = INVALID_APP_ID
            then OnRunningAppExited se (KillRunningApp callingAppId m) else Inr m) (\<lambda>m.
       if \<not> running m callingAppId then Inr m
       else OnRunningAppExited se (KillRunningApp callingAppId m))"

definition set_app_state :: "int \<Rightarrow> int \<Rightarrow> app_state \<Rightarrow> mgr \<Rightarrow> mgr res" where
  "set_app_state now callingAppId s m =
     (if running m callingAppId then
        bindR (deref m callingAppId) (\<lambda>a.
        bindR (App_SetState now s a) (\<lambda>(b, a, evs). Inr (emit evs (put_app callingAppId a m))))
      else Inr m)"

definition ShowApplication :: "int \<Rightarrow> int \<Rightarrow> mgr \<Rightarrow> mgr res" where
  "ShowApplication now callingAppId m = set_app_state now callingAppId FOREGROUND_STATE m"

definition HideApplication :: "int \<Rightarrow> int \<Rightarrow> mgr \<Rightarrow> mgr res" where
  "HideApplication now callingAppId m = set_app_state now callingAppId BACKGROUND_STATE m"

definition SetKeySetMask :: "int \<Rightarrow> u16 \<Rightarrow> u16 list \<Rightarrow> mgr \<Rightarrow> (u16 \<times> mgr) res" where
  "SetKeySetMask i keySetMask otherKeys m =
     (if \<not> running m i then Inr (0, m)
      else bindR (deref m i) (\<lambda>a.
        let (k, a) = HbbTVApp_SetKeySetMask keySetMask otherKeys a in Inr (k, put_app i a m)))"

definition GetKeySetMask :: "mgr \<Rightarrow> int \<Rightarrow> u16" where
  "GetKeySetMask m i = (case om_get (m_apps m) i of Some a \<Rightarrow> m_keySetMask a | None \<Rightarrow> 0)"

definition GetOtherKeyValues :: "mgr \<Rightarrow> int \<Rightarrow> u16 list" where
  "GetOtherKeyValues m i = (case om_get (m_apps m) i of Some a \<Rightarrow> m_otherKeys a | None \<Rightarrow> [])"

definition GetApplicationScheme :: "mgr \<Rightarrow> int \<Rightarrow> string" where
  "GetApplicationScheme m i =
     (case om_get (m_apps m) i of Some a \<Rightarrow> GetScheme a | None \<Rightarrow> LINKED_APP_SCHEME_1_1)"

definition GetRunningAppIds :: "mgr \<Rightarrow> int list" where
  "GetRunningAppIds m = om_keys (m_apps m)"

definition GetApplicationUrl :: "mgr \<Rightarrow> int \<Rightarrow> string" where
  "GetApplicationUrl m i = (case om_get (m_apps m) i of Some a \<Rightarrow> loadedUrl a | None \<Rightarrow> [])"

definition InKeySet :: "int \<Rightarrow> u16 \<Rightarrow> mgr \<Rightarrow> (bool \<times> mgr) res" where
  "InKeySet i keyCode m =
     (if running m i then
        bindR (deref m i) (\<lambda>a. let (b, a) = HbbTVApp_InKeySet keyCode a in Inr (b, put_app i a m))
      else Inr (False, m))"

definition IsTeletextApplicationSignalled :: "mgr \<Rightarrow> bool res" where
  "IsTeletextApplicationSignalled m =
     (if Ait_Get (mg_ait m) = None then Inr False
      else bindR (TeletextApp (Ait_Get (mg_ait m))) (\<lambda>a. Inr (a \<noteq> None)))"

definition RunTeletextApplication :: "session \<Rightarrow> mgr \<Rightarrow> (bool \<times> mgr) res" where
  "RunTeletextApplication se m =
     (if Ait_Get (mg_ait m) = None then Inr (False, m)
      else bindR (TeletextApp (Ait_Get (mg_ait m))) (\<lambda>found. case found of
          None \<Rightarrow> Inr (False, m)
        | Some desc \<Rightarrow>
            bindR (CreateAndRunApp_desc se desc [] True False False m) (\<lambda>(r, m). Inr (r \<noteq> 0, m))))"

datatype method_requirement =
    FOR_RUNNING_APP_ONLY
  | FOR_BROADCAST_APP_ONLY
  | FOR_BROADCAST_OR_TRANSITIONING_APP_ONLY
  | FOR_TRUSTED_APP_ONLY

definition IsRequestAllowed :: "mgr \<Rightarrow> int \<Rightarrow> string \<Rightarrow> method_requirement \<Rightarrow> bool" where
  "IsRequestAllowed m callingAppId callingPageUrl req =
     (case om_get (m_apps m) (m_hbbtvAppId m) of
        None \<Rightarrow> False
      | Some a \<Rightarrow>
          if m_hbbtvAppId m \<noteq> callingAppId then False
          else if callingPageUrl = [] \<or> CompareUrls callingPageUrl ''about:blank'' then False
          else (case req of
              FOR_RUNNING_APP_ONLY \<Rightarrow> True
            | FOR_BROADCAST_APP_ONLY \<Rightarrow> m_isBroadcast a
            | FOR_BROADCAST_OR_TRANSITIONING_APP_ONLY \<Rightarrow> \<not> IsInvalidDvbTriplet (m_currentService m)
            | FOR_TRUSTED_APP_ONLY \<Rightarrow>
                if \<not> CheckBoundaries callingPageUrl (m_entryUrl a) (boundaries (m_aitDesc a)) then False
                else m_isTrusted a))"

definition lang_code_string :: "u32 \<Rightarrow> string" where
  "lang_code_string c = map (\<lambda>n. chr_of (ucast (drop_bit n c AND 0xFF))) [16, 8, 0]"

definition GetCurrentAppNames :: "mgr \<Rightarrow> (string \<times> string) list" where
  "GetCurrentAppNames m = (case om_get (m_apps m) (m_hbbtvAppId m) of
      None \<Rightarrow> []
    | Some a \<Rightarrow> fold (\<lambda>(code, name). om_ins (lang_code_string code) name) (m_names a) [])"

section \<open>Notifications of the platform\<close>

definition OnBroadcastStopped :: "mgr \<Rightarrow> mgr res" where
  "OnBroadcastStopped m =
     (let m = m\<lparr>m_currentServiceReceivedFirstAit := False, m_currentServiceAitPid := 0,
                mg_ait := Ait_Clear (mg_ait m), m_currentService := MakeInvalidDvbTriplet,
                m_previousService := MakeInvalidDvbTriplet\<rparr>
      in bindR (TransitionRunningAppToBroadcastIndependent m) (\<lambda>(ok, m).
           Inr (if \<not> ok then KillRunningApp (m_hbbtvAppId m) m else m)))"

definition OnChannelChanged :: "int \<Rightarrow> u16 \<Rightarrow> u16 \<Rightarrow> u16 \<Rightarrow> mgr \<Rightarrow> mgr res" where
  "OnChannelChanged now onid tsid sid m =
     (let m = m\<lparr>m_currentServiceReceivedFirstAit := False, m_currentServiceAitPid := 0,
                mg_ait := Ait_Clear (mg_ait m)\<rparr>
      in bindR (Timeout_start Caller now AIT_TIMEOUT (m_aitTimeout m)) (\<lambda>t.
           let m = m\<lparr>m_aitTimeout := t\<rparr>;
               m = m\<lparr>m_previousService := m_currentService m\<rparr>
           in Inr (m\<lparr>m_currentService := \<lparr>originalNetworkId = onid, transportStreamId = tsid,
                                         serviceId = sid\<rparr>\<rparr>)))"

definition OnNetworkAvailabilityChanged :: "bool \<Rightarrow> mgr \<Rightarrow> mgr" where
  "OnNetworkAvailabilityChanged available m = m\<lparr>m_isNetworkAvailable := available\<rparr>"

text \<open>
  The pointer that \<open>FindApp\<close> returns is handed to \<open>AppSetTransportFailedToLoad\<close>, which writes
  through it into the table.
\<close>

definition mark_transport_failed :: "u32 \<Rightarrow> u16 \<Rightarrow> u16 \<Rightarrow> ait_table \<Rightarrow> mgr \<Rightarrow> mgr res" where
  "mark_transport_failed org app pid t m =
     bindR (FindAppIx (Some t) org app) (\<lambda>ix.
     bindR (AppSetTransportFailedToLoad (map_option ((!) (appArray t)) ix) pid) (\<lambda>desc.
       case ix of
         None \<Rightarrow> Inr m
       | Some i \<Rightarrow> Inr (m\<lparr>mg_ait := Ait_update (t\<lparr>appArray := (appArray t)[i := desc]\<rparr>) (mg_ait m)\<rparr>)))"

definition note_failed_transport :: "app \<Rightarrow> mgr \<Rightarrow> mgr res" where
  "note_failed_transport a m =
     (let aitDesc = m_aitDesc a in
      (case Ait_Get (mg_ait m) of
         Some t \<Rightarrow> if appId aitDesc \<noteq> 0 \<and> orgId aitDesc \<noteq> 0
                  then mark_transport_failed (orgId aitDesc) (appId aitDesc) (m_protocolId a) t m
                  else Inr m
       | None \<Rightarrow> Inr m))"

definition OnLoadApplicationFailed :: "session \<Rightarrow> int \<Rightarrow> mgr \<Rightarrow> mgr res" where
  "OnLoadApplicationFailed se i m =
     (if IsInvalidDvbTriplet (m_currentService m) then Inr m
      else if \<not> running m i then Inr m
      else bindR (deref m i) (\<lambda>a.
           bindR (note_failed_transport a m) (\<lambda>m.
             OnPerformBroadcastAutostart se (KillRunningApp i m))))"

definition iplayer_url :: string where
  "iplayer_url = ''https://www.live.bbctvapps.co.uk/tap/iplayer''"

definition OnApplicationPageChanged :: "int \<Rightarrow> string \<Rightarrow> mgr \<Rightarrow> mgr res" where
  "OnApplicationPageChanged i url m =
     (if running m i then
        bindR (deref m i) (\<lambda>a.
          let m = put_app i (a\<lparr>loadedUrl := url\<rparr>) m in
          Inr (if \<not> IsInvalidDvbTriplet (m_currentService m) \<and> str_find url iplayer_url 0 = None
               then emit [ResetBroadcastPresentation] m else m))
      else Inr m)"

end
