(* ===== verification/AppManagerRun.thy ===== *)
theory AppManagerRun
  imports AppManager
begin

text \<open>
  The application manager as an event-driven component: the calls of the integration and the two
  steps of its timer as events, the invariant of its state, and the proof that every step keeps it
  (the locale \<open>event_system\<close>, interpreted as \<open>manager\<close>). The session of an event holds the answers the
  environment gives during that call.
\<close>

section \<open>Events\<close>

datatype am_event =
    EvAitSection session u16 u16 "u8 list"
  | EvXmlAit session string bool string
  | EvCreate session int string bool
  | EvDestroy session int
  | EvShow int int
  | EvHide int int
  | EvSetKeySetMask int u16 "u16 list"
  | EvKey int u16
  | EvTeletext session
  | EvBroadcastStopped
  | EvChannelChanged int u16 u16 u16
  | EvNetworkAvailability bool
  | EvLoadFailed session int
  | EvPageChanged int string
  | EvAitTimerExpires
  | EvAitTimerCallback
  | EvCountdownExpires int int

text \<open>
  The AIT timer's thread: on expiry it holds its own mutex; its callback then gets \<open>m_lock\<close>, kills the
  running application and releases both.
\<close>

definition ait_timer_expires :: "mgr \<Rightarrow> mgr" where
  "ait_timer_expires m = (case Timeout_fire (m_aitTimeout m) of
      None \<Rightarrow> m | Some t \<Rightarrow> m\<lparr>m_aitTimeout := t\<rparr>)"

definition ait_timer_callback :: "mgr \<Rightarrow> mgr" where
  "ait_timer_callback m =
     (if to_holder (m_aitTimeout m) = Some Timer then
        (let m = OnSelectedServiceAitTimeout m in m\<lparr>m_aitTimeout := Timeout_fired (m_aitTimeout m)\<rparr>)
      else m)"

definition countdown_expires :: "int \<Rightarrow> int \<Rightarrow> mgr \<Rightarrow> mgr res" where
  "countdown_expires now i m = (case om_get (m_apps m) i of
      None \<Rightarrow> Inr m
    | Some a \<Rightarrow> bindR (OpApp_countdown_expires now a) (\<lambda>(a, evs). Inr (emit evs (put_app i a m))))"

definition am_step :: "mgr \<Rightarrow> am_event \<Rightarrow> mgr res" where
  "am_step m e = (case e of
      EvAitSection se aitPid sid d \<Rightarrow> ProcessAitSection se aitPid sid d m
    | EvXmlAit se xml isDvbi sch \<Rightarrow> bindR (ProcessXmlAit se xml isDvbi sch m) (\<lambda>(r, m). Inr m)
    | EvCreate se i url asOp \<Rightarrow> bindR (CreateApplication se i url asOp m) (\<lambda>(r, m). Inr m)
    | EvDestroy se i \<Rightarrow> DestroyApplication se i m
    | EvShow now i \<Rightarrow> ShowApplication now i m
    | EvHide now i \<Rightarrow> HideApplication now i m
    | EvSetKeySetMask i k ks \<Rightarrow> bindR (SetKeySetMask i k ks m) (\<lambda>(r, m). Inr m)
    | EvKey i k \<Rightarrow> bindR (InKeySet i k m) (\<lambda>(r, m). Inr m)
    | EvTeletext se \<Rightarrow> bindR (RunTeletextApplication se m) (\<lambda>(r, m). Inr m)
    | EvBroadcastStopped \<Rightarrow> OnBroadcastStopped m
    | EvChannelChanged now onid tsid sid \<Rightarrow> OnChannelChanged now onid tsid sid m
    | EvNetworkAvailability b \<Rightarrow> Inr (OnNetworkAvailabilityChanged b m)
    | EvLoadFailed se i \<Rightarrow> OnLoadApplicationFailed se i m
    | EvPageChanged i url \<Rightarrow> OnApplicationPageChanged i url m
    | EvAitTimerExpires \<Rightarrow> Inr (ait_timer_expires m)
    | EvAitTimerCallback \<Rightarrow> Inr (ait_timer_callback m)
    | EvCountdownExpires now i \<Rightarrow> countdown_expires now i m)"

section \<open>The invariant\<close>

text \<open>
  At most one application per slot, each under its own id in the slot of its type, none trusted,
  none with an id that has not been given out, no countdown running; the slots name running applications or are empty;
  the tables are well-formed.
\<close>

definition slot_of :: "mgr \<Rightarrow> app_type \<Rightarrow> int" where
  "slot_of m ty = (case ty of HBBTV_APP_TYPE \<Rightarrow> m_hbbtvAppId m | OPAPP_TYPE \<Rightarrow> m_opAppId m)"

definition at_rest :: "app \<Rightarrow> bool" where
  "at_rest a \<longleftrightarrow> m_countdown a = Timeout_new \<and> (m_type a = OPAPP_TYPE \<longrightarrow> m_state a = BACKGROUND_STATE)"

lemma at_rest_frame [simp]:
  "at_rest (a\<lparr>m_isBroadcast := b\<rparr>) = at_rest a" "at_rest (a\<lparr>m_isActivated := b\<rparr>) = at_rest a"
  "at_rest (a\<lparr>loadedUrl := u\<rparr>) = at_rest a" "at_rest (a\<lparr>m_keySetMask := k\<rparr>) = at_rest a"
  "at_rest (a\<lparr>m_otherKeys := ks\<rparr>) = at_rest a"
  by (simp_all add: at_rest_def)

definition app_fits :: "mgr \<Rightarrow> int \<Rightarrow> app \<Rightarrow> bool" where
  "app_fits m i a \<longleftrightarrow> m_id a = i \<and> 0 < i \<and> i \<le> g_id m \<and> \<not> m_isTrusted a \<and> i = slot_of m (m_type a)
     \<and> at_rest a"

definition mgr_ok :: "mgr \<Rightarrow> bool" where
  "mgr_ok m \<longleftrightarrow>
     0 \<le> g_id m \<and> om_ok (m_apps m)
   \<and> (\<forall>i a. om_get (m_apps m) i = Some a \<longrightarrow> app_fits m i a)
   \<and> (m_hbbtvAppId m = INVALID_APP_ID \<or> running m (m_hbbtvAppId m))
   \<and> (m_opAppId m = INVALID_APP_ID \<or> running m (m_opAppId m))
   \<and> (m_hbbtvAppId m = m_opAppId m \<longrightarrow> m_hbbtvAppId m = INVALID_APP_ID)
   \<and> tables_wf (mg_ait m)"

lemma mgr_ok_new: "mgr_ok ApplicationManager_new"
  by (simp add: mgr_ok_def ApplicationManager_new_def om_ok_def INVALID_APP_ID_def)

lemma mgr_ok_congI:
  "mgr_ok m \<Longrightarrow> g_id m' = g_id m \<Longrightarrow> m_apps m' = m_apps m \<Longrightarrow> m_hbbtvAppId m' = m_hbbtvAppId m \<Longrightarrow>
   m_opAppId m' = m_opAppId m \<Longrightarrow> tables_wf (mg_ait m') \<Longrightarrow> mgr_ok m'"
  by (simp add: mgr_ok_def app_fits_def slot_of_def running_def cong: app_type.case_cong)

lemma mgr_ok_tables: "mgr_ok m \<Longrightarrow> tables_wf (mg_ait m)"
  by (simp add: mgr_ok_def)

lemma mgr_ok_frame [simp]:
  "mgr_ok (emit es m) = mgr_ok m"
  "mgr_ok (m\<lparr>m_currentService := s\<rparr>) = mgr_ok m"
  "mgr_ok (m\<lparr>m_previousService := s\<rparr>) = mgr_ok m"
  "mgr_ok (m\<lparr>m_currentServiceReceivedFirstAit := b\<rparr>) = mgr_ok m"
  "mgr_ok (m\<lparr>m_currentServiceAitPid := pid\<rparr>) = mgr_ok m"
  "mgr_ok (m\<lparr>m_isNetworkAvailable := b\<rparr>) = mgr_ok m"
  "mgr_ok (m\<lparr>m_aitTimeout := t\<rparr>) = mgr_ok m"
  by (simp_all add: mgr_ok_def app_fits_def slot_of_def running_def emit_def cong: app_type.case_cong)

lemma emit_frame [simp]:
  "g_id (emit es m) = g_id m" "m_apps (emit es m) = m_apps m" "m_hbbtvAppId (emit es m) = m_hbbtvAppId m"
  "m_opAppId (emit es m) = m_opAppId m" "mg_ait (emit es m) = mg_ait m"
  "m_currentService (emit es m) = m_currentService m" "m_previousService (emit es m) = m_previousService m"
  "m_currentServiceReceivedFirstAit (emit es m) = m_currentServiceReceivedFirstAit m"
  "m_isNetworkAvailable (emit es m) = m_isNetworkAvailable m" "m_aitTimeout (emit es m) = m_aitTimeout m"
  "running (emit es m) i = running m i"
  by (simp_all add: emit_def running_def)

lemma put_app_frame [simp]:
  "g_id (put_app i a m) = g_id m" "m_hbbtvAppId (put_app i a m) = m_hbbtvAppId m"
  "m_opAppId (put_app i a m) = m_opAppId m" "mg_ait (put_app i a m) = mg_ait m"
  "m_currentService (put_app i a m) = m_currentService m"
  "m_isNetworkAvailable (put_app i a m) = m_isNetworkAvailable m"
  "om_get (m_apps (put_app i a m)) j = (if j = i then Some a else om_get (m_apps m) j)"
  by (simp_all add: put_app_def)

lemma deref_eq_Inr [ret_iff]: "deref m i = Inr a \<longleftrightarrow> om_get (m_apps m) i = Some a"
  by (simp add: deref_def split: option.split)

lemma mgr_ok_ait: "mgr_ok m \<Longrightarrow> tables_wf st \<Longrightarrow> mgr_ok (m\<lparr>mg_ait := st\<rparr>)"
  by (rule mgr_ok_congI [of m]) simp_all

text \<open>Replacing an application by one with the same identity.\<close>

definition same_app :: "app \<Rightarrow> app \<Rightarrow> bool" where
  "same_app a b \<longleftrightarrow> m_type b = m_type a \<and> m_id b = m_id a \<and> m_isTrusted b = m_isTrusted a
     \<and> (at_rest a \<longrightarrow> at_rest b)"

lemma mgr_ok_put:
  assumes "mgr_ok m" and "om_get (m_apps m) i = Some a" and "same_app a b"
  shows "mgr_ok (put_app i b m)"
  using assms
  by (auto simp: mgr_ok_def app_fits_def slot_of_def running_def same_app_def put_app_def om_ok_ins
      cong: app_type.case_cong)

text \<open>The id counter moves on: the new id names no application.\<close>

lemma mgr_ok_id: "mgr_ok m \<Longrightarrow> om_get (m_apps m) i = Some a \<Longrightarrow> app_fits m i a"
  by (simp add: mgr_ok_def)

lemma mgr_ok_next:
  assumes "mgr_ok m"
  shows "mgr_ok (m\<lparr>g_id := g_id m + 1\<rparr>)" and "\<not> running m (g_id m + 1)" and "0 < g_id m + 1"
proof -
  show "\<not> running m (g_id m + 1)"
    using mgr_ok_id [OF assms, of "g_id m + 1"]
    by (cases "om_get (m_apps m) (g_id m + 1)") (auto simp: running_def app_fits_def)
  show "0 < g_id m + 1" using assms by (simp add: mgr_ok_def)
  have "app_fits (m\<lparr>g_id := g_id m + 1\<rparr>) i a" if "om_get (m_apps m) i = Some a" for i a
    using mgr_ok_id [OF assms that] by (simp add: app_fits_def slot_of_def cong: app_type.case_cong)
  with assms show "mgr_ok (m\<lparr>g_id := g_id m + 1\<rparr>)" by (simp add: mgr_ok_def running_def)
qed

lemma mgr_ok_kill:
  assumes "mgr_ok m"
  shows "mgr_ok (KillRunningApp i m)"
  using assms
  by (auto simp: KillRunningApp_def Let_def mgr_ok_def app_fits_def slot_of_def running_def emit_def
      om_ok_del INVALID_APP_ID_def split: app_type.splits if_splits)

text \<open>Running a new application under the id just given out.\<close>

lemma RunApp_id [simp]: "fst (RunApp a m) = m_id a"
  by (simp add: RunApp_def Let_def)

lemma RunApp_frame [simp]:
  "g_id (snd (RunApp a m)) = g_id m" "mg_ait (snd (RunApp a m)) = mg_ait m"
  "m_currentServiceReceivedFirstAit (snd (RunApp a m)) = m_currentServiceReceivedFirstAit m"
  "m_aitTimeout (snd (RunApp a m)) = m_aitTimeout m"
  "m_isNetworkAvailable (snd (RunApp a m)) = m_isNetworkAvailable m"
  by (simp_all add: RunApp_def Let_def emit_def put_app_def split: app_type.splits)

lemma RunApp_slots:
  "m_hbbtvAppId (snd (RunApp a m)) = (if m_type a = HBBTV_APP_TYPE then m_id a else m_hbbtvAppId m)"
  "m_opAppId (snd (RunApp a m)) = (if m_type a = OPAPP_TYPE then m_id a else m_opAppId m)"
  "m_apps (snd (RunApp a m)) = om_ins (m_id a) a (om_del (slot_of m (m_type a)) (m_apps m))"
  by (simp_all add: RunApp_def Let_def emit_def put_app_def slot_of_def split: app_type.splits)

lemma mgr_ok_run:
  assumes ok: "mgr_ok m" and new: "m_id a = g_id m" "0 < g_id m" "\<not> running m (g_id m)"
    and "\<not> m_isTrusted a" and "at_rest a"
  shows "mgr_ok (snd (RunApp a m))"
proof -
  let ?m = "snd (RunApp a m)"
  have hb: "m_hbbtvAppId m \<noteq> g_id m" and op: "m_opAppId m \<noteq> g_id m"
    using ok new by (auto simp: mgr_ok_def INVALID_APP_ID_def)
  have slots: "slot_of ?m ty = (if ty = m_type a then m_id a else slot_of m ty)" for ty
    by (cases ty; cases "m_type a") (simp_all add: slot_of_def RunApp_slots)
  have fits: "app_fits ?m i b" if "om_get (m_apps ?m) i = Some b" for i b
  proof (cases "i = m_id a")
    case True
    with that assms slots show ?thesis by (simp add: RunApp_slots app_fits_def)
  next
    case False
    with that have b: "om_get (m_apps m) i = Some b" and "i \<noteq> slot_of m (m_type a)"
      by (auto simp: RunApp_slots split: if_splits)
    moreover from b have "app_fits m i b" by (rule mgr_ok_id [OF ok])
    ultimately show ?thesis using slots [of "m_type b"] by (auto simp: app_fits_def)
  qed
  have "om_ok (m_apps ?m)" using ok by (simp add: RunApp_slots mgr_ok_def om_ok_ins om_ok_del)
  moreover have "m_hbbtvAppId ?m = INVALID_APP_ID \<or> running ?m (m_hbbtvAppId ?m)"
    and "m_opAppId ?m = INVALID_APP_ID \<or> running ?m (m_opAppId ?m)"
    using ok by (auto simp: mgr_ok_def running_def RunApp_slots slot_of_def INVALID_APP_ID_def split: app_type.splits)
  ultimately show ?thesis
    using ok fits hb op new(1) by (auto simp: mgr_ok_def RunApp_slots)
qed

section \<open>Every operation keeps the invariant\<close>

lemma CreateAndRunApp_url_ok: "mgr_ok m \<Longrightarrow> mgr_ok (snd (CreateAndRunApp_url se url b m))"
  using mgr_ok_next [of m]
  by (auto simp: CreateAndRunApp_url_def Let_def running_def at_rest_def
      dest!: HbbTVApp_from_url_frame OpApp_from_url_frame split: option.split
      intro!: mgr_ok_run)

text \<open>The result of creating an application from a description: nothing new, or a new application.\<close>

lemma CreateAndRunApp_desc_cases:
  assumes "CreateAndRunApp_desc se desc ps br tr asOp m = Inr (r, m')"
  obtains "r = INVALID_APP_ID" "m' = m\<lparr>g_id := g_id m + 1\<rparr>"
    | a evs where "m_id a = g_id m + 1" "r = g_id m + 1" "m' = snd (RunApp a (emit evs (m\<lparr>g_id := g_id m + 1\<rparr>)))"
        "m_type a = HBBTV_APP_TYPE" "m_isBroadcast a = br" "m_isTrusted a = tr" "m_aitDesc a = desc"
        "IsAllowedByParentalControl se desc" "ExtractProtocolId desc (m_isNetworkAvailable m) = Inr (m_protocolId a)"
        "\<not> asOp" "\<not> is_opapp_usage (appUsage desc)" "at_rest a"
    | a evs where "m_id a = g_id m + 1" "r = g_id m + 1" "m' = snd (RunApp a (emit evs (m\<lparr>g_id := g_id m + 1\<rparr>)))"
        "m_type a = OPAPP_TYPE" "m_isBroadcast a" "\<not> m_isTrusted a" "asOp \<or> is_opapp_usage (appUsage desc)"
        "at_rest a"
proof -
  let ?m = "m\<lparr>g_id := g_id m + 1\<rparr>"
  from assms obtain x where x: "construct_app se desc ps br tr asOp m (g_id m + 1) = Inr x"
    and r: "(case x of None \<Rightarrow> Inr (INVALID_APP_ID, ?m) | Some (a, evs) \<Rightarrow> Inr (RunApp a (emit evs ?m)))
            = (Inr (r, m') :: (int \<times> mgr) res)"
    unfolding CreateAndRunApp_desc_def Let_def by (rule bindR_InrE)
  show thesis
  proof (cases x)
    case None
    with r that(1) show thesis by simp
  next
    case (Some p)
    obtain a evs where p: "p = (a, evs)" by (cases p)
    from r Some p have run: "RunApp a (emit evs ?m) = (r, m')" by simp
    have r': "r = m_id a" and m': "m' = snd (RunApp a (emit evs ?m))"
      using arg_cong [OF run, of fst] arg_cong [OF run, of snd] by simp_all
    show thesis
    proof (cases "asOp \<or> is_opapp_usage (appUsage desc)")
      case True
      with x Some p have "OpApp_from_desc se desc (m_isNetworkAvailable m) (g_id m + 1) = Inr (Some (a, evs))"
        by (simp add: construct_app_def)
      from OpApp_from_desc_frame [OF this] show thesis
        using that(3) [of a evs] r' m' True by (simp add: at_rest_def)
    next
      case False
      with x Some p have "HbbTVApp_from_desc se HBBTV_APP_TYPE desc (m_currentService m)
          (m_isNetworkAvailable m) ps br tr (g_id m + 1) = Inr (Some (a, evs))"
        by (simp add: construct_app_def)
      from HbbTVApp_from_desc_frame [OF this] show thesis
        using that(2) [of a evs] r' m' False by (simp add: at_rest_def)
    qed
  qed
qed

lemma CreateAndRunApp_desc_ok:
  assumes "mgr_ok m" and "CreateAndRunApp_desc se desc ps br False asOp m = Inr (r, m')"
  shows "mgr_ok m'"
  using assms(2)
  by (cases rule: CreateAndRunApp_desc_cases)
    (use mgr_ok_next [OF assms(1)] in \<open>auto intro!: mgr_ok_run simp: running_def\<close>)

lemma UpdateRunningApp_cases:
  assumes "UpdateRunningApp se desc m = Inr (b, m')"
  obtains "\<not> b" "m' = m"
    | a a' evs where "b" "om_get (m_apps m) (m_hbbtvAppId m) = Some a"
        "HbbTVApp_Update se desc (m_isNetworkAvailable m) a = Inr (Some (a', evs))"
        "m' = emit evs (put_app (m_hbbtvAppId m) a' m)"
  using assms by (auto simp: UpdateRunningApp_def ret_iff split: option.splits)

lemma UpdateRunningApp_ok:
  assumes "mgr_ok m" and "UpdateRunningApp se desc m = Inr (b, m')"
  shows "mgr_ok m'"
  using assms(2)
  by (cases rule: UpdateRunningApp_cases)
    (use assms(1) in \<open>auto intro!: mgr_ok_put simp: same_app_def at_rest_def dest!: HbbTVApp_Update_keeps\<close>)

lemma update_or_kill_ok: "mgr_ok m \<Longrightarrow> update_or_kill se s m = Inr m' \<Longrightarrow> mgr_ok m'"
  by (auto simp: update_or_kill_def ret_iff mgr_ok_kill dest: UpdateRunningApp_ok split: if_splits)

lemma autostart_ok: "mgr_ok m \<Longrightarrow> OnPerformBroadcastAutostart se m = Inr m' \<Longrightarrow> mgr_ok m'"
  by (auto simp: OnPerformBroadcastAutostart_def ret_iff split: if_splits option.splits
      dest: CreateAndRunApp_desc_ok)

lemma exited_ok: "mgr_ok m \<Longrightarrow> OnRunningAppExited se m = Inr m' \<Longrightarrow> mgr_ok m'"
  by (auto simp: OnRunningAppExited_def split: if_splits dest: autostart_ok)

lemma App_TransitionToBroadcastRelated_same:
  "App_TransitionToBroadcastRelated a = (b, a', evs) \<Longrightarrow> same_app a a' \<and> m_aitDesc a' = m_aitDesc a
     \<and> (b \<longrightarrow> m_isBroadcast a' \<and> (controlCode (m_aitDesc a) = control_code APP_CTL_AUTOSTART
                                  \<or> controlCode (m_aitDesc a) = control_code APP_CTL_PRESENT))
     \<and> (\<not> b \<longrightarrow> a' = a \<and> evs = [])"
  by (auto simp: App_TransitionToBroadcastRelated_def HbbTVApp_TransitionToBroadcastRelated_def
      OpApp_TransitionToBroadcastRelated_def same_app_def split: app_type.splits if_splits)

text \<open>The transition: refused with nothing but an update, or done on the updated application.\<close>

lemma TransitionBR_cases:
  assumes "TransitionRunningAppToBroadcastRelated se m = Inr (b, m')"
  obtains "\<not> b" "m' = m"
    | t desc m1 a a' evs where
        "Ait_Get (mg_ait m) = Some t" "UpdateRunningApp se desc m = Inr (True, m1)"
        "\<exists>a0. om_get (m_apps m) (m_hbbtvAppId m) = Some a0
            \<and> FindApp (Some t) (orgId (m_aitDesc a0)) (appId (m_aitDesc a0)) = Inr (Some desc)"
        "om_get (m_apps m1) (m_hbbtvAppId m1) = Some a" "App_TransitionToBroadcastRelated a = (b, a', evs)"
        "m' = emit evs (put_app (m_hbbtvAppId m1) a' m1)"
proof (cases "Ait_Get (mg_ait m) = None \<or> \<not> running m (m_hbbtvAppId m)")
  case True
  with assms that(1) show thesis
    by (auto simp: TransitionRunningAppToBroadcastRelated_def split: option.splits)
next
  case False
  then obtain t a0 where t: "Ait_Get (mg_ait m) = Some t" and a0: "om_get (m_apps m) (m_hbbtvAppId m) = Some a0"
    by (auto simp: running_def)
  have d: "deref m (m_hbbtvAppId m) = Inr a0" using a0 by (simp add: ret_iff)
  show thesis
  proof (cases "appId (m_aitDesc a0) = 0 \<or> orgId (m_aitDesc a0) = 0")
    case True
    with assms t d False that(1) show thesis
      by (auto simp: TransitionRunningAppToBroadcastRelated_def Let_def)
  next
    case n0: False
    with assms t d False obtain found
      where f: "FindApp (Some t) (orgId (m_aitDesc a0)) (appId (m_aitDesc a0)) = Inr found"
        and r: "(case found of None \<Rightarrow> Inr (False, m) | Some desc \<Rightarrow>
            bindR (UpdateRunningApp se desc m) (\<lambda>(ok, m).
              if \<not> ok then Inr (False, m)
              else bindR (deref m (m_hbbtvAppId m)) (\<lambda>a.
                let (b, a, evs) = App_TransitionToBroadcastRelated a
                in Inr (b, emit evs (put_app (m_hbbtvAppId m) a m))))) = Inr (b, m')"
      by (auto simp: TransitionRunningAppToBroadcastRelated_def Let_def bindR_eq_Inr)
    show thesis
    proof (cases found)
      case None
      with r that(1) show thesis by simp
    next
      case (Some desc)
      with r obtain ok m1 where u: "UpdateRunningApp se desc m = Inr (ok, m1)"
        and r1: "(if \<not> ok then Inr (False, m1) else bindR (deref m1 (m_hbbtvAppId m1)) (\<lambda>a.
                let (b, a, evs) = App_TransitionToBroadcastRelated a
                in Inr (b, emit evs (put_app (m_hbbtvAppId m1) a m1)))) = Inr (b, m')"
        by (auto simp: bindR_eq_Inr)
      show thesis
      proof (cases ok)
        case False
        with u have "m1 = m" by (auto elim: UpdateRunningApp_cases)
        with False r1 that(1) show thesis by simp
      next
        case True
        with r1 obtain a where a: "om_get (m_apps m1) (m_hbbtvAppId m1) = Some a"
          and r2: "(let (b, a, evs) = App_TransitionToBroadcastRelated a
                in Inr (b, emit evs (put_app (m_hbbtvAppId m1) a m1))) = (Inr (b, m') :: (bool \<times> mgr) res)"
          by (auto simp: ret_iff)
        obtain b2 a' evs where tr: "App_TransitionToBroadcastRelated a = (b2, a', evs)"
          by (cases "App_TransitionToBroadcastRelated a")
        from r2 tr have b: "App_TransitionToBroadcastRelated a = (b, a', evs)"
          and m': "m' = emit evs (put_app (m_hbbtvAppId m1) a' m1)" by simp_all
        show thesis
          by (rule that(2) [OF t _ _ a b m']) (use u True f Some a0 in auto)
      qed
    qed
  qed
qed

lemma TransitionBR_ok:
  assumes "mgr_ok m" and "TransitionRunningAppToBroadcastRelated se m = Inr (b, m')"
  shows "mgr_ok m'"
  using assms(2)
proof (cases rule: TransitionBR_cases)
  case 1
  with assms(1) show ?thesis by simp
next
  case (2 t desc m1 a a' evs)
  with UpdateRunningApp_ok [OF assms(1) 2(2)] App_TransitionToBroadcastRelated_same [OF 2(5)] mgr_ok_put
  show ?thesis by simp
qed

lemma TransitionBI_ok:
  assumes "mgr_ok m" and "TransitionRunningAppToBroadcastIndependent m = Inr (b, m')"
  shows "mgr_ok m'"
  using assms
  by (auto simp: TransitionRunningAppToBroadcastIndependent_def HbbTVApp_TransitionToBroadcastIndependent_def
      ret_iff same_app_def intro!: mgr_ok_put split: if_splits)

lemma received_existing_ok: "mgr_ok m \<Longrightarrow> ait_received_existing se t m = Inr m' \<Longrightarrow> mgr_ok m'"
  unfolding ait_received_existing_def Let_def
  by (auto simp: ret_iff mgr_ok_kill split: if_splits option.splits dest: update_or_kill_ok TransitionBR_ok)

lemma received_ok: "mgr_ok m \<Longrightarrow> OnSelectedServiceAitReceived se m = Inr m' \<Longrightarrow> mgr_ok m'"
  by (auto simp: OnSelectedServiceAitReceived_def ret_iff split: if_splits option.splits
      dest: received_existing_ok update_or_kill_ok autostart_ok)

lemma updated_existing_ok: "mgr_ok m \<Longrightarrow> ait_updated_existing se t a m = Inr m' \<Longrightarrow> mgr_ok m'"
  by (auto simp: ait_updated_existing_def ret_iff mgr_ok_kill split: if_splits option.splits
      dest: update_or_kill_ok)

lemma updated_ok: "mgr_ok m \<Longrightarrow> OnSelectedServiceAitUpdated se m = Inr m' \<Longrightarrow> mgr_ok m'"
  by (auto simp: OnSelectedServiceAitUpdated_def ret_iff split: if_splits option.splits
      dest: updated_existing_ok autostart_ok)

lemma first_ait_ok: "mgr_ok m \<Longrightarrow> first_ait se m = Inr m' \<Longrightarrow> mgr_ok m'"
  by (auto simp: first_ait_def bindR_eq_Inr split: if_splits dest: updated_ok received_ok [rotated])

lemma set_scheme_wf:
  assumes "\<forall>a \<in> set as. wf_app a"
    and "foldR (\<lambda>i as. bindR (rd as i) (\<lambda>a. wr as i (a\<lparr>scheme := sch\<rparr>))) is as = Inr as'"
  shows "length as' = length as \<and> (\<forall>a \<in> set as'. wf_app a)"
proof (rule foldR_inv [OF _ _ assms(2)])
  fix i s s'
  assume s: "length s = length as \<and> (\<forall>a \<in> set s. wf_app a)"
    and st: "bindR (rd s i) (\<lambda>a. wr s i (a\<lparr>scheme := sch\<rparr>)) = Inr s'"
  then have i: "i < length s" and s': "s' = s[i := (s ! i)\<lparr>scheme := sch\<rparr>]" by (auto simp: ret_iff)
  from s i have "wf_app (s ! i)" by simp
  then have "wf_app ((s ! i)\<lparr>scheme := sch\<rparr>)" by (simp add: wf_app_def)
  with s s' set_update_subset_insert [of s i] show "length s' = length as \<and> (\<forall>a \<in> set s'. wf_app a)" by auto
qed (use assms(1) in simp)

text \<open>The cases of \<open>ProcessXmlAit\<close>: nothing, the DVB-I path, the broadcast-independent path.\<close>

lemma ProcessXmlAit_cases:
  assumes "ProcessXmlAit se xml isDvbi sch m = Inr (r, m')"
  obtains "r = 0" "m' = m"
    | t m1 where "isDvbi" "wf_table t" "r = bool_to_int (m_hbbtvAppId m1 \<noteq> 0)" "m' = m1"
        "first_ait se (m\<lparr>mg_ait := ApplyAitTable t (Ait_Clear (mg_ait m)), m_currentServiceAitPid := 0xFFFF\<rparr>) = Inr m1"
    | desc i where "\<not> isDvbi" "r = bool_to_int (i \<noteq> 0)"
        "CreateAndRunApp_desc se desc [] False False False m = Inr (i, m')"
proof (cases "xml = []")
  case True
  with assms that(1) show thesis by (auto simp: ProcessXmlAit_def INVALID_APP_ID_def)
next
  case False
  with assms obtain parsed where p: "XmlParseAit se xml = Inr parsed"
    by (auto simp: ProcessXmlAit_def bindR_eq_Inr)
  show thesis
  proof (cases parsed)
    case None
    with assms p that(1) False show thesis by (auto simp: ProcessXmlAit_def INVALID_APP_ID_def)
  next
    case (Some t)
    show thesis
    proof (cases "numApps t = 0")
      case True
      with Some assms p that(1) False show thesis by (auto simp: ProcessXmlAit_def INVALID_APP_ID_def)
    next
      case n0: False
      from Some p have wf: "wf_table t" using XmlParseAit_wf by simp
      from assms False p Some n0 obtain as
        where as: "foldR (\<lambda>i as. bindR (rd as i) (\<lambda>a. wr as i (a\<lparr>scheme := sch\<rparr>)))
              [0 ..< unat (numApps t)] (appArray t) = Inr as"
          and r: "(if isDvbi then
                bindR (first_ait se (m\<lparr>mg_ait := ApplyAitTable (t\<lparr>appArray := as\<rparr>) (Ait_Clear (mg_ait m)),
                                       m_currentServiceAitPid := 0xFFFF\<rparr>))
                  (\<lambda>m. Inr (bool_to_int (m_hbbtvAppId m \<noteq> 0), m))
              else bindR (GetAutoStartApp se (Some (t\<lparr>appArray := as\<rparr>))) (\<lambda>found. case found of
                  None \<Rightarrow> Inr (bool_to_int (INVALID_APP_ID \<noteq> 0), m)
                | Some desc \<Rightarrow>
                    bindR (CreateAndRunApp_desc se desc [] isDvbi False False m) (\<lambda>(r, m).
                      Inr (bool_to_int (r \<noteq> 0), m)))) = (Inr (r, m') :: (int \<times> mgr) res)"
        by (auto simp: ProcessXmlAit_def Let_def elim!: bindR_InrE)
      from wf set_scheme_wf [OF _ as] have wf': "wf_table (t\<lparr>appArray := as\<rparr>)" by (simp add: wf_table_def)
      show thesis
      proof (cases isDvbi)
        case True
        with r obtain m1 where m1: "first_ait se (m\<lparr>mg_ait := ApplyAitTable (t\<lparr>appArray := as\<rparr>) (Ait_Clear (mg_ait m)),
              m_currentServiceAitPid := 0xFFFF\<rparr>) = Inr m1"
          and "r = bool_to_int (m_hbbtvAppId m1 \<noteq> 0)" "m' = m1" by (auto simp: bindR_eq_Inr)
        with that(2) [OF True wf'] show thesis by blast
      next
        case False
        with r obtain found where f: "(case found of
                  None \<Rightarrow> Inr (bool_to_int (INVALID_APP_ID \<noteq> 0), m)
                | Some desc \<Rightarrow>
                    bindR (CreateAndRunApp_desc se desc [] False False False m) (\<lambda>(r, m).
                      Inr (bool_to_int (r \<noteq> 0), m))) = (Inr (r, m') :: (int \<times> mgr) res)"
          by (auto elim: bindR_InrE)
        then show thesis
          using that(1,3) False
          by (auto simp: bool_to_int_def INVALID_APP_ID_def bindR_eq_Inr split: option.splits)
      qed
    qed
  qed
qed

lemma ProcessXmlAit_ok:
  assumes "mgr_ok m" and "ProcessXmlAit se xml isDvbi sch m = Inr (r, m')"
  shows "mgr_ok m'"
  using assms(2)
proof (cases rule: ProcessXmlAit_cases)
  case 1
  with assms(1) show ?thesis by simp
next
  case (2 t m1)
  have "mgr_ok (m\<lparr>mg_ait := ApplyAitTable t (Ait_Clear (mg_ait m)), m_currentServiceAitPid := 0xFFFF\<rparr>)"
    using mgr_ok_ait [OF assms(1) tables_wf_Apply [OF 2(2)]] by simp
  from first_ait_ok [OF this 2(5)] 2(4) show ?thesis by simp
next
  case (3 desc i)
  then show ?thesis using CreateAndRunApp_desc_ok [OF assms(1)] by blast
qed

lemma ProcessAitSection_cases:
  assumes "ProcessAitSection se pid sid d m = Inr m'"
  obtains "m' = m" "sid \<noteq> serviceId (m_currentService m)"
    | updated st where "ProcessSection d (mg_ait (select_ait_pid pid m)) = Inr (updated, st)"
        "m' = (select_ait_pid pid m)\<lparr>mg_ait := st\<rparr> \<and> \<not> (updated \<and> Ait_Get st \<noteq> None)
         \<or> first_ait se ((select_ait_pid pid m)\<lparr>mg_ait := st\<rparr>) = Inr m' \<and> updated \<and> Ait_Get st \<noteq> None"
proof (cases "sid \<noteq> serviceId (m_currentService m)")
  case True
  with assms that(1) show thesis by (simp add: ProcessAitSection_def)
next
  case False
  with assms obtain p where "ProcessSection d (mg_ait (select_ait_pid pid m)) = Inr p"
    and "(case p of (updated, st) \<Rightarrow>
             let m = (select_ait_pid pid m)\<lparr>mg_ait := st\<rparr> in
             if \<not> updated then Inr m
             else if Ait_Get (mg_ait m) = None then Inr m
             else first_ait se m) = Inr m'"
    by (auto simp: ProcessAitSection_def Let_def elim: bindR_InrE)
  with that(2) show thesis by (cases p) (auto simp: Let_def split: if_splits)
qed

lemma ProcessAitSection_ok:
  assumes "mgr_ok m" and "ProcessAitSection se pid sid d m = Inr m'"
  shows "mgr_ok m'"
  using assms(2)
proof (cases rule: ProcessAitSection_cases)
  case 1
  with assms(1) show ?thesis by simp
next
  case (2 updated st)
  have ok1: "mgr_ok (select_ait_pid pid m)"
    using assms(1) by (simp add: select_ait_pid_def Let_def mgr_ok_ait)
  have "mgr_ok ((select_ait_pid pid m)\<lparr>mg_ait := st\<rparr>)"
    by (rule mgr_ok_ait [OF ok1 ProcessSection_wf [OF mgr_ok_tables [OF ok1] 2(1)]])
  with 2(2) first_ait_ok show ?thesis by blast
qed

lemma create_from_locator_ok:
  assumes ok: "mgr_ok m" and c: "create_from_locator se url b info m = Inr (r, m')"
  shows "mgr_ok m'"
proof (cases "loc_type info")
  case UNKNOWN_LOCATOR
  with assms show ?thesis by (simp add: create_from_locator_def)
next
  case AIT_APPLICATION_LOCATOR
  with assms show ?thesis
    by (auto simp: create_from_locator_def bindR_eq_Inr split: if_splits option.splits
        dest: CreateAndRunApp_desc_ok)
next
  case ENTRY_PAGE_OR_XML_AIT_LOCATOR
  with assms CreateAndRunApp_url_ok [OF ok, of se url b] show ?thesis
    by (auto simp: create_from_locator_def Let_def split: if_splits dest: ProcessXmlAit_ok)
qed

lemma CreateApplication_ok:
  "mgr_ok m \<Longrightarrow> CreateApplication se i url b m = Inr (r, m') \<Longrightarrow> mgr_ok m'"
  by (auto simp: CreateApplication_def bindR_eq_Inr split: if_splits dest: create_from_locator_ok)

lemma DestroyApplication_ok:
  assumes ok: "mgr_ok m" and d: "DestroyApplication se i m = Inr m'"
  shows "mgr_ok m'"
proof -
  from d obtain m1 where m1: "(if i = INVALID_APP_ID then OnRunningAppExited se (KillRunningApp i m) else Inr m) = Inr m1"
    and r: "(if \<not> running m1 i then Inr m1 else OnRunningAppExited se (KillRunningApp i m1)) = Inr m'"
    unfolding DestroyApplication_def by (rule bindR_InrE)
  from m1 ok have "mgr_ok m1" by (auto split: if_splits dest: exited_ok [OF mgr_ok_kill])
  with r show ?thesis by (auto split: if_splits dest: exited_ok [OF mgr_ok_kill])
qed

lemma OpApp_SetState_same:
  "OpApp_SetState th now s a = Inr (b, a', evs) \<Longrightarrow>
     m_type a' = m_type a \<and> m_id a' = m_id a \<and> m_isTrusted a' = m_isTrusted a"
  by (auto simp: OpApp_SetState_def Let_def bindR_eq_Inr split: if_splits)

text \<open>An operator application at rest is in the background, and stays there.\<close>

lemma OpApp_SetState_at_rest:
  assumes "at_rest a" and "m_type a = OPAPP_TYPE"
  shows "OpApp_SetState th now s a = Inr (s = BACKGROUND_STATE, a, [])"
  using assms
  by (auto simp: at_rest_def OpApp_SetState_def CanTransitionToState_def Let_def Timeout_stop_def Timeout_new_def)

lemma App_SetState_same:
  assumes "App_SetState now s a = Inr (b, a', evs)"
  shows "same_app a a'"
proof (cases "m_type a")
  case HBBTV_APP_TYPE
  with assms have h: "Inr (HbbTVApp_SetState s a) = (Inr (b, a', evs) :: (bool \<times> app \<times> cb_event list) res)"
    by (simp add: App_SetState_def)
  then have "m_countdown a' = m_countdown a" by (auto simp: HbbTVApp_SetState_def split: if_splits)
  with hbbtv.keeps [OF h] HBBTV_APP_TYPE show ?thesis by (simp add: same_app_def at_rest_def)
next
  case OPAPP_TYPE
  with assms have s: "OpApp_SetState Caller now s a = Inr (b, a', evs)" by (simp add: App_SetState_def)
  from opapp.keeps [OF this] OpApp_SetState_at_rest [OF _ OPAPP_TYPE, of Caller now s] s
  show ?thesis by (auto simp: same_app_def)
qed

lemma set_app_state_ok: "mgr_ok m \<Longrightarrow> set_app_state now i s m = Inr m' \<Longrightarrow> mgr_ok m'"
  by (auto simp: set_app_state_def ret_iff split: if_splits dest!: App_SetState_same intro!: mgr_ok_put)

lemma HbbTVApp_SetKeySetMask_same: "same_app a (snd (HbbTVApp_SetKeySetMask k ks a))"
  by (auto simp: HbbTVApp_SetKeySetMask_def Let_def same_app_def)

lemma HbbTVApp_InKeySet_same: "same_app a (snd (HbbTVApp_InKeySet k a))"
  by (auto simp: HbbTVApp_InKeySet_def same_app_def)

lemma SetKeySetMask_ok: "mgr_ok m \<Longrightarrow> SetKeySetMask i k ks m = Inr (r, m') \<Longrightarrow> mgr_ok m'"
  by (auto simp: SetKeySetMask_def ret_iff Let_def case_prod_beta split: if_splits
      intro: mgr_ok_put HbbTVApp_SetKeySetMask_same)

lemma InKeySet_ok: "mgr_ok m \<Longrightarrow> InKeySet i k m = Inr (b, m') \<Longrightarrow> mgr_ok m'"
  by (auto simp: InKeySet_def ret_iff Let_def case_prod_beta split: if_splits
      intro: mgr_ok_put HbbTVApp_InKeySet_same)

lemma RunTeletext_ok: "mgr_ok m \<Longrightarrow> RunTeletextApplication se m = Inr (b, m') \<Longrightarrow> mgr_ok m'"
  by (auto simp: RunTeletextApplication_def bindR_eq_Inr split: if_splits option.splits
      dest: CreateAndRunApp_desc_ok)

lemma OnBroadcastStopped_ok: "mgr_ok m \<Longrightarrow> OnBroadcastStopped m = Inr m' \<Longrightarrow> mgr_ok m'"
  by (auto simp: OnBroadcastStopped_def Let_def bindR_eq_Inr mgr_ok_kill mgr_ok_ait
      split: if_splits dest!: TransitionBI_ok [rotated])

lemma OnChannelChanged_ok: "mgr_ok m \<Longrightarrow> OnChannelChanged now on ts s m = Inr m' \<Longrightarrow> mgr_ok m'"
  by (auto simp: OnChannelChanged_def Let_def bindR_eq_Inr mgr_ok_ait)

lemma mark_transport_failed_ok:
  assumes ok: "mgr_ok m" and t: "wf_table t" and r: "mark_transport_failed org app pid t m = Inr m'"
  shows "mgr_ok m'"
proof -
  from r obtain ix desc where ix: "FindAppIx (Some t) org app = Inr ix"
    and d: "AppSetTransportFailedToLoad (map_option ((!) (appArray t)) ix) pid = Inr desc"
    and m': "(case ix of None \<Rightarrow> Inr m | Some i \<Rightarrow>
        Inr (m\<lparr>mg_ait := Ait_update (t\<lparr>appArray := (appArray t)[i := desc]\<rparr>) (mg_ait m)\<rparr>)) = (Inr m' :: mgr res)"
    unfolding mark_transport_failed_def by (elim bindR_InrE)
  show ?thesis
  proof (cases ix)
    case None
    with m' ok show ?thesis by simp
  next
    case (Some i)
    with FindAppIx_ok [OF t, of org app] ix have "i < unat (numApps t)" by simp
    with t have "wf_app (appArray t ! i)" by (simp add: wf_table_def)
    then have "wf_app desc" using d Some AppSetTransportFailedToLoad_wf by simp
    then have "wf_table (t\<lparr>appArray := (appArray t)[i := desc]\<rparr>)" by (rule wf_table_replace [OF t])
    with m' Some ok show ?thesis by (auto intro: mgr_ok_ait tables_wf_update mgr_ok_tables)
  qed
qed

lemma note_failed_transport_ok:
  "mgr_ok m \<Longrightarrow> note_failed_transport a m = Inr m' \<Longrightarrow> mgr_ok m'"
  by (auto simp: note_failed_transport_def Let_def split: option.splits if_splits
      dest: mark_transport_failed_ok [OF _ tables_wf_Get [OF mgr_ok_tables]])

lemma OnLoadApplicationFailed_ok:
  assumes ok: "mgr_ok m" and l: "OnLoadApplicationFailed se i m = Inr m'"
  shows "mgr_ok m'"
proof (cases "IsInvalidDvbTriplet (m_currentService m) \<or> \<not> running m i")
  case True
  with assms show ?thesis by (auto simp: OnLoadApplicationFailed_def split: if_splits)
next
  case False
  with l obtain a m1 where "note_failed_transport a m = Inr m1"
    and "OnPerformBroadcastAutostart se (KillRunningApp i m1) = Inr m'"
    by (auto simp: OnLoadApplicationFailed_def elim!: bindR_InrE)
  then show ?thesis
    using ok note_failed_transport_ok autostart_ok mgr_ok_kill by blast
qed

lemma mgr_ok_page: "mgr_ok m \<Longrightarrow> om_get (m_apps m) i = Some a \<Longrightarrow> mgr_ok (put_app i (a\<lparr>loadedUrl := url\<rparr>) m)"
  by (rule mgr_ok_put, assumption, assumption) (simp add: same_app_def)

lemma OnApplicationPageChanged_ok: "mgr_ok m \<Longrightarrow> OnApplicationPageChanged i url m = Inr m' \<Longrightarrow> mgr_ok m'"
  by (auto simp: OnApplicationPageChanged_def Let_def ret_iff mgr_ok_page split: if_splits)

lemma timer_steps_ok: "mgr_ok m \<Longrightarrow> mgr_ok (ait_timer_expires m)" "mgr_ok m \<Longrightarrow> mgr_ok (ait_timer_callback m)"
  by (auto simp: ait_timer_expires_def ait_timer_callback_def OnSelectedServiceAitTimeout_def Let_def
      mgr_ok_kill split: option.split)

lemma OpApp_countdown_same:
  assumes "OpApp_countdown_expires now a = Inr (a', evs)"
  shows "same_app a a'"
proof (cases "Timeout_fire (m_countdown a)")
  case None
  with assms show ?thesis by (simp add: OpApp_countdown_expires_def same_app_def)
next
  case (Some t)
  then have "\<not> at_rest a" by (auto simp: at_rest_def Timeout_fire_def Timeout_new_def)
  with assms Some show ?thesis
    by (auto simp: OpApp_countdown_expires_def bindR_eq_Inr same_app_def dest!: OpApp_SetState_same)
qed

lemma countdown_ok: "mgr_ok m \<Longrightarrow> countdown_expires now i m = Inr m' \<Longrightarrow> mgr_ok m'"
  by (auto simp: countdown_expires_def bindR_eq_Inr split: option.splits
      intro: mgr_ok_put dest!: OpApp_countdown_same)

lemmas operations_ok = ProcessAitSection_ok ProcessXmlAit_ok CreateApplication_ok DestroyApplication_ok
  set_app_state_ok SetKeySetMask_ok InKeySet_ok RunTeletext_ok OnBroadcastStopped_ok OnChannelChanged_ok
  OnLoadApplicationFailed_ok OnApplicationPageChanged_ok countdown_ok

interpretation manager: event_system am_step mgr_ok
proof unfold_locales
  fix m e m'
  assume "mgr_ok m" and "am_step m e = Inr m'"
  then show "mgr_ok m'"
    unfolding am_step_def
    by (cases e) (auto simp: ShowApplication_def HideApplication_def OnNetworkAvailabilityChanged_def
        timer_steps_ok elim!: bindR_InrE dest: operations_ok)
qed

lemma reachable_ok: "run am_step ApplicationManager_new es = Inr m \<Longrightarrow> mgr_ok m"
  by (rule manager.run_inv [OF mgr_ok_new])

lemma running_ids:
  assumes "mgr_ok m"
  shows "distinct (GetRunningAppIds m)"
    and "set (GetRunningAppIds m) = {m_hbbtvAppId m, m_opAppId m} - {INVALID_APP_ID}"
proof -
  have ok: "om_ok (m_apps m)" using assms by (simp add: mgr_ok_def)
  then show "distinct (GetRunningAppIds m)" unfolding GetRunningAppIds_def by (rule om.keys_distinct)
  have "set (GetRunningAppIds m) = dom (om_get (m_apps m))"
    unfolding GetRunningAppIds_def using ok by (rule om.keys_get)
  also have "\<dots> = {m_hbbtvAppId m, m_opAppId m} - {INVALID_APP_ID}"
  proof (intro set_eqI iffI)
    fix i assume "i \<in> dom (om_get (m_apps m))"
    then obtain a where "om_get (m_apps m) i = Some a" by auto
    from mgr_ok_id [OF assms this] show "i \<in> {m_hbbtvAppId m, m_opAppId m} - {INVALID_APP_ID}"
      by (auto simp: app_fits_def slot_of_def INVALID_APP_ID_def split: app_type.splits)
  next
    fix i assume "i \<in> {m_hbbtvAppId m, m_opAppId m} - {INVALID_APP_ID}"
    with assms show "i \<in> dom (om_get (m_apps m))" by (auto simp: mgr_ok_def running_def)
  qed
  finally show "set (GetRunningAppIds m) = {m_hbbtvAppId m, m_opAppId m} - {INVALID_APP_ID}" .
qed

end
