(* ===== verification/AppManagerSelect.thy ===== *)
theory AppManagerSelect
  imports AppManagerRun
begin

text \<open>
  Which application runs after an AIT has been handled: the HbbTV application of the manager, if
  there is one, is broadcast-related, comes from an entry of the table whose control code is not
  KILL, and passes the parental control of the session.
\<close>

definition hbbtv_app :: "mgr \<Rightarrow> app option" where
  "hbbtv_app m = om_get (m_apps m) (m_hbbtvAppId m)"

definition signalled_by :: "session \<Rightarrow> ait_table \<Rightarrow> app \<Rightarrow> bool" where
  "signalled_by se t a \<longleftrightarrow>
     m_isBroadcast a \<and> m_aitDesc a \<in> set (take (unat (numApps t)) (appArray t))
   \<and> controlCode (m_aitDesc a) \<noteq> control_code APP_CTL_KILL
   \<and> IsAllowedByParentalControl se (m_aitDesc a)"

lemma running_hbbtv: "running m (m_hbbtvAppId m) \<longleftrightarrow> hbbtv_app m \<noteq> None"
  by (simp add: running_def hbbtv_app_def)

lemma hbbtv_app_emit [simp]: "hbbtv_app (emit evs m) = hbbtv_app m"
  by (simp add: hbbtv_app_def)

lemma hbbtv_app_put [simp]: "hbbtv_app (put_app (m_hbbtvAppId m) a m) = Some a"
  by (simp add: hbbtv_app_def)

lemma not_running_0: "mgr_ok m \<Longrightarrow> om_get (m_apps m) INVALID_APP_ID = None"
  using mgr_ok_id [of m INVALID_APP_ID]
  by (cases "om_get (m_apps m) INVALID_APP_ID") (auto simp: app_fits_def INVALID_APP_ID_def)

lemma hbbtv_app_kill: "mgr_ok m \<Longrightarrow> hbbtv_app (KillRunningApp (m_hbbtvAppId m) m) = None"
  using not_running_0 [of m]
  by (auto simp: KillRunningApp_def hbbtv_app_def running_def Let_def emit_def)

lemma kill_ait [simp]: "mg_ait (KillRunningApp i m) = mg_ait m"
  by (simp add: KillRunningApp_def emit_def Let_def)

lemma hbbtv_app_update:
  assumes "UpdateRunningApp se d m = Inr (True, m')"
  obtains a a' where "hbbtv_app m = Some a" "hbbtv_app m' = Some a'" "m_aitDesc a' = d"
    "m_isBroadcast a' = m_isBroadcast a" "IsAllowedByParentalControl se d" "mg_ait m' = mg_ait m"
    "m_hbbtvAppId m' = m_hbbtvAppId m" "m_type a' = m_type a"
  using assms
proof (cases rule: UpdateRunningApp_cases)
  case (2 a a' evs)
  from HbbTVApp_Update_keeps [OF 2(3)] 2 that [of a a'] show ?thesis by (simp add: hbbtv_app_def)
qed simp

text \<open>Update or kill: afterwards the application, if it is still there, has the new description.\<close>

lemma update_or_kill_app:
  assumes "mgr_ok m" and "update_or_kill se s m = Inr m'" and "hbbtv_app m' = Some a'"
  obtains a where "hbbtv_app m = Some a" "m_aitDesc a' = s" "m_isBroadcast a' = m_isBroadcast a"
    "IsAllowedByParentalControl se s"
proof -
  from assms(2) obtain ok m1 where u: "UpdateRunningApp se s m = Inr (ok, m1)"
    and m': "m' = (if \<not> ok then KillRunningApp (m_hbbtvAppId m1) m1 else m1)"
    by (auto simp: update_or_kill_def elim: bindR_InrE)
  have "mgr_ok m1" using UpdateRunningApp_ok [OF assms(1) u] .
  with m' assms(3) hbbtv_app_kill have ok by (auto split: if_splits)
  with u m' assms(3) that show thesis by (auto elim!: hbbtv_app_update)
qed

lemma update_or_kill_ait: "update_or_kill se s m = Inr m' \<Longrightarrow> mg_ait m' = mg_ait m"
  by (auto simp: update_or_kill_def elim!: bindR_InrE UpdateRunningApp_cases)

lemma FindApp_found:
  assumes "wf_table t" and "FindApp (Some t) org app = Inr (Some d)"
  shows "d \<in> set (take (unat (numApps t)) (appArray t))" and "orgId d = org" and "appId d = app"
  using FindApp_ok [OF assms(1), of org app] assms(2) by auto

lemma FindApp_again:
  assumes "wf_table t" and "FindApp (Some t) org app = Inr (Some d)"
  shows "FindApp (Some t) (orgId d) (appId d) = Inr (Some d)"
  using FindApp_found [OF assms] assms(2) by simp

lemma GetAutoStartApp_eligible:
  assumes "wf_table t" and "GetAutoStartApp se (Some t) = Inr (Some d)"
  shows "d \<in> set (take (unat (numApps t)) (appArray t))"
    and "eligible (se_version se) (se_pc_age se) (se_pc_region se) (se_pc_region3 se) d"
proof -
  let ?as = "take (unat (numApps t)) (appArray t)"
  from assms have "foldl (better (se_version se) (se_pc_age se) (se_pc_region se) (se_pc_region3 se)) None ?as = Some d"
    by (simp add: GetAutoStartApp_def AutoStartApp_ok)
  with best_of_foldl [of "se_version se" "se_pc_age se" "se_pc_region se" "se_pc_region3 se" ?as]
  have "d \<in> set ?as \<and> eligible (se_version se) (se_pc_age se) (se_pc_region se) (se_pc_region3 se) d"
    by (intro best_of_in) simp
  then show "d \<in> set ?as"
    and "eligible (se_version se) (se_pc_age se) (se_pc_region se) (se_pc_region3 se) d"
    by auto
qed

lemma autostart_code: "eligible v age r r3 d \<Longrightarrow> controlCode d \<noteq> control_code APP_CTL_KILL"
  by (simp add: eligible_def)

text \<open>The automatic start: at most the slot of the new application changes.\<close>

lemma autostart_app:
  assumes ok: "mgr_ok m" and none: "hbbtv_app m = None" and t: "Ait_Get (mg_ait m) = Some t"
    and s: "OnPerformBroadcastAutostart se m = Inr m'" and a: "hbbtv_app m' = Some a"
  shows "signalled_by se t a"
    and "eligible (se_version se) (se_pc_age se) (se_pc_region se) (se_pc_region3 se) (m_aitDesc a)"
proof -
  have wf: "wf_table t" using tables_wf_Get [OF mgr_ok_tables [OF ok] t] .
  from s t none a obtain d r where d: "GetAutoStartApp se (Some t) = Inr (Some d)"
    and c: "CreateAndRunApp_desc se d [] True False False m = Inr (r, m')"
    by (auto simp: OnPerformBroadcastAutostart_def split: if_splits option.splits elim!: bindR_InrE)
  note el = GetAutoStartApp_eligible [OF wf d]
  from c have "signalled_by se t a \<and> m_aitDesc a = d"
  proof (cases rule: CreateAndRunApp_desc_cases)
    case 1
    with none a show ?thesis by (simp add: hbbtv_app_def)
  next
    case (2 b evs)
    then have "hbbtv_app m' = Some b" by (simp add: hbbtv_app_def RunApp_slots)
    with a 2 el autostart_code show ?thesis by (simp add: signalled_by_def)
  next
    case (3 b evs)
    have "hbbtv_app m' = None"
      using none 3 mgr_ok_next(2) [OF ok]
      by (auto simp: hbbtv_app_def RunApp_slots running_def split: if_splits)
        (use ok in \<open>auto simp: mgr_ok_def running_def INVALID_APP_ID_def\<close>)
    with a show ?thesis by simp
  qed
  with el show "signalled_by se t a"
    and "eligible (se_version se) (se_pc_age se) (se_pc_region se) (se_pc_region3 se) (m_aitDesc a)"
    by auto
qed

text \<open>What the transition to broadcast-related leaves in the slot.\<close>

lemma transition_app:
  assumes ok: "mgr_ok m" and wf: "wf_table t" and t: "Ait_Get (mg_ait m) = Some t"
    and tr: "TransitionRunningAppToBroadcastRelated se m = Inr (True, m')" and a: "hbbtv_app m' = Some a"
  shows "signalled_by se t a" and "FindApp (Some t) (orgId (m_aitDesc a)) (appId (m_aitDesc a)) = Inr (Some (m_aitDesc a))"
proof -
  from tr have "signalled_by se t a \<and> FindApp (Some t) (orgId (m_aitDesc a)) (appId (m_aitDesc a)) = Inr (Some (m_aitDesc a))"
  proof (cases rule: TransitionBR_cases)
    case (2 t' desc m1 b b' evs)
    then have [simp]: "t' = t" using t by simp
    from 2(3) obtain a0 :: app where f: "FindApp (Some t) (orgId (m_aitDesc a0)) (appId (m_aitDesc a0)) = Inr (Some desc)"
      by auto
    from 2(2) obtain c where c: "hbbtv_app m1 = Some c" "m_aitDesc c = desc" "IsAllowedByParentalControl se desc"
      by (rule hbbtv_app_update)
    from 2(4) c(1) have "b = c" by (simp add: hbbtv_app_def)
    note s = App_TransitionToBroadcastRelated_same [OF 2(5)]
    from 2(6) a have "a = b'" by simp
    with s c \<open>b = c\<close> have d: "m_aitDesc a = desc" and br: "m_isBroadcast a"
      and code: "controlCode desc \<noteq> control_code APP_CTL_KILL" by auto
    from d br code c(3) FindApp_found [OF wf f] FindApp_again [OF wf f]
    show ?thesis by (simp add: signalled_by_def)
  qed simp
  then show "signalled_by se t a"
    and "FindApp (Some t) (orgId (m_aitDesc a)) (appId (m_aitDesc a)) = Inr (Some (m_aitDesc a))" by auto
qed

text \<open>The first part of the handler: what is left running is signalled.\<close>

lemma received_existing_app:
  assumes ok: "mgr_ok m" and t: "Ait_Get (mg_ait m) = Some t"
    and s: "ait_received_existing se t m = Inr m'" and a: "hbbtv_app m' = Some a"
  shows "signalled_by se t a" and "FindApp (Some t) (orgId (m_aitDesc a)) (appId (m_aitDesc a)) = Inr (Some (m_aitDesc a))"
proof -
  have wf: "wf_table t" using tables_wf_Get [OF mgr_ok_tables [OF ok] t] .
  let ?kill = "KillRunningApp (m_hbbtvAppId m) m"
  have "signalled_by se t a \<and> FindApp (Some t) (orgId (m_aitDesc a)) (appId (m_aitDesc a)) = Inr (Some (m_aitDesc a))"
  proof (cases "hbbtv_app m")
    case None
    with s a show ?thesis by (simp add: ait_received_existing_def running_hbbtv)
  next
    case (Some b)
    then have d: "deref m (m_hbbtvAppId m) = Inr b" by (simp add: ret_iff hbbtv_app_def)
    have alive: "m' \<noteq> ?kill" using a hbbtv_app_kill [OF ok] by auto
    show ?thesis
    proof (cases "m_isBroadcast b")
      case True
      with s d Some alive obtain desc
        where f: "FindApp (Some t) (orgId (m_aitDesc b)) (appId (m_aitDesc b)) = Inr (Some desc)"
          and code: "controlCode desc \<noteq> control_code APP_CTL_KILL"
          and u: "update_or_kill se desc m = Inr m'"
        by (auto simp: ait_received_existing_def running_hbbtv Let_def
            split: if_splits option.splits elim!: bindR_InrE)
      from update_or_kill_app [OF ok u a] Some obtain
        "m_aitDesc a = desc" "m_isBroadcast a = m_isBroadcast b" "IsAllowedByParentalControl se desc" by auto
      with True code FindApp_found [OF wf f] FindApp_again [OF wf f] show ?thesis
        by (simp add: signalled_by_def)
    next
      case False
      with s d Some obtain b2 m1 where tr: "TransitionRunningAppToBroadcastRelated se m = Inr (b2, m1)"
        and m': "m' = (if \<not> b2 then KillRunningApp (m_hbbtvAppId m1) m1 else m1)"
        by (auto simp: ait_received_existing_def running_hbbtv elim!: bindR_InrE)
      have "b2" using m' a hbbtv_app_kill [OF TransitionBR_ok [OF ok tr]] by (auto split: if_splits)
      with tr m' transition_app [OF ok wf t, of se m1 a] a show ?thesis by simp
    qed
  qed
  then show "signalled_by se t a"
    and "FindApp (Some t) (orgId (m_aitDesc a)) (appId (m_aitDesc a)) = Inr (Some (m_aitDesc a))" by auto
qed

lemma received_existing_ait:
  assumes "ait_received_existing se t m = Inr m'"
  shows "mg_ait m' = mg_ait m"
proof -
  have tr: "mg_ait m1 = mg_ait m" if "TransitionRunningAppToBroadcastRelated se m = Inr (b, m1)" for b m1
    using that by (cases rule: TransitionBR_cases) (auto elim!: hbbtv_app_update)
  from assms show ?thesis
    by (auto simp: ait_received_existing_def Let_def split: if_splits option.splits
        elim!: bindR_InrE dest!: tr update_or_kill_ait)
qed

lemma received_app:
  assumes ok: "mgr_ok m" and t: "Ait_Get (mg_ait m) = Some t"
    and s: "OnSelectedServiceAitReceived se m = Inr m'" and a: "hbbtv_app m' = Some a"
  shows "signalled_by se t a"
proof -
  from s t obtain m1 where e: "ait_received_existing se t m = Inr m1"
    and r: "(if \<not> running m1 (m_hbbtvAppId m1) then OnPerformBroadcastAutostart se m1
            else bindR (deref m1 (m_hbbtvAppId m1)) (\<lambda>a.
              bindR (FindApp (Some t) (orgId (m_aitDesc a)) (appId (m_aitDesc a))) (\<lambda>signalled.
                case signalled of None \<Rightarrow> Inr m1 | Some s \<Rightarrow> update_or_kill se s m1))) = Inr m'"
    by (auto simp: OnSelectedServiceAitReceived_def elim: bindR_InrE)
  have ok1: "mgr_ok m1" using received_existing_ok [OF ok e] .
  have t1: "Ait_Get (mg_ait m1) = Some t" using received_existing_ait [OF e] t by simp
  show ?thesis
  proof (cases "hbbtv_app m1")
    case None
    with r have "OnPerformBroadcastAutostart se m1 = Inr m'" by (simp add: running_hbbtv)
    from autostart_app(1) [OF ok1 None t1 this a] show ?thesis .
  next
    case (Some b)
    note sb = received_existing_app [OF ok t e Some]
    from Some have "deref m1 (m_hbbtvAppId m1) = Inr b" by (simp add: ret_iff hbbtv_app_def)
    with r sb(2) Some have u: "update_or_kill se (m_aitDesc b) m1 = Inr m'" by (simp add: running_hbbtv)
    obtain b' where "hbbtv_app m1 = Some b'" "m_aitDesc a = m_aitDesc b" "m_isBroadcast a = m_isBroadcast b'"
      by (rule update_or_kill_app [OF ok1 u a])
    with Some sb(1) show ?thesis by (simp add: signalled_by_def)
  qed
qed

lemma updated_existing_cases:
  assumes "ait_updated_existing se t a m = Inr m'"
  obtains "m' = KillRunningApp (m_hbbtvAppId m) m"
    | s where "FindApp (Some t) (orgId (m_aitDesc a)) (appId (m_aitDesc a)) = Inr (Some s)"
        "controlCode s \<noteq> control_code APP_CTL_KILL" "AppHasTransport s (m_protocolId a) = Inr True"
        "update_or_kill se s m = Inr m'"
proof -
  from assms obtain found where f: "FindApp (Some t) (orgId (m_aitDesc a)) (appId (m_aitDesc a)) = Inr found"
    and r: "(case found of
         None \<Rightarrow> Inr (KillRunningApp (m_hbbtvAppId m) m)
       | Some s \<Rightarrow>
           bindR (AppHasTransport s (m_protocolId a)) (\<lambda>has.
             if \<not> has then Inr (KillRunningApp (m_hbbtvAppId m) m)
             else if controlCode s = control_code APP_CTL_KILL then Inr (KillRunningApp (m_hbbtvAppId m) m)
             else update_or_kill se s m)) = Inr m'"
    unfolding ait_updated_existing_def by (rule bindR_InrE)
  show thesis
  proof (cases found)
    case None
    with r that(1) show thesis by simp
  next
    case (Some s)
    with r obtain has where h: "AppHasTransport s (m_protocolId a) = Inr has"
      and "(if \<not> has then Inr (KillRunningApp (m_hbbtvAppId m) m)
             else if controlCode s = control_code APP_CTL_KILL then Inr (KillRunningApp (m_hbbtvAppId m) m)
             else update_or_kill se s m) = Inr m'"
      by (auto elim: bindR_InrE)
    with that f Some show thesis by (auto split: if_splits)
  qed
qed

lemma updated_existing_ait: "ait_updated_existing se t a m = Inr m' \<Longrightarrow> mg_ait m' = mg_ait m"
  by (erule updated_existing_cases) (simp_all add: update_or_kill_ait)

lemma updated_app:
  assumes ok: "mgr_ok m" and t: "Ait_Get (mg_ait m) = Some t"
    and s: "OnSelectedServiceAitUpdated se m = Inr m'" and a: "hbbtv_app m' = Some a"
    and br: "\<And>b. hbbtv_app m = Some b \<Longrightarrow> m_isBroadcast b"
  shows "signalled_by se t a"
proof (cases "hbbtv_app m")
  case None
  with s t have "OnPerformBroadcastAutostart se m = Inr m'"
    by (simp add: OnSelectedServiceAitUpdated_def running_hbbtv)
  from autostart_app(1) [OF ok None t this a] show ?thesis .
next
  case (Some b)
  have wf: "wf_table t" using tables_wf_Get [OF mgr_ok_tables [OF ok] t] .
  from Some have d: "deref m (m_hbbtvAppId m) = Inr b" by (simp add: ret_iff hbbtv_app_def)
  from s t Some d br [OF Some] obtain m1 where e: "ait_updated_existing se t b m = Inr m1"
    and r: "(if \<not> running m1 (m_hbbtvAppId m1) then OnPerformBroadcastAutostart se m1 else Inr m1) = Inr m'"
    by (auto simp: OnSelectedServiceAitUpdated_def running_hbbtv elim: bindR_InrE)
  have ok1: "mgr_ok m1" using updated_existing_ok [OF ok e] .
  have t1: "Ait_Get (mg_ait m1) = Some t"
    using updated_existing_ait [OF e] t by simp
  show ?thesis
  proof (cases "hbbtv_app m1")
    case None
    with r have "OnPerformBroadcastAutostart se m1 = Inr m'" by (simp add: running_hbbtv)
    from autostart_app(1) [OF ok1 None t1 this a] show ?thesis .
  next
    case (Some c)
    with r a have "m' = m1" and ca: "c = a" by (auto simp: running_hbbtv)
    have alive: "m1 \<noteq> KillRunningApp (m_hbbtvAppId m) m" using Some hbbtv_app_kill [OF ok] by auto
    from e alive obtain desc
      where f: "FindApp (Some t) (orgId (m_aitDesc b)) (appId (m_aitDesc b)) = Inr (Some desc)"
        and code: "controlCode desc \<noteq> control_code APP_CTL_KILL"
        and u: "update_or_kill se desc m = Inr m1"
      by (auto elim: updated_existing_cases)
    obtain b' where "hbbtv_app m = Some b'" "m_aitDesc c = desc" "m_isBroadcast c = m_isBroadcast b'"
      "IsAllowedByParentalControl se desc" by (rule update_or_kill_app [OF ok u Some])
    with br code FindApp_found [OF wf f] ca show ?thesis
      by (simp add: signalled_by_def)
  qed
qed

section \<open>What the handlers leave alone\<close>

lemma CreateAndRunApp_desc_ait:
  "CreateAndRunApp_desc se d ps br tr asOp m = Inr (r, m') \<Longrightarrow> mg_ait m' = mg_ait m"
  by (erule CreateAndRunApp_desc_cases) simp_all

lemma autostart_ait: "OnPerformBroadcastAutostart se m = Inr m' \<Longrightarrow> mg_ait m' = mg_ait m"
  by (auto simp: OnPerformBroadcastAutostart_def split: if_splits option.splits elim!: bindR_InrE
      dest!: CreateAndRunApp_desc_ait)

lemma received_ait:
  assumes "OnSelectedServiceAitReceived se m = Inr m'"
  shows "mg_ait m' = mg_ait m"
proof (cases "Ait_Get (mg_ait m)")
  case None
  with assms show ?thesis by (simp add: OnSelectedServiceAitReceived_def)
next
  case (Some t)
  with assms obtain m1 where e: "ait_received_existing se t m = Inr m1"
    and r: "(if \<not> running m1 (m_hbbtvAppId m1) then OnPerformBroadcastAutostart se m1
            else bindR (deref m1 (m_hbbtvAppId m1)) (\<lambda>a.
              bindR (FindApp (Some t) (orgId (m_aitDesc a)) (appId (m_aitDesc a))) (\<lambda>signalled.
                case signalled of None \<Rightarrow> Inr m1 | Some s \<Rightarrow> update_or_kill se s m1))) = Inr m'"
    by (auto simp: OnSelectedServiceAitReceived_def elim: bindR_InrE)
  from r have "mg_ait m' = mg_ait m1"
    by (auto split: if_splits option.splits elim!: bindR_InrE dest: autostart_ait update_or_kill_ait)
  with received_existing_ait [OF e] show ?thesis by simp
qed

lemma updated_ait: "OnSelectedServiceAitUpdated se m = Inr m' \<Longrightarrow> mg_ait m' = mg_ait m"
  by (auto simp: OnSelectedServiceAitUpdated_def split: if_splits option.splits elim!: bindR_InrE
      dest!: autostart_ait updated_existing_ait)

lemma flag_kill [simp]:
  "m_currentServiceReceivedFirstAit (KillRunningApp i m) = m_currentServiceReceivedFirstAit m"
  by (simp add: KillRunningApp_def emit_def Let_def)

text \<open>The application after the first AIT, and after a later one.\<close>

lemma first_ait_app:
  assumes ok: "mgr_ok m" and f: "first_ait se m = Inr m'" and g: "Ait_Get (mg_ait m) \<noteq> None"
    and a: "hbbtv_app m' = Some a"
  shows "mg_ait m' = mg_ait m"
    and "hbbtv_app m' = hbbtv_app m \<or> (\<exists>t. Ait_Get (mg_ait m) = Some t \<and> signalled_by se t a)"
    and "\<not> m_currentServiceReceivedFirstAit m \<Longrightarrow> \<exists>t. Ait_Get (mg_ait m) = Some t \<and> signalled_by se t a"
proof -
  from g obtain t where t: "Ait_Get (mg_ait m) = Some t" by auto
  have "mg_ait m' = mg_ait m
    \<and> (hbbtv_app m' = hbbtv_app m \<and> m_currentServiceReceivedFirstAit m \<or> signalled_by se t a)"
  proof (cases "m_currentServiceReceivedFirstAit m")
    case False
    with f obtain tm where r: "OnSelectedServiceAitReceived se
        (m\<lparr>m_aitTimeout := tm, m_currentServiceReceivedFirstAit := True\<rparr>) = Inr m'"
      by (auto simp: first_ait_def elim: bindR_InrE)
    show ?thesis using received_ait [OF r] received_app [OF _ _ r a] ok t by simp
  next
    case True
    with f have r: "OnSelectedServiceAitUpdated se m = Inr m'" by (simp add: first_ait_def)
    have "hbbtv_app m' = hbbtv_app m \<or> signalled_by se t a"
    proof (cases "\<exists>b. hbbtv_app m = Some b \<and> \<not> m_isBroadcast b")
      case True
      then obtain b where b: "hbbtv_app m = Some b" "\<not> m_isBroadcast b" by auto
      then have "deref m (m_hbbtvAppId m) = Inr b" by (simp add: ret_iff hbbtv_app_def)
      with r t b have "m' = m" by (simp add: OnSelectedServiceAitUpdated_def running_hbbtv)
      then show ?thesis by simp
    next
      case False
      with updated_app [OF ok t r a] show ?thesis by auto
    qed
    with True updated_ait [OF r] show ?thesis by simp
  qed
  with t show "mg_ait m' = mg_ait m"
    and "hbbtv_app m' = hbbtv_app m \<or> (\<exists>t. Ait_Get (mg_ait m) = Some t \<and> signalled_by se t a)"
    and "\<not> m_currentServiceReceivedFirstAit m \<Longrightarrow> \<exists>t. Ait_Get (mg_ait m) = Some t \<and> signalled_by se t a"
    by auto
qed

lemma select_ait_pid_frame [simp]:
  "hbbtv_app (select_ait_pid pid m) = hbbtv_app m"
  "m_currentServiceReceivedFirstAit (select_ait_pid pid m) = m_currentServiceReceivedFirstAit m"
  "mgr_ok m \<Longrightarrow> mgr_ok (select_ait_pid pid m)"
  by (simp_all add: select_ait_pid_def hbbtv_app_def Let_def mgr_ok_ait)

text \<open>
  A section is either without effect on the running application or leaves one that is signalled in
  the table that is now complete.
\<close>

lemma section_app:
  assumes ok: "mgr_ok m" and p: "ProcessAitSection se pid sid d m = Inr m'" and a: "hbbtv_app m' = Some a"
  shows "hbbtv_app m' = hbbtv_app m \<or> (\<exists>t. Ait_Get (mg_ait m') = Some t \<and> signalled_by se t a)"
    and "\<not> m_currentServiceReceivedFirstAit m \<Longrightarrow> m_currentServiceReceivedFirstAit m' \<Longrightarrow>
         \<exists>t. Ait_Get (mg_ait m') = Some t \<and> signalled_by se t a"
proof -
  have "(hbbtv_app m' = hbbtv_app m \<or> (\<exists>t. Ait_Get (mg_ait m') = Some t \<and> signalled_by se t a))
    \<and> (\<not> m_currentServiceReceivedFirstAit m \<longrightarrow> m_currentServiceReceivedFirstAit m' \<longrightarrow>
         (\<exists>t. Ait_Get (mg_ait m') = Some t \<and> signalled_by se t a))"
    using p
  proof (cases rule: ProcessAitSection_cases)
    case 1
    then show ?thesis by simp
  next
    case (2 updated st)
    let ?m = "(select_ait_pid pid m)\<lparr>mg_ait := st\<rparr>"
    have hb: "hbbtv_app ?m = hbbtv_app (select_ait_pid pid m)" by (simp add: hbbtv_app_def)
    show ?thesis
    proof (cases "m' = ?m")
      case True
      with hb show ?thesis by simp
    next
      case False
      with 2(2) have f: "first_ait se ?m = Inr m'" and g: "Ait_Get (mg_ait ?m) \<noteq> None" by auto
      have "mgr_ok ?m"
        using ok ProcessSection_wf [OF mgr_ok_tables 2(1)] by (intro mgr_ok_ait) simp_all
      from first_ait_app [OF this f g a] hb show ?thesis by auto
    qed
  qed
  then show "hbbtv_app m' = hbbtv_app m \<or> (\<exists>t. Ait_Get (mg_ait m') = Some t \<and> signalled_by se t a)"
    and "\<not> m_currentServiceReceivedFirstAit m \<Longrightarrow> m_currentServiceReceivedFirstAit m' \<Longrightarrow>
         \<exists>t. Ait_Get (mg_ait m') = Some t \<and> signalled_by se t a" by auto
qed

section \<open>Broadcast stopped, timer expired\<close>

lemma stopped_result:
  "\<exists>m'. OnBroadcastStopped m = Inr m' \<and> Ait_Get (mg_ait m') = None
    \<and> IsInvalidDvbTriplet (m_currentService m') \<and> (\<forall>a. hbbtv_app m' = Some a \<longrightarrow> \<not> m_isBroadcast a)
    \<and> m_hbbtvAppId m' = m_hbbtvAppId m \<and> m_opAppId m' = m_opAppId m \<and> m_aitTimeout m' = m_aitTimeout m"
proof (cases "hbbtv_app m")
  case None
  then show ?thesis
    by (simp add: OnBroadcastStopped_def TransitionRunningAppToBroadcastIndependent_def Let_def
        running_def hbbtv_app_def Ait_Clear_def Ait_Get_def)
next
  case (Some a)
  then show ?thesis
    by (simp add: OnBroadcastStopped_def TransitionRunningAppToBroadcastIndependent_def Let_def deref_def
        running_def hbbtv_app_def Ait_Clear_def Ait_Get_def HbbTVApp_TransitionToBroadcastIndependent_def
        put_app_def)
qed

lemma timer_kills:
  assumes ok: "mgr_ok m"
    and t: "to_waiting (m_aitTimeout m)" "\<not> to_stopped (m_aitTimeout m)" "to_holder (m_aitTimeout m) = None"
  shows "\<exists>m'. run am_step m [EvAitTimerExpires, EvAitTimerCallback] = Inr m' \<and> hbbtv_app m' = None
    \<and> om_get (m_apps m') (m_opAppId m) = om_get (m_apps m) (m_opAppId m)
    \<and> \<not> to_waiting (m_aitTimeout m') \<and> to_holder (m_aitTimeout m') = None"
proof -
  let ?t = "(m_aitTimeout m)\<lparr>to_holder := Some Timer, to_waiting := False\<rparr>"
  let ?m = "m\<lparr>m_aitTimeout := ?t\<rparr>"
  let ?k = "KillRunningApp (m_hbbtvAppId ?m) ?m"
  have run: "run am_step m [EvAitTimerExpires, EvAitTimerCallback]
      = Inr (?k\<lparr>m_aitTimeout := Timeout_fired (m_aitTimeout ?k)\<rparr>)"
    using t by (simp add: am_step_def ait_timer_expires_def ait_timer_callback_def Timeout_fire_def
        OnSelectedServiceAitTimeout_def Let_def)
  have hb: "hbbtv_app ?k = None" using ok by (intro hbbtv_app_kill) simp
  have timer: "m_aitTimeout ?k = ?t" by (simp add: KillRunningApp_def emit_def Let_def)
  have op: "om_get (m_apps ?k) (m_opAppId m) = om_get (m_apps m) (m_opAppId m)"
    using ok not_running_0 [OF ok] by (auto simp: KillRunningApp_def emit_def Let_def running_def mgr_ok_def)
  show ?thesis
    using run hb timer op by (simp add: hbbtv_app_def Timeout_fired_def cvm_unlock_def)
qed

section \<open>Identities\<close>

lemma running_bound: "mgr_ok m \<Longrightarrow> running m i \<Longrightarrow> 0 < i \<and> i \<le> g_id m"
  using mgr_ok_id [of m i] by (auto simp: running_def app_fits_def)

lemma running_slot: "mgr_ok m \<Longrightarrow> running m i \<Longrightarrow> i = m_hbbtvAppId m \<or> i = m_opAppId m"
  using mgr_ok_id [of m i] by (auto simp: running_def app_fits_def slot_of_def split: app_type.splits)

lemma killed: "mgr_ok m \<Longrightarrow> running m i \<Longrightarrow> \<not> running (KillRunningApp i m) i"
  using running_slot [of m i] by (auto simp: KillRunningApp_def Let_def running_def emit_def)

lemma kill_g_id [simp]: "g_id (KillRunningApp i m) = g_id m"
  by (simp add: KillRunningApp_def Let_def emit_def)

text \<open>A new application gets an id above all earlier ones.\<close>

lemma CreateAndRunApp_desc_running:
  "CreateAndRunApp_desc se d ps br tr asOp m = Inr (r, m') \<Longrightarrow> running m' i \<Longrightarrow> running m i \<or> i = g_id m + 1"
  by (erule CreateAndRunApp_desc_cases) (auto simp: running_def RunApp_slots split: if_splits)

lemma autostart_running:
  "OnPerformBroadcastAutostart se m = Inr m' \<Longrightarrow> running m' i \<Longrightarrow> running m i \<or> i = g_id m + 1"
  by (auto simp: OnPerformBroadcastAutostart_def split: if_splits option.splits elim!: bindR_InrE
      dest!: CreateAndRunApp_desc_running)

lemma exited_running:
  "OnRunningAppExited se m = Inr m' \<Longrightarrow> running m' i \<Longrightarrow> running m i \<or> i = g_id m + 1"
  by (auto simp: OnRunningAppExited_def split: if_splits dest!: autostart_running)

end
