(* ===== verification/Demo.thy ===== *)
theory Demo
  imports AppManagerSelect
begin

text \<open>
  Concrete inputs for the witnesses: a DVB AIT section with one autostart application, an XML AIT
  with one operator application, and runs of the manager over them.
\<close>

section \<open>Sections\<close>

text \<open>
  Version 1, section 0 of 0, one application (organisation 19, application 1, AUTOSTART) with an
  application descriptor (profile 0, HbbTV 1.1.1, priority 5), an HTTP transport and a location.
\<close>

definition demo_section :: "u8 list" where
  "demo_section =
     [0x74, 0xF0, 51, 0x00, 0x10, 0xC3, 0, 0, 0xF0, 0, 0xF0, 38,
      0, 0, 0, 19, 0, 1, 1, 0xF0, 29,
      0x00, 9, 5, 0, 0, 1, 1, 1, 0xFF, 5, 1,
      0x02, 13, 0, 3, 1, 8] @ map byte_of ''http://a'' @ [0, 0x15, 1, 105, 0, 0, 0, 0]"

text \<open>Version 2 of the same table, with the control code KILL.\<close>

definition demo_section_kill :: "u8 list" where
  "demo_section_kill = demo_section[5 := 0xC5, 18 := 4]"

section \<open>Documents\<close>

definition txt_elem :: "string \<Rightarrow> string \<Rightarrow> xnode" where
  "txt_elem nm s = Element nm [] [Leaf (Some s)]"

text \<open>One application with the given usage; it has one HTTP transport.\<close>

definition demo_app_node :: "string \<Rightarrow> xnode" where
  "demo_app_node usage =
     Element ''Application'' []
       [Element ''applicationIdentifier'' [] [txt_elem ''orgId'' ''7'', txt_elem ''appId'' ''8''],
        Element ''applicationDescriptor'' []
          [txt_elem ''controlCode'' ''AUTOSTART'',
           Element ''mhpVersion'' []
             [txt_elem ''profile'' ''0'', txt_elem ''versionMajor'' ''1'', txt_elem ''versionMinor'' ''1'',
              txt_elem ''versionMicro'' ''1'']],
        Element ''applicationUsageDescriptor'' [] [txt_elem ''ApplicationUsage'' usage],
        Element ''applicationTransport'' [(''type'', Some ''mhp:HTTPTransportType'')]
          [txt_elem ''URLBase'' ''http://b''],
        txt_elem ''applicationLocation'' ''/i'']"

definition demo_doc :: "xnode list \<Rightarrow> xml_result" where
  "demo_doc apps = Doc (Element ''ServiceDiscovery'' []
     [Element ''ApplicationDiscovery'' [] [Element ''ApplicationList'' [] apps]])"

definition demo_xml_session :: "xnode list \<Rightarrow> session" where
  "demo_xml_session apps = demo_session\<lparr>se_read_xml := (\<lambda>_. demo_doc apps)\<rparr>"

section \<open>Runs\<close>

definition demo_tuned :: "am_event list" where
  "demo_tuned = [EvNetworkAvailability True, EvChannelChanged 0 1 2 3]"

definition demo_on_air :: "am_event list" where
  "demo_on_air = demo_tuned @ [EvAitSection demo_session 100 3 demo_section]"

text \<open>An operator application from a DVB-I document, then an HbbTV application from the broadcast.\<close>

definition demo_opapp :: "am_event list" where
  "demo_opapp = demo_tuned @
     [EvXmlAit (demo_xml_session [demo_app_node ''urn:hbbtv:opapp:privileged:2017'']) ''xml'' True [],
      EvAitSection demo_session 100 3 demo_section]"

definition after :: "am_event list \<Rightarrow> (mgr \<Rightarrow> bool) \<Rightarrow> bool" where
  "after es P = returns (run am_step ApplicationManager_new es) P"

lemma afterE:
  assumes "after es P"
  obtains m where "run am_step ApplicationManager_new es = Inr m" and "P m"
  using assms unfolding after_def by (rule returnsE)

end
