(* ===== verification/Base64.thy ===== *)
theory Base64
  imports CppStrings
begin

text \<open>
  \<open>rdk/ORB/library/src/core/utilities/Base64.cpp\<close>: the encoder and the decoder, with the unsigned
  arithmetic of their loop bounds and bounds-checked accesses. \<open>char\<close> is signed or not, depending on
  the platform: a parameter of the decoder, which uses characters as indices of its table.
\<close>

section \<open>Tables\<close>

definition sEncodingTable :: string where
  "sEncodingTable = ''ABCDEFGHIJKLMNOPQRSTUVWXYZabcdefghijklmnopqrstuvwxyz0123456789+/''"

definition kDecodingTable :: "u8 list" where
  "kDecodingTable = replicate 43 64 @ [62, 64, 64, 64, 63] @ map of_nat [52 ..< 62] @ replicate 7 64
     @ map of_nat [0 ..< 26] @ replicate 6 64 @ map of_nat [26 ..< 52] @ replicate 133 64"

definition enc_char :: "u8 \<Rightarrow> char" where
  "enc_char v = sEncodingTable ! unat v"

section \<open>Encode\<close>

text \<open>\<open>std::string::operator[]\<close> may also read the terminating NUL at the end.\<close>

definition str_at :: "string \<Rightarrow> nat \<Rightarrow> u8 res" where
  "str_at s i = (if i < length s then Inr (byte_of (s ! i)) else if i = length s then Inr 0 else Inl OobRead)"

lemma str_at_bound: "str_at s i = Inr b \<Longrightarrow> i \<le> length s"
  by (simp add: str_at_def split: if_splits)

definition sextet1 :: "u8 \<Rightarrow> u8" where "sextet1 x = drop_bit 2 x AND 0x3F"
definition sextet2 :: "u8 \<Rightarrow> u8 \<Rightarrow> u8" where "sextet2 x y = push_bit 4 (x AND 0x3) OR drop_bit 4 (y AND 0xF0)"
definition sextet3 :: "u8 \<Rightarrow> u8 \<Rightarrow> u8" where "sextet3 y z = push_bit 2 (y AND 0xF) OR drop_bit 6 (z AND 0xC0)"
definition sextet4 :: "u8 \<Rightarrow> u8" where "sextet4 z = z AND 0x3F"

text \<open>The loop over whole groups. Its bound \<open>in_len - 2\<close> is computed in \<open>size_t\<close> and wraps.\<close>

definition loop_bound :: "nat \<Rightarrow> nat" where
  "loop_bound n = unat (of_nat n - 2 :: 64 word)"

function enc_loop :: "string \<Rightarrow> nat \<Rightarrow> string \<Rightarrow> nat \<Rightarrow> (nat \<times> string \<times> nat) res" where
  "enc_loop s i ret p =
     (if i < loop_bound (length s) then
        bindR (str_at s i) (\<lambda>x. bindR (wr ret p (enc_char (sextet1 x))) (\<lambda>ret.
        bindR (str_at s (i + 1)) (\<lambda>y. bindR (wr ret (p + 1) (enc_char (sextet2 x y))) (\<lambda>ret.
        bindR (str_at s (i + 2)) (\<lambda>z. bindR (wr ret (p + 2) (enc_char (sextet3 y z))) (\<lambda>ret.
        bindR (wr ret (p + 3) (enc_char (sextet4 z))) (\<lambda>ret.
          enc_loop s (i + 3) ret (p + 4))))))))
      else Inr (i, ret, p))"
  by pat_completeness auto
termination
  by (relation "measure (\<lambda>(s, i, ret, p). length s + 3 - i)") (auto dest: str_at_bound)

declare enc_loop.simps [simp del]

text \<open>The last one or two bytes.\<close>

definition enc_tail :: "string \<Rightarrow> nat \<times> string \<times> nat \<Rightarrow> string res" where
  "enc_tail s st = (case st of (i, ret, p) \<Rightarrow>
     if i < length s then
       bindR (str_at s i) (\<lambda>x. bindR (wr ret p (enc_char (sextet1 x))) (\<lambda>ret.
       bindR (if i = length s - 1 then
                bindR (wr ret (p + 1) (enc_char (push_bit 4 (x AND 0x3)))) (\<lambda>ret.
                wr ret (p + 2) (CHR ''=''))
              else
                bindR (str_at s (i + 1)) (\<lambda>y.
                bindR (wr ret (p + 1) (enc_char (sextet2 x y))) (\<lambda>ret.
                wr ret (p + 2) (enc_char (push_bit 2 (y AND 0xF)))))) (\<lambda>ret.
       wr ret (p + 3) (CHR ''=''))))
     else Inr ret)"

definition Base64_Encode :: "string \<Rightarrow> string res" where
  "Base64_Encode s =
     bindR (enc_loop s 0 (replicate (4 * ((length s + 2) div 3)) (chr_of 0)) 0) (enc_tail s)"

section \<open>Decode\<close>

text \<open>\<open>kDecodingTable[static_cast<int>(c)]\<close>.\<close>

definition table_at :: "bool \<Rightarrow> char \<Rightarrow> u32 res" where
  "table_at char_signed c =
     (if char_signed \<and> 128 \<le> unat (byte_of c) then Inl OobRead
      else bindR (rd kDecodingTable (unat (byte_of c))) (\<lambda>v. Inr (ucast v)))"

definition dec_char :: "bool \<Rightarrow> string \<Rightarrow> nat \<Rightarrow> u32 res" where
  "dec_char sg s i = bindR (rd s i) (\<lambda>c. if c = CHR ''='' then Inr 0 else table_at sg c)"

definition put_byte :: "u32 \<Rightarrow> nat \<times> string \<Rightarrow> nat \<times> string" where
  "put_byte v jo = (case jo of (j, out) \<Rightarrow>
     if j < length out then (j + 1, out[j := chr_of (ucast v)]) else (j, out))"

function dec_loop :: "bool \<Rightarrow> string \<Rightarrow> nat \<Rightarrow> nat \<times> string \<Rightarrow> (nat \<times> string) res" where
  "dec_loop sg s i jo =
     (if i < length s then
        bindR (dec_char sg s i) (\<lambda>a. bindR (dec_char sg s (i + 1)) (\<lambda>b.
        bindR (dec_char sg s (i + 2)) (\<lambda>c. bindR (dec_char sg s (i + 3)) (\<lambda>d.
          let triple = push_bit 18 a + push_bit 12 b + push_bit 6 c + d in
          dec_loop sg s (i + 4)
            (put_byte (triple AND 0xFF) (put_byte (drop_bit 8 triple AND 0xFF)
              (put_byte (drop_bit 16 triple AND 0xFF) jo)))))))
      else Inr jo)"
  by pat_completeness auto
termination
  by (relation "measure (\<lambda>(sg, s, i, jo). length s - i)") auto

declare dec_loop.simps [simp del]

text \<open>The returned message and the output parameter; \<open>in_len - 1\<close> wraps when the input is empty.\<close>

definition Base64_Decode :: "bool \<Rightarrow> string \<Rightarrow> string \<Rightarrow> (string \<times> string) res" where
  "Base64_Decode sg input out =
     (let in_len = length input in
      if in_len mod 4 \<noteq> 0 then Inr (''Input data size is not a multiple of 4'', out)
      else if in_len = 0 then Inl OobRead
      else
        (let out_len = in_len div 4 * 3;
             out_len = (if input ! (in_len - 1) = CHR ''='' then out_len - 1 else out_len);
             out_len = (if input ! (in_len - 2) = CHR ''='' then out_len - 1 else out_len)
         in bindR (dec_loop sg input 0 (0, resize out out_len (chr_of 0))) (\<lambda>(j, out). Inr ([], out))))"

section \<open>The encoding of RFC 4648\<close>

fun b64 :: "u8 list \<Rightarrow> string" where
  "b64 [] = []"
| "b64 [x] = [enc_char (sextet1 x), enc_char (sextet2 x 0), CHR ''='', CHR ''='']"
| "b64 [x, y] = [enc_char (sextet1 x), enc_char (sextet2 x y), enc_char (sextet3 y 0), CHR ''='']"
| "b64 (x # y # z # r) =
     enc_char (sextet1 x) # enc_char (sextet2 x y) # enc_char (sextet3 y z) # enc_char (sextet4 z) # b64 r"

lemma length_b64: "length (b64 d) = 4 * ((length d + 2) div 3)"
  by (induction d rule: b64.induct) (simp_all, presburger)

lemma loop_bound_ok: "2 \<le> n \<Longrightarrow> n < 2 ^ 64 \<Longrightarrow> loop_bound n = n - 2"
  by (simp add: loop_bound_def unat_sub unat_of_nat word_le_nat_alt)

section \<open>The encoder implements it\<close>

lemma str_at_nth: "i < length s \<Longrightarrow> str_at s i = Inr (byte_of (s ! i))"
  by (simp add: str_at_def)

lemma wr_app: "wr (out @ z # r) (length out) c = Inr ((out @ [c]) @ r)"
  by (simp add: wr_def)

lemma wr_app1: "wr (out @ z # r) n c = Inr ((out @ [c]) @ r)" if "n = length out"
  using that by (simp add: wr_def)

lemma replicate4: "replicate (4 + n) z = z # z # z # z # replicate n z"
  by (simp add: eval_nat_numeral)

lemma enc_group:
  assumes "s = map chr_of (pre @ x # y # z # d)" and "length s < 2 ^ 64" and "ret = out @ replicate (4 + n) (chr_of 0)"
  shows "enc_loop s (length pre) ret (length out) =
    enc_loop s (length pre + 3)
      ((out @ [enc_char (sextet1 x), enc_char (sextet2 x y), enc_char (sextet3 y z), enc_char (sextet4 z)])
        @ replicate n (chr_of 0)) (length out + 4)"
proof -
  have b: "loop_bound (length s) = length s - 2" using assms(1,2) by (intro loop_bound_ok) simp_all
  have r: "str_at s (length pre) = Inr x" "str_at s (length pre + 1) = Inr y" "str_at s (length pre + 2) = Inr z"
    by (simp_all add: assms(1) str_at_nth nth_append)
  have lt: "length pre < loop_bound (length s)" unfolding b by (simp add: assms(1))
  show ?thesis
    by (subst enc_loop.simps) (simp add: lt r [simplified] assms(3) replicate4 wr_def list_update_append nth_append)
qed

lemma enc_end:
  assumes "s = map chr_of (pre @ d)" and "length d \<le> 2" and "2 \<le> length s" and "length s < 2 ^ 64"
  shows "enc_loop s (length pre) ret p = Inr (length pre, ret, p)"
proof -
  have "loop_bound (length s) = length s - 2" using assms(3,4) by (rule loop_bound_ok)
  with assms(1,2) have "\<not> length pre < loop_bound (length s)" by simp
  then show ?thesis by (subst enc_loop.simps) simp
qed

lemma enc_correct:
  assumes "s = map chr_of (pre @ d)" and "2 \<le> length s" and "length s < 2 ^ 64"
  shows "bindR (enc_loop s (length pre) (out @ replicate (length (b64 d)) (chr_of 0)) (length out)) (enc_tail s)
       = Inr (out @ b64 d)"
  using assms(1)
proof (induction d arbitrary: pre out rule: b64.induct)
  case 1
  with enc_end [OF 1 _ assms(2,3)] show ?case by (simp add: enc_tail_def)
next
  case (2 x)
  have "str_at s (length pre) = Inr x" by (simp add: 2 str_at_nth nth_append)
  with enc_end [OF 2 _ assms(2,3)] 2 show ?case
    by (simp add: enc_tail_def wr_def list_update_append nth_append eval_nat_numeral sextet2_def)
next
  case (3 x y)
  have "str_at s (length pre) = Inr x" "str_at s (length pre + 1) = Inr y" by (simp_all add: 3 str_at_nth nth_append)
  with enc_end [OF 3 _ assms(2,3)] 3 show ?case
    by (simp add: enc_tail_def wr_def list_update_append nth_append eval_nat_numeral sextet3_def)
next
  case (4 x y z d)
  let ?g = "[enc_char (sextet1 x), enc_char (sextet2 x y), enc_char (sextet3 y z), enc_char (sextet4 z)]"
  have s: "s = map chr_of ((pre @ [x, y, z]) @ d)" using 4(2) by simp
  have "length (b64 (x # y # z # d)) = 4 + length (b64 d)" by simp
  with enc_group [OF 4(2) assms(3) refl, of out "length (b64 d)"] 4(1) [OF s, of "out @ ?g"]
  show ?case by (simp add: replicate4 eval_nat_numeral)
qed

section \<open>The decoder inverts it\<close>

lemma masks:
  "x AND 0x3F = take_bit 6 (x :: u8)" "x AND 0x3 = take_bit 2 x" "x AND 0xF = take_bit 4 x"
  "drop_bit 4 (x AND 0xF0) = drop_bit 4 x" "drop_bit 6 (x AND 0xC0) = drop_bit 6 x"
proof -
  show m: "x AND 0x3F = take_bit 6 x" "x AND 0x3 = take_bit 2 x" "x AND 0xF = take_bit 4 x" for x :: u8
    by (simp_all add: take_bit_eq_mask mask_eq_exp_minus_1)
  have "drop_bit 4 (x AND 0xF0) = take_bit 4 (drop_bit 4 x)" by (simp add: m [symmetric])
  also have "\<dots> = drop_bit 4 x" by (rule bit_word_eqI) (auto simp: bit_simps dest: bit_u8_bound)
  finally show "drop_bit 4 (x AND 0xF0) = drop_bit 4 x" .
  have "drop_bit 6 (x AND 0xC0) = take_bit 2 (drop_bit 6 x)" by (simp add: m [symmetric])
  also have "\<dots> = drop_bit 6 x" by (rule bit_word_eqI) (auto simp: bit_simps dest: bit_u8_bound)
  finally show "drop_bit 6 (x AND 0xC0) = drop_bit 6 x" .
qed

lemma bit_u8_bound2: "bit (x :: u8) (Suc (Suc n)) \<Longrightarrow> n < 6"
  by (drule bit_u8_bound) simp

lemma sextets:
  "sextet1 x = drop_bit 2 x" "sextet2 x y = push_bit 4 (take_bit 2 x) OR drop_bit 4 y"
  "sextet3 y z = push_bit 2 (take_bit 4 y) OR drop_bit 6 z" "sextet4 z = take_bit 6 z"
proof -
  have "take_bit 6 (drop_bit 2 x) = drop_bit 2 x" by (rule bit_word_eqI) (auto simp: bit_simps dest: bit_u8_bound bit_u8_bound2)
  then show "sextet1 x = drop_bit 2 x" by (simp only: sextet1_def masks)
qed (simp_all only: sextet2_def sextet3_def sextet4_def masks)

lemma sextet_bounds:
  "unat (sextet1 x) < 64" "unat (sextet2 x y) < 64" "unat (sextet3 y z) < 64" "unat (sextet4 z) < 64"
proof -
  have b: "unat v < 64" if "take_bit 6 v = v" for v :: u8
  proof -
    have "unat v = take_bit 6 (unat v)" using that by (metis unsigned_take_bit_eq)
    also have "\<dots> < 2 ^ 6" by (rule take_bit_nat_less_exp)
    finally show ?thesis by simp
  qed
  have "take_bit 6 (sextet1 x) = sextet1 x" "take_bit 6 (sextet2 x y) = sextet2 x y"
      "take_bit 6 (sextet3 y z) = sextet3 y z" "take_bit 6 (sextet4 z) = sextet4 z"
    unfolding sextets by (rule bit_word_eqI; auto simp: bit_simps dest: bit_u8_bound bit_u8_bound2)+
  then show "unat (sextet1 x) < 64" "unat (sextet2 x y) < 64" "unat (sextet3 y z) < 64" "unat (sextet4 z) < 64"
    using b by auto
qed

lemma tables_inverse:
  assumes "unat v < 64"
  shows "enc_char v \<noteq> CHR ''=''" and "table_at sg (enc_char v) = Inr (ucast v)"
proof -
  have "list_all (\<lambda>k. sEncodingTable ! k \<noteq> CHR ''='' \<and> unat (byte_of (sEncodingTable ! k)) < 128
      \<and> kDecodingTable ! unat (byte_of (sEncodingTable ! k)) = of_nat k) [0 ..< 64]" by code_simp
  then have "\<forall>k \<in> set [0 ..< 64]. sEncodingTable ! k \<noteq> CHR ''='' \<and> unat (byte_of (sEncodingTable ! k)) < 128
      \<and> kDecodingTable ! unat (byte_of (sEncodingTable ! k)) = of_nat k" by (simp only: list_all_iff)
  moreover have "unat v \<in> set [0 ..< 64]" using assms by simp
  ultimately have "sEncodingTable ! unat v \<noteq> CHR ''='' \<and> unat (byte_of (sEncodingTable ! unat v)) < 128
      \<and> kDecodingTable ! unat (byte_of (sEncodingTable ! unat v)) = of_nat (unat v)" by blast
  moreover have "length kDecodingTable = 256" by (simp add: kDecodingTable_def)
  ultimately show "enc_char v \<noteq> CHR ''=''" and "table_at sg (enc_char v) = Inr (ucast v)"
    by (auto simp: enc_char_def table_at_def)
qed


text \<open>The 24 bits of a group, and the bytes cut out of them.\<close>

definition triple :: "u8 \<Rightarrow> u8 \<Rightarrow> u8 \<Rightarrow> u32" where
  "triple x y z = push_bit 16 (ucast x) OR push_bit 8 (ucast y) OR ucast z"

lemma triple_sum:
  "push_bit 18 (ucast (sextet1 x)) + push_bit 12 (ucast (sextet2 x y)) + push_bit 6 (ucast (sextet3 y z))
     + ucast (sextet4 z) = triple x y z"
proof -
  let ?a = "push_bit 18 (ucast (sextet1 x)) :: u32" and ?b = "push_bit 12 (ucast (sextet2 x y)) :: u32"
    and ?c = "push_bit 6 (ucast (sextet3 y z)) :: u32" and ?d = "ucast (sextet4 z) :: u32"
  have ab: "?a + ?b = ?a OR ?b"
    unfolding sextets by (rule or_plus, rule bit_word_eqI) (auto simp: bit_simps dest: bit_u8_bound)
  have abc: "(?a OR ?b) + ?c = ?a OR ?b OR ?c"
    unfolding sextets by (subst or_plus, rule bit_word_eqI) (auto simp: bit_simps or.assoc dest: bit_u8_bound)
  have abcd: "(?a OR ?b OR ?c) + ?d = ?a OR ?b OR ?c OR ?d"
    unfolding sextets by (subst or_plus, rule bit_word_eqI) (auto simp: bit_simps or.assoc dest: bit_u8_bound)
  have "?a OR ?b OR ?c OR ?d = triple x y z"
    unfolding sextets triple_def
  proof (rule bit_word_eqI)
    fix n
    assume "n < LENGTH(32)"
    then consider "n < 6" | "6 \<le> n" "n < 8" | "8 \<le> n" "n < 12" | "12 \<le> n" "n < 16" | "16 \<le> n" "n < 18"
      | "18 \<le> n" "n < 24" | "24 \<le> n" "n < 32" by fastforce
    then show "bit (push_bit 18 (ucast (drop_bit 2 x)) OR push_bit 12 (ucast (push_bit 4 (take_bit 2 x) OR drop_bit 4 y))
        OR push_bit 6 (ucast (push_bit 2 (take_bit 4 y) OR drop_bit 6 z)) OR (ucast (take_bit 6 z) :: u32)) n
      \<longleftrightarrow> bit (push_bit 16 (ucast x) OR push_bit 8 (ucast y) OR (ucast z :: u32)) n"
    proof cases
      case 6
      then obtain k where "n = 18 + k" by (auto dest: le_Suc_ex)
      with 6 show ?thesis by (auto simp: bit_simps dest: bit_u8_bound bit_u8_bound2)
    qed (auto simp: bit_simps dest: bit_u8_bound)
  qed
  then show ?thesis by (simp add: ab abc abcd)
qed

lemma triple_bytes:
  "ucast (drop_bit 16 (triple x y z) AND 0xFF) = x"
  "ucast (drop_bit 8 (triple x y z) AND 0xFF) = y"
  "ucast (triple x y z AND 0xFF) = z"
proof -
  have m: "v AND 0xFF = take_bit 8 v" for v :: u32 by (simp add: take_bit_eq_mask mask_eq_exp_minus_1)
  show "ucast (drop_bit 16 (triple x y z) AND 0xFF) = x"
    "ucast (drop_bit 8 (triple x y z) AND 0xFF) = y"
    "ucast (triple x y z AND 0xFF) = z"
    unfolding m triple_def by (rule bit_word_eqI; auto simp: bit_simps dest: bit_u8_bound)+
qed

lemma put_byte_write: "put_byte v (length b, b @ z # r) = (length b + 1, b @ chr_of (ucast v) # r)"
  by (simp add: put_byte_def)

lemma put_byte_full: "length b \<le> n \<Longrightarrow> put_byte v (n, b) = (n, b)"
  by (simp add: put_byte_def)

lemma dec_char_enc: "s ! i = enc_char v \<Longrightarrow> i < length s \<Longrightarrow> unat v < 64 \<Longrightarrow> dec_char sg s i = Inr (ucast v)"
  by (simp add: dec_char_def rd_def tables_inverse)

lemma dec_char_pad: "s ! i = CHR ''='' \<Longrightarrow> i < length s \<Longrightarrow> dec_char sg s i = Inr 0"
  by (simp add: dec_char_def rd_def)

text \<open>One group of four characters that hold the sextets of \<open>x\<close>, \<open>y\<close> and \<open>z\<close>.\<close>

lemma dec_group:
  assumes "length pre + 3 < length s"
    and "dec_char sg s (length pre) = Inr (ucast (sextet1 x))"
    and "dec_char sg s (length pre + 1) = Inr (ucast (sextet2 x y))"
    and "dec_char sg s (length pre + 2) = Inr (ucast (sextet3 y z))"
    and "dec_char sg s (length pre + 3) = Inr (ucast (sextet4 z))"
  shows "dec_loop sg s (length pre) jo = dec_loop sg s (length pre + 4)
     (put_byte (triple x y z AND 0xFF) (put_byte (drop_bit 8 (triple x y z) AND 0xFF)
       (put_byte (drop_bit 16 (triple x y z) AND 0xFF) jo)))"
  using assms(1) by (subst dec_loop.simps, subst if_P) (simp, simp only: assms(2-) bindR_Inr Let_def triple_sum if_True)

lemma sextets_0: "sextet3 0 0 = 0" "sextet4 0 = 0"
  by (simp_all add: sextets)

lemma dec_correct:
  assumes "s = pre @ b64 d" and "length r = length d"
  shows "dec_loop sg s (length pre) (length b, b @ r) = Inr (length b + length d, b @ map chr_of d)"
  using assms
proof (induction d arbitrary: pre b r rule: b64.induct)
  case 1
  then show ?case by (subst dec_loop.simps) simp
next
  case (2 x)
  then obtain z where r: "r = [z]" by (auto simp: length_Suc_conv)
  have "dec_loop sg s (length pre) (length b, b @ r) = dec_loop sg s (length pre + 4)
     (put_byte (triple x 0 0 AND 0xFF) (put_byte (drop_bit 8 (triple x 0 0) AND 0xFF)
       (put_byte (drop_bit 16 (triple x 0 0) AND 0xFF) (length b, b @ r))))"
    by (rule dec_group) (simp_all add: 2(1) nth_append dec_char_enc dec_char_pad sextet_bounds sextets_0)
  also have "\<dots> = Inr (length b + 1, b @ [chr_of x])"
    by (subst dec_loop.simps) (simp add: 2(1) r put_byte_write put_byte_full triple_bytes del: chr_of_def)
  finally show ?case by simp
next
  case (3 x y)
  then obtain z z' where r: "r = [z, z']" by (auto simp: length_Suc_conv)
  have "dec_loop sg s (length pre) (length b, b @ r) = dec_loop sg s (length pre + 4)
     (put_byte (triple x y 0 AND 0xFF) (put_byte (drop_bit 8 (triple x y 0) AND 0xFF)
       (put_byte (drop_bit 16 (triple x y 0) AND 0xFF) (length b, b @ r))))"
    by (rule dec_group) (simp_all add: 3(1) nth_append dec_char_enc dec_char_pad sextet_bounds sextets_0)
  also have "\<dots> = Inr (length b + 2, b @ [chr_of x, chr_of y])"
    using put_byte_write [of _ "b @ [chr_of x]"]
    by (subst dec_loop.simps) (simp add: 3(1) r put_byte_write put_byte_full triple_bytes)
  finally show ?case by simp
next
  case (4 x y z d)
  then obtain p q p' r' where r: "r = p # q # p' # r'" and "length r' = length d" by (auto simp: length_Suc_conv)
  let ?b = "b @ [chr_of x, chr_of y, chr_of z]"
  have "dec_loop sg s (length pre) (length b, b @ r) = dec_loop sg s (length pre + 4)
     (put_byte (triple x y z AND 0xFF) (put_byte (drop_bit 8 (triple x y z) AND 0xFF)
       (put_byte (drop_bit 16 (triple x y z) AND 0xFF) (length b, b @ r))))"
    by (rule dec_group) (simp_all add: 4(2) nth_append dec_char_enc sextet_bounds)
  also have "\<dots> = dec_loop sg s (length pre + 4) (length ?b, ?b @ r')"
    using put_byte_write [of _ "b @ [chr_of x]"] put_byte_write [of _ "b @ [chr_of x, chr_of y]"]
    by (simp add: r put_byte_write triple_bytes)
  also have "\<dots> = Inr (length b + length (x # y # z # d), b @ map chr_of (x # y # z # d))"
    using 4(1) [of "pre @ [enc_char (sextet1 x), enc_char (sextet2 x y), enc_char (sextet3 y z), enc_char (sextet4 z)]" r' ?b]
      4(2) \<open>length r' = length d\<close> by (simp add: eval_nat_numeral)
  finally show ?case .
qed

section \<open>Properties\<close>

lemma pads_not: "enc_char (sextet3 y z) \<noteq> CHR ''=''" "enc_char (sextet4 z) \<noteq> CHR ''=''"
  using sextet_bounds by (simp_all add: tables_inverse(1))

lemma pads:
  "d \<noteq> [] \<Longrightarrow> b64 d ! (length (b64 d) - 1) = CHR ''='' \<longleftrightarrow> length d mod 3 \<noteq> 0"
  "d \<noteq> [] \<Longrightarrow> b64 d ! (length (b64 d) - 2) = CHR ''='' \<longleftrightarrow> length d mod 3 = 1"
proof (induction d rule: b64.induct)
  case (4 x y z d)
  have m: "length (x # y # z # d) mod 3 = length d mod 3" by simp
  show "b64 (x # y # z # d) ! (length (b64 (x # y # z # d)) - 1) = CHR ''='' \<longleftrightarrow> length (x # y # z # d) mod 3 \<noteq> 0"
    and "b64 (x # y # z # d) ! (length (b64 (x # y # z # d)) - 2) = CHR ''='' \<longleftrightarrow> length (x # y # z # d) mod 3 = 1"
  proof (atomize (full), cases "d = []")
    case False
    then have "2 \<le> length (b64 d)" by (cases d) (simp_all add: length_b64)
    then obtain k where "length (b64 d) = Suc (Suc k)" by (auto simp: numeral_2_eq_2 dest: le_Suc_ex)
    with 4 False show "(b64 (x # y # z # d) ! (length (b64 (x # y # z # d)) - 1) = CHR ''='' \<longleftrightarrow> length (x # y # z # d) mod 3 \<noteq> 0) \<and>
        (b64 (x # y # z # d) ! (length (b64 (x # y # z # d)) - 2) = CHR ''='' \<longleftrightarrow> length (x # y # z # d) mod 3 = 1)"
      unfolding m by simp
  qed (simp add: pads_not numeral_2_eq_2)
qed (simp_all add: numeral_2_eq_2 pads_not)

lemma decoded_length:
  assumes "d \<noteq> []"
  shows "length (b64 d) div 4 * 3 - (if length d mod 3 \<noteq> 0 then 1 else 0) - (if length d mod 3 = 1 then 1 else 0)
    = length d"
proof -
  have n: "length d = 3 * (length d div 3) + length d mod 3" by simp
  have l: "length (b64 d) div 4 = (length d + 2) div 3" by (simp add: length_b64)
  consider "length d mod 3 = 0" | "length d mod 3 = 1" | "length d mod 3 = 2" by linarith
  then show ?thesis
  proof cases
    case 1
    then obtain q where "length d = 3 * q" by auto
    then show ?thesis by (simp add: l)
  next
    case 2
    then obtain q where "length d = 3 * q + 1" using n by metis
    then show ?thesis by (simp add: l)
  next
    case 3
    then obtain q where "length d = 3 * q + 2" using n by metis
    then show ?thesis by (simp add: l) presburger
  qed
qed

lemma Base64_Encode_b64:
  assumes "2 \<le> length s" and "length s < 2 ^ 64"
  shows "Base64_Encode s = Inr (b64 (map byte_of s))"
  using enc_correct [of s "[]" "map byte_of s" "[]"] assms
  by (simp add: Base64_Encode_def length_b64 comp_def)

lemma Base64_Decode_b64:
  assumes "d \<noteq> []"
  shows "Base64_Decode sg (b64 d) out = Inr ([], map chr_of d)"
proof -
  have len: "length (b64 d) mod 4 = 0" "length (b64 d) \<noteq> 0" using assms by (simp_all add: length_b64) (cases d; simp)
  have "dec_loop sg (b64 d) 0 (0, resize out (length d) (chr_of 0)) = Inr (length d, map chr_of d)"
    using dec_correct [of "b64 d" "[]" d "resize out (length d) (chr_of 0)" sg "[]"] by simp
  then show ?thesis
    unfolding Base64_Decode_def Let_def pads [OF assms]
    using len decoded_length [OF assms] by (simp split: if_splits)
qed

text \<open>C27. \<open>Base64::Encode\<close> followed by \<open>Base64::Decode\<close> is the identity on every string of at least
  two bytes, whatever the signedness of \<open>char\<close> and the old contents of the output: the encoding is the one
  of RFC 4648, decoding it reports no error and neither routine leaves its buffers.\<close>

theorem base64_roundtrip:
  assumes "2 \<le> length s" and "length s < 2 ^ 64"
  shows "\<exists>e. Base64_Encode s = Inr e \<and> e = b64 (map byte_of s) \<and> Base64_Decode char_signed e out = Inr ([], s)"
proof -
  have "map byte_of s \<noteq> []" using assms(1) by auto
  from Base64_Decode_b64 [OF this, of char_signed out] Base64_Encode_b64 [OF assms]
  show ?thesis by (simp add: comp_def)
qed

theorem base64_roundtrip_witness:
  "\<exists>e. Base64_Encode ''orb'' = Inr e \<and> e = b64 (map byte_of ''orb'') \<and> Base64_Decode True e ''x'' = Inr ([], ''orb'')"
  by (rule base64_roundtrip) simp_all

text \<open>Shorter inputs are not handled. The bound \<open>in_len - 2\<close> of the encoder's loop wraps, so the empty
  string makes it write to an empty buffer and a single byte makes it read past the terminator of its
  input; and the decoder reads before the start of an empty input.\<close>

theorem base64_short:
  assumes "length s < 2"
  shows "Base64_Encode s = Inl (if s = [] then OobWrite else OobRead) \<and> Base64_Decode char_signed [] out = Inl OobRead"
proof
  have bound: "0 < loop_bound 0" "0 < loop_bound 1"
    by (simp_all add: loop_bound_def unsigned_minus_1_eq_mask mask_eq_exp_minus_1)
  show "Base64_Encode s = Inl (if s = [] then OobWrite else OobRead)"
  proof (cases s)
    case Nil
    then show ?thesis using bound
      unfolding Base64_Encode_def by (subst enc_loop.simps) (simp add: str_at_def wr_def)
  next
    case (Cons c r)
    with assms have "s = [c]" by simp
    then show ?thesis using bound
      unfolding Base64_Encode_def by (subst enc_loop.simps) (simp add: str_at_def wr_def)
  qed
  show "Base64_Decode char_signed [] out = Inl OobRead" by (simp add: Base64_Decode_def)
qed

theorem base64_short_witness: "Base64_Encode ''a'' = Inl OobRead \<and> Base64_Decode True [] ''x'' = Inl OobRead"
  using base64_short [of "''a''" True "''x''"] by simp

end
