(* ===== verification/Sha256.thy ===== *)
theory Sha256
  imports CppStrings
begin

text \<open>
  \<open>rdk/ORB/library/src/core/utilities/SHA256.cpp\<close>: the incremental hash over a context with a block
  buffer and a bit counter of two words, and the hash of FIPS 180-4 that it implements.
\<close>

section \<open>The implementation\<close>

definition ROTRIGHT :: "u32 \<Rightarrow> nat \<Rightarrow> u32" where
  "ROTRIGHT a b = drop_bit b a OR push_bit (32 - b) a"

definition CH :: "u32 \<Rightarrow> u32 \<Rightarrow> u32 \<Rightarrow> u32" where "CH x y z = (x AND y) XOR (NOT x AND z)"
definition MAJ :: "u32 \<Rightarrow> u32 \<Rightarrow> u32 \<Rightarrow> u32" where "MAJ x y z = (x AND y) XOR (x AND z) XOR (y AND z)"
definition EP0 :: "u32 \<Rightarrow> u32" where "EP0 x = ROTRIGHT x 2 XOR ROTRIGHT x 13 XOR ROTRIGHT x 22"
definition EP1 :: "u32 \<Rightarrow> u32" where "EP1 x = ROTRIGHT x 6 XOR ROTRIGHT x 11 XOR ROTRIGHT x 25"
definition SIG0 :: "u32 \<Rightarrow> u32" where "SIG0 x = ROTRIGHT x 7 XOR ROTRIGHT x 18 XOR drop_bit 3 x"
definition SIG1 :: "u32 \<Rightarrow> u32" where "SIG1 x = ROTRIGHT x 17 XOR ROTRIGHT x 19 XOR drop_bit 10 x"

definition k_table :: "u32 list" where
  "k_table = [0x428A2F98, 0x71374491, 0xB5C0FBCF, 0xE9B5DBA5, 0x3956C25B, 0x59F111F1, 0x923F82A4, 0xAB1C5ED5,
     0xD807AA98, 0x12835B01, 0x243185BE, 0x550C7DC3, 0x72BE5D74, 0x80DEB1FE, 0x9BDC06A7, 0xC19BF174,
     0xE49B69C1, 0xEFBE4786, 0x0FC19DC6, 0x240CA1CC, 0x2DE92C6F, 0x4A7484AA, 0x5CB0A9DC, 0x76F988DA,
     0x983E5152, 0xA831C66D, 0xB00327C8, 0xBF597FC7, 0xC6E00BF3, 0xD5A79147, 0x06CA6351, 0x14292967,
     0x27B70A85, 0x2E1B2138, 0x4D2C6DFC, 0x53380D13, 0x650A7354, 0x766A0ABB, 0x81C2C92E, 0x92722C85,
     0xA2BFE8A1, 0xA81A664B, 0xC24B8B70, 0xC76C51A3, 0xD192E819, 0xD6990624, 0xF40E3585, 0x106AA070,
     0x19A4C116, 0x1E376C08, 0x2748774C, 0x34B0BCB5, 0x391C0CB3, 0x4ED8AA4A, 0x5B9CCA4F, 0x682E6FF3,
     0x748F82EE, 0x78A5636F, 0x84C87814, 0x8CC70208, 0x90BEFFFA, 0xA4506CEB, 0xBEF9A3F7, 0xC67178F2]"

record sha_ctx =
  ctx_data :: "u8 list"
  datalen :: u32
  bitlen0 :: u32
  bitlen1 :: u32
  ctx_state :: "u32 list"

text \<open>\<open>SHA256Transform\<close>: the message schedule \<open>m\<close>, then 64 rounds over the variables \<open>a\<close> to \<open>h\<close>.\<close>

definition schedule :: "u8 list \<Rightarrow> u32 list" where
  "schedule d = fold (\<lambda>i m. m @ [SIG1 (m ! (i - 2)) + m ! (i - 7) + SIG0 (m ! (i - 15)) + m ! (i - 16)]) [16 ..< 64]
     (map (\<lambda>i. push_bit 24 (ucast (d ! (4 * i))) OR push_bit 16 (ucast (d ! (4 * i + 1)))
       OR push_bit 8 (ucast (d ! (4 * i + 2))) OR ucast (d ! (4 * i + 3))) [0 ..< 16])"

type_synonym vars = "u32 \<times> u32 \<times> u32 \<times> u32 \<times> u32 \<times> u32 \<times> u32 \<times> u32"

definition sha_round :: "u32 list \<Rightarrow> nat \<Rightarrow> vars \<Rightarrow> vars" where
  "sha_round m i = (\<lambda>(a, b, c, d, e, f, g, h).
     let t1 = h + EP1 e + CH e f g + k_table ! i + m ! i;
         t2 = EP0 a + MAJ a b c
     in (t1 + t2, a, b, c, d + t1, e, f, g))"

definition SHA256Transform :: "sha_ctx \<Rightarrow> sha_ctx" where
  "SHA256Transform ctx =
     (let m = schedule (ctx_data ctx);
          s = ctx_state ctx;
          (a, b, c, d, e, f, g, h) =
            fold (sha_round m) [0 ..< 64] (s ! 0, s ! 1, s ! 2, s ! 3, s ! 4, s ! 5, s ! 6, s ! 7)
      in ctx\<lparr>ctx_state := [s ! 0 + a, s ! 1 + b, s ! 2 + c, s ! 3 + d, s ! 4 + e, s ! 5 + f, s ! 6 + g, s ! 7 + h]\<rparr>)"

definition DBL_INT_ADD :: "u32 \<Rightarrow> sha_ctx \<Rightarrow> sha_ctx" where
  "DBL_INT_ADD c ctx =
     (let ctx = (if bitlen0 ctx > 0xFFFFFFFF - c then ctx\<lparr>bitlen1 := bitlen1 ctx + 1\<rparr> else ctx)
      in ctx\<lparr>bitlen0 := bitlen0 ctx + c\<rparr>)"

text \<open>The context starts uninitialised: the buffer keeps what it held.\<close>

definition SHA256Init :: "sha_ctx \<Rightarrow> sha_ctx" where
  "SHA256Init ctx = ctx\<lparr>datalen := 0, bitlen0 := 0, bitlen1 := 0,
     ctx_state := [0x6A09E667, 0xBB67AE85, 0x3C6EF372, 0xA54FF53A, 0x510E527F, 0x9B05688C, 0x1F83D9AB, 0x5BE0CD19]\<rparr>"

definition update_byte :: "u8 \<Rightarrow> sha_ctx \<Rightarrow> sha_ctx res" where
  "update_byte b ctx = bindR (wr (ctx_data ctx) (unat (datalen ctx)) b) (\<lambda>d.
     let ctx = ctx\<lparr>ctx_data := d, datalen := datalen ctx + 1\<rparr>
     in Inr (if datalen ctx = 64 then (DBL_INT_ADD 512 (SHA256Transform ctx))\<lparr>datalen := 0\<rparr> else ctx))"

definition SHA256Update :: "u8 list \<Rightarrow> u32 \<Rightarrow> sha_ctx \<Rightarrow> sha_ctx res" where
  "SHA256Update d len = foldR (\<lambda>i ctx. bindR (rd d i) (\<lambda>b. update_byte b ctx)) [0 ..< unat len]"

text \<open>\<open>while (i < n) ctx->data[i++] = 0x00\<close>.\<close>

function zero_loop :: "nat \<Rightarrow> u8 list \<Rightarrow> nat \<Rightarrow> u8 list res" where
  "zero_loop n d i = (if i < n then bindR (wr d i 0) (\<lambda>d. zero_loop n d (i + 1)) else Inr d)"
  by pat_completeness auto
termination
  by (relation "measure (\<lambda>(n, d, i). n - i)") auto

declare zero_loop.simps [simp del]

definition store_length :: "sha_ctx \<Rightarrow> sha_ctx" where
  "store_length ctx = ctx\<lparr>ctx_data := (ctx_data ctx)[63 := ucast (bitlen0 ctx), 62 := ucast (drop_bit 8 (bitlen0 ctx)),
     61 := ucast (drop_bit 16 (bitlen0 ctx)), 60 := ucast (drop_bit 24 (bitlen0 ctx)),
     59 := ucast (bitlen1 ctx), 58 := ucast (drop_bit 8 (bitlen1 ctx)),
     57 := ucast (drop_bit 16 (bitlen1 ctx)), 56 := ucast (drop_bit 24 (bitlen1 ctx))]\<rparr>"

definition pad_block :: "sha_ctx \<Rightarrow> sha_ctx res" where
  "pad_block ctx =
     (let i = unat (datalen ctx) in
      bindR (wr (ctx_data ctx) i 0x80) (\<lambda>d.
      if datalen ctx < 56 then bindR (zero_loop 56 d (i + 1)) (\<lambda>d. Inr (ctx\<lparr>ctx_data := d\<rparr>))
      else bindR (zero_loop 64 d (i + 1)) (\<lambda>d.
        let ctx = SHA256Transform (ctx\<lparr>ctx_data := d\<rparr>)
        in Inr (ctx\<lparr>ctx_data := replicate 56 0 @ drop 56 (ctx_data ctx)\<rparr>))))"

text \<open>\<open>hash[i + 4 * j] = (ctx->state[j] >> (24 - i * 8)) & 0xff\<close> for the eight words.\<close>

definition hash_bytes :: "u32 list \<Rightarrow> u8 list \<Rightarrow> u8 list" where
  "hash_bytes s = fold (\<lambda>i hash. fold (\<lambda>j hash.
     hash[i + 4 * j := ucast (drop_bit (24 - i * 8) (s ! j) AND 0xFF)]) [0 ..< 8] hash) [0 ..< 4]"

definition SHA256Final :: "sha_ctx \<Rightarrow> u8 list \<Rightarrow> u8 list res" where
  "SHA256Final ctx hash = bindR (pad_block ctx) (\<lambda>ctx.
     let ctx = SHA256Transform (store_length (DBL_INT_ADD (datalen ctx * 8) ctx))
     in Inr (hash_bytes (ctx_state ctx) hash))"

text \<open>\<open>sprintf(s, "%02x", b)\<close>.\<close>

definition print_02x :: "u8 \<Rightarrow> string" where
  "print_02x b = [hex_digit (unat b div 16), hex_digit (unat b mod 16)]"

text \<open>The context and the hash are uninitialised local variables.\<close>

definition SHA256_Encrypt :: "sha_ctx \<Rightarrow> u8 list \<Rightarrow> string \<Rightarrow> string res" where
  "SHA256_Encrypt ctx0 hash0 s =
     bindR (SHA256Update (map byte_of s) (of_nat (length s)) (SHA256Init ctx0)) (\<lambda>ctx.
     bindR (SHA256Final ctx hash0) (\<lambda>hash. Inr (concat (map print_02x hash))))"

section \<open>The hash of FIPS 180-4\<close>

text \<open>Message schedule, compression of a block, padding, and the hash as a fold over the blocks.\<close>

fun fips_W :: "u8 list \<Rightarrow> nat \<Rightarrow> u32" where
  "fips_W blk t =
     (if t < 16 then be32 (blk ! (4 * t)) (blk ! (4 * t + 1)) (blk ! (4 * t + 2)) (blk ! (4 * t + 3))
      else (word_rotr 17 (fips_W blk (t - 2)) XOR word_rotr 19 (fips_W blk (t - 2)) XOR drop_bit 10 (fips_W blk (t - 2)))
         + fips_W blk (t - 7)
         + (word_rotr 7 (fips_W blk (t - 15)) XOR word_rotr 18 (fips_W blk (t - 15)) XOR drop_bit 3 (fips_W blk (t - 15)))
         + fips_W blk (t - 16))"

declare fips_W.simps [simp del]

definition fips_round :: "u8 list \<Rightarrow> nat \<Rightarrow> vars \<Rightarrow> vars" where
  "fips_round blk t = (\<lambda>(a, b, c, d, e, f, g, h).
     let T1 = h + (word_rotr 6 e XOR word_rotr 11 e XOR word_rotr 25 e) + ((e AND f) XOR (NOT e AND g))
              + k_table ! t + fips_W blk t;
         T2 = (word_rotr 2 a XOR word_rotr 13 a XOR word_rotr 22 a) + ((a AND b) XOR (a AND c) XOR (b AND c))
     in (T1 + T2, a, b, c, d + T1, e, f, g))"

definition compress :: "u32 list \<Rightarrow> u8 list \<Rightarrow> u32 list" where
  "compress s blk =
     (let (a, b, c, d, e, f, g, h) =
            fold (fips_round blk) [0 ..< 64] (s ! 0, s ! 1, s ! 2, s ! 3, s ! 4, s ! 5, s ! 6, s ! 7)
      in [s ! 0 + a, s ! 1 + b, s ! 2 + c, s ! 3 + d, s ! 4 + e, s ! 5 + f, s ! 6 + g, s ! 7 + h])"

fun blocks :: "u8 list \<Rightarrow> u8 list list" where
  "blocks xs = (if length xs < 64 then [] else take 64 xs # blocks (drop 64 xs))"

declare blocks.simps [simp del]

definition word_bytes :: "u32 \<Rightarrow> u8 list" where
  "word_bytes w = [ucast (drop_bit 24 w), ucast (drop_bit 16 w), ucast (drop_bit 8 w), ucast w]"

definition bit_length :: "nat \<Rightarrow> u8 list" where
  "bit_length n = word_bytes (of_nat (8 * n div 2 ^ 32)) @ word_bytes (of_nat (8 * n))"

definition padded :: "u8 list \<Rightarrow> u8 list" where
  "padded m = m @ 0x80 # replicate ((119 - length m mod 64) mod 64) 0 @ bit_length (length m)"

definition sha_H0 :: "u32 list" where
  "sha_H0 = [0x6A09E667, 0xBB67AE85, 0x3C6EF372, 0xA54FF53A, 0x510E527F, 0x9B05688C, 0x1F83D9AB, 0x5BE0CD19]"

definition sha256 :: "u8 list \<Rightarrow> u8 list" where
  "sha256 m = concat (map word_bytes (foldl compress sha_H0 (blocks (padded m))))"

section \<open>The compression function\<close>

lemma ROTRIGHT_rotr:
  assumes "0 < b" and "b < 32"
  shows "ROTRIGHT a b = word_rotr b a"
proof (rule bit_word_eqI)
  fix n assume "n < LENGTH(32)"
  then have n: "n < 32" by simp
  show "bit (ROTRIGHT a b) n \<longleftrightarrow> bit (word_rotr b a) n"
  proof (cases "n + b < 32")
    case True
    then have "(n + b) mod 32 = n + b" by simp
    then show ?thesis using True n by (auto simp: ROTRIGHT_def bit_simps add.commute)
  next
    case False
    then have "(n + b) mod 32 = n + b - 32" using n assms by (simp add: le_mod_geq)
    moreover have "\<not> bit a (n + b)" using False bit_imp_le_length [of a "n + b"] by auto
    ultimately show ?thesis using False n assms by (auto simp: ROTRIGHT_def bit_simps add.commute)
  qed
qed

lemma schedule_prefix:
  assumes "16 \<le> n"
  shows "fold (\<lambda>i m. m @ [SIG1 (m ! (i - 2)) + m ! (i - 7) + SIG0 (m ! (i - 15)) + m ! (i - 16)]) [16 ..< n]
     (map (fips_W d) [0 ..< 16]) = map (fips_W d) [0 ..< n]"
  using assms
proof (induction n rule: dec_induct)
  case (step n)
  have "SIG1 (fips_W d (n - 2)) + fips_W d (n - 7) + SIG0 (fips_W d (n - 15)) + fips_W d (n - 16) = fips_W d n"
    using step(1) by (subst fips_W.simps [of d n]) (simp add: SIG0_def SIG1_def ROTRIGHT_rotr)
  with step show ?case by simp
qed simp

lemma schedule_fips: "schedule d = map (fips_W d) [0 ..< 64]"
proof -
  have "map (\<lambda>i. push_bit 24 (ucast (d ! (4 * i))) OR push_bit 16 (ucast (d ! (4 * i + 1)))
       OR push_bit 8 (ucast (d ! (4 * i + 2))) OR (ucast (d ! (4 * i + 3)) :: u32)) [0 ..< 16] = map (fips_W d) [0 ..< 16]"
    by (rule map_cong [OF refl]) (simp add: fips_W.simps be32_or)
  then show ?thesis unfolding schedule_def by (simp only:) (rule schedule_prefix, simp)
qed

lemma rounds_fips: "fold (sha_round (schedule d)) [0 ..< 64] v = fold (fips_round d) [0 ..< 64] v"
proof (rule fold_cong [OF refl refl])
  fix t assume "t \<in> set [0 ..< 64]"
  then have "schedule d ! t = fips_W d t" by (simp add: schedule_fips)
  then show "sha_round (schedule d) t = fips_round d t"
    by (simp add: sha_round_def fips_round_def EP0_def EP1_def CH_def MAJ_def ROTRIGHT_rotr)
qed

lemma SHA256Transform_compress: "SHA256Transform ctx = ctx\<lparr>ctx_state := compress (ctx_state ctx) (ctx_data ctx)\<rparr>"
  by (simp add: SHA256Transform_def compress_def rounds_fips Let_def split: prod.split)

lemma length_compress: "length (compress s b) = 8"
  by (simp add: compress_def split: prod.split)

section \<open>Absorbing bytes\<close>

definition counter :: "sha_ctx \<Rightarrow> nat" where
  "counter ctx = 2 ^ 32 * unat (bitlen1 ctx) + unat (bitlen0 ctx)"

lemma DBL_INT_ADD_counter:
  assumes "counter ctx + unat c < 2 ^ 64"
  shows "counter (DBL_INT_ADD c ctx) = counter ctx + unat c"
proof -
  have c: "unat (0xFFFFFFFF - c) = 2 ^ 32 - 1 - unat c"
  proof -
    have "(0xFFFFFFFF :: u32) = - 1" by simp
    then have "c \<le> 0xFFFFFFFF" by (simp only:) (rule word_order.extremum)
    then show ?thesis by (simp add: unat_sub)
  qed
  have b: "unat (bitlen0 ctx) < 2 ^ 32" "unat c < 2 ^ 32" using unsigned_less [of "bitlen0 ctx", where ?'a = nat] unsigned_less [of c, where ?'a = nat] by simp_all
  show ?thesis
  proof (cases "bitlen0 ctx > 0xFFFFFFFF - c")
    case True
    with c b have o: "2 ^ 32 \<le> unat (bitlen0 ctx) + unat c" by (simp add: word_less_nat_alt)
    then have "unat (bitlen0 ctx + c) = unat (bitlen0 ctx) + unat c - 2 ^ 32" 
      using b by (simp add: unat_word_ariths le_mod_geq)
    moreover have "unat (bitlen1 ctx + 1) = unat (bitlen1 ctx) + 1"
      using assms o by (simp add: counter_def unat_word_ariths)
    ultimately show ?thesis using True o by (simp add: DBL_INT_ADD_def counter_def Let_def)
  next
    case False
    with c b have "unat (bitlen0 ctx) + unat c < 2 ^ 32" by (simp add: word_less_nat_alt)
    then have "unat (bitlen0 ctx + c) = unat (bitlen0 ctx) + unat c" by (simp add: unat_word_ariths)
    with False show ?thesis by (simp add: DBL_INT_ADD_def counter_def Let_def)
  qed
qed

lemma DBL_INT_ADD_frame [simp]:
  "ctx_data (DBL_INT_ADD c ctx) = ctx_data ctx" "datalen (DBL_INT_ADD c ctx) = datalen ctx"
  "ctx_state (DBL_INT_ADD c ctx) = ctx_state ctx"
  by (simp_all add: DBL_INT_ADD_def Let_def)

lemma blocks_append: "64 dvd length a \<Longrightarrow> blocks (a @ b) = blocks a @ blocks b"
proof (induction a rule: blocks.induct)
  case (1 a)
  show ?case
  proof (cases "a = []")
    case False
    with 1(2) have l: "64 \<le> length a" by (meson dvd_imp_le length_greater_0_conv)
    moreover have "64 dvd length (drop 64 a)" using 1(2) l by simp
    ultimately show ?thesis using 1(1) by (simp add: blocks.simps [of "a @ b"] blocks.simps [of a])
  qed (simp add: blocks.simps [of "[]"])
qed

lemma blocks_single: "length b = 64 \<Longrightarrow> blocks b = [b]"
  by (simp add: blocks.simps [of b] blocks.simps [of "[]"])

text \<open>The context after the whole blocks \<open>a\<close> and the bytes \<open>b\<close> of the block in progress.\<close>

definition absorbed :: "u8 list \<Rightarrow> u8 list \<Rightarrow> sha_ctx \<Rightarrow> bool" where
  "absorbed a b ctx = (64 dvd length a \<and> length b < 64 \<and> length (ctx_data ctx) = 64 \<and> take (length b) (ctx_data ctx) = b
     \<and> datalen ctx = of_nat (length b) \<and> counter ctx = 8 * length a
     \<and> ctx_state ctx = foldl compress sha_H0 (blocks a))"

lemma absorbed_init: "length (ctx_data ctx) = 64 \<Longrightarrow> absorbed [] [] (SHA256Init ctx)"
  by (simp add: absorbed_def SHA256Init_def counter_def sha_H0_def blocks.simps [of "[]"])

lemma absorbed_byte:
  assumes "absorbed a b ctx" and "length (a @ b) < 2 ^ 32"
  shows "\<exists>a' b' ctx'. update_byte x ctx = Inr ctx' \<and> absorbed a' b' ctx' \<and> a' @ b' = a @ b @ [x]"
proof -
  have dl: "unat (datalen ctx) = length b" using assms(1) by (simp add: absorbed_def unat_of_nat)
  let ?d = "(ctx_data ctx)[length b := x]"
  have d: "take (Suc (length b)) ?d = b @ [x]" "length ?d = 64"
    using assms(1) by (simp_all add: absorbed_def take_Suc_conv_app_nth)
  have w: "wr (ctx_data ctx) (unat (datalen ctx)) x = Inr ?d"
    using assms(1) by (simp add: dl) (simp add: absorbed_def)
  let ?c = "ctx\<lparr>ctx_data := ?d, datalen := datalen ctx + 1\<rparr>"
  have u: "update_byte x ctx = Inr (if datalen ?c = 64 then (DBL_INT_ADD 512 (SHA256Transform ?c))\<lparr>datalen := 0\<rparr> else ?c)"
    unfolding update_byte_def w bindR_Inr Let_def by simp
  have n: "datalen ?c = of_nat (Suc (length b))" using assms(1) by (simp add: absorbed_def)
  show ?thesis
  proof (cases "Suc (length b) = 64")
    case True
    then have db: "?d = b @ [x]" using d by simp
    let ?t = "(DBL_INT_ADD 512 (SHA256Transform ?c))\<lparr>datalen := 0\<rparr>"
    have "update_byte x ctx = Inr ?t" using n True by (simp add: u)
    moreover have "counter (SHA256Transform ?c) = 8 * length a"
      using assms(1) by (simp add: SHA256Transform_compress counter_def absorbed_def)
    then have "counter (DBL_INT_ADD 512 (SHA256Transform ?c)) = 8 * length a + 512"
      using assms(2) by (subst DBL_INT_ADD_counter) simp_all
    then have "counter ?t = 8 * length (a @ b @ [x])" using True by (simp add: counter_def)
    moreover have "64 dvd length (a @ b @ [x])" using assms(1) True by (simp add: absorbed_def)
    moreover have "blocks (a @ b @ [x]) = blocks a @ [b @ [x]]"
      using assms(1) True by (simp add: blocks_append absorbed_def blocks_single)
    ultimately have "absorbed (a @ b @ [x]) [] ?t" using assms(1) db d(2)
      by (simp add: absorbed_def SHA256Transform_compress)
    with \<open>update_byte x ctx = Inr ?t\<close> show ?thesis by (intro exI [of _ "a @ b @ [x]"] exI [of _ "[]"]) simp
  next
    case False
    then have "(of_nat (Suc (length b)) :: u32) \<noteq> 64"
      using assms(1) u32_of_nat [of "Suc (length b)"] by (auto simp: absorbed_def)
    then have "update_byte x ctx = Inr ?c" using n by (simp add: u)
    moreover have "absorbed a (b @ [x]) ?c" using assms(1) False d
      by (simp add: absorbed_def counter_def)
    ultimately show ?thesis by (intro exI [of _ a] exI [of _ "b @ [x]"]) simp
  qed
qed

lemma absorbed_update:
  assumes "length (ctx_data ctx) = 64" and "length m < 2 ^ 32"
  shows "n \<le> length m \<Longrightarrow> \<exists>a b ctx'. foldR (\<lambda>i ctx. bindR (rd m i) (\<lambda>b. update_byte b ctx)) [0 ..< n] (SHA256Init ctx) = Inr ctx'
    \<and> absorbed a b ctx' \<and> a @ b = take n m"
proof (induction n)
  case 0
  then show ?case using absorbed_init [OF assms(1)] by auto
next
  case (Suc n)
  then obtain a b c where c: "foldR (\<lambda>i ctx. bindR (rd m i) (\<lambda>b. update_byte b ctx)) [0 ..< n] (SHA256Init ctx) = Inr c"
    and ab: "absorbed a b c" "a @ b = take n m" by auto
  have "length (a @ b) < 2 ^ 32" using assms(2) ab(2) Suc(2) by simp
  from absorbed_byte [OF ab(1) this, of "m ! n"] obtain a' b' c' where
    "update_byte (m ! n) c = Inr c'" "absorbed a' b' c'" "a' @ b' = a @ b @ [m ! n]" by blast
  moreover have "a @ b @ [m ! n] = take (Suc n) m" using ab(2) Suc(2) by (simp add: take_Suc_conv_app_nth)
  ultimately show ?case using c Suc(2)
    by (intro exI [of _ a'] exI [of _ b'] exI [of _ c']) (simp add: foldR_append)
qed

section \<open>Padding\<close>

lemma zero_loop_fill:
  "i \<le> n \<Longrightarrow> n \<le> length d \<Longrightarrow> zero_loop n d i = Inr (take i d @ replicate (n - i) 0 @ drop n d)"
proof (induction n d i rule: zero_loop.induct)
  case (1 n d i)
  show ?case
  proof (cases "i < n")
    case True
    with 1 have "zero_loop n d i = Inr (take (i + 1) (d[i := 0]) @ replicate (n - (i + 1)) 0 @ drop n (d[i := 0]))"
      by (subst zero_loop.simps) simp
    also have "\<dots> = Inr (take i d @ replicate (n - i) 0 @ drop n d)"
      using True 1(3) by (simp add: take_Suc_conv_app_nth Suc_diff_Suc [symmetric])
    finally show ?thesis .
  next
    case False
    with 1 have "i = n" by simp
    then show ?thesis by (subst zero_loop.simps) simp
  qed
qed

lemma wr_block:
  assumes "take (length b) d = b" and "length b < length d"
  shows "wr d (length b) x = Inr (b @ x # drop (Suc (length b)) d)"
  using assms by (simp add: upd_conv_take_nth_drop)

lemma pad_block_ok:
  assumes "absorbed a b ctx"
  shows "\<exists>a' p ctx'. pad_block ctx = Inr ctx' \<and> 64 dvd length a' \<and> length p = 56 \<and> length (ctx_data ctx') = 64
    \<and> take 56 (ctx_data ctx') = p \<and> ctx_state ctx' = foldl compress sha_H0 (blocks a') \<and> counter ctx' = counter ctx
    \<and> datalen ctx' = datalen ctx \<and> a' @ p = a @ b @ 0x80 # replicate ((119 - length b) mod 64) 0"
proof -
  note A = assms [unfolded absorbed_def]
  have dl: "unat (datalen ctx) = length b" using A by (simp add: unat_of_nat)
  let ?d = "b @ 0x80 # drop (Suc (length b)) (ctx_data ctx)"
  have w: "wr (ctx_data ctx) (unat (datalen ctx)) 0x80 = Inr ?d"
    unfolding dl by (rule wr_block) (use A in simp_all)
  have lt: "datalen ctx < 56 \<longleftrightarrow> length b < 56" by (simp add: word_less_nat_alt dl)
  have ld: "length ?d = 64" using A by simp
  show ?thesis
  proof (cases "length b < 56")
    case True
    let ?e = "b @ 0x80 # replicate (55 - length b) 0 @ drop 56 (ctx_data ctx)"
    have "drop 56 ?d = drop 56 (ctx_data ctx)" using True by (simp add: drop_Cons')
    then have "zero_loop 56 ?d (length b + 1) = Inr ?e" using True A ld by (subst zero_loop_fill) simp_all
    then have "pad_block ctx = Inr (ctx\<lparr>ctx_data := ?e\<rparr>)"
      unfolding pad_block_def w Let_def bindR_Inr lt unfolding dl using True by simp
    moreover have "(119 - length b) mod 64 = 55 - length b" using True by (simp add: le_mod_geq)
    ultimately show ?thesis using A True
      by - (rule exI [of _ a], rule exI [of _ "b @ 0x80 # replicate (55 - length b) 0"], rule exI [of _ "ctx\<lparr>ctx_data := ?e\<rparr>"],
        simp add: counter_def take_Cons')
  next
    case False
    let ?e = "b @ 0x80 # replicate (63 - length b) 0"
    let ?c = "ctx\<lparr>ctx_data := replicate 56 0 @ drop 56 ?e, ctx_state := compress (ctx_state ctx) ?e\<rparr>"
    have le: "length ?e = 64" using A by simp
    have "zero_loop 64 ?d (length b + 1) = Inr ?e" using False A ld by (subst zero_loop_fill) (simp, simp, simp, linarith)
    then have "pad_block ctx = Inr ?c"
      unfolding pad_block_def w Let_def bindR_Inr lt unfolding dl using False by (simp add: SHA256Transform_compress)
    moreover have "(119 - length b) mod 64 = 119 - length b" using False A by simp
    moreover have "119 - length b = 63 - length b + 56" using A by linarith
    then have "replicate (119 - length b) (0 :: u8) = replicate (63 - length b) 0 @ replicate 56 0"
      by (simp only: replicate_add)
    moreover have "blocks (a @ ?e) = blocks a @ [?e]" using A by (simp only: blocks_append blocks_single le)
    ultimately show ?thesis using A False le
      by - (rule exI [of _ "a @ ?e"], rule exI [of _ "replicate 56 0"], rule exI [of _ ?c],
        simp add: counter_def)
  qed
qed

lemma store_length_block:
  assumes "length (ctx_data ctx) = 64"
  shows "store_length ctx = ctx\<lparr>ctx_data := take 56 (ctx_data ctx) @ word_bytes (bitlen1 ctx) @ word_bytes (bitlen0 ctx)\<rparr>"
proof -
  have "length (drop 56 (ctx_data ctx)) = 8" using assms by simp
  then obtain r where r: "drop 56 (ctx_data ctx) = r" "length r = 8" by blast
  from r(2) obtain a b c d e f g h where "r = [a, b, c, d, e, f, g, h]"
    by (auto simp: length_Suc_conv eval_nat_numeral)
  with r have "ctx_data ctx = take 56 (ctx_data ctx) @ [a, b, c, d, e, f, g, h]" by (metis append_take_drop_id)
  moreover have "length (take 56 (ctx_data ctx)) = 56" using assms by simp
  ultimately obtain p where p: "ctx_data ctx = p @ [a, b, c, d, e, f, g, h]" "length p = 56" by blast
  then show ?thesis by (simp add: store_length_def word_bytes_def list_update_append)
qed

lemma bit_length_counter: "word_bytes (bitlen1 ctx) @ word_bytes (bitlen0 ctx) = bit_length n" if "counter ctx = 8 * n"
proof -
  have b: "unat (bitlen0 ctx) < 2 ^ 32" using unsigned_less [of "bitlen0 ctx", where ?'a = nat] by simp
  have "8 * n div 2 ^ 32 = unat (bitlen1 ctx)" using b by (simp add: that [symmetric] counter_def)
  moreover have "(of_nat (8 * n) :: u32) = of_nat (2 ^ 32) * bitlen1 ctx + bitlen0 ctx"
    unfolding that [symmetric] counter_def by simp
  moreover have "(of_nat (2 ^ 32) :: u32) = 0" by simp
  ultimately have "8 * n div 2 ^ 32 = unat (bitlen1 ctx)" and "(of_nat (8 * n) :: u32) = bitlen0 ctx"
    by (simp_all only: mult_zero_left add_0)
  then show ?thesis unfolding bit_length_def by (simp only:) simp
qed

lemma hash_bytes_concat:
  assumes "length s = 8" and "length hash = 32"
  shows "hash_bytes s hash = concat (map word_bytes s)"
proof -
  from assms(1) obtain a b c d e f g h where s: "s = [a, b, c, d, e, f, g, h]"
    by (auto simp: length_Suc_conv eval_nat_numeral)
  have m: "ucast (v AND 0xFF) = (ucast v :: u8)" for v :: u32
  proof -
    have "v AND 0xFF = take_bit 8 v" by (simp add: take_bit_eq_mask mask_eq_exp_minus_1)
    then show ?thesis by (auto intro!: bit_word_eqI simp: bit_simps)
  qed
  show ?thesis
  proof (rule nth_equalityI)
    have l: "length (hash_bytes s hash) = 32" by (simp add: hash_bytes_def assms(2) upt_rec)
    then show "length (hash_bytes s hash) = length (concat (map word_bytes s))"
      by (simp add: s word_bytes_def)
    fix i assume "i < length (hash_bytes s hash)"
    then have "i \<in> set [0 ..< 32]" by (simp add: l)
    moreover have "list_all (\<lambda>i. hash_bytes s hash ! i = concat (map word_bytes s) ! i) [0 ..< 32]"
      by (simp add: hash_bytes_def s assms(2) word_bytes_def upt_rec m eval_nat_numeral)
    ultimately show "hash_bytes s hash ! i = concat (map word_bytes s) ! i" by (simp only: list_all_iff)
  qed
qed

section \<open>The implementation is the hash\<close>

lemma length_foldl_compress: "length s = 8 \<Longrightarrow> length (foldl compress s bs) = 8"
  by (induction bs arbitrary: s) (simp_all add: length_compress)

lemma final_ok:
  assumes "absorbed a b ctx" and "length (a @ b) < 2 ^ 32" and "length hash = 32"
  shows "SHA256Final ctx hash = Inr (sha256 (a @ b))"
proof -
  note A = assms(1) [unfolded absorbed_def]
  from pad_block_ok [OF assms(1)] obtain a' p c where
    c: "pad_block ctx = Inr c" and a': "64 dvd length a'" and p: "length p = 56" "length (ctx_data c) = 64"
      "take 56 (ctx_data c) = p" and st: "ctx_state c = foldl compress sha_H0 (blocks a')"
    and cnt: "counter c = counter ctx" and dl: "datalen c = datalen ctx"
    and msg: "a' @ p = a @ b @ 0x80 # replicate ((119 - length b) mod 64) 0" by blast
  have d8: "unat (datalen c * 8) = 8 * length b" using A by (simp add: dl unat_word_ariths unat_of_nat)
  let ?c = "DBL_INT_ADD (datalen c * 8) c"
  have "counter ?c = 8 * length (a @ b)"
    using A assms(2) by (subst DBL_INT_ADD_counter) (simp_all add: d8 cnt)
  note lb = bit_length_counter [OF this]
  let ?m = "length (a @ b) mod 64"
  have "?m = length b" using A by (auto elim!: dvdE)
  then have "padded (a @ b) = a' @ p @ bit_length (length (a @ b))"
    by (simp add: padded_def msg [unfolded append_assoc] flip: append_assoc)
  moreover have "length (bit_length (length (a @ b))) = 8" by (simp add: bit_length_def word_bytes_def)
  ultimately have "blocks (padded (a @ b)) = blocks a' @ [p @ bit_length (length (a @ b))]"
    using a' p(1) by (simp only: blocks_append blocks_single length_append)
  then have "ctx_state (SHA256Transform (store_length ?c)) = foldl compress sha_H0 (blocks (padded (a @ b)))"
    using p by (simp add: SHA256Transform_compress store_length_block st lb [simplified])
  moreover have "length (foldl compress sha_H0 (blocks (padded (a @ b)))) = 8"
    by (rule length_foldl_compress) (simp add: sha_H0_def)
  ultimately show ?thesis
    by (simp add: SHA256Final_def c Let_def hash_bytes_concat assms(3) sha256_def)
qed

lemma sha256_digest:
  assumes "length s < 2 ^ 32" and "length (ctx_data ctx0) = 64" and "length hash0 = 32"
  shows "SHA256_Encrypt ctx0 hash0 s = Inr (concat (map print_02x (sha256 (map byte_of s))))"
proof -
  have n: "unat (of_nat (length s) :: u32) = length s" by (rule u32_of_nat) (use assms(1) in simp)
  from absorbed_update [of ctx0 "map byte_of s" "length s"] assms obtain a b c where
    "SHA256Update (map byte_of s) (of_nat (length s)) (SHA256Init ctx0) = Inr c" "absorbed a b c" "a @ b = map byte_of s"
    by (auto simp: SHA256Update_def n)
  moreover from this have "SHA256Final c hash0 = Inr (sha256 (a @ b))"
    by (intro final_ok) (use assms in \<open>simp_all\<close>)
  ultimately show ?thesis by (simp add: SHA256_Encrypt_def)
qed

text \<open>C28. \<open>SHA256::Encrypt\<close> returns the hexadecimal digest of FIPS 180-4 for every input that its 32-bit length
  can describe, whatever the uninitialised context and hash buffer hold; no access leaves the buffers.\<close>

theorem sha256_implements:
  assumes "length s < 2 ^ 32" and "length (ctx_data ctx0) = 64" and "length hash0 = 32"
  shows "SHA256_Encrypt ctx0 hash0 s = Inr (concat (map print_02x (sha256 (map byte_of s))))"
  using assms by (rule sha256_digest)

definition some_ctx :: sha_ctx where
  "some_ctx = \<lparr>ctx_data = replicate 64 7, datalen = 3, bitlen0 = 1, bitlen1 = 2, ctx_state = []\<rparr>"

theorem sha256_implements_witness:
  "SHA256_Encrypt some_ctx (replicate 32 9) ''abc'' = Inr (concat (map print_02x (sha256 (map byte_of ''abc''))))"
  by (rule sha256_implements) (simp_all add: some_ctx_def)

lemma length_sha256: "length (sha256 m) = 32"
proof -
  have "length (foldl compress sha_H0 (blocks (padded m))) = 8" by (rule length_foldl_compress) (simp add: sha_H0_def)
  moreover have "length (concat (map word_bytes s)) = 4 * length s" for s by (induction s) (simp_all add: word_bytes_def)
  ultimately show ?thesis by (simp add: sha256_def)
qed

lemma length_digest: "length (concat (map print_02x (sha256 m))) = 64"
proof -
  have "length (concat (map print_02x bs)) = 2 * length bs" for bs by (induction bs) (simp_all add: print_02x_def)
  then show ?thesis by (simp add: length_sha256)
qed

end
