(* ===== verification/Uri.thy ===== *)
theory Uri
  imports CppStrings
begin

text \<open>
  \<open>rdk/ORB/library/src/core/dataTypes/URI.cpp\<close>: the parser of URIs. Iterators into the string are offsets;
  a search or a copy over a range whose end comes before its start is undefined behaviour in C++ and a
  fault here.
\<close>

record uri =
  uri_protocol :: string
  uri_host :: string
  uri_port :: string
  uri_path :: string
  uri_queryString :: string

definition URI_new :: uri where
  "URI_new = \<lparr>uri_protocol = [], uri_host = [], uri_port = [], uri_path = [], uri_queryString = []\<rparr>"

text \<open>\<open>std::find(first, last, c)\<close> and \<open>std::string(first, last)\<close>.\<close>

definition find_range :: "string \<Rightarrow> nat \<Rightarrow> nat \<Rightarrow> char \<Rightarrow> nat res" where
  "find_range s first stop c =
     (if first \<le> stop then Inr (first + length (takeWhile (\<lambda>x. x \<noteq> c) (substr s first (stop - first)))) else Inl OobRead)"

definition str_range :: "string \<Rightarrow> nat \<Rightarrow> nat \<Rightarrow> string res" where
  "str_range s first stop = (if first \<le> stop then Inr (substr s first (stop - first)) else Inl OobRead)"

text \<open>The protocol: the result so far and the new \<open>protocolEnd\<close>, after the separator. The text from the
  colon on is copied as a C string.\<close>

definition parse_protocol :: "string \<Rightarrow> nat \<Rightarrow> (uri \<times> nat) res" where
  "parse_protocol s protocolEnd =
     (if protocolEnd \<noteq> length s then
        (let prot = cstr (drop protocolEnd s) in
         if length prot > 3 \<and> substr prot 0 3 = ''://'' then
           bindR (str_range s 0 protocolEnd) (\<lambda>p. Inr (URI_new\<lparr>uri_protocol := p\<rparr>, protocolEnd + 3))
         else Inr (URI_new, 0))
      else Inr (URI_new, 0))"

definition URI_Parse :: "string \<Rightarrow> uri res" where
  "URI_Parse s =
     (if s = [] then Inr URI_new else
      let uriEnd = length s in
      bindR (find_range s 0 uriEnd (CHR ''?'')) (\<lambda>queryStart.
      bindR (find_range s 0 uriEnd (CHR '':'')) (\<lambda>protocolEnd.
      bindR (parse_protocol s protocolEnd) (\<lambda>(result, hostStart).
      bindR (find_range s hostStart queryStart (CHR ''/'')) (\<lambda>pathStart.
      let portEnd = (if pathStart \<noteq> uriEnd then pathStart else queryStart) in
      bindR (find_range s hostStart portEnd (CHR '':'')) (\<lambda>hostEnd.
      bindR (str_range s hostStart hostEnd) (\<lambda>host.
      let result = result\<lparr>uri_host := host\<rparr> in
      bindR (if hostEnd \<noteq> uriEnd \<and> s ! hostEnd = CHR '':'' then
               bindR (str_range s (hostEnd + 1) portEnd) (\<lambda>port. Inr (result\<lparr>uri_port := port\<rparr>))
             else Inr result) (\<lambda>result.
      bindR (if pathStart \<noteq> queryStart then
               bindR (str_range s pathStart queryStart) (\<lambda>path. Inr (result\<lparr>uri_path := path\<rparr>))
             else Inr result) (\<lambda>result.
      if queryStart \<noteq> uriEnd then
        bindR (str_range s queryStart uriEnd) (\<lambda>q. Inr (result\<lparr>uri_queryString := q\<rparr>))
      else Inr result)))))))))"

section \<open>Ranges\<close>

lemma find_range_at:
  assumes "c \<notin> set b" and "s = a @ b @ r" and "first = length a" and "length a + length b \<le> stop" and "stop \<le> length s"
    and "length a + length b < stop \<Longrightarrow> hd r = c"
  shows "find_range s first stop c = Inr (length a + length b)"
proof (cases "length a + length b < stop")
  case True
  then obtain t where r: "r = c # t" using assms(2,5,6) by (cases r) auto
  have "substr s first (stop - first) = b @ c # take (stop - first - length b - 1) t"
    using assms(2,3) True by (simp add: substr_def take_Cons' r)
  moreover have "takeWhile (\<lambda>x. x \<noteq> c) (b @ c # u) = b" for u
    using assms(1) by (subst takeWhile_append2) auto
  ultimately show ?thesis using assms(3,4) by (simp add: find_range_def)
next
  case False
  have "takeWhile (\<lambda>x. x \<noteq> c) b = b" using assms(1) by (intro takeWhile_eq_all_conv [THEN iffD2]) auto
  then have "length (takeWhile (\<lambda>x. x \<noteq> c) b) = length b" by (rule arg_cong)
  then show ?thesis using False assms(2-4) by (simp add: find_range_def substr_def)
qed

lemma str_range_mid: "s = a @ b @ r \<Longrightarrow> first = length a \<Longrightarrow> stop = length a + length b \<Longrightarrow> str_range s first stop = Inr b"
  by (simp add: str_range_def substr_def)

lemma find_range_bounds:
  assumes "find_range s first stop c = Inr i" and "stop \<le> length s"
  shows "first \<le> i \<and> i \<le> stop \<and> (i < stop \<longrightarrow> s ! i = c)"
proof -
  let ?w = "substr s first (stop - first)" and ?t = "takeWhile (\<lambda>x. x \<noteq> c) (substr s first (stop - first))"
  have f: "first \<le> stop" and i: "i = first + length ?t" using assms(1) by (simp_all add: find_range_def split: if_splits)
  have l: "length ?w = stop - first" using assms(2) f by (simp add: substr_def)
  have "length ?t \<le> length ?w" by (rule length_takeWhile_le)
  moreover have "s ! i = c" if "i < stop"
  proof -
    have "length ?t < length ?w" using that f i l by simp
    then have "?w ! length ?t = c" using nth_length_takeWhile by fastforce
    then show ?thesis using that f i assms(2) by (simp add: substr_def)
  qed
  ultimately show ?thesis using f i l by auto
qed

lemma find_range_total: "first \<le> stop \<Longrightarrow> \<exists>i. find_range s first stop c = Inr i"
  by (simp add: find_range_def)

section \<open>Round trip\<close>

definition uri_text :: "uri \<Rightarrow> string" where
  "uri_text u = uri_protocol u @ ''://'' @ uri_host u @ (if uri_port u = [] then [] else CHR '':'' # uri_port u)
     @ uri_path u @ uri_queryString u"

definition wf_uri :: "uri \<Rightarrow> bool" where
  "wf_uri u = (CHR '':'' \<notin> set (uri_protocol u) \<and> CHR ''?'' \<notin> set (uri_protocol u)
     \<and> uri_host u \<noteq> [] \<and> CHR '':'' \<notin> set (uri_host u) \<and> CHR ''/'' \<notin> set (uri_host u) \<and> CHR ''?'' \<notin> set (uri_host u)
     \<and> chr_of 0 \<notin> set (uri_host u)
     \<and> CHR ''/'' \<notin> set (uri_port u) \<and> CHR ''?'' \<notin> set (uri_port u)
     \<and> (uri_path u = [] \<or> hd (uri_path u) = CHR ''/'') \<and> CHR ''?'' \<notin> set (uri_path u)
     \<and> (uri_queryString u = [] \<or> hd (uri_queryString u) = CHR ''?''))"

lemma URI_Parse_text:
  assumes "wf_uri u"
  shows "URI_Parse (uri_text u) = Inr u"
proof -
  let ?p = "uri_protocol u" and ?h = "uri_host u" and ?o = "if uri_port u = [] then [] else CHR '':'' # uri_port u"
    and ?a = "uri_path u" and ?q = "uri_queryString u"
  let ?s = "uri_text u"
  note W = assms [unfolded wf_uri_def]
  have s: "?s = ?p @ ''://'' @ ?h @ ?o @ ?a @ ?q" by (simp add: uri_text_def)
  have ne: "?s \<noteq> []" by (simp add: s)
  let ?qs = "length (?p @ ''://'' @ ?h @ ?o @ ?a)" and ?hs = "length (?p @ ''://'')"
    and ?ps = "length (?p @ ''://'' @ ?h @ ?o)" and ?he = "length (?p @ ''://'' @ ?h)"
  have 1: "find_range ?s 0 (length ?s) (CHR ''?'') = Inr ?qs"
    using find_range_at [of "CHR ''?''" "?p @ ''://'' @ ?h @ ?o @ ?a" ?s "[]" ?q 0 "length ?s"] W
    by (auto simp: s)
  have 2: "find_range ?s 0 (length ?s) (CHR '':'') = Inr (length ?p)"
    using find_range_at [of "CHR '':''" ?p ?s "[]" "''://'' @ ?h @ ?o @ ?a @ ?q" 0 "length ?s"] W
    by (auto simp: s)
  obtain c r where hc: "?h = c # r" "c \<noteq> chr_of 0" using W by (cases ?h) auto
  have "(of_char c :: nat) \<noteq> 0"
  proof
    assume "(of_char c :: nat) = 0"
    then have "char_of (of_char c :: nat) = char_of (0 :: nat)" by (rule arg_cong)
    then show False using hc(2) by (simp add: chr_of_def)
  qed
  then have cs: "cstr (drop (length ?p) ?s) = ''://'' @ c # cstr (r @ ?o @ ?a @ ?q)"
    by (simp add: s cstr_def hc(1))
  have 3: "parse_protocol ?s (length ?p) = Inr (URI_new\<lparr>uri_protocol := ?p\<rparr>, ?hs)"
    unfolding parse_protocol_def cs using str_range_mid [of ?s "[]" ?p "''://'' @ ?h @ ?o @ ?a @ ?q" 0 "length ?p"]
    by (simp add: s substr_def)
  have 4: "find_range ?s ?hs ?qs (CHR ''/'') = Inr ?ps"
    using find_range_at [of "CHR ''/''" "?h @ ?o" ?s "?p @ ''://''" "?a @ ?q" ?hs ?qs] W
    by (auto simp: s)
  have 5: "find_range ?s ?hs ?ps (CHR '':'') = Inr ?he"
    using find_range_at [of "CHR '':''" ?h ?s "?p @ ''://''" "?o @ ?a @ ?q" ?hs ?ps] W
    by (auto simp: s split: if_splits)
  have 6: "str_range ?s ?hs ?he = Inr ?h" by (rule str_range_mid [of _ "?p @ ''://''" _ "?o @ ?a @ ?q"]) (simp_all add: s)
  let ?r = "URI_new\<lparr>uri_protocol := ?p\<rparr>\<lparr>uri_host := ?h\<rparr>"
  have "uri_port u \<noteq> [] \<Longrightarrow> str_range ?s (?he + 1) ?ps = Inr (uri_port u)"
    by (rule str_range_mid [of _ "?p @ ''://'' @ ?h @ '':''" _ "?a @ ?q"]) (simp_all add: s)
  then have 7: "(if uri_port u \<noteq> [] then bindR (str_range ?s (?he + 1) ?ps) (\<lambda>port. Inr (?r\<lparr>uri_port := port\<rparr>)) else Inr ?r)
      = Inr (?r\<lparr>uri_port := uri_port u\<rparr>)" by (simp add: URI_new_def)
  have 8: "str_range ?s ?ps ?qs = Inr ?a" by (rule str_range_mid [of _ "?p @ ''://'' @ ?h @ ?o" _ "?q"]) (simp_all add: s)
  have 9: "str_range ?s ?qs (length ?s) = Inr ?q" by (rule str_range_mid [of _ "?p @ ''://'' @ ?h @ ?o @ ?a" _ "[]"]) (simp_all add: s)
  have pe: "(if ?ps \<noteq> length ?s then ?ps else ?qs) = ?ps" by (auto simp: s)
  have 10: "?he \<noteq> length ?s \<and> ?s ! ?he = CHR '':'' \<longleftrightarrow> uri_port u \<noteq> []"
    using W by (cases ?a; cases ?q) (auto simp: s nth_append)
  have 11: "?ps \<noteq> ?qs \<longleftrightarrow> ?a \<noteq> []" "?qs \<noteq> length ?s \<longleftrightarrow> ?q \<noteq> []" by (simp_all add: s)
  show ?thesis
    unfolding URI_Parse_def Let_def 1 2 3 4 bindR_Inr prod.case pe 5 6 10 7 if_not_P [OF ne] 8 9 11
    by (cases "?a = []"; cases "?q = []") (simp_all add: URI_new_def)
qed

text \<open>C29. \<open>URI::Parse\<close> reads back the components of every URI with a protocol and a host that is printed from
  them, with an optional port, path and query.\<close>

theorem uri_roundtrip:
  assumes "wf_uri u"
  shows "URI_Parse (uri_text u) = Inr u"
  using assms by (rule URI_Parse_text)

definition example_uri :: uri where
  "example_uri = \<lparr>uri_protocol = ''https'', uri_host = ''itv.example'', uri_port = ''8443'', uri_path = ''/a/b'', uri_queryString = ''?x=1''\<rparr>"

theorem uri_roundtrip_witness:
  "URI_Parse ''https://itv.example:8443/a/b?x=1'' = Inr example_uri"
proof -
  have "wf_uri example_uri" by code_simp
  moreover have "uri_text example_uri = ''https://itv.example:8443/a/b?x=1''" by code_simp
  ultimately show ?thesis using uri_roundtrip [of example_uri] by simp
qed
section \<open>Invalid ranges\<close>

text \<open>The protocol is recognised at the first colon.\<close>

definition has_protocol :: "string \<Rightarrow> bool" where
  "has_protocol s = (let prot = cstr (dropWhile (\<lambda>c. c \<noteq> CHR '':'') s) in 3 < length prot \<and> take 3 prot = ''://'')"

lemma find_first: "find_range s 0 (length s) c = Inr (length (takeWhile (\<lambda>x. x \<noteq> c) s))"
  by (simp add: find_range_def substr_def)

lemma take3_cstr: "take 3 (cstr t) = ''://'' \<Longrightarrow> \<exists>r. t = ''://'' @ r"
proof -
  assume a: "take 3 (cstr t) = ''://''"
  have "t = cstr t @ dropWhile (\<lambda>c. of_char c \<noteq> (0::nat)) t" by (simp add: cstr_def)
  also have "cstr t = take 3 (cstr t) @ drop 3 (cstr t)" by (rule append_take_drop_id [symmetric])
  finally show ?thesis unfolding a by auto
qed

lemma has_protocol_find:
  fixes s
  defines "p \<equiv> length (takeWhile (\<lambda>c. c \<noteq> CHR '':'') s)"
  shows "parse_protocol s p = Inr (if has_protocol s then (URI_new\<lparr>uri_protocol := take p s\<rparr>, p + 3) else (URI_new, 0))"
    and "has_protocol s \<Longrightarrow> \<exists>r. s = take p s @ ''://'' @ r"
proof -
  have d: "drop p s = dropWhile (\<lambda>c. c \<noteq> CHR '':'') s" unfolding p_def by (rule dropWhile_eq_drop [symmetric])
  have "p = length s \<Longrightarrow> \<not> has_protocol s" using d by (simp add: has_protocol_def cstr_def)
  moreover have "p \<le> length s" unfolding p_def by (rule length_takeWhile_le)
  ultimately show "parse_protocol s p = Inr (if has_protocol s then (URI_new\<lparr>uri_protocol := take p s\<rparr>, p + 3) else (URI_new, 0))"
    unfolding parse_protocol_def d by (auto simp: has_protocol_def Let_def substr_def str_range_def)
  assume "has_protocol s"
  then obtain r where "drop p s = ''://'' @ r" unfolding has_protocol_def d [symmetric] Let_def using take3_cstr by blast
  then show "\<exists>r. s = take p s @ ''://'' @ r" by (metis append_take_drop_id)
qed

lemma uri_rest_returns:
  assumes "h \<le> q" and "q \<le> length s" and "q < length s \<Longrightarrow> s ! q = CHR ''?''"
  shows "\<exists>v. bindR (find_range s h q (CHR ''/'')) (\<lambda>pathStart.
      let portEnd = (if pathStart \<noteq> length s then pathStart else q) in
      bindR (find_range s h portEnd (CHR '':'')) (\<lambda>hostEnd.
      bindR (str_range s h hostEnd) (\<lambda>host.
      let result = result\<lparr>uri_host := host\<rparr> in
      bindR (if hostEnd \<noteq> length s \<and> s ! hostEnd = CHR '':'' then
               bindR (str_range s (hostEnd + 1) portEnd) (\<lambda>port. Inr (result\<lparr>uri_port := port\<rparr>))
             else Inr result) (\<lambda>result.
      bindR (if pathStart \<noteq> q then
               bindR (str_range s pathStart q) (\<lambda>path. Inr (result\<lparr>uri_path := path\<rparr>))
             else Inr result) (\<lambda>result.
      if q \<noteq> length s then
        bindR (str_range s q (length s)) (\<lambda>q. Inr (result\<lparr>uri_queryString := q\<rparr>))
      else Inr result))))) = Inr v"
proof -
  from find_range_total [OF assms(1)] obtain ps where ps: "find_range s h q (CHR ''/'') = Inr ps" by blast
  from find_range_bounds [OF ps assms(2)] have b: "h \<le> ps" "ps \<le> q" "ps < q \<Longrightarrow> s ! ps = CHR ''/''" by simp_all
  have pe: "(if ps \<noteq> length s then ps else q) = ps" using b(2) assms(2) by auto
  from find_range_total [OF b(1)] obtain he where he: "find_range s h ps (CHR '':'') = Inr he" by blast
  have "ps \<le> length s" using b(2) assms(2) by simp
  from find_range_bounds [OF he this] have c: "h \<le> he" "he \<le> ps" by simp_all
  have "he < ps" if "he \<noteq> length s" "s ! he = CHR '':''"
  proof (rule ccontr)
    assume "\<not> he < ps"
    with c(2) have "he = ps" by simp
    with that b(2,3) assms(2,3) show False by (cases "ps = q") auto
  qed
  with b c assms(2) show ?thesis
    by (auto simp: ps he pe Let_def str_range_def)
qed

text \<open>\<open>URI::Parse\<close> forms an invalid iterator range exactly when the string has a question mark before the
  first colon and that colon starts the separator \<open>://\<close> of what is taken for the protocol.\<close>

theorem uri_invalid_range:
  "(\<exists>e. URI_Parse s = Inl e) \<longleftrightarrow> has_protocol s \<and> CHR ''?'' \<in> set (takeWhile (\<lambda>c. c \<noteq> CHR '':'') s)"
proof (cases "s = []")
  case True
  then show ?thesis by (simp add: URI_Parse_def)
next
  case False
  let ?q = "length (takeWhile (\<lambda>c. c \<noteq> CHR ''?'') s)" and ?p = "length (takeWhile (\<lambda>c. c \<noteq> CHR '':'') s)"
  let ?h = "if has_protocol s then ?p + 3 else 0" and ?r = "if has_protocol s then URI_new\<lparr>uri_protocol := take ?p s\<rparr> else URI_new"
  have q: "?q \<le> length s" "?q < length s \<Longrightarrow> s ! ?q = CHR ''?''"
    by (rule length_takeWhile_le) (use nth_length_takeWhile in fastforce)
  have pair: "(if has_protocol s then (URI_new\<lparr>uri_protocol := take ?p s\<rparr>, ?p + 3) else (URI_new, 0)) = (?r, ?h)" by simp
  note parse = URI_Parse_def [of s, unfolded if_not_P [OF False] Let_def find_first bindR_Inr has_protocol_find(1) pair prod.case]
  have le: "?h \<le> ?q \<longleftrightarrow> \<not> (has_protocol s \<and> CHR ''?'' \<in> set (takeWhile (\<lambda>c. c \<noteq> CHR '':'') s))"
  proof (cases "has_protocol s")
    case True
    then obtain u r where u: "u = take ?p s" and r: "s = u @ ''://'' @ r" using has_protocol_find(2) by blast
    have t: "takeWhile (\<lambda>c. c \<noteq> CHR '':'') s = u" unfolding u by (rule takeWhile_eq_take)
    have f: "takeWhile (\<lambda>c. c \<noteq> CHR ''?'') s = takeWhile (\<lambda>c. c \<noteq> CHR ''?'') (u @ ''://'' @ r)"
      using r by (rule arg_cong)
    show ?thesis
    proof (cases "CHR ''?'' \<in> set u")
      case True
      then have "takeWhile (\<lambda>c. c \<noteq> CHR ''?'') s = takeWhile (\<lambda>c. c \<noteq> CHR ''?'') u"
        unfolding f by (rule takeWhile_append1) simp
      then have "?q \<le> length u" by (simp add: length_takeWhile_le)
      with True \<open>has_protocol s\<close> show ?thesis by (simp add: t)
    next
      case False
      then have "takeWhile (\<lambda>c. c \<noteq> CHR ''?'') s = u @ ''://'' @ takeWhile (\<lambda>c. c \<noteq> CHR ''?'') r"
        unfolding f by (subst takeWhile_append2) auto
      then have "length u + 3 \<le> ?q" by simp
      with False show ?thesis by (simp add: t)
    qed
  qed simp
  show ?thesis
  proof (cases "?h \<le> ?q")
    case True
    from uri_rest_returns [OF True q, of ?r] have "\<exists>v. URI_Parse s = Inr v" unfolding parse Let_def .
    with True le show ?thesis by auto
  next
    case False
    then have "find_range s ?h ?q (CHR ''/'') = Inl OobRead" by (simp add: find_range_def)
    then have "URI_Parse s = Inl OobRead" unfolding parse by simp
    with False le show ?thesis by auto
  qed
qed

end
