(* ===== verification/Json.thy ===== *)
theory Json
  imports OrderedMap "HOL-Library.Char_ord" "HOL-Library.List_Lexorder"
begin

text \<open>
  JSON values of \<open>nlohmann::json\<close>, with the operations of that library the code uses. Objects are
  kept in key order (the library stores them in a \<open>std::map\<close>). An operation of the library can throw;
  a computation that can throw or fault has a result of type \<open>'a jres\<close>: \<^const>\<open>None\<close> is the exception.
\<close>

datatype json =
    JNull
  | JBool bool
  | JInt int
  | JFloat "64 word"
  | JString string
  | JArray "json list"
  | JObject "(string \<times> json) list"

type_synonym 'a jres = "'a option res"

definition bindJ :: "'a jres \<Rightarrow> ('a \<Rightarrow> 'b jres) \<Rightarrow> 'b jres" where
  "bindJ m f = bindR m (\<lambda>x. case x of None \<Rightarrow> Inr None | Some y \<Rightarrow> f y)"

definition retJ :: "'a \<Rightarrow> 'a jres" where
  "retJ x = Inr (Some x)"

definition throwJ :: "'a jres" where
  "throwJ = Inr None"

text \<open>A computation that does not throw.\<close>

definition liftJ :: "'a res \<Rightarrow> 'a jres" where
  "liftJ m = bindR m (\<lambda>x. Inr (Some x))"

lemma bindJ_simps [simp]: "bindJ (Inl e) f = Inl e" "bindJ (Inr None) f = Inr None" "bindJ (Inr (Some x)) f = f x"
  "bindJ (retJ x) f = f x" "bindJ throwJ f = throwJ"
  by (simp_all add: bindJ_def retJ_def throwJ_def)

lemma liftJ_simps [simp]: "liftJ (Inl e) = Inl e" "liftJ (Inr x) = retJ x"
  by (simp_all add: liftJ_def retJ_def)

lemma bindJ_eq_Some: "bindJ m f = Inr (Some y) \<longleftrightarrow> (\<exists>x. m = Inr (Some x) \<and> f x = Inr (Some y))"
  by (cases m) (auto simp: bindJ_def split: option.splits)

lemma liftJ_eq_Some: "liftJ m = Inr (Some y) \<longleftrightarrow> m = Inr y"
  by (cases m) (auto simp: retJ_def)

lemma retJ_eq [simp]: "retJ x = Inr (Some y) \<longleftrightarrow> x = y"
  by (simp add: retJ_def)

text \<open>\<open>is_null\<close> and \<open>empty\<close>: a string or a number is never empty.\<close>

definition is_null :: "json \<Rightarrow> bool" where
  "is_null j = (j = JNull)"

definition j_empty :: "json \<Rightarrow> bool" where
  "j_empty j = (case j of JNull \<Rightarrow> True | JArray xs \<Rightarrow> xs = [] | JObject ms \<Rightarrow> ms = [] | _ \<Rightarrow> False)"

text \<open>\<open>operator[]\<close> with a key on a non-constant value: the value and the updated container. Null becomes an
  object, a missing key is inserted with null, and a value of another type throws.\<close>

definition j_at :: "string \<Rightarrow> json \<Rightarrow> (json \<times> json) jres" where
  "j_at k j = (case j of
     JNull \<Rightarrow> retJ (JNull, JObject [(k, JNull)])
   | JObject ms \<Rightarrow> (case om_get ms k of None \<Rightarrow> retJ (JNull, JObject (om_ins k JNull ms)) | Some v \<Rightarrow> retJ (v, j))
   | _ \<Rightarrow> throwJ)"

definition j_put :: "string \<Rightarrow> json \<Rightarrow> json \<Rightarrow> json jres" where
  "j_put k v j = (case j of
     JNull \<Rightarrow> retJ (JObject [(k, v)])
   | JObject ms \<Rightarrow> retJ (JObject (om_ins k v ms))
   | _ \<Rightarrow> throwJ)"

text \<open>The implicit conversion to \<open>std::string\<close>.\<close>

definition to_str :: "json \<Rightarrow> string jres" where
  "to_str j = (case j of JString s \<Rightarrow> retJ s | _ \<Rightarrow> throwJ)"

end
