(* ===== verification/TokenManager.thy ===== *)
theory TokenManager
  imports Json Base64 Sha256 Uri
begin

text \<open>
  \<open>rdk/ORB/library/src/core/utilities/TokenManager.cpp\<close>: the tokens that authenticate the requests of a
  page. A token carries a payload and a signature computed from it and a secret key.
\<close>

text \<open>What the code takes from outside: the text of a JSON value (\<open>dump\<close>, which throws on strings that are
  not UTF-8), random UUIDs, and the uninitialised locals of the hash.\<close>

record token_env =
  dump :: "json \<Rightarrow> string option"
  new_uuid :: string
  env_ctx :: sha_ctx
  env_hash :: "u8 list"

definition GetHash :: "token_env \<Rightarrow> string \<Rightarrow> string \<Rightarrow> string res" where
  "GetHash env key message = bindR (SHA256_Encrypt (env_ctx env) (env_hash env) (message @ key)) Base64_Encode"

definition CreateTokenFromPayload :: "token_env \<Rightarrow> string \<Rightarrow> json \<Rightarrow> json jres" where
  "CreateTokenFromPayload env key payload =
     bindJ (Inr (dump env payload)) (\<lambda>text.
     bindJ (liftJ (GetHash env key text)) (\<lambda>signature.
     if signature = [] then retJ JNull
     else bindJ (j_put ''payload'' payload JNull) (\<lambda>token. j_put ''signature'' (JString signature) token)))"

text \<open>The tests of the first condition, left to right; each access may insert a member.\<close>

definition missing :: "string \<Rightarrow> json \<Rightarrow> (bool \<times> json) jres" where
  "missing k token = bindJ (j_at k token) (\<lambda>(v, token).
     if is_null v then retJ (True, token) else bindJ (j_at k token) (\<lambda>(v, token). retJ (j_empty v, token)))"

definition GetPayloadFromToken :: "token_env \<Rightarrow> string \<Rightarrow> json \<Rightarrow> json jres" where
  "GetPayloadFromToken env key token =
     bindJ (missing ''payload'' token) (\<lambda>(m, token). if m then retJ (JObject []) else
     bindJ (missing ''signature'' token) (\<lambda>(m, token). if m then retJ (JObject []) else
     bindJ (j_at ''payload'' token) (\<lambda>(payload, token).
     bindJ (j_at ''signature'' token) (\<lambda>(sig, token).
     bindJ (to_str sig) (\<lambda>claimedSignature.
     bindJ (Inr (dump env payload)) (\<lambda>text.
     bindJ (liftJ (GetHash env key text)) (\<lambda>signature.
     if signature \<noteq> [] \<and> signature = claimedSignature then retJ payload else retJ (JObject []))))))))"

definition GetOrigin :: "token_env \<Rightarrow> string \<Rightarrow> string res" where
  "GetOrigin env uri = bindR (URI_Parse uri) (\<lambda>theUri.
     let protocol = uri_protocol theUri; port = uri_port theUri in
     if protocol \<noteq> ''http'' \<and> protocol \<noteq> ''https'' \<and> protocol \<noteq> ''dvb'' then Inr (''uuid-'' @ new_uuid env)
     else Inr (protocol @ ''://'' @ uri_host theUri @ (if port = ''-1'' \<or> port = [] then [] else CHR '':'' # port)))"

definition CreateToken :: "token_env \<Rightarrow> string \<Rightarrow> int \<Rightarrow> string \<Rightarrow> json jres" where
  "CreateToken env key appId uri =
     bindJ (j_put ''appId'' (JInt appId) JNull) (\<lambda>payload.
     bindJ (j_put ''uri'' (JString uri) payload) (\<lambda>payload.
     bindJ (liftJ (GetOrigin env uri)) (\<lambda>origin.
     bindJ (j_put ''origin'' (JString origin) payload) (\<lambda>payload.
     CreateTokenFromPayload env key payload))))"

definition GetTokenPayload :: "token_env \<Rightarrow> string \<Rightarrow> json \<Rightarrow> json jres" where
  "GetTokenPayload env key token =
     (if \<not> is_null token \<and> \<not> j_empty token then GetPayloadFromToken env key token else retJ (JObject []))"

section \<open>Signatures\<close>

definition env_ok :: "token_env \<Rightarrow> bool" where
  "env_ok env = (length (ctx_data (env_ctx env)) = 64 \<and> length (env_hash env) = 32)"

text \<open>The signature of a text under a key: the base64 encoding of the hexadecimal SHA-256 digest.\<close>

definition signature_of :: "string \<Rightarrow> string \<Rightarrow> string" where
  "signature_of key text = b64 (map byte_of (concat (map print_02x (sha256 (map byte_of (text @ key))))))"

lemma GetHash_signature:
  assumes "env_ok env" and "length text + length key < 2 ^ 32"
  shows "GetHash env key text = Inr (signature_of key text)"
  using assms sha256_digest [of "text @ key" "env_ctx env" "env_hash env"]
  by (simp add: GetHash_def env_ok_def signature_of_def Base64_Encode_b64 length_digest)

lemma signature_nonempty: "signature_of key text \<noteq> []"
proof -
  have "length (signature_of key text) \<noteq> 0" by (simp add: signature_of_def length_b64 length_digest)
  then show ?thesis by auto
qed

section \<open>Tokens\<close>

definition token_payload :: "int \<Rightarrow> string \<Rightarrow> string \<Rightarrow> json" where
  "token_payload appId origin uri = JObject [(''appId'', JInt appId), (''origin'', JString origin), (''uri'', JString uri)]"

lemma j_at_present: "om_get ms k = Some v \<Longrightarrow> j_at k (JObject ms) = retJ (v, JObject ms)"
  by (simp add: j_at_def)

lemma CreateToken_payload:
  assumes "GetOrigin env uri = Inr origin"
  shows "CreateToken env key appId uri = CreateTokenFromPayload env key (token_payload appId origin uri)"
  using assms by (simp add: CreateToken_def j_put_def token_payload_def)

lemma token_made:
  assumes "env_ok env" and "dump env p = Some text" and "length text + length key < 2 ^ 32"
  shows "CreateTokenFromPayload env key p
    = retJ (JObject [(''payload'', p), (''signature'', JString (signature_of key text))])"
  using assms by (simp add: CreateTokenFromPayload_def GetHash_signature signature_nonempty j_put_def)

lemma token_checked:
  assumes "env_ok env" and "dump env p = Some text" and "length text + length key < 2 ^ 32"
    and "om_get ms ''payload'' = Some p" and "om_get ms ''signature'' = Some (JString sig)" and "\<not> j_empty p"
  shows "GetPayloadFromToken env key (JObject ms) = retJ (if sig = signature_of key text then p else JObject [])"
proof -
  have "\<not> is_null p" using assms(6) by (auto simp: is_null_def j_empty_def)
  then show ?thesis using assms
    by (simp add: GetPayloadFromToken_def missing_def j_at_present is_null_def j_empty_def to_str_def GetHash_signature
        signature_nonempty)
qed

lemma token_given_back:
  assumes "env_ok env" and "GetOrigin env uri = Inr origin"
    and "dump env (token_payload appId origin uri) = Some text" and "length text + length key < 2 ^ 32"
  shows "\<exists>token. CreateToken env key appId uri = Inr (Some token)
    \<and> GetTokenPayload env key token = Inr (Some (token_payload appId origin uri))"
proof -
  let ?p = "token_payload appId origin uri"
  let ?t = "JObject [(''payload'', ?p), (''signature'', JString (signature_of key text))]"
  have "CreateToken env key appId uri = retJ ?t"
    using assms by (simp add: CreateToken_payload token_made)
  moreover have "\<not> j_empty ?p" by (simp add: token_payload_def j_empty_def)
  then have "GetPayloadFromToken env key ?t = retJ ?p"
    using token_checked [OF assms(1,3,4), of "[(''payload'', ?p), (''signature'', JString (signature_of key text))]"]
    by (simp add: om_get_def)
  then have "GetTokenPayload env key ?t = retJ ?p"
    by (simp add: GetTokenPayload_def is_null_def j_empty_def)
  ultimately show ?thesis by (simp add: retJ_def)
qed

text \<open>The origin of a page: protocol, host and port for the web and for broadcast, an identifier of its own for any
  other protocol.\<close>

definition page_origin :: "token_env \<Rightarrow> uri \<Rightarrow> string" where
  "page_origin env u =
     (if uri_protocol u \<in> {''http'', ''https'', ''dvb''}
      then uri_protocol u @ ''://'' @ uri_host u @ (if uri_port u \<in> {''-1'', []} then [] else CHR '':'' # uri_port u)
      else ''uuid-'' @ new_uuid env)"

lemma GetOrigin_text: "wf_uri u \<Longrightarrow> GetOrigin env (uri_text u) = Inr (page_origin env u)"
  by (auto simp: GetOrigin_def URI_Parse_text page_origin_def Let_def)


text \<open>An environment whose \<open>dump\<close> prints the strings of an object.\<close>

definition demo_dump :: "json \<Rightarrow> string option" where
  "demo_dump j = (case j of JObject ms \<Rightarrow>
     Some (concat (map (\<lambda>(k, v). k @ (case v of JString s \<Rightarrow> s | _ \<Rightarrow> [])) ms)) | _ \<Rightarrow> None)"

definition demo_env :: token_env where
  "demo_env = \<lparr>dump = demo_dump, new_uuid = ''1b4e28ba'', env_ctx = some_ctx, env_hash = replicate 32 9\<rparr>"

lemma env_ok_demo: "env_ok demo_env"
  by (simp add: env_ok_def demo_env_def some_ctx_def)

lemma demo_origin: "GetOrigin demo_env ''https://itv.example/a'' = Inr ''https://itv.example''"
  by code_simp

lemma demo_payload: "dump demo_env (token_payload 7 ''https://itv.example'' ''https://itv.example/a'')
    = Some ''appIdoriginhttps://itv.exampleurihttps://itv.example/a''"
  by code_simp


lemma missing_object: "missing k (JObject ms) = retJ (case om_get ms k of
    None \<Rightarrow> (True, JObject (om_ins k JNull ms)) | Some v \<Rightarrow> (j_empty v, JObject ms))"
  by (auto simp: missing_def j_at_def is_null_def j_empty_def split: option.split)

lemma GetPayload_present:
  assumes "om_get ms ''payload'' = Some v" and "\<not> j_empty v" and "om_get ms ''signature'' = Some w" and "\<not> j_empty w"
  shows "GetPayloadFromToken env key (JObject ms) = bindJ (to_str w) (\<lambda>c. bindJ (Inr (dump env v)) (\<lambda>t.
    bindJ (liftJ (GetHash env key t)) (\<lambda>h. if h \<noteq> [] \<and> h = c then retJ v else retJ (JObject []))))"
  by (simp add: GetPayloadFromToken_def missing_object j_at_present [OF assms(1)] j_at_present [OF assms(3)] assms)

lemma token_accepted:
  assumes "GetPayloadFromToken env key (JObject ms) = retJ p" and "p \<noteq> JObject []"
  shows "\<exists>h t. om_get ms ''payload'' = Some p \<and> om_get ms ''signature'' = Some (JString h)
    \<and> dump env p = Some t \<and> GetHash env key t = Inr h"
proof -
  note g = assms(1) [unfolded GetPayloadFromToken_def missing_object]
  from g assms(2) obtain v where v: "om_get ms ''payload'' = Some v" "\<not> j_empty v"
    by (cases "om_get ms ''payload''") (auto simp: retJ_def split: if_splits)
  from g assms(2) v obtain w where w: "om_get ms ''signature'' = Some w" "\<not> j_empty w"
    by (cases "om_get ms ''signature''") (auto simp: retJ_def missing_object split: if_splits)
  from assms(1) [unfolded GetPayload_present [OF v w]] obtain c t h where
    "to_str w = Inr (Some c)" "dump env v = Some t" "GetHash env key t = Inr h"
    "(if h \<noteq> [] \<and> h = c then retJ v else retJ (JObject [])) = Inr (Some p)"
    by (auto simp: bindJ_eq_Some liftJ_eq_Some retJ_def [of p])
  with assms(2) v w show ?thesis
    by (auto simp: to_str_def throwJ_def split: json.splits if_splits)
qed

lemma token_signed:
  assumes "GetTokenPayload env key token = Inr (Some p)" and "p \<noteq> JObject []"
  shows "\<exists>ms h t. token = JObject ms \<and> om_get ms ''payload'' = Some p \<and> om_get ms ''signature'' = Some (JString h)
    \<and> dump env p = Some t \<and> GetHash env key t = Inr h"
proof -
  from assms have g: "GetPayloadFromToken env key token = retJ p" and t: "\<not> is_null token"
    by (auto simp: GetTokenPayload_def retJ_def split: if_splits)
  from g t obtain ms where ms: "token = JObject ms"
    by (cases token) (auto simp: GetPayloadFromToken_def missing_def j_at_def is_null_def throwJ_def retJ_def)
  with token_accepted [OF g [unfolded ms] assms(2)] show ?thesis by blast
qed

text \<open>C32. Only signed payloads are accepted. Whenever the manager returns a payload other than the empty object,
  the token is an object that holds this payload together with its signature under the secret key.\<close>

theorem token_authentic:
  assumes "env_ok env" and "GetTokenPayload env key token = Inr (Some p)" and "p \<noteq> JObject []"
    and "\<And>text. dump env p = Some text \<Longrightarrow> length text + length key < 2 ^ 32"
  shows "\<exists>ms text. token = JObject ms \<and> om_get ms ''payload'' = Some p \<and> dump env p = Some text
    \<and> om_get ms ''signature'' = Some (JString (signature_of key text))"
proof -
  from token_signed [OF assms(2,3)] obtain ms h t where
    a: "token = JObject ms" "om_get ms ''payload'' = Some p" "om_get ms ''signature'' = Some (JString h)" "dump env p = Some t"
      "GetHash env key t = Inr h" by blast
  from GetHash_signature [OF assms(1) assms(4) [OF a(4)]] a(5) have "h = signature_of key t" by simp
  with a show ?thesis by blast
qed

theorem token_authentic_witness:
  "\<exists>token ms t. GetTokenPayload demo_env ''secret'' token = Inr (Some (token_payload 7 ''https://itv.example'' ''https://itv.example/a''))
    \<and> token = JObject ms \<and> om_get ms ''signature'' = Some (JString (signature_of ''secret'' t))"
proof -
  let ?p = "token_payload 7 ''https://itv.example'' ''https://itv.example/a''"
  from token_given_back [OF env_ok_demo demo_origin demo_payload, of "''secret''"] obtain token where
    g: "GetTokenPayload demo_env ''secret'' token = Inr (Some ?p)" by auto
  have "?p \<noteq> JObject []" by (simp add: token_payload_def)
  from token_authentic [OF env_ok_demo g this] demo_payload g show ?thesis by auto
qed

text \<open>A token of another type, which a page can pass as well, makes the manager throw.\<close>

lemma token_not_object: "GetTokenPayload env key (JString s) = throwJ" "GetTokenPayload env key (JInt n) = throwJ"
  by (simp_all add: GetTokenPayload_def GetPayloadFromToken_def missing_def j_at_def is_null_def j_empty_def)

end
