(* ===== verification/App2App.thy ===== *)
theory App2App
  imports CppStrings OrderedMap "HOL-Library.List_Lexorder"
begin

text \<open>
  The app-to-app service: \<open>network_services/websocket_service.cpp\<close> (connections, the callback of
  libwebsockets, the service loop) and \<open>app2app/app2app_local_service.cpp\<close> with its remote service, which
  pair a local and a remote connection of the same endpoint and forward the messages between them.

  Connections are objects on the heap that each service owns through its table; the pairing and the
  queues of waiting connections hold plain pointers to them. A pointer is a number, and following it after
  its object was destroyed is a fault. The two services run in threads of their own; the handlers of the
  local service take its mutex, so the callbacks of both are steps of one state. libwebsockets decides
  which callback comes next, with which data and whether a write succeeds: the parameters of a step.
\<close>

section \<open>Connections\<close>

datatype lws_write_kind = LWS_WRITE_TEXT | LWS_WRITE_BINARY | LWS_WRITE_CONTINUATION

record fragment =
  write_kind :: lws_write_kind
  no_fin :: bool
  frag_data :: string
  frag_close :: bool

record connection =
  conn_uri :: string
  write_queue :: "fragment list"
  conn_id :: int
  paired_connection :: "nat option"

type_synonym heap = "(nat \<times> connection) list"

definition conn_deref :: "heap \<Rightarrow> nat \<Rightarrow> connection res" where
  "conn_deref h p = (case om_get h p of None \<Rightarrow> Inl UseAfterFree | Some c \<Rightarrow> Inr c)"

definition mk_fragment :: "string \<Rightarrow> bool \<Rightarrow> bool \<Rightarrow> bool \<Rightarrow> fragment" where
  "mk_fragment d is_first is_final is_binary =
     \<lparr>write_kind = (if is_first then if is_binary then LWS_WRITE_BINARY else LWS_WRITE_TEXT else LWS_WRITE_CONTINUATION),
      no_fin = (\<not> is_final), frag_data = d, frag_close = False\<rparr>"

definition push_fragment :: "fragment \<Rightarrow> nat \<Rightarrow> heap \<Rightarrow> heap res" where
  "push_fragment f p h = bindR (conn_deref h p) (\<lambda>c. Inr (om_ins p (c\<lparr>write_queue := write_queue c @ [f]\<rparr>) h))"

definition SendFragment :: "string \<Rightarrow> bool \<Rightarrow> bool \<Rightarrow> bool \<Rightarrow> nat \<Rightarrow> heap \<Rightarrow> heap res" where
  "SendFragment d is_first is_final is_binary = push_fragment (mk_fragment d is_first is_final is_binary)"

definition SendMessage :: "string \<Rightarrow> nat \<Rightarrow> heap \<Rightarrow> heap res" where
  "SendMessage t = SendFragment t True True False"

definition close_fragment :: fragment where
  "close_fragment = \<lparr>write_kind = LWS_WRITE_TEXT, no_fin = False, frag_data = [], frag_close = True\<rparr>"

definition Close :: "nat \<Rightarrow> heap \<Rightarrow> heap res" where
  "Close = push_fragment close_fragment"

definition set_paired :: "nat \<Rightarrow> nat option \<Rightarrow> heap \<Rightarrow> heap res" where
  "set_paired p q h = bindR (conn_deref h p) (\<lambda>c. Inr (om_ins p (c\<lparr>paired_connection := q\<rparr>) h))"

section \<open>State\<close>

datatype side = Local | Remote

fun other :: "side \<Rightarrow> side" where
  "other Local = Remote"
| "other Remote = Local"

datatype loop_phase = NotStarted | Running | Exiting | Finished

record ws_service =
  connections :: "(nat \<times> nat) list"
  ws_stop :: bool
  loop :: loop_phase

record app2app =
  heap :: heap
  next_ptr :: nat
  next_connection_id :: int
  local_ws :: ws_service
  remote_ws :: ws_service
  waiting_connections :: "(string \<times> nat list) list"
  service_stopped :: bool
  remote_service_stopped :: bool
  registered :: bool
  destroyed :: bool
  sent :: "(nat \<times> fragment) list"

definition ws :: "side \<Rightarrow> app2app \<Rightarrow> ws_service" where
  "ws s st = (case s of Local \<Rightarrow> local_ws st | Remote \<Rightarrow> remote_ws st)"

definition put_ws :: "side \<Rightarrow> ws_service \<Rightarrow> app2app \<Rightarrow> app2app" where
  "put_ws s w st = (case s of Local \<Rightarrow> st\<lparr>local_ws := w\<rparr> | Remote \<Rightarrow> st\<lparr>remote_ws := w\<rparr>)"

definition on_heap :: "(heap \<Rightarrow> heap res) \<Rightarrow> app2app \<Rightarrow> app2app res" where
  "on_heap f st = bindR (f (heap st)) (\<lambda>h. Inr (st\<lparr>heap := h\<rparr>))"

definition stopped :: "app2app \<Rightarrow> bool" where
  "stopped st = (service_stopped st \<or> remote_service_stopped st)"

section \<open>Waiting connections\<close>

definition GetAppEndPoint :: "string \<Rightarrow> string" where
  "GetAppEndPoint u = (if str_find u ''/hbbtv/'' 0 = Some 0 then drop 7 u else [])"

definition type_of :: "side \<Rightarrow> string" where
  "type_of s = (case s of Local \<Rightarrow> ''local'' | Remote \<Rightarrow> ''remote'')"

definition queue_of :: "(string \<times> nat list) list \<Rightarrow> string \<Rightarrow> nat list" where
  "queue_of m k = (case om_get m k of None \<Rightarrow> [] | Some q \<Rightarrow> q)"

definition AddWaitingConnection :: "side \<Rightarrow> string \<Rightarrow> nat \<Rightarrow> (string \<times> nat list) list \<Rightarrow> (string \<times> nat list) list" where
  "AddWaitingConnection s e p m = (let k = type_of s @ e in om_ins k (queue_of m k @ [p]) m)"

definition RemoveWaitingConnection :: "side \<Rightarrow> string \<Rightarrow> nat \<Rightarrow> (string \<times> nat list) list \<Rightarrow> (string \<times> nat list) list" where
  "RemoveWaitingConnection s e p m =
     (let k = type_of s @ e in
      case om_get m k of
        None \<Rightarrow> m
      | Some q \<Rightarrow> let q' = filter (\<lambda>x. x \<noteq> p) q in if q' = [] then om_del k m else om_ins k q' m)"

definition GetNextWaitingConnection :: "side \<Rightarrow> string \<Rightarrow> (string \<times> nat list) list \<Rightarrow> nat option \<times> (string \<times> nat list) list" where
  "GetNextWaitingConnection s e m =
     (let k = type_of s @ e in
      case om_get m k of
        None \<Rightarrow> (None, m)
      | Some [] \<Rightarrow> (None, m)
      | Some (p # q) \<Rightarrow> (Some p, if q = [] then om_del k m else om_ins k q m))"

section \<open>Handlers of the local service\<close>

text \<open>\<open>OnConnection\<close> and \<open>OnRemoteConnection\<close> are the same code for the two sides: the new connection
  is paired with the connection of the other side that waits longest for its endpoint, or waits.\<close>

definition connect_as :: "side \<Rightarrow> nat \<Rightarrow> app2app \<Rightarrow> (bool \<times> app2app) res" where
  "connect_as s p st = bindR (conn_deref (heap st) p) (\<lambda>c.
     let e = GetAppEndPoint (conn_uri c) in
     if e = [] then Inr (False, st)
     else if stopped st then Inr (False, st)
     else
       (let (next_waiting, m) = GetNextWaitingConnection (other s) e (waiting_connections st);
            st = st\<lparr>waiting_connections := m\<rparr>
        in case next_waiting of
          Some q \<Rightarrow>
            bindR (on_heap (set_paired q (Some p)) st) (\<lambda>st.
            bindR (on_heap (set_paired p (Some q)) st) (\<lambda>st.
            bindR (on_heap (SendMessage ''pairingcompleted'' p) st) (\<lambda>st.
            bindR (on_heap (SendMessage ''pairingcompleted'' q) st) (\<lambda>st.
              Inr (True, st)))))
        | None \<Rightarrow> Inr (True, st\<lparr>waiting_connections := AddWaitingConnection s e p m\<rparr>)))"

definition OnConnection :: "nat \<Rightarrow> app2app \<Rightarrow> (bool \<times> app2app) res" where
  "OnConnection = connect_as Local"

definition OnRemoteConnection :: "nat \<Rightarrow> app2app \<Rightarrow> (bool \<times> app2app) res" where
  "OnRemoteConnection = connect_as Remote"

definition OnFragmentReceived :: "nat \<Rightarrow> string \<Rightarrow> bool \<Rightarrow> bool \<Rightarrow> bool \<Rightarrow> app2app \<Rightarrow> app2app res" where
  "OnFragmentReceived p d is_first is_final is_binary st =
     (if stopped st then Inr st
      else bindR (conn_deref (heap st) p) (\<lambda>c.
        case paired_connection c of
          None \<Rightarrow> Inr st
        | Some q \<Rightarrow> on_heap (SendFragment d is_first is_final is_binary q) st))"

definition OnRemoteFragmentReceived :: "nat \<Rightarrow> string \<Rightarrow> bool \<Rightarrow> bool \<Rightarrow> bool \<Rightarrow> app2app \<Rightarrow> app2app res" where
  "OnRemoteFragmentReceived p d is_first is_final is_binary st =
     (if stopped st then Inr st
      else bindR (conn_deref (heap st) p) (\<lambda>c.
        case paired_connection c of
          None \<Rightarrow> Inr st
        | Some q \<Rightarrow> on_heap (SendFragment d is_first is_final is_binary q) st))"

definition disconnect_as :: "side \<Rightarrow> nat \<Rightarrow> app2app \<Rightarrow> app2app res" where
  "disconnect_as s p st = bindR (conn_deref (heap st) p) (\<lambda>c.
     let e = GetAppEndPoint (conn_uri c) in
     if e = [] then Inr st
     else if stopped st then Inr st
     else case paired_connection c of
       Some q \<Rightarrow>
         bindR (on_heap (set_paired q None) st) (\<lambda>st.
         bindR (on_heap (Close q) st) (\<lambda>st.
         on_heap (set_paired p None) st))
     | None \<Rightarrow> Inr (st\<lparr>waiting_connections := RemoveWaitingConnection s e p (waiting_connections st)\<rparr>))"

definition OnDisconnected :: "nat \<Rightarrow> app2app \<Rightarrow> app2app res" where
  "OnDisconnected = disconnect_as Local"

definition OnRemoteDisconnected :: "nat \<Rightarrow> app2app \<Rightarrow> app2app res" where
  "OnRemoteDisconnected = disconnect_as Remote"

section \<open>The callback of libwebsockets\<close>

text \<open>The virtual handlers: the remote service delegates to the local one.\<close>

definition on_connection :: "side \<Rightarrow> nat \<Rightarrow> app2app \<Rightarrow> (bool \<times> app2app) res" where
  "on_connection s = (case s of Local \<Rightarrow> OnConnection | Remote \<Rightarrow> OnRemoteConnection)"

definition on_fragment :: "side \<Rightarrow> nat \<Rightarrow> string \<Rightarrow> bool \<Rightarrow> bool \<Rightarrow> bool \<Rightarrow> app2app \<Rightarrow> app2app res" where
  "on_fragment s = (case s of Local \<Rightarrow> OnFragmentReceived | Remote \<Rightarrow> OnRemoteFragmentReceived)"

definition on_disconnected :: "side \<Rightarrow> nat \<Rightarrow> app2app \<Rightarrow> app2app res" where
  "on_disconnected s = (case s of Local \<Rightarrow> OnDisconnected | Remote \<Rightarrow> OnRemoteDisconnected)"

text \<open>\<open>user\<close> is the per-session memory of libwebsockets, the key of the table of connections.\<close>

datatype lws_callback =
    CALLBACK_ESTABLISHED nat string string
  | CALLBACK_CLOSED nat
  | CALLBACK_SERVER_WRITEABLE nat "bool list"
  | CALLBACK_RECEIVE nat string bool bool bool

definition destroy :: "nat \<Rightarrow> app2app \<Rightarrow> app2app" where
  "destroy p st = st\<lparr>heap := om_del p (heap st)\<rparr>"

text \<open>The loop over the write queue: what is left of it, what was written and the result. A write that fails
  or a close ends it; \<open>ok\<close> says for each write whether it succeeds.\<close>

fun drain :: "bool list \<Rightarrow> fragment list \<Rightarrow> fragment list \<times> fragment list \<times> int" where
  "drain ok [] = ([], [], 0)"
| "drain ok (f # q) =
     (if frag_close f then (q, [], -1)
      else if ok = [] \<or> \<not> hd ok then (q, [], -1)
      else case drain (tl ok) q of (rest, out, r) \<Rightarrow> (rest, f # out, r))"

definition new_connection :: "string \<Rightarrow> app2app \<Rightarrow> app2app" where
  "new_connection u st =
     (let c = \<lparr>conn_uri = u, write_queue = [], conn_id = next_connection_id st, paired_connection = None\<rparr>
      in st\<lparr>heap := om_ins (next_ptr st) c (heap st), next_ptr := next_ptr st + 1,
            next_connection_id := next_connection_id st + 1\<rparr>)"

definition established :: "side \<Rightarrow> nat \<Rightarrow> string \<Rightarrow> app2app \<Rightarrow> (int \<times> app2app) res" where
  "established s user u st =
     (let p = next_ptr st in
      bindR (on_connection s p (new_connection u st)) (\<lambda>(ok, st).
        if \<not> ok then Inr (-1, destroy p st)
        else let w = ws s st in Inr (0, put_ws s (w\<lparr>connections := om_ins user p (connections w)\<rparr>) st)))"

definition closed :: "side \<Rightarrow> nat \<Rightarrow> app2app \<Rightarrow> (int \<times> app2app) res" where
  "closed s user st =
     (case om_get (connections (ws s st)) user of
        None \<Rightarrow> Inr (-1, st)
      | Some p \<Rightarrow>
          bindR (on_disconnected s p st) (\<lambda>st.
          let w = ws s st in
          Inr (0, destroy p (put_ws s (w\<lparr>connections := om_del user (connections w)\<rparr>) st))))"

definition LwsCallback :: "side \<Rightarrow> lws_callback \<Rightarrow> app2app \<Rightarrow> (int \<times> app2app) res" where
  "LwsCallback s reason st =
     (case reason of
        CALLBACK_ESTABLISHED user u args \<Rightarrow> established s user (if args \<noteq> [] then u @ ''?'' @ args else u) st
      | CALLBACK_CLOSED user \<Rightarrow> closed s user st
      | CALLBACK_SERVER_WRITEABLE user ok \<Rightarrow>
          (case om_get (connections (ws s st)) user of
             None \<Rightarrow> Inr (-1, st)
           | Some p \<Rightarrow> bindR (conn_deref (heap st) p) (\<lambda>c. case drain ok (write_queue c) of (rest, out, r) \<Rightarrow>
               Inr (r, st\<lparr>heap := om_ins p (c\<lparr>write_queue := rest\<rparr>) (heap st), sent := sent st @ map (Pair p) out\<rparr>)))
      | CALLBACK_RECEIVE user d is_first is_final is_binary \<Rightarrow>
          (case om_get (connections (ws s st)) user of
             None \<Rightarrow> Inr (-1, st)
           | Some p \<Rightarrow> bindR (on_fragment s p d is_first is_final is_binary st) (\<lambda>st. Inr (0, st))))"

section \<open>Starting and stopping\<close>

text \<open>\<open>WebSocketService::Stop\<close>: the loop ends when its connections are closed.\<close>

definition ws_Stop :: "side \<Rightarrow> app2app \<Rightarrow> app2app res" where
  "ws_Stop s st =
     (let w = ws s st; st = put_ws s (w\<lparr>ws_stop := True\<rparr>) st in
      foldR (\<lambda>p st. on_heap (Close p) st) (map snd (connections w)) st)"

definition App2App_Stop :: "app2app \<Rightarrow> app2app res" where
  "App2App_Stop st =
     (if stopped st then Inr st
      else if \<not> remote_service_stopped st then ws_Stop Remote (st\<lparr>remote_service_stopped := True\<rparr>)
      else ws_Stop Local st)"

text \<open>\<open>ServiceManager::OnServiceStopped\<close> erases the stopped service from its table, which destroys it
  together with its mutex; the handler that called it then unlocks that mutex.\<close>

definition manager_OnServiceStopped :: "app2app \<Rightarrow> app2app" where
  "manager_OnServiceStopped st = (if registered st then st\<lparr>registered := False, destroyed := True\<rparr> else st)"

definition mutex_unlock :: "app2app \<Rightarrow> app2app res" where
  "mutex_unlock st = (if destroyed st then Inl UseAfterFree else Inr st)"

definition OnServiceStopped :: "app2app \<Rightarrow> app2app res" where
  "OnServiceStopped st =
     (let st = st\<lparr>service_stopped := True\<rparr> in
      bindR (if \<not> remote_service_stopped st then ws_Stop Remote (st\<lparr>remote_service_stopped := True\<rparr>)
             else Inr (manager_OnServiceStopped st)) mutex_unlock)"

definition OnRemoteServiceStopped :: "app2app \<Rightarrow> app2app res" where
  "OnRemoteServiceStopped st =
     (let st = st\<lparr>remote_service_stopped := True\<rparr> in
      bindR (if \<not> service_stopped st then ws_Stop Local (st\<lparr>service_stopped := True\<rparr>)
             else Inr (manager_OnServiceStopped st)) mutex_unlock)"

text \<open>The end of \<open>MainLooper\<close>, up to the call of the handler that is notified: the loop ends when it is
  told to and no connection is left, or when \<open>lws_service\<close> fails, and then destroys its connections.\<close>

definition loop_ends :: "side \<Rightarrow> bool \<Rightarrow> app2app \<Rightarrow> app2app" where
  "loop_ends s failed st =
     (let w = ws s st in
      if failed then
        put_ws s (w\<lparr>ws_stop := True, connections := [], loop := Exiting\<rparr>)
          (st\<lparr>heap := fold om_del (map snd (connections w)) (heap st)\<rparr>)
      else if ws_stop w \<and> connections w = [] then put_ws s (w\<lparr>loop := Exiting\<rparr>) st
      else st)"

section \<open>Events\<close>

text \<open>What can happen next: a callback in the thread of a service whose loop runs (a new session has memory of
  its own), a request to stop the service from the manager, the end of a loop, and its notification.\<close>

datatype a2a_event =
    Callback side lws_callback
  | StopService
  | LoopEnds side bool
  | Notify side

fun fresh_session :: "ws_service \<Rightarrow> lws_callback \<Rightarrow> bool" where
  "fresh_session w (CALLBACK_ESTABLISHED user u args) = (om_get (connections w) user = None)"
| "fresh_session w _ = True"

definition a2a_step :: "app2app \<Rightarrow> a2a_event \<Rightarrow> app2app res" where
  "a2a_step st ev = (case ev of
     Callback s reason \<Rightarrow>
       if loop (ws s st) = Running \<and> fresh_session (ws s st) reason
       then bindR (LwsCallback s reason st) (\<lambda>(r, st). Inr st) else Inr st
   | StopService \<Rightarrow> if registered st then App2App_Stop st else Inr st
   | LoopEnds s failed \<Rightarrow> if loop (ws s st) = Running then Inr (loop_ends s failed st) else Inr st
   | Notify s \<Rightarrow>
       if loop (ws s st) = Exiting then
         bindR (case s of Local \<Rightarrow> OnServiceStopped st | Remote \<Rightarrow> OnRemoteServiceStopped st) (\<lambda>st.
         Inr (put_ws s ((ws s st)\<lparr>loop := Finished\<rparr>) st))
       else Inr st)"

text \<open>The service as the manager has started it; the result of starting the remote service is ignored.\<close>

definition App2App_new :: "bool \<Rightarrow> app2app" where
  "App2App_new remote_started =
     \<lparr>heap = [], next_ptr = 0, next_connection_id = 0,
      local_ws = \<lparr>connections = [], ws_stop = False, loop = Running\<rparr>,
      remote_ws = \<lparr>connections = [], ws_stop = \<not> remote_started, loop = (if remote_started then Running else NotStarted)\<rparr>,
      waiting_connections = [], service_stopped = False, remote_service_stopped = False,
      registered = True, destroyed = False, sent = []\<rparr>"

end
