(* ===== verification/App2AppPairing.thy ===== *)
theory App2AppPairing
  imports App2App
begin

text \<open>
  The app-to-app service is safe: the invariant of its tables and of its pairing, every step keeps it
  (interpretation \<open>a2a\<close> of the contract \<open>event_system\<close>), and the properties that follow from it, down to
  the two situations in which the service does follow a dangling pointer.
\<close>

section \<open>Heap lemmas\<close>

lemma conn_deref_Inr: "conn_deref h p = Inr c \<longleftrightarrow> om_get h p = Some c"
  by (simp add: conn_deref_def split: option.split)

lemma push_fragment_Inr: "push_fragment f p h = Inr h' \<longleftrightarrow>
    (\<exists>c. om_get h p = Some c \<and> h' = om_ins p (c\<lparr>write_queue := write_queue c @ [f]\<rparr>) h)"
  by (auto simp: push_fragment_def ret_iff conn_deref_Inr)

lemma set_paired_Inr: "set_paired p q h = Inr h' \<longleftrightarrow>
    (\<exists>c. om_get h p = Some c \<and> h' = om_ins p (c\<lparr>paired_connection := q\<rparr>) h)"
  by (auto simp: set_paired_def ret_iff conn_deref_Inr)

lemma on_heap_Inr: "on_heap f st = Inr st' \<longleftrightarrow> (\<exists>h. f (heap st) = Inr h \<and> st' = st\<lparr>heap := h\<rparr>)"
  by (auto simp: on_heap_def ret_iff)

text \<open>Pairing and endpoint of the connection at a pointer, which is all the invariant is about.\<close>

definition link_at :: "heap \<Rightarrow> nat \<Rightarrow> (string \<times> nat option) option" where
  "link_at h p = map_option (\<lambda>c. (GetAppEndPoint (conn_uri c), paired_connection c)) (om_get h p)"

definition live :: "heap \<Rightarrow> nat \<Rightarrow> bool" where
  "live h p = (link_at h p \<noteq> None)"

lemma link_push: "push_fragment f p h = Inr h' \<Longrightarrow> link_at h' = link_at h"
  by (auto simp: push_fragment_Inr link_at_def)

lemma link_set_paired:
  "set_paired p q h = Inr h' \<Longrightarrow> \<exists>e r. link_at h p = Some (e, r) \<and> link_at h' = (link_at h)(p \<mapsto> (e, q))"
  by (auto simp: set_paired_Inr link_at_def fun_eq_iff)

lemma link_del: "link_at (om_del p h) = (link_at h)(p := None)"
  by (auto simp: link_at_def)

lemma live_del: "live (om_del p h) q \<longleftrightarrow> q \<noteq> p \<and> live h q"
  by (simp add: live_def link_del)

lemma push_ok: "link_at h p = Some l \<Longrightarrow> \<exists>h'. push_fragment f p h = Inr h'"
  by (auto simp: push_fragment_Inr link_at_def)

lemma set_paired_ok: "link_at h p = Some l \<Longrightarrow> \<exists>h'. set_paired p q h = Inr h'"
  by (auto simp: set_paired_Inr link_at_def)

section \<open>Queue lemmas\<close>

lemma key_inj [simp]: "type_of s @ e = type_of s' @ e' \<longleftrightarrow> s = s' \<and> e = e'"
  by (cases s; cases s') (auto simp: type_of_def)

lemma queue_ins [simp]: "queue_of (om_ins k q m) k' = (if k' = k then q else queue_of m k')"
  by (simp add: queue_of_def)

lemma queue_del [simp]: "queue_of (om_del k m) k' = (if k' = k then [] else queue_of m k')"
  by (simp add: queue_of_def)

lemma queue_add: "queue_of (AddWaitingConnection s e p m) k =
    (if k = type_of s @ e then queue_of m k @ [p] else queue_of m k)"
  by (simp add: AddWaitingConnection_def Let_def)

lemma queue_remove: "queue_of (RemoveWaitingConnection s e p m) k =
    (if k = type_of s @ e then filter (\<lambda>x. x \<noteq> p) (queue_of m k) else queue_of m k)"
  by (auto simp: RemoveWaitingConnection_def Let_def queue_of_def split: option.split)

lemma queue_next:
  assumes "GetNextWaitingConnection s e m = (r, m')"
  shows "case queue_of m (type_of s @ e) of [] \<Rightarrow> r = None \<and> m' = m
    | p # q \<Rightarrow> r = Some p \<and> (\<forall>k. queue_of m' k = (if k = type_of s @ e then q else queue_of m k))"
  using assms by (auto simp: GetNextWaitingConnection_def Let_def queue_of_def split: option.splits list.splits if_splits)

section \<open>The pairing invariant\<close>

text \<open>\<open>own s\<close> are the pointers to the connections of side \<open>s\<close>.\<close>

definition links :: "(side \<Rightarrow> nat set) \<Rightarrow> (nat \<Rightarrow> (string \<times> nat option) option) \<Rightarrow> (string \<Rightarrow> nat list) \<Rightarrow> bool" where
  "links own l w =
     ((\<forall>s. \<forall>p \<in> own s. \<exists>e r. l p = Some (e, r) \<and> e \<noteq> []
        \<and> (\<forall>q. r = Some q \<longrightarrow> q \<in> own (other s) \<and> l q = Some (e, Some p)))
    \<and> (\<forall>s e. distinct (w (type_of s @ e)) \<and> (\<forall>p \<in> set (w (type_of s @ e)). p \<in> own s \<and> l p = Some (e, None)))
    \<and> (\<forall>e. w (type_of Local @ e) = [] \<or> w (type_of Remote @ e) = [])
    \<and> own Local \<inter> own Remote = {})"

lemma links_own:
  "links own l w \<Longrightarrow> p \<in> own s \<Longrightarrow> \<exists>e r. l p = Some (e, r) \<and> e \<noteq> []
    \<and> (\<forall>q. r = Some q \<longrightarrow> q \<in> own (other s) \<and> l q = Some (e, Some p))"
  unfolding links_def by blast

lemma links_queue:
  "links own l w \<Longrightarrow> distinct (w (type_of s @ e))"
  "links own l w \<Longrightarrow> p \<in> set (w (type_of s @ e)) \<Longrightarrow> p \<in> own s \<and> l p = Some (e, None)"
  unfolding links_def by blast+

lemma links_one_side: "links own l w \<Longrightarrow> w (type_of s @ e) \<noteq> [] \<Longrightarrow> w (type_of (other s) @ e) = []"
  unfolding links_def by (cases s) auto

lemma links_one: "links own l w \<Longrightarrow> w (type_of Local @ e) = [] \<or> w (type_of Remote @ e) = []"
  unfolding links_def by blast

lemma links_disjoint: "links own l w \<Longrightarrow> p \<in> own s \<Longrightarrow> p \<notin> own (other s)"
  unfolding links_def by (cases s) auto

lemma linksI:
  assumes "\<And>s p. p \<in> own s \<Longrightarrow> \<exists>e r. l p = Some (e, r) \<and> e \<noteq> []
        \<and> (\<forall>q. r = Some q \<longrightarrow> q \<in> own (other s) \<and> l q = Some (e, Some p))"
    and "\<And>s e. distinct (w (type_of s @ e))"
    and "\<And>s e p. p \<in> set (w (type_of s @ e)) \<Longrightarrow> p \<in> own s \<and> l p = Some (e, None)"
    and "\<And>e. w (type_of Local @ e) = [] \<or> w (type_of Remote @ e) = []"
    and "\<And>p. p \<in> own Local \<Longrightarrow> p \<notin> own Remote"
  shows "links own l w"
  unfolding links_def using assms by blast

lemma side_other: "s' = s \<or> s' = other s" "other s \<noteq> s" "other (other s) = s"
  by (cases s; cases s'; simp) (cases s; simp)+

lemma links_wait:
  assumes L: "links own l w" and fresh: "\<And>s. p \<notin> own s" and p: "l p = Some (e, None)" "e \<noteq> []"
    and none: "w (type_of (other s) @ e) = []"
  shows "links (own(s := insert p (own s))) l (\<lambda>k. if k = type_of s @ e then w k @ [p] else w k)"
proof (rule linksI)
  fix s' p'
  assume "p' \<in> (own(s := insert p (own s))) s'"
  then consider "p' = p" | "p' \<in> own s'" by (auto split: if_splits)
  then show "\<exists>e r. l p' = Some (e, r) \<and> e \<noteq> []
      \<and> (\<forall>q. r = Some q \<longrightarrow> q \<in> (own(s := insert p (own s))) (other s') \<and> l q = Some (e, Some p'))"
    using links_own [OF L, of p' s'] p by cases auto
next
  fix s' e'
  have "p \<notin> set (w (type_of s @ e))" using links_queue(2) [OF L] fresh by blast
  then show "distinct (if type_of s' @ e' = type_of s @ e then w (type_of s' @ e') @ [p] else w (type_of s' @ e'))"
    using links_queue(1) [OF L] by auto
next
  fix s' e' p'
  assume "p' \<in> set (if type_of s' @ e' = type_of s @ e then w (type_of s' @ e') @ [p] else w (type_of s' @ e'))"
  then show "p' \<in> (own(s := insert p (own s))) s' \<and> l p' = Some (e', None)"
    using links_queue(2) [OF L] p(1) by (auto split: if_splits)
next
  fix e'
  show "(if type_of Local @ e' = type_of s @ e then w (type_of Local @ e') @ [p] else w (type_of Local @ e')) = [] \<or>
      (if type_of Remote @ e' = type_of s @ e then w (type_of Remote @ e') @ [p] else w (type_of Remote @ e')) = []"
    using L none unfolding links_def by (cases s) auto
next
  fix p'
  assume "p' \<in> (own(s := insert p (own s))) Local"
  then show "p' \<notin> (own(s := insert p (own s))) Remote"
    using links_disjoint [OF L, of p' Local] fresh by (cases s) auto
qed

lemma links_pair:
  assumes L: "links own l w" and fresh: "\<And>s. p \<notin> own s" and p: "l p = Some (e, None)" "e \<noteq> []"
    and q: "w (type_of (other s) @ e) = q # r"
  shows "links (own(s := insert p (own s))) (l(q \<mapsto> (e, Some p), p \<mapsto> (e, Some q)))
    (\<lambda>k. if k = type_of (other s) @ e then r else w k)"
proof -
  have oq: "q \<in> own (other s)" "l q = Some (e, None)" using links_queue(2) [OF L, of q "other s" e] q by auto
  have d: "q \<notin> set r" using links_queue(1) [OF L, of "other s" e] q by simp
  have pq: "p \<noteq> q" using fresh oq by auto
  have q_other: "q \<notin> own s" using links_disjoint [OF L oq(1)] by (simp add: side_other)
  have np: "\<And>s' e'. p \<notin> set (w (type_of s' @ e'))" using links_queue(2) [OF L] fresh by blast
  have nq: "q \<in> set (w (type_of s' @ e')) \<Longrightarrow> s' = other s \<and> e' = e" for s' e'
  proof -
    assume "q \<in> set (w (type_of s' @ e'))"
    from links_queue(2) [OF L this] oq(2) have "q \<in> own s'" "e' = e" by auto
    with q_other side_other(1) [of s' s] show ?thesis by auto
  qed
  show ?thesis
  proof (rule linksI)
    fix s' p'
    assume "p' \<in> (own(s := insert p (own s))) s'"
    then consider "p' = p" "s' = s" | "p' \<in> own s'" "p' \<noteq> p" using fresh by (auto split: if_splits)
    then show "\<exists>e' t. (l(q \<mapsto> (e, Some p), p \<mapsto> (e, Some q))) p' = Some (e', t) \<and> e' \<noteq> []
        \<and> (\<forall>x. t = Some x \<longrightarrow> x \<in> (own(s := insert p (own s))) (other s')
             \<and> (l(q \<mapsto> (e, Some p), p \<mapsto> (e, Some q))) x = Some (e', Some p'))"
    proof cases
      case 1
      then show ?thesis using oq p pq by (auto simp: side_other)
    next
      case 2
      show ?thesis
      proof (cases "p' = q")
        case True
        with 2 q_other have "s' = other s" using side_other(1) [of s' s] by auto
        with True pq p(2) show ?thesis by (auto simp: side_other)
      next
        case False
        from links_own [OF L 2(1)] obtain e' t where t: "l p' = Some (e', t)" "e' \<noteq> []"
          "\<forall>x. t = Some x \<longrightarrow> x \<in> own (other s') \<and> l x = Some (e', Some p')" by blast
        have "x \<noteq> q \<and> x \<noteq> p" if "t = Some x" for x using t(3) that oq(2) p(1) by auto
        with False 2(2) t show ?thesis by auto
      qed
    qed
  next
    fix s' e'
    show "distinct (if type_of s' @ e' = type_of (other s) @ e then r else w (type_of s' @ e'))"
      using links_queue(1) [OF L, of s' e'] links_queue(1) [OF L, of "other s" e] q by auto
  next
    fix s' e' p'
    assume a: "p' \<in> set (if type_of s' @ e' = type_of (other s) @ e then r else w (type_of s' @ e'))"
    then have w': "p' \<in> set (w (type_of s' @ e'))" using q by (auto split: if_splits)
    have "p' \<noteq> q" using a d nq by (auto split: if_splits)
    moreover have "p' \<noteq> p" using w' np by blast
    ultimately show "p' \<in> (own(s := insert p (own s))) s' \<and> (l(q \<mapsto> (e, Some p), p \<mapsto> (e, Some q))) p' = Some (e', None)"
      using links_queue(2) [OF L w'] by auto
  next
    fix e'
    show "(if type_of Local @ e' = type_of (other s) @ e then r else w (type_of Local @ e')) = [] \<or>
        (if type_of Remote @ e' = type_of (other s) @ e then r else w (type_of Remote @ e')) = []"
      using links_one [OF L, of e'] q by (cases s) auto
  next
    fix p'
    assume "p' \<in> (own(s := insert p (own s))) Local"
    then show "p' \<notin> (own(s := insert p (own s))) Remote"
      using links_disjoint [OF L, of p' Local] fresh by (cases s) auto
  qed
qed

lemma links_unpair:
  assumes L: "links own l w" and p: "p \<in> own s" "l p = Some (e, Some q)"
  shows "links (own(s := own s - {p})) (l(q \<mapsto> (e, None), p := None)) w"
proof -
  from links_own [OF L p(1)] p(2) have q: "q \<in> own (other s)" "l q = Some (e, Some p)" "e \<noteq> []" by auto
  have q_other: "q \<notin> own s" using links_disjoint [OF L q(1)] by (simp add: side_other)
  have p_other: "p \<notin> own (other s)" by (rule links_disjoint [OF L p(1)])
  have nw: "p \<notin> set (w (type_of s' @ e'))" "q \<notin> set (w (type_of s' @ e'))" for s' e'
    using links_queue(2) [OF L, of _ s' e'] p(2) q(2) by fastforce+
  show ?thesis
  proof (rule linksI)
    fix s' p'
    assume "p' \<in> (own(s := own s - {p})) s'"
    then have a: "p' \<in> own s'" "p' \<noteq> p" using p_other side_other(1) [of s' s] by (auto split: if_splits)
    show "\<exists>e' t. (l(q \<mapsto> (e, None), p := None)) p' = Some (e', t) \<and> e' \<noteq> []
        \<and> (\<forall>x. t = Some x \<longrightarrow> x \<in> (own(s := own s - {p})) (other s')
             \<and> (l(q \<mapsto> (e, None), p := None)) x = Some (e', Some p'))"
    proof (cases "p' = q")
      case True
      with a q(3) show ?thesis by simp
    next
      case False
      from links_own [OF L a(1)] obtain e' t where t: "l p' = Some (e', t)" "e' \<noteq> []"
        "\<forall>x. t = Some x \<longrightarrow> x \<in> own (other s') \<and> l x = Some (e', Some p')" by blast
      have "x \<noteq> q \<and> x \<noteq> p" if "t = Some x" for x using t(3) that p(2) q(2) a(2) False by auto
      with t a False show ?thesis by auto
    qed
  next
    fix s' e' p'
    assume "p' \<in> set (w (type_of s' @ e'))"
    with links_queue(2) [OF L this] nw show "p' \<in> (own(s := own s - {p})) s' \<and> (l(q \<mapsto> (e, None), p := None)) p' = Some (e', None)"
      by auto
  next
    fix p'
    assume "p' \<in> (own(s := own s - {p})) Local"
    then show "p' \<notin> (own(s := own s - {p})) Remote"
      using links_disjoint [OF L, of p' Local] by (auto split: if_splits)
  qed (use links_queue(1) [OF L] links_one [OF L] in blast)+
qed

lemma links_leave:
  assumes L: "links own l w" and p: "p \<in> own s" "l p = Some (e, None)"
  shows "links (own(s := own s - {p})) (l(p := None)) (\<lambda>k. if k = type_of s @ e then filter (\<lambda>x. x \<noteq> p) (w k) else w k)"
proof (rule linksI)
  have p_other: "p \<notin> own (other s)" by (rule links_disjoint [OF L p(1)])
  fix s' p'
  assume "p' \<in> (own(s := own s - {p})) s'"
  then have a: "p' \<in> own s'" "p' \<noteq> p" using p_other side_other(1) [of s' s] by (auto split: if_splits)
  from links_own [OF L a(1)] obtain e' t where t: "l p' = Some (e', t)" "e' \<noteq> []"
    "\<forall>x. t = Some x \<longrightarrow> x \<in> own (other s') \<and> l x = Some (e', Some p')" by blast
  have "x \<noteq> p" if "t = Some x" for x using t(3) that p(2) by auto
  with t a show "\<exists>e' t. (l(p := None)) p' = Some (e', t) \<and> e' \<noteq> []
      \<and> (\<forall>x. t = Some x \<longrightarrow> x \<in> (own(s := own s - {p})) (other s') \<and> (l(p := None)) x = Some (e', Some p'))"
    by auto
next
  fix s' e'
  show "distinct (if type_of s' @ e' = type_of s @ e then filter (\<lambda>x. x \<noteq> p) (w (type_of s' @ e')) else w (type_of s' @ e'))"
    using links_queue(1) [OF L] by simp
next
  fix s' e' p'
  assume a: "p' \<in> set (if type_of s' @ e' = type_of s @ e then filter (\<lambda>x. x \<noteq> p) (w (type_of s' @ e')) else w (type_of s' @ e'))"
  then have b: "p' \<in> own s'" "l p' = Some (e', None)" using links_queue(2) [OF L, of p' s' e'] by (auto split: if_splits)
  have "p' \<noteq> p"
  proof
    assume "p' = p"
    with b p L have "s' = s" "e' = e" using links_disjoint [OF L p(1)] side_other(1) [of s' s] by auto
    with a \<open>p' = p\<close> show False by simp
  qed
  with b show "p' \<in> (own(s := own s - {p})) s' \<and> (l(p := None)) p' = Some (e', None)" by auto
next
  fix e'
  show "(if type_of Local @ e' = type_of s @ e then filter (\<lambda>x. x \<noteq> p) (w (type_of Local @ e')) else w (type_of Local @ e')) = [] \<or>
      (if type_of Remote @ e' = type_of s @ e then filter (\<lambda>x. x \<noteq> p) (w (type_of Remote @ e')) else w (type_of Remote @ e')) = []"
    using links_one [OF L, of e'] by auto
next
  fix p'
  assume "p' \<in> (own(s := own s - {p})) Local"
  then show "p' \<notin> (own(s := own s - {p})) Remote"
    using links_disjoint [OF L, of p' Local] by (auto split: if_splits)
qed

lemma links_alloc:
  assumes "links own l w" and "\<And>s. p \<notin> own s"
  shows "links own (l(p := x)) w"
proof -
  have ne: "q \<noteq> p" if "q \<in> own s" for q s using that assms(2) by blast
  show ?thesis
  proof (rule linksI)
    fix s q
    assume q: "q \<in> own s"
    from links_own [OF assms(1) q] ne q show "\<exists>e r. (l(p := x)) q = Some (e, r) \<and> e \<noteq> []
        \<and> (\<forall>t. r = Some t \<longrightarrow> t \<in> own (other s) \<and> (l(p := x)) t = Some (e, Some q))" by fastforce
  next
    fix s e q
    assume "q \<in> set (w (type_of s @ e))"
    with links_queue(2) [OF assms(1) this] ne show "q \<in> own s \<and> (l(p := x)) q = Some (e, None)" by auto
  next
    fix q
    assume "q \<in> own Local"
    with links_disjoint [OF assms(1) this] show "q \<notin> own Remote" by simp
  qed (use links_queue(1) [OF assms(1)] links_one [OF assms(1)] in blast)+
qed

section \<open>The invariant of the service\<close>

lemma ws_put [simp]: "ws s (put_ws s' w st) = (if s = s' then w else ws s st)"
  by (cases s; cases s') (simp_all add: ws_def put_ws_def)

lemma put_ws_fields [simp]:
  "heap (put_ws s w st) = heap st" "next_ptr (put_ws s w st) = next_ptr st"
  "waiting_connections (put_ws s w st) = waiting_connections st" "stopped (put_ws s w st) = stopped st"
  "service_stopped (put_ws s w st) = service_stopped st" "remote_service_stopped (put_ws s w st) = remote_service_stopped st"
  "registered (put_ws s w st) = registered st" "destroyed (put_ws s w st) = destroyed st"
  by (cases s; simp add: put_ws_def stopped_def)+

lemma ws_update [simp]:
  "ws s (st\<lparr>heap := h\<rparr>) = ws s st" "ws s (st\<lparr>waiting_connections := m\<rparr>) = ws s st" "ws s (st\<lparr>next_ptr := n\<rparr>) = ws s st"
  "ws s (st\<lparr>next_connection_id := i\<rparr>) = ws s st" "ws s (st\<lparr>sent := x\<rparr>) = ws s st"
  "ws s (st\<lparr>service_stopped := b\<rparr>) = ws s st" "ws s (st\<lparr>remote_service_stopped := b\<rparr>) = ws s st"
  "ws s (st\<lparr>registered := b\<rparr>) = ws s st" "ws s (st\<lparr>destroyed := b\<rparr>) = ws s st"
  by (cases s; simp add: ws_def)+

lemma stopped_update [simp]:
  "stopped (st\<lparr>heap := h\<rparr>) = stopped st" "stopped (st\<lparr>waiting_connections := m\<rparr>) = stopped st"
  "stopped (st\<lparr>next_ptr := n\<rparr>) = stopped st" "stopped (st\<lparr>next_connection_id := i\<rparr>) = stopped st"
  "stopped (st\<lparr>sent := x\<rparr>) = stopped st"
  by (simp_all add: stopped_def)

definition own :: "app2app \<Rightarrow> side \<Rightarrow> nat set" where
  "own st s = {p. \<exists>u. om_get (connections (ws s st)) u = Some p}"

definition tables :: "app2app \<Rightarrow> bool" where
  "tables st =
     ((\<forall>p. live (heap st) p \<longrightarrow> p < next_ptr st)
    \<and> (\<forall>s u p. om_get (connections (ws s st)) u = Some p \<longrightarrow> live (heap st) p)
    \<and> (\<forall>s t u v p. om_get (connections (ws s st)) u = Some p \<longrightarrow> om_get (connections (ws t st)) v = Some p \<longrightarrow> s = t \<and> u = v)
    \<and> (\<forall>s. om_ok (connections (ws s st))))"

text \<open>No service was told to stop and no loop has ended.\<close>

definition intact :: "app2app \<Rightarrow> bool" where
  "intact st = (\<not> stopped st \<and> (\<forall>s. loop (ws s st) = Running \<or> loop (ws s st) = NotStarted))"

definition linked :: "app2app \<Rightarrow> bool" where
  "linked st = links (own st) (link_at (heap st)) (queue_of (waiting_connections st))"

definition a2a_ok :: "app2app \<Rightarrow> bool" where
  "a2a_ok st = (tables st \<and> (intact st \<longrightarrow> linked st))"

text \<open>What the handlers change: the contents of live connections and the queues.\<close>

definition frame :: "app2app \<Rightarrow> app2app \<Rightarrow> bool" where
  "frame st st' = (\<exists>h m. st' = st\<lparr>heap := h, waiting_connections := m\<rparr> \<and> (\<forall>p. live h p = live (heap st) p))"

lemma frame_refl [simp]: "frame st st"
  unfolding frame_def by (intro exI [of _ "heap st"] exI [of _ "waiting_connections st"]) simp

lemma frame_trans: "frame st st' \<Longrightarrow> frame st' st'' \<Longrightarrow> frame st st''"
  unfolding frame_def by (elim exE conjE) (simp, blast)

lemma frame_waiting [simp]: "frame st (st\<lparr>waiting_connections := m\<rparr>)"
  unfolding frame_def by (intro exI [of _ "heap st"] exI [of _ m]) simp

lemma frame_waiting_trans: "frame (st\<lparr>waiting_connections := m\<rparr>) st' \<Longrightarrow> frame st st'"
  by (rule frame_trans [OF frame_waiting])

lemma frame_push: "on_heap (push_fragment f p) st = Inr st' \<Longrightarrow> frame st st'"
  unfolding frame_def on_heap_Inr
  by (elim exE conjE, drule link_push) (rule exI, rule exI [of _ "waiting_connections st"], auto simp: live_def)

lemma frame_set_paired: "on_heap (set_paired p q) st = Inr st' \<Longrightarrow> frame st st'"
  unfolding frame_def on_heap_Inr
  by (elim exE conjE, drule link_set_paired) (rule exI, rule exI [of _ "waiting_connections st"], auto simp: live_def split: if_splits)

lemmas sends = SendMessage_def SendFragment_def Close_def

lemma frame_connect: "connect_as s p st = Inr (ok, st') \<Longrightarrow> frame st st'"
  by (auto simp: connect_as_def ret_iff Let_def sends split: if_splits prod.splits option.splits
      dest!: frame_push frame_set_paired intro: frame_waiting_trans [OF frame_trans [OF _ frame_trans [OF _ frame_trans]]])

lemma frame_fragment: "on_fragment s p d a b c st = Inr st' \<Longrightarrow> frame st st'"
  by (auto simp: on_fragment_def OnFragmentReceived_def OnRemoteFragmentReceived_def ret_iff sends
      split: if_splits option.splits side.splits dest!: frame_push)

lemma frame_disconnect: "disconnect_as s p st = Inr st' \<Longrightarrow> frame st st'"
  by (auto simp: disconnect_as_def ret_iff Let_def sends split: if_splits option.splits
      dest!: frame_push frame_set_paired intro: frame_trans)

lemma on_connection_as: "on_connection s = connect_as s"
  by (cases s) (simp_all add: on_connection_def OnConnection_def OnRemoteConnection_def)

lemma on_disconnected_as: "on_disconnected s = disconnect_as s"
  by (cases s) (simp_all add: on_disconnected_def OnDisconnected_def OnRemoteDisconnected_def)

lemma frame_fields:
  "frame st st' \<Longrightarrow> ws s st' = ws s st \<and> next_ptr st' = next_ptr st \<and> stopped st' = stopped st \<and> own st' = own st
     \<and> intact st' = intact st"
  unfolding frame_def by (auto simp: own_def intact_def fun_eq_iff stopped_def)

lemma frame_live: "frame st st' \<Longrightarrow> live (heap st') p = live (heap st) p"
  unfolding frame_def by (elim exE conjE) simp

lemma tables_frame: "frame st st' \<Longrightarrow> tables st \<Longrightarrow> tables st'"
  using frame_fields [of st st'] frame_live [of st st'] unfolding tables_def by auto

lemma link_deref: "link_at h p = Some (e, r) \<Longrightarrow> \<exists>c. conn_deref h p = Inr c \<and> GetAppEndPoint (conn_uri c) = e \<and> paired_connection c = r"
  by (auto simp: link_at_def conn_deref_def)

lemma on_heap_push:
  assumes "link_at (heap st) p = Some l"
  obtains h where "on_heap (push_fragment f p) st = Inr (st\<lparr>heap := h\<rparr>)" and "link_at h = link_at (heap st)"
  using push_ok [OF assms, of f] link_push [of f p "heap st"] by (auto simp: on_heap_def)

lemma on_heap_set_paired:
  assumes "link_at (heap st) p = Some (e, r)"
  obtains h where "on_heap (set_paired p q) st = Inr (st\<lparr>heap := h\<rparr>)" and "link_at h = (link_at (heap st))(p \<mapsto> (e, q))"
  using set_paired_ok [OF assms, of q] link_set_paired [of p q "heap st"] assms by (fastforce simp: on_heap_def)

lemma connect_links:
  assumes L: "links ow (link_at (heap st)) (queue_of (waiting_connections st))" and fresh: "\<And>s. p \<notin> ow s"
    and p: "link_at (heap st) p = Some (e, None)"
  shows "\<exists>ok st'. connect_as s p st = Inr (ok, st') \<and>
    (if ok then links (ow(s := insert p (ow s))) (link_at (heap st')) (queue_of (waiting_connections st')) else st' = st)"
proof -
  from link_deref [OF p] obtain c where c: "conn_deref (heap st) p = Inr c" "GetAppEndPoint (conn_uri c) = e" by blast
  show ?thesis
  proof (cases "e = [] \<or> stopped st")
    case True
    then show ?thesis by (auto simp: connect_as_def c Let_def)
  next
    case False
    obtain x m where g: "GetNextWaitingConnection (other s) e (waiting_connections st) = (x, m)" by (cases "GetNextWaitingConnection (other s) e (waiting_connections st)")
    note n = queue_next [OF g]
    show ?thesis
    proof (cases "queue_of (waiting_connections st) (type_of (other s) @ e)")
      case Nil
      with n have xm: "x = None" "m = waiting_connections st" by auto
      have "connect_as s p st = Inr (True, st\<lparr>waiting_connections := AddWaitingConnection s e p m\<rparr>)"
        using False xm by (simp add: connect_as_def c g Let_def)
      moreover have "queue_of (AddWaitingConnection s e p m) = (\<lambda>k. if k = type_of s @ e
          then queue_of (waiting_connections st) k @ [p] else queue_of (waiting_connections st) k)"
        by (simp add: fun_eq_iff queue_add xm)
      moreover note links_wait [OF L fresh p _ Nil]
      ultimately show ?thesis using False by - (rule exI [of _ True], simp)
    next
      case (Cons q r)
      with n have xm: "x = Some q" and m: "queue_of m = (\<lambda>k. if k = type_of (other s) @ e then r else queue_of (waiting_connections st) k)"
        by (auto simp: fun_eq_iff)
      let ?l = "link_at (heap st)"
      have q: "q \<in> ow (other s)" "?l q = Some (e, None)" using links_queue(2) [OF L, of q "other s" e] Cons by auto
      then have pq: "p \<noteq> q" using fresh by auto
      let ?st = "st\<lparr>waiting_connections := m\<rparr>"
      obtain h1 where h1: "on_heap (set_paired q (Some p)) ?st = Inr (?st\<lparr>heap := h1\<rparr>)" "link_at h1 = ?l(q \<mapsto> (e, Some p))"
        using on_heap_set_paired [of ?st q e None "Some p"] q(2) by auto
      obtain h2 where h2: "on_heap (set_paired p (Some q)) (?st\<lparr>heap := h1\<rparr>) = Inr (?st\<lparr>heap := h2\<rparr>)"
          "link_at h2 = ?l(q \<mapsto> (e, Some p), p \<mapsto> (e, Some q))"
        using on_heap_set_paired [of "?st\<lparr>heap := h1\<rparr>" p e None "Some q"] p pq h1(2) by auto
      obtain h3 where h3: "on_heap (SendMessage ''pairingcompleted'' p) (?st\<lparr>heap := h2\<rparr>) = Inr (?st\<lparr>heap := h3\<rparr>)"
          "link_at h3 = link_at h2"
        using on_heap_push [where st = "?st\<lparr>heap := h2\<rparr>" and p = p and l = "(e, Some q)" and f = "mk_fragment ''pairingcompleted'' True True False"] h2(2)
        by (auto simp: sends)
      obtain h4 where h4: "on_heap (SendMessage ''pairingcompleted'' q) (?st\<lparr>heap := h3\<rparr>) = Inr (?st\<lparr>heap := h4\<rparr>)"
          "link_at h4 = link_at h3"
        using on_heap_push [where st = "?st\<lparr>heap := h3\<rparr>" and p = q and l = "(e, Some p)" and f = "mk_fragment ''pairingcompleted'' True True False"]
          h3(2) h2(2) pq by (auto simp: sends)
      have "connect_as s p st = Inr (True, ?st\<lparr>heap := h4\<rparr>)"
        using False xm by (simp add: connect_as_def c g Let_def h1(1) h2(1) h3(1) h4(1))
      moreover note links_pair [OF L fresh p _ Cons]
      ultimately show ?thesis using False by - (rule exI [of _ True], simp add: h4(2) h3(2) h2(2) m)
    qed
  qed
qed

lemma disconnect_links:
  assumes L: "links ow (link_at (heap st)) (queue_of (waiting_connections st))" and p: "p \<in> ow s" and "\<not> stopped st"
  shows "\<exists>st'. disconnect_as s p st = Inr st'
    \<and> links (ow(s := ow s - {p})) ((link_at (heap st'))(p := None)) (queue_of (waiting_connections st'))"
proof -
  let ?l = "link_at (heap st)"
  from links_own [OF L p] obtain e r where e: "?l p = Some (e, r)" "e \<noteq> []"
    "\<And>q. r = Some q \<Longrightarrow> q \<in> ow (other s) \<and> ?l q = Some (e, Some p)" by blast
  from link_deref [OF e(1)] obtain c where c: "conn_deref (heap st) p = Inr c" "GetAppEndPoint (conn_uri c) = e" "paired_connection c = r" by blast
  show ?thesis
  proof (cases r)
    case None
    have "disconnect_as s p st = Inr (st\<lparr>waiting_connections := RemoveWaitingConnection s e p (waiting_connections st)\<rparr>)"
      using e(2) assms(3) None by (simp add: disconnect_as_def c Let_def)
    moreover have "queue_of (RemoveWaitingConnection s e p (waiting_connections st)) =
        (\<lambda>k. if k = type_of s @ e then filter (\<lambda>x. x \<noteq> p) (queue_of (waiting_connections st) k) else queue_of (waiting_connections st) k)"
      by (simp add: fun_eq_iff queue_remove)
    ultimately show ?thesis using links_leave [OF L p e(1) [unfolded None]] by simp
  next
    case (Some q)
    from e(3) [OF Some] have q: "q \<in> ow (other s)" "?l q = Some (e, Some p)" by auto
    then have pq: "p \<noteq> q" using links_disjoint [OF L p] by auto
    obtain h1 where h1: "on_heap (set_paired q None) st = Inr (st\<lparr>heap := h1\<rparr>)" "link_at h1 = ?l(q \<mapsto> (e, None))"
      using on_heap_set_paired [of st q e "Some p" None] q(2) by auto
    obtain h2 where h2: "on_heap (Close q) (st\<lparr>heap := h1\<rparr>) = Inr (st\<lparr>heap := h2\<rparr>)" "link_at h2 = link_at h1"
      using on_heap_push [where st = "st\<lparr>heap := h1\<rparr>" and p = q and l = "(e, None)" and f = close_fragment] h1(2)
      by (auto simp: sends)
    obtain h3 where h3: "on_heap (set_paired p None) (st\<lparr>heap := h2\<rparr>) = Inr (st\<lparr>heap := h3\<rparr>)"
        "link_at h3 = ?l(q \<mapsto> (e, None), p \<mapsto> (e, None))"
      using on_heap_set_paired [of "st\<lparr>heap := h2\<rparr>" p e r None] h2(2) h1(2) e(1) pq by auto
    have "disconnect_as s p st = Inr (st\<lparr>heap := h3\<rparr>)"
      using e(2) assms(3) Some by (simp add: disconnect_as_def c Let_def h1(1) h2(1) h3(1))
    moreover have "(link_at h3)(p := None) = ?l(q \<mapsto> (e, None), p := None)" by (auto simp: h3(2) fun_eq_iff)
    ultimately show ?thesis using links_unpair [OF L p e(1) [unfolded Some]] by simp
  qed
qed

section \<open>Every step keeps the invariant\<close>

lemma own_put: "own (put_ws s w st) = (own st)(s := {p. \<exists>u. om_get (connections w) u = Some p})"
  by (auto simp: own_def fun_eq_iff)

lemma own_heap [simp]: "own (st\<lparr>heap := h\<rparr>) = own st" "own (st\<lparr>next_ptr := n\<rparr>) = own st"
    "own (st\<lparr>next_connection_id := i\<rparr>) = own st" "own (st\<lparr>sent := x\<rparr>) = own st"
  by (simp_all add: own_def fun_eq_iff)

lemma tables_own: "tables st \<Longrightarrow> p \<in> own st s \<Longrightarrow> live (heap st) p \<and> p < next_ptr st"
  unfolding tables_def own_def by fast

lemma new_connection_simps [simp]:
  "link_at (heap (new_connection u st)) = (link_at (heap st))(next_ptr st \<mapsto> (GetAppEndPoint u, None))"
  "ws s (new_connection u st) = ws s st" "next_ptr (new_connection u st) = next_ptr st + 1"
  "waiting_connections (new_connection u st) = waiting_connections st" "own (new_connection u st) = own st"
  "stopped (new_connection u st) = stopped st"
  by (auto simp: new_connection_def Let_def link_at_def fun_eq_iff own_def)

lemma tables_new: "tables st \<Longrightarrow> next_ptr st \<notin> own st s"
  using tables_own [of st "next_ptr st" s] by blast

lemma establishedE:
  assumes "established s user u st = Inr (r, st')"
  obtains st1 where "connect_as s (next_ptr st) (new_connection u st) = Inr (True, st1)"
      and "st' = put_ws s ((ws s st1)\<lparr>connections := om_ins user (next_ptr st) (connections (ws s st1))\<rparr>) st1"
  | st1 where "connect_as s (next_ptr st) (new_connection u st) = Inr (False, st1)" and "st' = destroy (next_ptr st) st1"
  using assms unfolding established_def Let_def on_connection_as
  by (cases "connect_as s (next_ptr st) (new_connection u st)") (auto split: if_splits)

lemma connected_state:
  assumes "connect_as s (next_ptr st) (new_connection u st) = Inr (ok, st1)"
  shows "ws s' st1 = ws s' st" and "next_ptr st1 = Suc (next_ptr st)" and "stopped st1 = stopped st" and "own st1 = own st"
    and "live (heap st1) p \<longleftrightarrow> p = next_ptr st \<or> live (heap st) p"
proof -
  note f = frame_connect [OF assms]
  show "ws s' st1 = ws s' st"
    using f by (auto simp: frame_def)
  show "next_ptr st1 = Suc (next_ptr st)" "stopped st1 = stopped st" "own st1 = own st"
    using frame_fields [OF f] by simp_all
  show "live (heap st1) p \<longleftrightarrow> p = next_ptr st \<or> live (heap st) p"
    using frame_live [OF f, of p] by (simp add: live_def)
qed

lemma established_tables:
  assumes T: "tables st" and "om_get (connections (ws s st)) user = None" and e: "established s user u st = Inr (r, st')"
  shows "tables st'"
proof -
  have new: "om_get (connections (ws s' st)) v \<noteq> Some (next_ptr st)" for s' v
    using tables_new [OF T, of s'] by (auto simp: own_def)
  from e show ?thesis
  proof (cases rule: establishedE)
    case (1 st1)
    then show ?thesis using T new assms(2) connected_state [OF 1(1)] unfolding tables_def
      by (auto simp: om_ok_ins split: if_splits intro: less_SucI)
  next
    case (2 st1)
    then show ?thesis using T new connected_state [OF 2(1)] unfolding tables_def
      by (auto simp: destroy_def live_del split: if_splits intro: less_SucI)
  qed
qed

lemma closedE:
  assumes "closed s user st = Inr (r, st')"
  obtains "st' = st"
  | p st1 where "om_get (connections (ws s st)) user = Some p" and "disconnect_as s p st = Inr st1"
      and "st' = destroy p (put_ws s ((ws s st)\<lparr>connections := om_del user (connections (ws s st))\<rparr>) st1)"
proof (cases "om_get (connections (ws s st)) user")
  case None
  with assms have "st' = st" by (simp add: closed_def)
  then show ?thesis by (rule that(1))
next
  case (Some p)
  with assms obtain st1 where d: "disconnect_as s p st = Inr st1"
      "st' = destroy p (put_ws s ((ws s st1)\<lparr>connections := om_del user (connections (ws s st1))\<rparr>) st1)"
    by (auto simp: closed_def ret_iff on_disconnected_as Let_def)
  have "ws s st1 = ws s st" using frame_fields [OF frame_disconnect [OF d(1)]] by simp
  with d(2) have "st' = destroy p (put_ws s ((ws s st)\<lparr>connections := om_del user (connections (ws s st))\<rparr>) st1)" by simp
  with Some d(1) show ?thesis by (rule that(2))
qed

lemma own_closed:
  assumes "tables st" and "om_get (connections (ws s st)) user = Some p" and "own st1 = own st"
  shows "own (put_ws s ((ws s st)\<lparr>connections := om_del user (connections (ws s st))\<rparr>) st1) = (own st)(s := own st s - {p})"
proof -
  let ?c = "connections (ws s st)"
  have inj: "u = user" if "om_get ?c u = Some p" for u
    using assms(1,2) that unfolding tables_def by blast
  have "(\<exists>u. om_get (om_del user ?c) u = Some q) \<longleftrightarrow> (\<exists>u. om_get ?c u = Some q) \<and> q \<noteq> p" for q
  proof (cases "q = p")
    case True
    then show ?thesis using inj by auto
  next
    case False
    then have "om_get ?c user \<noteq> Some q" using assms(2) by simp
    with False show ?thesis by (metis om_get_del option.distinct(1))
  qed
  then have "{q. \<exists>u. om_get (om_del user ?c) u = Some q} = own st s - {p}"
    unfolding own_def by blast
  then show ?thesis by (simp add: own_put assms(3))
qed

lemma closed_tables:
  assumes T: "tables st" and "closed s user st = Inr (r, st')"
  shows "tables st'"
  using assms(2)
proof (cases rule: closedE)
  case (2 p st1)
  note f = frame_disconnect [OF 2(2)]
  have w: "ws s' st1 = ws s' st" "next_ptr st1 = next_ptr st" "live (heap st1) q = live (heap st) q" for s' q
    using f by (auto simp: frame_def)
  have "q \<noteq> p" if "om_get (connections (ws s' st)) u = Some q" "\<not> (s' = s \<and> u = user)" for s' u q
    using T 2(1) that unfolding tables_def by blast
  with T show ?thesis unfolding 2(3) tables_def
    by (auto simp: destroy_def live_del w om_ok_del split: if_splits)
qed (use T in simp)

lemma close_all:
  "\<forall>p \<in> set ps. live (heap st) p \<Longrightarrow>
    \<exists>h. foldR (\<lambda>p st. on_heap (Close p) st) ps st = Inr (st\<lparr>heap := h\<rparr>) \<and> link_at h = link_at (heap st)"
proof (induction ps arbitrary: st)
  case Nil
  then show ?case by (auto intro: exI [of _ "heap st"])
next
  case (Cons p ps)
  from Cons.prems obtain l where "link_at (heap st) p = Some l" by (auto simp: live_def)
  then obtain h where h: "on_heap (Close p) st = Inr (st\<lparr>heap := h\<rparr>)" "link_at h = link_at (heap st)"
    using on_heap_push [of st p l close_fragment] by (auto simp: sends)
  have "\<forall>q \<in> set ps. live (heap (st\<lparr>heap := h\<rparr>)) q" using Cons.prems h(2) by (simp add: live_def)
  from Cons.IH [OF this] h show ?case by auto
qed

lemma ws_Stop_ok:
  assumes T: "tables st"
  shows "\<exists>st'. ws_Stop s st = Inr st' \<and> tables st' \<and> service_stopped st' = service_stopped st
    \<and> remote_service_stopped st' = remote_service_stopped st \<and> destroyed st' = destroyed st \<and> registered st' = registered st
    \<and> (\<forall>s'. loop (ws s' st') = loop (ws s' st))"
proof -
  let ?st = "put_ws s ((ws s st)\<lparr>ws_stop := True\<rparr>) st"
  have "live (heap ?st) p" if "p \<in> set (map snd (connections (ws s st)))" for p
  proof -
    from that obtain u where "(u, p) \<in> set (connections (ws s st))" by auto
    moreover have "distinct (map fst (connections (ws s st)))"
      using T om.keys_distinct [of "connections (ws s st)"] by (simp add: tables_def om_keys_def)
    ultimately have "om_get (connections (ws s st)) u = Some p" by (simp add: om_get_def)
    with T show ?thesis by (auto simp: tables_def)
  qed
  with close_all [of "map snd (connections (ws s st))" ?st] obtain h where
    h: "ws_Stop s st = Inr (?st\<lparr>heap := h\<rparr>)" "link_at h = link_at (heap st)"
    by (auto simp: ws_Stop_def Let_def)
  have "tables (?st\<lparr>heap := h\<rparr>)"
    using T unfolding tables_def by (auto simp: h(2) live_def split: if_splits)
  with h show ?thesis by (intro exI [of _ "?st\<lparr>heap := h\<rparr>"]) simp
qed

lemma Stop_ok:
  assumes "tables st"
  shows "\<exists>st'. App2App_Stop st = Inr st' \<and> tables st' \<and> (st' = st \<or> stopped st')"
proof (cases "stopped st")
  case False
  have "tables (st\<lparr>remote_service_stopped := True\<rparr>)" using assms unfolding tables_def by simp
  from ws_Stop_ok [OF this, of Remote] False show ?thesis by (auto simp: App2App_Stop_def stopped_def)
qed (use assms in \<open>simp add: App2App_Stop_def\<close>)

lemma loop_ends_tables:
  assumes T: "tables st"
  shows "tables (loop_ends s failed st)"
proof (cases failed)
  case True
  have del: "live (fold om_del ps h) q \<longleftrightarrow> q \<notin> set ps \<and> live h q" for ps h q
    by (induction ps arbitrary: h) (auto simp: live_del)
  have "p \<notin> snd ` set (connections (ws s st))" if "om_get (connections (ws s' st)) u = Some p" "s' \<noteq> s" for s' u p
  proof
    assume "p \<in> snd ` set (connections (ws s st))"
    then obtain v where "(v, p) \<in> set (connections (ws s st))" by auto
    moreover have "distinct (map fst (connections (ws s st)))"
      using T om.keys_distinct [of "connections (ws s st)"] by (simp add: tables_def om_keys_def)
    ultimately have "om_get (connections (ws s st)) v = Some p" by (simp add: om_get_def)
    with T that show False unfolding tables_def by blast
  qed
  with True T show ?thesis unfolding tables_def
    by (auto simp: loop_ends_def Let_def del om_ok_def split: if_splits)
next
  case False
  with T show ?thesis unfolding tables_def by (auto simp: loop_ends_def Let_def om_ok_def split: if_splits)
qed

lemma LwsCallback_tables:
  assumes T: "tables st" and "fresh_session (ws s st) reason" and "LwsCallback s reason st = Inr (r, st')"
  shows "tables st' \<and> (\<forall>s'. loop (ws s' st') = loop (ws s' st)) \<and> stopped st' = stopped st"
proof (cases reason)
  case (CALLBACK_ESTABLISHED user u args)
  with assms have "om_get (connections (ws s st)) user = None" and e: "\<exists>u. established s user u st = Inr (r, st')"
    by (auto simp: LwsCallback_def)
  with established_tables [OF T] have "tables st'" by blast
  moreover from e have "(\<forall>s'. loop (ws s' st') = loop (ws s' st)) \<and> stopped st' = stopped st"
  proof (elim exE)
    fix u
    assume "established s user u st = Inr (r, st')"
    then show ?thesis
      by (cases rule: establishedE) (auto simp: connected_state destroy_def)
  qed
  ultimately show ?thesis by blast
next
  case (CALLBACK_CLOSED user)
  with assms have c: "closed s user st = Inr (r, st')" by (simp add: LwsCallback_def)
  from c have "(\<forall>s'. loop (ws s' st') = loop (ws s' st)) \<and> stopped st' = stopped st"
  proof (cases rule: closedE)
    case (2 p st1)
    have "ws s' st1 = ws s' st" for s' using frame_disconnect [OF 2(2)] by (auto simp: frame_def)
    with frame_fields [OF frame_disconnect [OF 2(2)]] show ?thesis by (simp add: 2(3) destroy_def)
  qed simp
  with closed_tables [OF T c] show ?thesis by blast
next
  case (CALLBACK_SERVER_WRITEABLE user ok)
  show ?thesis
  proof (cases "om_get (connections (ws s st)) user")
    case (Some p)
    with CALLBACK_SERVER_WRITEABLE assms(3) obtain c where c: "conn_deref (heap st) p = Inr c"
      by (auto simp: LwsCallback_def ret_iff)
    obtain rest out r0 where "drain ok (write_queue c) = (rest, out, r0)" by (cases "drain ok (write_queue c)") auto
    with Some CALLBACK_SERVER_WRITEABLE assms(3) c have st': "st' = st\<lparr>heap := om_ins p (c\<lparr>write_queue := rest\<rparr>) (heap st), sent := sent st @ map (Pair p) out\<rparr>"
      by (simp add: LwsCallback_def)
    have "link_at (heap st') = link_at (heap st)" using c by (auto simp: st' link_at_def fun_eq_iff conn_deref_Inr)
    with T show ?thesis by (auto simp: tables_def live_def st')
  qed (use CALLBACK_SERVER_WRITEABLE assms(3) T in \<open>simp add: LwsCallback_def\<close>)
next
  case (CALLBACK_RECEIVE user d a b c)
  show ?thesis
  proof (cases "om_get (connections (ws s st)) user")
    case (Some p)
    with CALLBACK_RECEIVE assms(3) have "on_fragment s p d a b c st = Inr st'" by (auto simp: LwsCallback_def ret_iff)
    then have f: "frame st st'" by (rule frame_fragment)
    have "ws s' st' = ws s' st" for s' using f by (auto simp: frame_def)
    with tables_frame [OF f T] frame_fields [OF f] show ?thesis by simp
  qed (use CALLBACK_RECEIVE assms(3) T in \<open>simp add: LwsCallback_def\<close>)
qed

text \<open>In a service that is intact every callback returns and keeps the pairing.\<close>

lemma established_linked:
  assumes T: "tables st" and L: "linked st" and "om_get (connections (ws s st)) user = None"
  shows "\<exists>r st'. established s user u st = Inr (r, st') \<and> linked st'"
proof -
  let ?p = "next_ptr st" and ?n = "new_connection u st"
  have "links (own st) (link_at (heap ?n)) (queue_of (waiting_connections ?n))"
    using links_alloc [OF L [unfolded linked_def], of ?p] tables_new [OF T] by simp
  from connect_links [OF this, of ?p "GetAppEndPoint u" s] tables_new [OF T] obtain ok st1 where
    c: "connect_as s ?p ?n = Inr (ok, st1)" and
    l: "if ok then links ((own st)(s := insert ?p (own st s))) (link_at (heap st1)) (queue_of (waiting_connections st1)) else st1 = ?n"
    by auto
  note st1 = connected_state [OF c]
  show ?thesis
  proof (cases ok)
    case True
    let ?st = "put_ws s ((ws s st1)\<lparr>connections := om_ins user ?p (connections (ws s st1))\<rparr>) st1"
    have "established s user u st = Inr (0, ?st)" using c True by (simp add: established_def on_connection_as Let_def)
    moreover have "{q. \<exists>v. om_get (om_ins user ?p (connections (ws s st))) v = Some q} = insert ?p (own st s)"
      using assms(3) by (auto simp: own_def) (metis option.distinct(1))
    then have "own ?st = (own st)(s := insert ?p (own st s))" by (simp add: own_put st1)
    ultimately show ?thesis using l True by (simp add: linked_def)
  next
    case False
    then have "established s user u st = Inr (-1, destroy ?p ?n)"
      using c l by (simp add: established_def on_connection_as Let_def)
    moreover have "own (destroy ?p ?n) = own st" by (simp add: destroy_def)
    moreover have "links (own st) ((link_at (heap ?n))(?p := None)) (queue_of (waiting_connections ?n))"
      using links_alloc [OF L [unfolded linked_def], of ?p None] tables_new [OF T] by simp
    ultimately show ?thesis by (simp add: linked_def destroy_def link_del)
  qed
qed

lemma closed_linked:
  assumes T: "tables st" and L: "linked st" and "\<not> stopped st"
  shows "\<exists>r st'. closed s user st = Inr (r, st') \<and> linked st'"
proof (cases "om_get (connections (ws s st)) user")
  case None
  with L show ?thesis by (simp add: closed_def)
next
  case (Some p)
  then have "p \<in> own st s" by (auto simp: own_def)
  from disconnect_links [OF L [unfolded linked_def] this assms(3)] obtain st1 where
    d: "disconnect_as s p st = Inr st1" and
    l: "links ((own st)(s := own st s - {p})) ((link_at (heap st1))(p := None)) (queue_of (waiting_connections st1))" by blast
  have w: "ws s st1 = ws s st" "own st1 = own st" using frame_fields [OF frame_disconnect [OF d]] by auto
  let ?st = "put_ws s ((ws s st)\<lparr>connections := om_del user (connections (ws s st))\<rparr>) st1"
  have "closed s user st = Inr (0, destroy p ?st)" using Some d by (simp add: closed_def on_disconnected_as w Let_def)
  moreover have "own (destroy p ?st) = (own st)(s := own st s - {p})"
    using own_closed [OF T Some w(2)] by (simp add: destroy_def)
  ultimately show ?thesis using l by (simp add: linked_def destroy_def link_del)
qed

lemma fragment_linked:
  assumes L: "linked st" and p: "p \<in> own st s"
  shows "\<exists>st'. on_fragment s p d a b c st = Inr st' \<and> linked st'"
proof -
  from links_own [OF L [unfolded linked_def] p] obtain e r where
    e: "link_at (heap st) p = Some (e, r)" "\<And>q. r = Some q \<Longrightarrow> link_at (heap st) q = Some (e, Some p)" by blast
  from link_deref [OF e(1)] obtain k where k: "conn_deref (heap st) p = Inr k" "paired_connection k = r" by blast
  show ?thesis
  proof (cases "stopped st \<or> r = None")
    case True
    with L show ?thesis
      by (cases s) (auto simp: on_fragment_def OnFragmentReceived_def OnRemoteFragmentReceived_def k)
  next
    case False
    then obtain q where q: "r = Some q" by auto
    from on_heap_push [OF e(2) [OF q], of "mk_fragment d a b c"] obtain h where
      h: "on_heap (SendFragment d a b c q) st = Inr (st\<lparr>heap := h\<rparr>)" "link_at h = link_at (heap st)" by (auto simp: sends)
    then have "on_fragment s p d a b c st = Inr (st\<lparr>heap := h\<rparr>)"
      using False q k by (cases s) (simp_all add: on_fragment_def OnFragmentReceived_def OnRemoteFragmentReceived_def)
    with L h(2) show ?thesis by (simp add: linked_def)
  qed
qed

lemma LwsCallback_linked:
  assumes T: "tables st" and L: "linked st" and i: "\<not> stopped st" and "fresh_session (ws s st) reason"
  shows "\<exists>r st'. LwsCallback s reason st = Inr (r, st') \<and> linked st'"
proof (cases reason)
  case (CALLBACK_ESTABLISHED user u args)
  with established_linked [OF T L] assms(4) show ?thesis by (simp add: LwsCallback_def)
next
  case (CALLBACK_CLOSED user)
  with closed_linked [OF T L i] show ?thesis by (simp add: LwsCallback_def)
next
  case (CALLBACK_SERVER_WRITEABLE user ok)
  show ?thesis
  proof (cases "om_get (connections (ws s st)) user")
    case (Some p)
    with T obtain c where c: "om_get (heap st) p = Some c" by (fastforce simp: tables_def live_def link_at_def)
    have "link_at (om_ins p (c\<lparr>write_queue := q\<rparr>) (heap st)) = link_at (heap st)" for q
      using c by (auto simp: link_at_def fun_eq_iff)
    with Some c L CALLBACK_SERVER_WRITEABLE show ?thesis
      by (auto simp: LwsCallback_def conn_deref_def linked_def split: prod.splits)
  qed (use CALLBACK_SERVER_WRITEABLE L in \<open>simp add: LwsCallback_def\<close>)
next
  case (CALLBACK_RECEIVE user d a b c)
  show ?thesis
  proof (cases "om_get (connections (ws s st)) user")
    case (Some p)
    then have "p \<in> own st s" by (auto simp: own_def)
    from fragment_linked [OF L this, of d a b c] obtain st' where "on_fragment s p d a b c st = Inr st'" "linked st'" by blast
    with Some CALLBACK_RECEIVE show ?thesis by (simp add: LwsCallback_def)
  qed (use CALLBACK_RECEIVE L in \<open>simp add: LwsCallback_def\<close>)
qed

section \<open>Runs of the service\<close>

lemma OnServiceStopped_cases:
  assumes "tables st" and "OnServiceStopped st = Inr st'" and "registered st"
  shows "tables st' \<and> \<not> remote_service_stopped st \<and> service_stopped st' \<and> remote_service_stopped st'
    \<and> registered st' = registered st \<and> destroyed st' = destroyed st \<and> (\<forall>s. loop (ws s st') = loop (ws s st))"
proof -
  have "tables (st\<lparr>service_stopped := True, remote_service_stopped := True\<rparr>)" using assms(1) unfolding tables_def by simp
  from ws_Stop_ok [OF this, of Remote] assms(2,3) show ?thesis
    by (auto simp: OnServiceStopped_def Let_def ret_iff mutex_unlock_def manager_OnServiceStopped_def split: if_splits)
qed

lemma OnRemoteServiceStopped_cases:
  assumes "tables st" and "OnRemoteServiceStopped st = Inr st'" and "registered st"
  shows "tables st' \<and> \<not> service_stopped st \<and> service_stopped st' \<and> remote_service_stopped st'
    \<and> registered st' = registered st \<and> destroyed st' = destroyed st \<and> (\<forall>s. loop (ws s st') = loop (ws s st))"
proof -
  have "tables (st\<lparr>remote_service_stopped := True, service_stopped := True\<rparr>)" using assms(1) unfolding tables_def by simp
  from ws_Stop_ok [OF this, of Local] assms(2,3) show ?thesis
    by (auto simp: OnRemoteServiceStopped_def Let_def ret_iff mutex_unlock_def manager_OnServiceStopped_def split: if_splits)
qed

text \<open>The manager still holds the service, and at most one of its loops has been notified.\<close>

definition in_service :: "app2app \<Rightarrow> bool" where
  "in_service st = (registered st \<and> \<not> destroyed st
     \<and> (loop (ws Local st) = Finished \<longrightarrow> service_stopped st)
     \<and> (loop (ws Remote st) = Finished \<longrightarrow> remote_service_stopped st)
     \<and> \<not> (loop (ws Local st) = Finished \<and> loop (ws Remote st) = Finished))"

lemma callback_fields:
  "LwsCallback s reason st = Inr (r, st') \<Longrightarrow> registered st' = registered st \<and> destroyed st' = destroyed st
    \<and> service_stopped st' = service_stopped st \<and> remote_service_stopped st' = remote_service_stopped st"
proof (cases reason)
  case (CALLBACK_ESTABLISHED user u args)
  assume "LwsCallback s reason st = Inr (r, st')"
  with CALLBACK_ESTABLISHED obtain u where "established s user u st = Inr (r, st')" by (auto simp: LwsCallback_def)
  then show ?thesis
    by (cases rule: establishedE) (auto simp: destroy_def new_connection_def Let_def frame_def dest!: frame_connect)
next
  case (CALLBACK_CLOSED user)
  assume "LwsCallback s reason st = Inr (r, st')"
  with CALLBACK_CLOSED have "closed s user st = Inr (r, st')" by (simp add: LwsCallback_def)
  then show ?thesis by (cases rule: closedE) (auto simp: destroy_def frame_def dest!: frame_disconnect)
next
  case (CALLBACK_SERVER_WRITEABLE user ok)
  assume "LwsCallback s reason st = Inr (r, st')"
  with CALLBACK_SERVER_WRITEABLE show ?thesis by (auto simp: LwsCallback_def ret_iff case_prod_beta split: option.splits)
next
  case (CALLBACK_RECEIVE user d a b c)
  assume "LwsCallback s reason st = Inr (r, st')"
  with CALLBACK_RECEIVE show ?thesis
    by (auto simp: LwsCallback_def ret_iff frame_def split: option.splits dest!: frame_fragment)
qed

definition a2a_inv :: "app2app \<Rightarrow> bool" where
  "a2a_inv st = (a2a_ok st \<and> in_service st)"

lemma intact_loop: "intact st \<Longrightarrow> loop (ws s st) = Running \<or> loop (ws s st) = NotStarted"
  by (simp add: intact_def)

lemma inv_callback:
  assumes "a2a_inv st" and "fresh_session (ws s st) reason" and "LwsCallback s reason st = Inr (r, st')"
  shows "a2a_inv st'"
proof -
  from assms(1) have T: "tables st" and I: "intact st \<longrightarrow> linked st" and S: "in_service st"
    by (auto simp: a2a_inv_def a2a_ok_def)
  from LwsCallback_tables [OF T assms(2,3)] have t: "tables st'" "\<And>s'. loop (ws s' st') = loop (ws s' st)" "stopped st' = stopped st" by auto
  have "linked st'" if "intact st'"
  proof -
    from that t have "intact st" by (simp add: intact_def)
    then have "linked st" "\<not> stopped st" using I by (simp_all add: intact_def)
    from LwsCallback_linked [OF T this assms(2)] assms(3) show ?thesis by auto
  qed
  moreover have "in_service st'" using S callback_fields [OF assms(3)] t(2) by (simp add: in_service_def)
  ultimately show ?thesis using t(1) by (simp add: a2a_inv_def a2a_ok_def)
qed

lemma inv_step:
  assumes "a2a_inv st" and "a2a_step st e = Inr st'"
  shows "a2a_inv st'"
proof -
  from assms(1) have T: "tables st" and S: "in_service st" by (auto simp: a2a_inv_def a2a_ok_def)
  show ?thesis
  proof (cases e)
    case (Callback s reason)
    with assms show ?thesis
      by (auto simp: a2a_step_def ret_iff intro: inv_callback split: if_splits)
  next
    case StopService
    with assms(2) S have "App2App_Stop st = Inr st'" by (simp add: a2a_step_def in_service_def)
    with Stop_ok [OF T] have "tables st'" "st' = st \<or> stopped st'" by auto
    moreover have "in_service st'"
    proof (cases "stopped st")
      case False
      have "tables (st\<lparr>remote_service_stopped := True\<rparr>)" using T unfolding tables_def by simp
      from ws_Stop_ok [OF this, of Remote] False \<open>App2App_Stop st = Inr st'\<close> S show ?thesis
        by (auto simp: App2App_Stop_def stopped_def in_service_def)
    qed (use \<open>App2App_Stop st = Inr st'\<close> S in \<open>simp add: App2App_Stop_def\<close>)
    ultimately show ?thesis using assms(1) by (auto simp: a2a_inv_def a2a_ok_def intact_def)
  next
    case (LoopEnds s failed)
    show ?thesis
    proof (cases "st' = st")
      case False
      with LoopEnds assms(2) have st': "st' = loop_ends s failed st" "loop (ws s st) = Running"
        by (auto simp: a2a_step_def split: if_splits)
      with False have x: "loop (ws s st') = Exiting" by (auto simp: loop_ends_def Let_def split: if_splits)
      moreover have "\<And>s'. s' \<noteq> s \<Longrightarrow> loop (ws s' st') = loop (ws s' st)" "registered st' = registered st" "destroyed st' = destroyed st"
        "service_stopped st' = service_stopped st" "remote_service_stopped st' = remote_service_stopped st"
        by (auto simp: st'(1) loop_ends_def Let_def)
      ultimately have "in_service st'" using S by (cases s) (auto simp: in_service_def)
      moreover have "\<not> intact st'" using intact_loop [of st' s] x by auto
      ultimately show ?thesis using loop_ends_tables [OF T] st'(1) by (simp add: a2a_inv_def a2a_ok_def)
    qed (use assms(1) in simp)
  next
    case (Notify s)
    show ?thesis
    proof (cases "loop (ws s st) = Exiting")
      case True
      with Notify assms(2) obtain st1 where
        n: "(case s of Local \<Rightarrow> OnServiceStopped st | Remote \<Rightarrow> OnRemoteServiceStopped st) = Inr st1"
          "st' = put_ws s ((ws s st1)\<lparr>loop := Finished\<rparr>) st1" by (auto simp: a2a_step_def ret_iff)
      have r: "registered st" using S by (simp add: in_service_def)
      have "tables st1 \<and> (case s of Local \<Rightarrow> \<not> remote_service_stopped st | Remote \<Rightarrow> \<not> service_stopped st)
          \<and> service_stopped st1 \<and> remote_service_stopped st1 \<and> registered st1 = registered st \<and> destroyed st1 = destroyed st
          \<and> (\<forall>s. loop (ws s st1) = loop (ws s st))"
        using n(1) OnServiceStopped_cases [OF T _ r] OnRemoteServiceStopped_cases [OF T _ r] by (cases s) auto
      then have "tables st'" "in_service st'" "\<not> intact st'"
        using S n(2) by (cases s; auto simp: tables_def in_service_def intact_def stopped_def split: if_splits)+
      then show ?thesis by (simp add: a2a_inv_def a2a_ok_def)
    qed (use Notify assms in \<open>simp add: a2a_step_def\<close>)
  qed
qed

interpretation a2a: event_system a2a_step a2a_inv
  by unfold_locales (rule inv_step)

lemma inv_new: "a2a_inv (App2App_new b)"
proof -
  have w: "ws s (App2App_new b) = (case s of Local \<Rightarrow> \<lparr>connections = [], ws_stop = False, loop = Running\<rparr>
      | Remote \<Rightarrow> \<lparr>connections = [], ws_stop = \<not> b, loop = (if b then Running else NotStarted)\<rparr>)" for s
    by (cases s) (simp_all add: ws_def App2App_new_def)
  have c: "connections (ws s (App2App_new b)) = []" for s by (cases s) (simp_all add: w)
  have "tables (App2App_new b)"
    unfolding tables_def c by (simp add: App2App_new_def live_def link_at_def om_ok_def)
  moreover have "linked (App2App_new b)"
    unfolding linked_def own_def c by (simp add: links_def App2App_new_def queue_of_def)
  moreover have "in_service (App2App_new b)" by (simp add: in_service_def w) (simp add: App2App_new_def)
  ultimately show ?thesis by (simp add: a2a_inv_def a2a_ok_def)
qed

lemma reachable_inv: "run a2a_step (App2App_new b) es = Inr st \<Longrightarrow> a2a_inv st"
  by (rule a2a.run_inv [OF inv_new])

section \<open>Callbacks after a stop\<close>

lemma callback_stopped:
  assumes T: "tables st" and "stopped st"
  shows "\<exists>r st'. LwsCallback s reason st = Inr (r, st')"
proof (cases reason)
  case (CALLBACK_ESTABLISHED user u args)
  have "connect_as s (next_ptr st) (new_connection w st) = Inr (False, new_connection w st)" for w
    using assms(2) link_deref [of "heap (new_connection w st)" "next_ptr st" "GetAppEndPoint w" None]
    by (auto simp: connect_as_def Let_def)
  then show ?thesis by (simp add: CALLBACK_ESTABLISHED LwsCallback_def established_def on_connection_as Let_def)
next
  case (CALLBACK_CLOSED user)
  show ?thesis
  proof (cases "om_get (connections (ws s st)) user")
    case (Some p)
    with T obtain c where "om_get (heap st) p = Some c" by (fastforce simp: tables_def live_def link_at_def)
    then have "disconnect_as s p st = Inr st" using assms(2) by (simp add: disconnect_as_def conn_deref_def Let_def)
    with Some CALLBACK_CLOSED show ?thesis by (simp add: LwsCallback_def closed_def on_disconnected_as Let_def)
  qed (simp add: CALLBACK_CLOSED LwsCallback_def closed_def)
next
  case (CALLBACK_SERVER_WRITEABLE user ok)
  show ?thesis
  proof (cases "om_get (connections (ws s st)) user")
    case (Some p)
    with T obtain c where "om_get (heap st) p = Some c" by (fastforce simp: tables_def live_def link_at_def)
    with Some CALLBACK_SERVER_WRITEABLE show ?thesis by (simp add: LwsCallback_def conn_deref_def case_prod_beta)
  qed (simp add: CALLBACK_SERVER_WRITEABLE LwsCallback_def)
next
  case (CALLBACK_RECEIVE user d a b c)
  have "on_fragment s p d a b c st = Inr st" for p
    using assms(2) by (cases s) (simp_all add: on_fragment_def OnFragmentReceived_def OnRemoteFragmentReceived_def)
  then show ?thesis by (simp add: CALLBACK_RECEIVE LwsCallback_def split: option.split)
qed

section \<open>Properties\<close>

text \<open>A local and a remote connection of the same endpoint.\<close>

definition demo_pair :: "a2a_event list" where
  "demo_pair = [Callback Local (CALLBACK_ESTABLISHED 1 ''/hbbtv/x'' []), Callback Remote (CALLBACK_ESTABLISHED 9 ''/hbbtv/x'' [])]"

definition after_a2a :: "a2a_event list \<Rightarrow> (app2app \<Rightarrow> bool) \<Rightarrow> bool" where
  "after_a2a es P = returns (run a2a_step (App2App_new True) es) P"

lemma after_a2aE:
  assumes "after_a2a es P"
  obtains st where "run a2a_step (App2App_new True) es = Inr st" and "P st"
  using assms by (auto simp: after_a2a_def elim: returnsE)

definition intact_now :: "app2app \<Rightarrow> bool" where
  "intact_now st = (\<not> stopped st \<and> loop (local_ws st) \<in> {Running, NotStarted} \<and> loop (remote_ws st) \<in> {Running, NotStarted})"

lemma intact_now: "intact st \<longleftrightarrow> intact_now st"
proof -
  have "(\<forall>s. P (ws s st)) \<longleftrightarrow> P (local_ws st) \<and> P (remote_ws st)" for P
    by (metis (full_types) side.exhaust side.simps(3,4) ws_def)
  from this [of "\<lambda>w. loop w = Running \<or> loop w = NotStarted"] show ?thesis
    by (auto simp: intact_def intact_now_def)
qed

text \<open>
  C33. In every state the service can reach while none of its two halves stops or fails, connections are
  paired one to one, a local with a remote one, and only with one of the same endpoint; the queue of an
  endpoint holds open connections of its side that have no partner; and no two connections that
  could be partners both wait.
\<close>

theorem a2a_pairing:
  assumes "run a2a_step (App2App_new b) es = Inr st" and "intact st"
  shows "(\<forall>s. \<forall>p \<in> own st s. \<exists>c. om_get (heap st) p = Some c \<and>
      (\<forall>q. paired_connection c = Some q \<longrightarrow> q \<in> own st (other s) \<and>
        (\<exists>d. om_get (heap st) q = Some d \<and> paired_connection d = Some p
          \<and> GetAppEndPoint (conn_uri d) = GetAppEndPoint (conn_uri c))))
    \<and> (\<forall>s e. \<forall>p \<in> set (queue_of (waiting_connections st) (type_of s @ e)). p \<in> own st s
        \<and> (\<exists>c. om_get (heap st) p = Some c \<and> paired_connection c = None \<and> GetAppEndPoint (conn_uri c) = e))
    \<and> (\<forall>e. queue_of (waiting_connections st) (type_of Local @ e) = [] \<or> queue_of (waiting_connections st) (type_of Remote @ e) = [])"
proof -
  have L: "links (own st) (link_at (heap st)) (queue_of (waiting_connections st))"
    using reachable_inv [OF assms(1)] assms(2) by (simp add: a2a_inv_def a2a_ok_def linked_def)
  have pair: "\<exists>c. om_get (heap st) p = Some c \<and>
      (\<forall>q. paired_connection c = Some q \<longrightarrow> q \<in> own st (other s) \<and>
        (\<exists>d. om_get (heap st) q = Some d \<and> paired_connection d = Some p
          \<and> GetAppEndPoint (conn_uri d) = GetAppEndPoint (conn_uri c)))" if "p \<in> own st s" for s p
    using links_own [OF L that] by (auto simp: link_at_def)
  have waits: "p \<in> own st s \<and> (\<exists>c. om_get (heap st) p = Some c \<and> paired_connection c = None \<and> GetAppEndPoint (conn_uri c) = e)"
    if "p \<in> set (queue_of (waiting_connections st) (type_of s @ e))" for s e p
    using links_queue(2) [OF L that] by (auto simp: link_at_def)
  show ?thesis using pair waits links_one [OF L] by blast
qed

theorem a2a_pairing_witness:
  "\<exists>st c d. run a2a_step (App2App_new True) demo_pair = Inr st \<and> om_get (heap st) 0 = Some c \<and> paired_connection c = Some 1
    \<and> om_get (heap st) 1 = Some d \<and> paired_connection d = Some 0"
proof -
  have "after_a2a demo_pair (\<lambda>st. intact_now st \<and> om_get (connections (local_ws st)) 1 = Some 0
      \<and> map_option paired_connection (om_get (heap st) 0) = Some (Some 1))" by code_simp
  then obtain st c where st: "run a2a_step (App2App_new True) demo_pair = Inr st" "intact st"
    "om_get (connections (local_ws st)) 1 = Some 0" "om_get (heap st) 0 = Some c" "paired_connection c = Some 1"
    by (auto simp: intact_now elim!: after_a2aE)
  have "0 \<in> own st Local" using st(3) by (auto simp: own_def ws_def)
  with a2a_pairing [OF st(1,2)] st(4,5) have "\<exists>d. om_get (heap st) 1 = Some d \<and> paired_connection d = Some 0" by fastforce
  with st show ?thesis by blast
qed

lemma callback_result:
  assumes "run a2a_step (App2App_new b) es = Inr st" and "stopped st \<or> intact st"
  shows "\<exists>st'. a2a_step st (Callback s reason) = Inr st'"
proof (cases "loop (ws s st) = Running \<and> fresh_session (ws s st) reason")
  case True
  have ok: "tables st" "intact st \<longrightarrow> linked st" using reachable_inv [OF assms(1)] by (auto simp: a2a_inv_def a2a_ok_def)
  have "\<exists>r st'. LwsCallback s reason st = Inr (r, st')"
  proof (cases "stopped st")
    case True
    with ok show ?thesis by (intro callback_stopped)
  next
    case False
    with assms(2) ok True LwsCallback_linked [of st s reason] show ?thesis by blast
  qed
  with True show ?thesis by (auto simp: a2a_step_def)
qed (auto simp: a2a_step_def)

text \<open>
  C34. No callback follows a dangling pointer: in every reachable state, once a stop has begun or as long
  as no loop has ended, no callback of libwebsockets uses a connection that has been destroyed, although connections are
  destroyed by both services and the pairing is by plain pointers. Whether a callback has to wait for a mutex is not part
  of the model: a callback is one step.
\<close>

theorem a2a_no_dangling:
  assumes "run a2a_step (App2App_new b) es = Inr st" and "stopped st \<or> intact st"
  shows "a2a_step st (Callback s reason) \<noteq> Inl UseAfterFree"
  using callback_result [OF assms, of s reason] by auto

theorem a2a_no_dangling_witness:
  "\<exists>st. run a2a_step (App2App_new True) demo_pair = Inr st \<and> a2a_step st (Callback Local (CALLBACK_CLOSED 1)) \<noteq> Inl UseAfterFree"
proof -
  have "after_a2a demo_pair intact_now" by code_simp
  then obtain st where st: "run a2a_step (App2App_new True) demo_pair = Inr st" "intact st"
    by (auto simp: intact_now elim!: after_a2aE)
  from a2a_no_dangling [OF st(1)] st show ?thesis by blast
qed

lemma receive_paired:
  assumes "om_get (connections (ws s st)) user = Some p" and "om_get (heap st) p = Some c" and "\<not> stopped st"
    and "paired_connection c = Some q"
  shows "LwsCallback s (CALLBACK_RECEIVE user d a b e) st =
    bindR (on_heap (SendFragment d a b e q) st) (\<lambda>st. Inr (0, st))"
  using assms by (cases s) (simp_all add: LwsCallback_def on_fragment_def OnFragmentReceived_def OnRemoteFragmentReceived_def conn_deref_def)

text \<open>
  C35. A fragment that arrives on a connection is forwarded unchanged to its partner, which has the same
  endpoint, and to nobody else: the step appends it to the write queue of the partner and changes nothing
  else in the service; without a partner it is dropped.
\<close>

theorem a2a_forward:
  assumes "run a2a_step (App2App_new b) es = Inr st" and "intact st" and "loop (ws s st) = Running"
    and "om_get (connections (ws s st)) user = Some p" and "om_get (heap st) p = Some c"
  shows "case paired_connection c of
      None \<Rightarrow> a2a_step st (Callback s (CALLBACK_RECEIVE user d is_first is_final is_binary)) = Inr st
    | Some q \<Rightarrow> \<exists>k. om_get (heap st) q = Some k \<and> GetAppEndPoint (conn_uri k) = GetAppEndPoint (conn_uri c)
        \<and> a2a_step st (Callback s (CALLBACK_RECEIVE user d is_first is_final is_binary))
          = Inr (st\<lparr>heap := om_ins q (k\<lparr>write_queue := write_queue k @ [mk_fragment d is_first is_final is_binary]\<rparr>) (heap st)\<rparr>)"
proof -
  have L: "links (own st) (link_at (heap st)) (queue_of (waiting_connections st))" and "\<not> stopped st"
    using reachable_inv [OF assms(1)] assms(2) by (simp_all add: a2a_inv_def a2a_ok_def linked_def intact_def)
  have "p \<in> own st s" using assms(4) by (auto simp: own_def)
  from links_own [OF L this] assms(5) have q: "link_at (heap st) q = Some (GetAppEndPoint (conn_uri c), Some p)"
    if "paired_connection c = Some q" for q using that by (auto simp: link_at_def)
  show ?thesis
  proof (cases "paired_connection c")
    case None
    with assms \<open>\<not> stopped st\<close> show ?thesis
      by (cases s) (simp_all add: a2a_step_def LwsCallback_def on_fragment_def OnFragmentReceived_def
          OnRemoteFragmentReceived_def conn_deref_def)
  next
    case (Some r)
    from q [OF this] obtain k where k: "om_get (heap st) r = Some k" "GetAppEndPoint (conn_uri k) = GetAppEndPoint (conn_uri c)"
      by (auto simp: link_at_def)
    with Some assms(3) show ?thesis
      by (simp add: a2a_step_def receive_paired [OF assms(4,5) \<open>\<not> stopped st\<close> Some] on_heap_def sends push_fragment_def conn_deref_def)
  qed
qed

theorem a2a_forward_witness:
  "\<exists>st k. run a2a_step (App2App_new True) demo_pair = Inr st \<and> om_get (heap st) 1 = Some k
    \<and> a2a_step st (Callback Local (CALLBACK_RECEIVE 1 ''hi'' True True False))
      = Inr (st\<lparr>heap := om_ins 1 (k\<lparr>write_queue := write_queue k @ [mk_fragment ''hi'' True True False]\<rparr>) (heap st)\<rparr>)"
proof -
  have "after_a2a demo_pair (\<lambda>st. intact_now st \<and> loop (ws Local st) = Running \<and> om_get (connections (ws Local st)) 1 = Some 0
      \<and> map_option paired_connection (om_get (heap st) 0) = Some (Some 1))" by code_simp
  then obtain st c where st: "run a2a_step (App2App_new True) demo_pair = Inr st" "intact st" "loop (ws Local st) = Running"
    "om_get (connections (ws Local st)) 1 = Some 0" "om_get (heap st) 0 = Some c" "paired_connection c = Some 1"
    by (auto simp: intact_now elim!: after_a2aE)
  from a2a_forward [OF st(1-5), of "''hi''" True True False] st(1,6) show ?thesis by auto
qed

text \<open>
  When the loop of one side fails it destroys its connections before the service is told: a fragment
  that reaches the partner of one of them in between is forwarded to a destroyed connection.
\<close>

theorem a2a_failed_loop:
  assumes "run a2a_step (App2App_new b) es = Inr st" and "intact st" and "\<And>s. loop (ws s st) = Running"
    and "om_get (connections (ws s st)) user = Some p" and "om_get (heap st) p = Some c" and "paired_connection c = Some q"
  shows "run a2a_step st [LoopEnds (other s) True, Callback s (CALLBACK_RECEIVE user d is_first is_final is_binary)]
    = Inl UseAfterFree"
proof -
  have T: "tables st" and L: "links (own st) (link_at (heap st)) (queue_of (waiting_connections st))" and "\<not> stopped st"
    using reachable_inv [OF assms(1)] assms(2) by (simp_all add: a2a_inv_def a2a_ok_def linked_def intact_def)
  have p: "p \<in> own st s" using assms(4) by (auto simp: own_def)
  from links_own [OF L p] assms(5,6) have q: "q \<in> own st (other s)" by (auto simp: link_at_def)
  let ?st = "loop_ends (other s) True st" and ?ps = "map snd (connections (ws (other s) st))"
  have snd_own: "x \<in> set (map snd (connections (ws t st))) \<longleftrightarrow> x \<in> own st t" for x t
  proof -
    have "distinct (map fst (connections (ws t st)))"
      using T om.keys_distinct [of "connections (ws t st)"] by (simp add: tables_def om_keys_def)
    then show ?thesis by (auto simp: own_def om_get_def image_iff) (metis snd_conv)
  qed
  have get: "om_get (fold om_del ps h) x = (if x \<in> set ps then None else om_get h x)" for ps h x
    by (induction ps arbitrary: h) auto
  have "p \<notin> set ?ps" unfolding snd_own by (rule links_disjoint [OF L p])
  moreover have "s \<noteq> other s" by (cases s) simp_all
  ultimately have 1: "om_get (heap ?st) p = Some c" "om_get (heap ?st) q = None" "\<not> stopped ?st" "ws s ?st = ws s st"
    using assms(5) q snd_own \<open>\<not> stopped st\<close> by (auto simp: loop_ends_def Let_def get side_other)
  have 2: "a2a_step st (LoopEnds (other s) True) = Inr ?st" using assms(3) by (simp add: a2a_step_def)
  have "a2a_step ?st (Callback s (CALLBACK_RECEIVE user d is_first is_final is_binary)) = Inl UseAfterFree"
    using assms(3,4) 1 by (simp add: a2a_step_def receive_paired [of s ?st user p c q] assms(6) on_heap_def sends push_fragment_def conn_deref_def)
  with 2 show ?thesis by simp
qed

theorem a2a_failed_loop_witness:
  "\<exists>st. run a2a_step (App2App_new True) demo_pair = Inr st \<and>
    run a2a_step st [LoopEnds Remote True, Callback Local (CALLBACK_RECEIVE 1 ''hi'' True True False)] = Inl UseAfterFree"
proof -
  have "after_a2a demo_pair (\<lambda>st. intact_now st \<and> loop (ws Local st) = Running \<and> loop (ws Remote st) = Running
      \<and> om_get (connections (ws Local st)) 1 = Some 0 \<and> map_option paired_connection (om_get (heap st) 0) = Some (Some 1))" by code_simp
  then obtain st c where st: "run a2a_step (App2App_new True) demo_pair = Inr st" "intact st" "loop (ws Local st) = Running"
    "loop (ws Remote st) = Running"
    "om_get (connections (ws Local st)) 1 = Some 0" "om_get (heap st) 0 = Some c" "paired_connection c = Some 1"
    by (auto simp: intact_now elim!: after_a2aE)
  have "loop (ws s st) = Running" for s using st(3,4) by (cases s) simp_all
  from a2a_failed_loop [OF st(1,2) this st(5-7), of "''hi''" True True False] st(1) show ?thesis by auto
qed

text \<open>
  C36. The service never stops without a fault. In no reachable state have both loops notified the service, and
  the one that comes second makes the manager destroy the service while its handler still holds the
  mutex of the service, which it then unlocks.
\<close>

theorem a2a_stop_faults:
  assumes "run a2a_step (App2App_new b) es = Inr st"
  shows "\<not> (loop (ws Local st) = Finished \<and> loop (ws Remote st) = Finished)
    \<and> (\<forall>s. loop (ws s st) = Exiting \<longrightarrow> loop (ws (other s) st) = Finished \<longrightarrow> a2a_step st (Notify s) = Inl UseAfterFree)"
proof -
  have S: "in_service st" using reachable_inv [OF assms] by (simp add: a2a_inv_def)
  have "a2a_step st (Notify s) = Inl UseAfterFree"
    if "loop (ws s st) = Exiting" "loop (ws (other s) st) = Finished" for s
    using S that by (cases s) (simp_all add: a2a_step_def in_service_def OnServiceStopped_def OnRemoteServiceStopped_def
        Let_def manager_OnServiceStopped_def mutex_unlock_def)
  with S show ?thesis by (auto simp: in_service_def)
qed

theorem a2a_stop_faults_witness:
  "\<exists>st. run a2a_step (App2App_new True) [StopService, LoopEnds Remote False, Notify Remote, LoopEnds Local False] = Inr st
    \<and> a2a_step st (Notify Local) = Inl UseAfterFree"
proof -
  have "after_a2a [StopService, LoopEnds Remote False, Notify Remote, LoopEnds Local False]
      (\<lambda>st. loop (ws Local st) = Exiting \<and> loop (ws (other Local) st) = Finished)" by code_simp
  then obtain st where st: "run a2a_step (App2App_new True) [StopService, LoopEnds Remote False, Notify Remote, LoopEnds Local False] = Inr st"
    "loop (ws Local st) = Exiting" "loop (ws (other Local) st) = Finished" by (auto elim: after_a2aE)
  from a2a_stop_faults [OF st(1)] st show ?thesis by blast
qed

end
