(* ===== verification/WallClock.thy ===== *)
theory WallClock
  imports CppStrings OrderedMap
begin

text \<open>
  The wall clock protocol of the media synchroniser: \<open>network_services/UdpSocketService.cpp\<close> (the queues of
  datagrams and the callback of libwebsockets) and \<open>media_synchroniser/WallClockService.cpp\<close> (messages, their
  wire format and the answers of the server).

  The wire format is the memory of a C struct whose words went through \<open>htonl\<close>; both are modelled for a
  little-endian and a big-endian host. The readings of the clocks are parameters, as are the precision and
  the frequency error, which the code computes in floating point. libwebsockets and the socket are the
  environment: which callback comes next, from which address, and what \<open>sendto\<close> returns.
\<close>

type_synonym u64 = "64 word"

section \<open>Words in memory\<close>

datatype endian = LittleEndian | BigEndian

definition bytes32 :: "u32 \<Rightarrow> u8 list" where
  "bytes32 w = [ucast (drop_bit 24 w), ucast (drop_bit 16 w), ucast (drop_bit 8 w), ucast w]"

definition of_bytes :: "u8 list \<Rightarrow> u32" where
  "of_bytes bs = be32 (bs ! 0) (bs ! 1) (bs ! 2) (bs ! 3)"

definition store32 :: "endian \<Rightarrow> u32 \<Rightarrow> u8 list" where
  "store32 e w = (case e of LittleEndian \<Rightarrow> rev (bytes32 w) | BigEndian \<Rightarrow> bytes32 w)"

definition load32 :: "endian \<Rightarrow> u8 list \<Rightarrow> u32" where
  "load32 e bs = (case e of LittleEndian \<Rightarrow> of_bytes (rev bs) | BigEndian \<Rightarrow> of_bytes bs)"

definition htonl :: "endian \<Rightarrow> u32 \<Rightarrow> u32" where
  "htonl e w = (case e of LittleEndian \<Rightarrow> of_bytes (rev (bytes32 w)) | BigEndian \<Rightarrow> w)"

definition ntohl :: "endian \<Rightarrow> u32 \<Rightarrow> u32" where
  "ntohl = htonl"

section \<open>Messages\<close>

text \<open>\<open>int8_t\<close> is a byte, read as two's complement.\<close>

record WCMsgData =
  d_version :: u8
  d_msgtype :: u8
  d_precision :: u8
  d_reserved :: u8
  d_maxFreqError :: u32
  d_os :: u32
  d_on :: u32
  d_rs :: u32
  d_rn :: u32
  d_ts :: u32
  d_tn :: u32

definition data_bytes :: "endian \<Rightarrow> WCMsgData \<Rightarrow> u8 list" where
  "data_bytes e d =
     [d_version d, d_msgtype d, d_precision d, d_reserved d]
     @ store32 e (d_maxFreqError d) @ store32 e (d_os d) @ store32 e (d_on d) @ store32 e (d_rs d)
     @ store32 e (d_rn d) @ store32 e (d_ts d) @ store32 e (d_tn d)"

definition word_at :: "endian \<Rightarrow> u8 list \<Rightarrow> nat \<Rightarrow> u32" where
  "word_at e bs p = load32 e (take 4 (drop p bs))"

definition data_of :: "endian \<Rightarrow> u8 list \<Rightarrow> WCMsgData" where
  "data_of e bs =
     \<lparr>d_version = bs ! 0, d_msgtype = bs ! 1, d_precision = bs ! 2, d_reserved = bs ! 3,
      d_maxFreqError = word_at e bs 4, d_os = word_at e bs 8, d_on = word_at e bs 12, d_rs = word_at e bs 16,
      d_rn = word_at e bs 20, d_ts = word_at e bs 24, d_tn = word_at e bs 28\<rparr>"

definition sizeof_WCMsgData :: nat where
  "sizeof_WCMsgData = 32"

datatype MessageType = TYPE_REQUEST | TYPE_RESPONSE | TYPE_RESPONSE_WITH_FOLLOWUP | TYPE_FOLLOWUP

fun msgtype_code :: "MessageType \<Rightarrow> u8" where
  "msgtype_code TYPE_REQUEST = 0"
| "msgtype_code TYPE_RESPONSE = 1"
| "msgtype_code TYPE_RESPONSE_WITH_FOLLOWUP = 2"
| "msgtype_code TYPE_FOLLOWUP = 3"

definition msgtype_of :: "u8 \<Rightarrow> MessageType" where
  "msgtype_of b = (if b = 0 then TYPE_REQUEST else if b = 1 then TYPE_RESPONSE
                   else if b = 2 then TYPE_RESPONSE_WITH_FOLLOWUP else TYPE_FOLLOWUP)"

record OriginalOriginate =
  oo_os :: u64
  oo_on :: u64

record WCMessage =
  w_msgtype :: MessageType
  w_precision :: u8
  w_maxFreqError :: u32
  w_originateNanos :: u64
  w_receiveNanos :: u64
  w_transmitNanos :: u64
  w_originalOriginate :: "OriginalOriginate option"

definition NANOS_IN_SEC :: u64 where
  "NANOS_IN_SEC = 1000000000"

definition wc_pack :: "endian \<Rightarrow> WCMessage \<Rightarrow> WCMsgData" where
  "wc_pack e m =
     \<lparr>d_version = 0, d_msgtype = msgtype_code (w_msgtype m), d_precision = w_precision m, d_reserved = 0,
      d_maxFreqError = htonl e (w_maxFreqError m),
      d_os = (case w_originalOriginate m of
                Some v \<Rightarrow> htonl e (ucast (oo_os v))
              | None \<Rightarrow> htonl e (ucast (w_originateNanos m div NANOS_IN_SEC))),
      d_on = (case w_originalOriginate m of
                Some v \<Rightarrow> htonl e (ucast (oo_on v))
              | None \<Rightarrow> htonl e (ucast (w_originateNanos m mod NANOS_IN_SEC))),
      d_rs = htonl e (ucast (w_receiveNanos m div NANOS_IN_SEC)),
      d_rn = htonl e (ucast (w_receiveNanos m mod NANOS_IN_SEC)),
      d_ts = htonl e (ucast (w_transmitNanos m div NANOS_IN_SEC)),
      d_tn = htonl e (ucast (w_transmitNanos m mod NANOS_IN_SEC))\<rparr>"

text \<open>\<open>Unpack\<close> returns its local message, whose fields are not initialised (\<open>junk\<close>), but for the original
  originate time, which is null, when the message is refused.\<close>

definition nanos :: "u32 \<Rightarrow> u32 \<Rightarrow> u64" where
  "nanos s n = ucast s * NANOS_IN_SEC + ucast n"

definition Unpack :: "endian \<Rightarrow> WCMessage \<Rightarrow> u8 list \<Rightarrow> WCMessage" where
  "Unpack e junk msg =
     (let refused = junk\<lparr>w_originalOriginate := None\<rparr> in
      if length msg = sizeof_WCMsgData then
        let d = data_of e msg in
        if d_version d = 0 then
          if d_msgtype d \<le> msgtype_code TYPE_FOLLOWUP then
            let os = ntohl e (d_os d); on = ntohl e (d_on d) in
            \<lparr>w_msgtype = msgtype_of (d_msgtype d), w_precision = d_precision d,
             w_maxFreqError = ntohl e (d_maxFreqError d), w_originateNanos = nanos os on,
             w_receiveNanos = nanos (ntohl e (d_rs d)) (ntohl e (d_rn d)),
             w_transmitNanos = nanos (ntohl e (d_ts d)) (ntohl e (d_tn d)),
             w_originalOriginate =
               (if NANOS_IN_SEC \<le> ucast on then Some \<lparr>oo_os = ucast os, oo_on = ucast on\<rparr> else None)\<rparr>
          else refused
        else refused
      else refused)"

section \<open>The socket\<close>

text \<open>A queue of datagrams per socket, and the address of the last datagram received on it, to which
  \<open>lws_get_udp\<close> sends. \<open>udp_sent\<close> logs what was sent and to whom.\<close>

record udp_service =
  write_queue_map :: "(nat \<times> u8 list list) list"
  udp_peers :: "(nat \<times> nat) list"
  udp_sent :: "(nat option \<times> u8 list) list"

definition udp_SendMessage :: "nat \<Rightarrow> u8 list \<Rightarrow> udp_service \<Rightarrow> udp_service" where
  "udp_SendMessage wsi d st =
     (if d \<noteq> [] then
        st\<lparr>write_queue_map := om_ins wsi
             ((case om_get (write_queue_map st) wsi of None \<Rightarrow> [] | Some q \<Rightarrow> q) @ [d]) (write_queue_map st)\<rparr>
      else st)"

definition ClearWriteQueueMap :: "udp_service \<Rightarrow> udp_service" where
  "ClearWriteQueueMap st = st\<lparr>write_queue_map := []\<rparr>"

text \<open>What \<open>sendto\<close> returns is converted to \<open>size_t\<close>, the type of the comparison with the size.\<close>

fun udp_flush :: "int list \<Rightarrow> u8 list list \<Rightarrow> int \<Rightarrow> int" where
  "udp_flush rets [] result = result"
| "udp_flush rets (d # q) result =
     (let bytesSent = of_int (if rets = [] then 0 else hd rets) :: u64 in
      udp_flush (tl rets) q (if bytesSent < of_nat (length d) then -1 else result))"

section \<open>The server\<close>

record wc_clock =
  recv_nanos :: u64
  transmit_nanos :: u64
  followup_nanos :: u64
  clock_precision :: u8
  clock_freq_error :: u32

definition wc_OnMessageReceived :: "endian \<Rightarrow> bool \<Rightarrow> wc_clock \<Rightarrow> WCMessage \<Rightarrow> nat \<Rightarrow> u8 list \<Rightarrow> udp_service \<Rightarrow> udp_service" where
  "wc_OnMessageReceived e m_followup clk junk wsi msg st =
     (let m = Unpack e junk msg in
      if w_msgtype m = TYPE_REQUEST then
        let reply = m\<lparr>w_receiveNanos := recv_nanos clk,
                      w_msgtype := (if m_followup then TYPE_RESPONSE_WITH_FOLLOWUP else TYPE_RESPONSE),
                      w_precision := clock_precision clk, w_maxFreqError := clock_freq_error clk,
                      w_transmitNanos := transmit_nanos clk\<rparr>;
            st = udp_SendMessage wsi (data_bytes e (wc_pack e reply)) st
        in if m_followup then
             let followupReply = reply\<lparr>w_transmitNanos := followup_nanos clk, w_msgtype := TYPE_FOLLOWUP\<rparr>
             in udp_SendMessage wsi (data_bytes e (wc_pack e followupReply)) st
           else st
      else st)"

datatype udp_callback =
    RAW_ADOPT
  | RAW_CLOSE
  | RAW_WRITEABLE nat "int list"
  | RAW_RX nat nat wc_clock WCMessage "u8 list"

definition wc_LwsCallback :: "endian \<Rightarrow> bool \<Rightarrow> udp_service \<Rightarrow> udp_callback \<Rightarrow> int \<times> udp_service" where
  "wc_LwsCallback e m_followup st cb = (case cb of
     RAW_ADOPT \<Rightarrow> (0, st)
   | RAW_CLOSE \<Rightarrow> (0, ClearWriteQueueMap st)
   | RAW_WRITEABLE wsi rets \<Rightarrow>
       (case om_get (write_queue_map st) wsi of
          None \<Rightarrow> (0, st)
        | Some q \<Rightarrow> (udp_flush rets q 0,
            st\<lparr>write_queue_map := om_del wsi (write_queue_map st),
               udp_sent := udp_sent st @ map (Pair (om_get (udp_peers st) wsi)) q\<rparr>))
   | RAW_RX wsi peer clk junk msg \<Rightarrow>
       (0, wc_OnMessageReceived e m_followup clk junk wsi msg (st\<lparr>udp_peers := om_ins wsi peer (udp_peers st)\<rparr>)))"

definition wc_step :: "endian \<Rightarrow> bool \<Rightarrow> udp_service \<Rightarrow> udp_callback \<Rightarrow> udp_service res" where
  "wc_step e m_followup st cb = Inr (snd (wc_LwsCallback e m_followup st cb))"

section \<open>Packing and unpacking\<close>

lemma bytes32_be32 [simp]: "bytes32 (be32 a b c d) = [a, b, c, d]"
  unfolding bytes32_def by (auto intro!: bit_word_eqI simp: be32_bit bit_simps)

lemma of_bytes32 [simp]: "of_bytes (bytes32 w) = w"
  by (simp add: of_bytes_def bytes32_def be32_enc)

lemma length_bytes32 [simp]: "length (bytes32 w) = 4"
  by (simp add: bytes32_def)

lemma bytes32_of_bytes:
  assumes "length bs = 4"
  shows "bytes32 (of_bytes bs) = bs"
proof -
  obtain a b c d where "bs = [a, b, c, d]" using assms by (auto simp: numeral_eq_Suc length_Suc_conv)
  then show ?thesis by (simp add: of_bytes_def)
qed

lemma length_store32 [simp]: "length (store32 e w) = 4"
  by (simp add: store32_def split: endian.split)

lemma store32_htonl [simp]: "store32 e (htonl e w) = bytes32 w"
  by (simp add: store32_def htonl_def bytes32_of_bytes split: endian.split)

lemma ntohl_load32: "length bs = 4 \<Longrightarrow> ntohl e (load32 e bs) = of_bytes bs"
  by (simp add: ntohl_def htonl_def load32_def bytes32_of_bytes split: endian.split)

lemma length_data_bytes [simp]: "length (data_bytes e d) = 32"
  by (simp add: data_bytes_def)

lemma ntohl_word_at: "p + 4 \<le> length bs \<Longrightarrow> ntohl e (word_at e bs p) = of_bytes (take 4 (drop p bs))"
  by (simp add: word_at_def ntohl_load32)

text \<open>The bytes of a packed message, on any host.\<close>

definition wc_wire :: "WCMessage \<Rightarrow> u8 list" where
  "wc_wire m =
     [0, msgtype_code (w_msgtype m), w_precision m, 0] @ bytes32 (w_maxFreqError m)
     @ (case w_originalOriginate m of
          Some v \<Rightarrow> bytes32 (ucast (oo_os v)) @ bytes32 (ucast (oo_on v))
        | None \<Rightarrow> bytes32 (ucast (w_originateNanos m div NANOS_IN_SEC))
                  @ bytes32 (ucast (w_originateNanos m mod NANOS_IN_SEC)))
     @ bytes32 (ucast (w_receiveNanos m div NANOS_IN_SEC)) @ bytes32 (ucast (w_receiveNanos m mod NANOS_IN_SEC))
     @ bytes32 (ucast (w_transmitNanos m div NANOS_IN_SEC)) @ bytes32 (ucast (w_transmitNanos m mod NANOS_IN_SEC))"

lemma data_bytes_wc_pack: "data_bytes e (wc_pack e m) = wc_wire m"
  by (simp add: data_bytes_def wc_pack_def wc_wire_def split: option.split)

lemma msgtype_of_code [simp]: "msgtype_of (msgtype_code t) = t"
  by (cases t) (simp_all add: msgtype_of_def)

lemma msgtype_code_le [simp]: "msgtype_code t \<le> 3"
  by (cases t) simp_all

text \<open>What \<open>Unpack\<close> makes of a datagram it accepts, on any host.\<close>

definition wc_field :: "u8 list \<Rightarrow> nat \<Rightarrow> u32" where
  "wc_field bs p = of_bytes (take 4 (drop p bs))"

definition wc_accepted :: "u8 list \<Rightarrow> bool" where
  "wc_accepted bs = (length bs = 32 \<and> bs ! 0 = 0 \<and> bs ! 1 \<le> 3)"

definition wc_read :: "u8 list \<Rightarrow> WCMessage" where
  "wc_read bs =
     \<lparr>w_msgtype = msgtype_of (bs ! 1), w_precision = bs ! 2, w_maxFreqError = wc_field bs 4,
      w_originateNanos = nanos (wc_field bs 8) (wc_field bs 12), w_receiveNanos = nanos (wc_field bs 16) (wc_field bs 20),
      w_transmitNanos = nanos (wc_field bs 24) (wc_field bs 28),
      w_originalOriginate = (if NANOS_IN_SEC \<le> ucast (wc_field bs 12)
                             then Some \<lparr>oo_os = ucast (wc_field bs 8), oo_on = ucast (wc_field bs 12)\<rparr> else None)\<rparr>"

lemma Unpack_accepted: "wc_accepted bs \<Longrightarrow> Unpack e junk bs = wc_read bs"
  by (simp add: Unpack_def wc_accepted_def wc_read_def data_of_def ntohl_word_at wc_field_def sizeof_WCMsgData_def Let_def)

lemma Unpack_refused: "\<not> wc_accepted bs \<Longrightarrow> Unpack e junk bs = junk\<lparr>w_originalOriginate := None\<rparr>"
  by (auto simp: Unpack_def wc_accepted_def data_of_def sizeof_WCMsgData_def Let_def)

lemma accepted_wire [simp]: "wc_accepted (wc_wire m)"
  by (simp add: wc_accepted_def wc_wire_def split: option.split)

lemma wc_field_wire:
  "wc_field (wc_wire m) 4 = w_maxFreqError m"
  "wc_field (wc_wire m) 8 = (case w_originalOriginate m of Some v \<Rightarrow> ucast (oo_os v) | None \<Rightarrow> ucast (w_originateNanos m div NANOS_IN_SEC))"
  "wc_field (wc_wire m) 12 = (case w_originalOriginate m of Some v \<Rightarrow> ucast (oo_on v) | None \<Rightarrow> ucast (w_originateNanos m mod NANOS_IN_SEC))"
  "wc_field (wc_wire m) 16 = ucast (w_receiveNanos m div NANOS_IN_SEC)"
  "wc_field (wc_wire m) 20 = ucast (w_receiveNanos m mod NANOS_IN_SEC)"
  "wc_field (wc_wire m) 24 = ucast (w_transmitNanos m div NANOS_IN_SEC)"
  "wc_field (wc_wire m) 28 = ucast (w_transmitNanos m mod NANOS_IN_SEC)"
  by (simp_all add: wc_field_def wc_wire_def take_Cons' split: option.split)

lemma unat_NANOS [simp]: "unat NANOS_IN_SEC = 1000000000"
  by (simp add: NANOS_IN_SEC_def)

lemma unat_nanos: "unat (nanos s n) = unat s * 1000000000 + unat n"
proof -
  have s: "unat s < 4294967296" and n: "unat n < 4294967296"
    using unsigned_less [of s, where ?'a = nat] unsigned_less [of n, where ?'a = nat] by simp_all
  have us: "unat (ucast s :: u64) = unat s" and un: "unat (ucast n :: u64) = unat n"
    by (simp_all add: unsigned_ucast_eq take_bit_eq_mod) (rule mod_less, use s n in linarith)+
  show ?thesis using s n by (simp add: nanos_def unat_word_ariths us un)
qed

lemma nanos_bound: "unat (nanos s n) < 2 ^ 63"
proof -
  have "unat s \<le> 4294967295" "unat n \<le> 4294967295"
    using unsigned_less [of s, where ?'a = nat] unsigned_less [of n, where ?'a = nat] by simp_all
  then show ?thesis by (simp add: unat_nanos)
qed

lemma unat_u32_of_u64: "unat (ucast (x :: u64) :: u32) = unat x mod 4294967296"
  by (simp add: unsigned_ucast_eq take_bit_eq_mod)

lemma carried: "unat (nanos (ucast (x div NANOS_IN_SEC)) (ucast (x mod NANOS_IN_SEC))) = unat x mod (4294967296 * 1000000000)"
proof -
  let ?r = "unat x"
  have "?r mod 1000000000 mod 4294967296 = ?r mod 1000000000"
    by (rule mod_less) (rule less_trans [OF mod_less_divisor], simp_all)
  then have "unat (nanos (ucast (x div NANOS_IN_SEC)) (ucast (x mod NANOS_IN_SEC)))
      = (?r div 1000000000 mod 4294967296) * 1000000000 + ?r mod 1000000000"
    by (simp add: unat_nanos unat_u32_of_u64 unat_div unat_mod)
  also have "\<dots> = ?r mod (1000000000 * 4294967296)"
    by (subst mod_mult2_eq) simp
  finally show ?thesis by (simp add: mult.commute)
qed

lemma carried_iff:
  "nanos (ucast (x div NANOS_IN_SEC)) (ucast (x mod NANOS_IN_SEC)) = x \<longleftrightarrow> unat x div 1000000000 < 4294967296"
  by (subst word_unat_eq_iff, unfold carried) (metis div_less_iff_less_mult mod_less mod_less_divisor mult_pos_pos
     zero_less_numeral mod_less_eq_dividend nat_less_le)

lemma nanos_inverse:
  assumes "unat n < 1000000000"
  shows "ucast (nanos s n div NANOS_IN_SEC) = s" and "ucast (nanos s n mod NANOS_IN_SEC) = n"
proof -
  have s: "unat s < 4294967296" and n: "unat n < 4294967296"
    using unsigned_less [of s, where ?'a = nat] unsigned_less [of n, where ?'a = nat] by simp_all
  show "ucast (nanos s n div NANOS_IN_SEC) = s"
    using s assms by (simp add: word_unat_eq_iff unat_u32_of_u64 unat_div unat_nanos)
  show "ucast (nanos s n mod NANOS_IN_SEC) = n"
    using n assms by (simp add: word_unat_eq_iff unat_u32_of_u64 unat_mod unat_nanos)
qed

text \<open>Whether the four words of a message can carry its times.\<close>

definition wc_message_ok :: "WCMessage \<Rightarrow> bool" where
  "wc_message_ok m =
     (unat (w_receiveNanos m) div 1000000000 < 2 ^ 32 \<and> unat (w_transmitNanos m) div 1000000000 < 2 ^ 32
      \<and> (case w_originalOriginate m of
           None \<Rightarrow> unat (w_originateNanos m) div 1000000000 < 2 ^ 32
         | Some v \<Rightarrow> unat (oo_os v) < 2 ^ 32 \<and> 1000000000 \<le> unat (oo_on v) \<and> unat (oo_on v) < 2 ^ 32
             \<and> unat (w_originateNanos m) = unat (oo_os v) * 1000000000 + unat (oo_on v)))"

lemma unat_u64_of_u32 [simp]: "unat (ucast (x :: u32) :: u64) = unat x"
  using unsigned_less [of x, where ?'a = nat] by (simp add: unsigned_ucast_eq take_bit_eq_mod)

lemma ucast_u32_u64_id [simp]: "ucast (ucast (x :: u32) :: u64) = x"
  using unsigned_less [of x, where ?'a = nat] by (simp add: word_unat_eq_iff unat_u32_of_u64)

lemma ucast_u32_u64: "ucast (ucast (x :: u64) :: u32) = x \<longleftrightarrow> unat x < 2 ^ 32"
  by (simp add: word_unat_eq_iff unat_u32_of_u64 mod_eq_nat1E) (metis mod_less mod_less_divisor zero_less_numeral)

lemma small_nanos: "unat (ucast ((x :: u64) mod NANOS_IN_SEC) :: u32) < 1000000000"
proof -
  have "unat (ucast (x mod NANOS_IN_SEC) :: u32) \<le> unat x mod 1000000000"
    by (simp add: unat_u32_of_u64 unat_mod)
  also have "\<dots> < 1000000000" by simp
  finally show ?thesis .
qed

lemma wc_wire_head: "wc_wire m ! 1 = msgtype_code (w_msgtype m)" "wc_wire m ! Suc 0 = msgtype_code (w_msgtype m)"
    "wc_wire m ! 2 = w_precision m"
  by (simp_all add: wc_wire_def split: option.split)

lemma wc_read_wire: "wc_read (wc_wire m) = m \<longleftrightarrow> wc_message_ok m"
proof (cases "w_originalOriginate m")
  case None
  then have "\<not> NANOS_IN_SEC \<le> (ucast (wc_field (wc_wire m) 12) :: u64)"
    using small_nanos [of "w_originateNanos m"] by (simp add: wc_field_wire word_le_nat_alt)
  with None show ?thesis
    by (cases m) (simp add: wc_read_def wc_field_wire wc_message_ok_def carried_iff wc_wire_head, blast)
next
  case (Some v)
  have "nanos (ucast (oo_os v)) (ucast (oo_on v)) = w_originateNanos m \<longleftrightarrow>
      unat (w_originateNanos m) = unat (oo_os v) mod 4294967296 * 1000000000 + unat (oo_on v) mod 4294967296"
    by (simp add: word_unat_eq_iff unat_nanos unat_u32_of_u64) (rule eq_commute)
  with Some show ?thesis
    by (cases m; cases v) (auto simp: wc_read_def wc_field_wire wc_message_ok_def carried_iff wc_wire_head
       ucast_u32_u64 word_le_nat_alt unat_u32_of_u64)
qed

definition wc_request :: "u8 list" where
  "wc_request = replicate 12 0 @ [255, 255, 255, 255] @ replicate 16 0"

definition demo_junk :: WCMessage where
  "demo_junk = \<lparr>w_msgtype = TYPE_FOLLOWUP, w_precision = 0, w_maxFreqError = 0, w_originateNanos = 0, w_receiveNanos = 0,
     w_transmitNanos = 0, w_originalOriginate = None\<rparr>"

definition demo_clock :: wc_clock where
  "demo_clock = \<lparr>recv_nanos = 5, transmit_nanos = 7, followup_nanos = 9, clock_precision = 3, clock_freq_error = 4\<rparr>"

definition demo_udp :: udp_service where
  "demo_udp = \<lparr>write_queue_map = [], udp_peers = [], udp_sent = []\<rparr>"

lemma wc_request_ok: "wc_accepted wc_request" "wc_request ! 1 = 0"
    "take 8 (drop 8 wc_request) = [0, 0, 0, 0, 255, 255, 255, 255]" "wc_field wc_request 8 = 0"
    "wc_field wc_request 12 = 4294967295"
  by code_simp+

text \<open>
  C37. A message that is packed on any host and unpacked on any host is the same message exactly when
  \<open>wc_message_ok\<close> holds: its receive and transmit times have fewer than 2^32 seconds and, without an original
  originate time, so has its originate time; an original originate time has seconds and nanoseconds below 2^32, at least 10^9
  nanoseconds (one that \<open>Unpack\<close> keeps), and the originate time is its seconds times 10^9 plus its nanoseconds.
\<close>

theorem wc_roundtrip: "Unpack e' junk (data_bytes e (wc_pack e m)) = m \<longleftrightarrow> wc_message_ok m"
  by (simp add: data_bytes_wc_pack Unpack_accepted wc_read_wire)

text \<open>
  The times of an accepted datagram never wrap around in 64 bits: each is its seconds times 10^9 plus its
  nanoseconds, below 2^63. The times of a packed message are carried modulo 2^32 seconds.
\<close>

theorem wc_bounds:
  "(wc_accepted bs \<longrightarrow>
      unat (w_originateNanos (Unpack e junk bs)) = unat (wc_field bs 8) * 10 ^ 9 + unat (wc_field bs 12)
    \<and> unat (w_receiveNanos (Unpack e junk bs)) = unat (wc_field bs 16) * 10 ^ 9 + unat (wc_field bs 20)
    \<and> unat (w_transmitNanos (Unpack e junk bs)) = unat (wc_field bs 24) * 10 ^ 9 + unat (wc_field bs 28)
    \<and> unat (w_originateNanos (Unpack e junk bs)) < 2 ^ 63 \<and> unat (w_receiveNanos (Unpack e junk bs)) < 2 ^ 63
    \<and> unat (w_transmitNanos (Unpack e junk bs)) < 2 ^ 63)
   \<and> unat (w_receiveNanos (Unpack e' junk (data_bytes e (wc_pack e m)))) = unat (w_receiveNanos m) mod (2 ^ 32 * 10 ^ 9)
   \<and> unat (w_transmitNanos (Unpack e' junk (data_bytes e (wc_pack e m)))) = unat (w_transmitNanos m) mod (2 ^ 32 * 10 ^ 9)"
proof (intro conjI impI)
  assume "wc_accepted bs"
  then show "unat (w_originateNanos (Unpack e junk bs)) = unat (wc_field bs 8) * 10 ^ 9 + unat (wc_field bs 12)"
    "unat (w_receiveNanos (Unpack e junk bs)) = unat (wc_field bs 16) * 10 ^ 9 + unat (wc_field bs 20)"
    "unat (w_transmitNanos (Unpack e junk bs)) = unat (wc_field bs 24) * 10 ^ 9 + unat (wc_field bs 28)"
    "unat (w_originateNanos (Unpack e junk bs)) < 2 ^ 63" "unat (w_receiveNanos (Unpack e junk bs)) < 2 ^ 63"
    "unat (w_transmitNanos (Unpack e junk bs)) < 2 ^ 63"
    by (simp_all only: Unpack_accepted wc_read_def WCMessage.simps nanos_bound) (simp_all add: unat_nanos)
qed (simp_all add: data_bytes_wc_pack Unpack_accepted wc_read_def wc_field_wire carried)

theorem wc_bounds_witness:
  "wc_accepted wc_request \<and> unat (w_originateNanos (Unpack LittleEndian demo_junk wc_request)) = 4294967295"
  using wc_bounds [of wc_request LittleEndian demo_junk] wc_request_ok by simp


text \<open>The originate time goes back bit for bit, as it came, also when its nanoseconds do not fit a second.\<close>

lemma wc_originate:
  assumes "wc_accepted bs" and "w_originateNanos m = w_originateNanos (wc_read bs)"
    and "w_originalOriginate m = w_originalOriginate (wc_read bs)"
  shows "take 8 (drop 8 (wc_wire m)) = take 8 (drop 8 bs)"
proof -
  let ?s = "wc_field bs 8" and ?n = "wc_field bs 12"
  have "take (4 + 4) (drop 8 bs) = bytes32 ?s @ bytes32 ?n"
    using assms(1) unfolding take_add by (simp add: wc_field_def bytes32_of_bytes wc_accepted_def)
  moreover have "take 8 (drop 8 (wc_wire m)) = bytes32 ?s @ bytes32 ?n"
  proof (cases "NANOS_IN_SEC \<le> (ucast ?n :: u64)")
    case True
    with assms(2,3) show ?thesis by (simp add: wc_wire_def wc_read_def take_Cons')
  next
    case False
    then have "unat ?n < 1000000000" by (simp add: word_le_nat_alt)
    from nanos_inverse [OF this] False assms(2,3) show ?thesis by (simp add: wc_wire_def wc_read_def take_Cons')
  qed
  ultimately show ?thesis by simp
qed

definition udp_queue :: "udp_service \<Rightarrow> nat \<Rightarrow> u8 list list" where
  "udp_queue st wsi = (case om_get (write_queue_map st) wsi of None \<Rightarrow> [] | Some q \<Rightarrow> q)"

lemma wc_wire_Cons [simp]: "wc_wire m \<noteq> []"
  by (simp add: wc_wire_def)

lemma udp_queue_send: "d \<noteq> [] \<Longrightarrow> udp_queue (udp_SendMessage w d st) w = udp_queue st w @ [d]"
  by (simp add: udp_queue_def udp_SendMessage_def)

definition wc_response :: "wc_clock \<Rightarrow> WCMessage \<Rightarrow> WCMessage" where
  "wc_response clk m = m\<lparr>w_receiveNanos := recv_nanos clk, w_msgtype := TYPE_RESPONSE_WITH_FOLLOWUP,
     w_precision := clock_precision clk, w_maxFreqError := clock_freq_error clk, w_transmitNanos := transmit_nanos clk\<rparr>"

definition wc_followup :: "wc_clock \<Rightarrow> WCMessage \<Rightarrow> WCMessage" where
  "wc_followup clk m = (wc_response clk m)\<lparr>w_transmitNanos := followup_nanos clk, w_msgtype := TYPE_FOLLOWUP\<rparr>"

lemma wc_answers:
  assumes "wc_accepted bs" and "bs ! 1 = 0"
  shows "wc_OnMessageReceived e True clk junk wsi bs st =
    udp_SendMessage wsi (wc_wire (wc_followup clk (wc_read bs))) (udp_SendMessage wsi (wc_wire (wc_response clk (wc_read bs))) st)"
proof -
  have "w_msgtype (wc_read bs) = TYPE_REQUEST" using assms(2) by (simp add: wc_read_def msgtype_of_def)
  then show ?thesis using assms(1)
    by (simp add: wc_OnMessageReceived_def Unpack_accepted data_bytes_wc_pack Let_def wc_response_def wc_followup_def)
qed

lemma wc_answer_originate:
  assumes "wc_accepted bs"
  shows "take 8 (drop 8 (wc_wire (wc_response clk (wc_read bs)))) = take 8 (drop 8 bs)"
    and "take 8 (drop 8 (wc_wire (wc_followup clk (wc_read bs)))) = take 8 (drop 8 bs)"
  by (rule wc_originate [OF assms], simp_all add: wc_response_def wc_followup_def)+

lemma wc_times:
  "unat (w_receiveNanos (Unpack e junk (wc_wire m))) = unat (w_receiveNanos m) mod (2 ^ 32 * 10 ^ 9)"
  "unat (w_transmitNanos (Unpack e junk (wc_wire m))) = unat (w_transmitNanos m) mod (2 ^ 32 * 10 ^ 9)"
  by (simp_all add: Unpack_accepted wc_read_def wc_field_wire carried)

text \<open>
  C38. A request is answered by two datagrams, a response and its follow-up, added to the queue of the socket.
  Both carry the originate time of the request bit for bit, the time at which it was received and the
  time at which they were made.
\<close>

theorem wc_reply:
  assumes "wc_accepted bs" and "bs ! 1 = 0"
  shows "\<exists>r f. udp_queue (wc_OnMessageReceived e True clk junk wsi bs st) wsi = udp_queue st wsi @ [r, f]
    \<and> r ! 1 = msgtype_code TYPE_RESPONSE_WITH_FOLLOWUP \<and> f ! 1 = msgtype_code TYPE_FOLLOWUP
    \<and> take 8 (drop 8 r) = take 8 (drop 8 bs) \<and> take 8 (drop 8 f) = take 8 (drop 8 bs)
    \<and> unat (w_receiveNanos (Unpack e' junk r)) = unat (recv_nanos clk) mod (2 ^ 32 * 10 ^ 9)
    \<and> unat (w_receiveNanos (Unpack e' junk f)) = unat (recv_nanos clk) mod (2 ^ 32 * 10 ^ 9)
    \<and> unat (w_transmitNanos (Unpack e' junk r)) = unat (transmit_nanos clk) mod (2 ^ 32 * 10 ^ 9)
    \<and> unat (w_transmitNanos (Unpack e' junk f)) = unat (followup_nanos clk) mod (2 ^ 32 * 10 ^ 9)"
proof (intro exI conjI)
  let ?r = "wc_response clk (wc_read bs)" and ?f = "wc_followup clk (wc_read bs)"
  show "udp_queue (wc_OnMessageReceived e True clk junk wsi bs st) wsi = udp_queue st wsi @ [wc_wire ?r, wc_wire ?f]"
    by (simp add: wc_answers [OF assms] udp_queue_send)
qed (simp_all add: wc_answer_originate [OF assms(1)] wc_times wc_wire_head, simp_all add: wc_response_def wc_followup_def)

theorem wc_reply_witness:
  "wc_accepted wc_request \<and> wc_request ! 1 = 0 \<and>
   (\<exists>r f. udp_queue (wc_OnMessageReceived LittleEndian True demo_clock demo_junk 1 wc_request demo_udp) 1 = [r, f]
     \<and> take 8 (drop 8 r) = [0, 0, 0, 0, 255, 255, 255, 255])"
proof -
  obtain r f where "udp_queue (wc_OnMessageReceived LittleEndian True demo_clock demo_junk 1 wc_request demo_udp) 1
      = udp_queue demo_udp 1 @ [r, f]" "take 8 (drop 8 r) = take 8 (drop 8 wc_request)"
    using wc_reply [OF wc_request_ok(1,2)] by blast
  then show ?thesis by (intro conjI wc_request_ok exI [of _ r] exI [of _ f]) (simp_all add: udp_queue_def demo_udp_def wc_request_ok)
qed

lemma wc_refused_silent:
  "\<not> wc_accepted bs \<Longrightarrow> w_msgtype junk \<noteq> TYPE_REQUEST \<Longrightarrow> wc_OnMessageReceived e fu clk junk wsi bs st = st"
  by (simp add: wc_OnMessageReceived_def Unpack_refused)

lemma udp_send_frame [simp]: "udp_peers (udp_SendMessage w d st) = udp_peers st" "udp_sent (udp_SendMessage w d st) = udp_sent st"
  by (simp_all add: udp_SendMessage_def)

lemma udp_queue_peers [simp]: "udp_queue (st\<lparr>udp_peers := p\<rparr>) w = udp_queue st w"
  by (simp add: udp_queue_def)

lemma udp_writeable:
  "q \<noteq> [] \<Longrightarrow> udp_queue st w = q \<Longrightarrow> om_get (udp_peers st) w = p \<Longrightarrow>
   udp_sent (snd (wc_LwsCallback e fu st (RAW_WRITEABLE w rets))) = udp_sent st @ map (Pair p) q"
  by (auto simp: wc_LwsCallback_def udp_queue_def split: option.splits)

text \<open>
  Two requests that are read before the socket becomes writable: the answers to both are sent to the
  address of the second client, the first one gets none.
\<close>

theorem wc_wrong_peer:
  assumes "wc_accepted bs" and "bs ! 1 = 0" and "wc_accepted cs" and "cs ! 1 = 0"
    and "udp_queue st wsi = []"
  shows "\<exists>st' ds. run (wc_step e True) st [RAW_RX wsi a clk junk bs, RAW_RX wsi b clk' junk' cs, RAW_WRITEABLE wsi rets] = Inr st'
    \<and> udp_sent st' = udp_sent st @ map (Pair (Some b)) ds \<and> length ds = 4
    \<and> take 8 (drop 8 (ds ! 0)) = take 8 (drop 8 bs) \<and> take 8 (drop 8 (ds ! 2)) = take 8 (drop 8 cs)"
proof -
  let ?w = "\<lambda>m. wc_wire m"
  let ?ds = "[wc_wire (wc_response clk (wc_read bs)), wc_wire (wc_followup clk (wc_read bs)),
    wc_wire (wc_response clk' (wc_read cs)), wc_wire (wc_followup clk' (wc_read cs))]"
  define st1 where "st1 = snd (wc_LwsCallback e True st (RAW_RX wsi a clk junk bs))"
  define st2 where "st2 = snd (wc_LwsCallback e True st1 (RAW_RX wsi b clk' junk' cs))"
  have "udp_queue st2 wsi = ?ds" "udp_sent st2 = udp_sent st" "om_get (udp_peers st2) wsi = Some b"
    using assms(5) by (simp_all add: st1_def st2_def wc_LwsCallback_def wc_answers [OF assms(1,2)] wc_answers [OF assms(3,4)] udp_queue_send)
  then have "udp_sent (snd (wc_LwsCallback e True st2 (RAW_WRITEABLE wsi rets))) = udp_sent st @ map (Pair (Some b)) ?ds"
    using udp_writeable [of ?ds st2 wsi "Some b" e True rets] by simp
  then show ?thesis
    by (intro exI [of _ "snd (wc_LwsCallback e True st2 (RAW_WRITEABLE wsi rets))"] exI [of _ ?ds])
       (simp add: wc_step_def st1_def st2_def wc_answer_originate assms)
qed

theorem wc_wrong_peer_witness:
  "\<exists>st' ds. run (wc_step LittleEndian True) demo_udp
      [RAW_RX 1 100 demo_clock demo_junk wc_request, RAW_RX 1 200 demo_clock demo_junk wc_request, RAW_WRITEABLE 1 []] = Inr st'
    \<and> udp_sent st' = map (Pair (Some 200)) ds \<and> length ds = 4"
proof -
  have "udp_queue demo_udp 1 = []" "udp_sent demo_udp = []" by (simp_all add: udp_queue_def demo_udp_def)
  with wc_wrong_peer [OF wc_request_ok(1,2) wc_request_ok(1,2), of demo_udp 1] show ?thesis by fastforce
qed

end
