(* ===== verification/CssTypes.thy ===== *)
theory CssTypes
  imports CppStrings OrderedMap "HOL-Library.List_Lexorder"
begin

text \<open>
  The data of the media synchroniser (\<open>network_services/media_synchroniser/\<close>): timestamps and setup messages
  of \<open>TimelineSyncService.cpp\<close>, the properties of \<open>ContentIdentificationService.cpp\<close>, the timeline
  selectors of \<open>media_synchroniser.cpp\<close> and \<open>CSSUtilities.cpp\<close>.

  The library \<open>jsoncpp\<close> is not part of the repository: its values have a type \<open>'j\<close> of their own and its
  operations are the fields of the record \<open>jsoncpp\<close>, an argument of every definition that uses them. An
  operation that can throw has an optional result. \<open>operator[]\<close> has three: the member, the container after
  it (a missing member is added), and the assignment. Where no one catches the exception the thread ends
  the process: the fault \<^const>\<open>Uncaught\<close>.
\<close>

type_synonym u64 = "64 word"

record 'j jsoncpp =
  jc_parse :: "string \<Rightarrow> 'j option"
  jc_write :: "'j \<Rightarrow> string"
  jc_null :: 'j
  jc_is_null :: "'j \<Rightarrow> bool"
  jc_is_string :: "'j \<Rightarrow> bool"
  jc_is_array :: "'j \<Rightarrow> bool"
  jc_get :: "'j \<Rightarrow> string \<Rightarrow> 'j option"
  jc_touch :: "'j \<Rightarrow> string \<Rightarrow> 'j"
  jc_put :: "'j \<Rightarrow> string \<Rightarrow> 'j \<Rightarrow> 'j option"
  jc_append :: "'j \<Rightarrow> 'j \<Rightarrow> 'j option"
  jc_elems :: "'j \<Rightarrow> 'j list"
  jc_remove :: "'j \<Rightarrow> nat \<Rightarrow> 'j"
  jc_of_string :: "string \<Rightarrow> 'j"
  jc_of_uint :: "u64 \<Rightarrow> 'j"
  jc_as_string :: "'j \<Rightarrow> string option"
  jc_as_uint :: "'j \<Rightarrow> u64 option"
  jc_as_double :: "'j \<Rightarrow> u64 option"
  jc_of_object :: "(string \<times> 'j) list \<Rightarrow> 'j"
  jc_eq :: "'j \<Rightarrow> 'j \<Rightarrow> bool"

definition or_throw :: "'a option \<Rightarrow> 'a res" where
  "or_throw x = (case x of None \<Rightarrow> Inl Uncaught | Some v \<Rightarrow> Inr v)"

lemma or_throw_eq [ret_iff]: "or_throw x = Inr v \<longleftrightarrow> x = Some v"
  by (simp add: or_throw_def split: option.split)

section \<open>Numbers and words in strings\<close>

fun dec_string :: "nat \<Rightarrow> string" where
  "dec_string n = (if n < 10 then [hex_digit n] else dec_string (n div 10) @ [hex_digit (n mod 10)])"

declare dec_string.simps [simp del]

definition is_dec :: "char \<Rightarrow> bool" where
  "is_dec c = (48 \<le> (of_char c :: nat) \<and> (of_char c :: nat) \<le> 57)"

definition dec_num :: "string \<Rightarrow> nat" where
  "dec_num s = foldl (\<lambda>n c. 10 * n + (of_char c - 48)) 0 s"

text \<open>\<open>std::stoi\<close> and \<open>std::stoull\<close> in base 10: white space, a sign, the longest run of digits. Without a digit,
  and for a number that does not fit, they throw.\<close>

definition dec_prefix :: "string \<Rightarrow> (bool \<times> string) option" where
  "dec_prefix s =
     (let t = dropWhile is_space (cstr s);
          neg = (case t of c # _ \<Rightarrow> c = CHR ''-'' | [] \<Rightarrow> False);
          u = (case t of c # cs \<Rightarrow> if c = CHR ''-'' \<or> c = CHR ''+'' then cs else t | [] \<Rightarrow> t);
          ds = takeWhile is_dec u
      in if ds = [] then None else Some (neg, ds))"

definition stoi :: "string \<Rightarrow> int option" where
  "stoi s = (case dec_prefix s of
     None \<Rightarrow> None
   | Some (neg, ds) \<Rightarrow>
       let v = (if neg then - int (dec_num ds) else int (dec_num ds)) in
       if - 2147483648 \<le> v \<and> v \<le> 2147483647 then Some v else None)"

definition stoull :: "string \<Rightarrow> u64 option" where
  "stoull s = (case dec_prefix s of
     None \<Rightarrow> None
   | Some (neg, ds) \<Rightarrow>
       if dec_num ds < 18446744073709551616
       then Some (if neg then - of_nat (dec_num ds) else of_nat (dec_num ds)) else None)"

text \<open>\<open>while (getline(f, s, ':'))\<close>: the last part is only read if it is not empty.\<close>

fun split_at :: "char \<Rightarrow> string \<Rightarrow> string \<Rightarrow> string list" where
  "split_at d acc [] = (if acc = [] then [] else [acc])"
| "split_at d acc (c # cs) = (if c = d then acc # split_at d [] cs else split_at d (acc @ [c]) cs)"

definition has_suffix :: "string \<Rightarrow> string \<Rightarrow> bool" where
  "has_suffix suf s = (length suf \<le> length s \<and> drop (length s - length suf) s = suf)"

section \<open>Timestamps\<close>

text \<open>\<open>CSSUtilities::isWallclockTimeValid\<close>: the regular expression \<open>^(\+|-)inf$|^[0-9]+$\<close>.\<close>

definition isWallclockTimeValid :: "string \<Rightarrow> bool" where
  "isWallclockTimeValid w = (w = ''+inf'' \<or> w = ''-inf'' \<or> (w \<noteq> [] \<and> list_all is_dec w))"

record TimeStamp =
  ts_contentTime :: "u64 option"
  ts_wallClockTime :: string

definition setTimeStamp :: "u64 option \<Rightarrow> string \<Rightarrow> TimeStamp \<Rightarrow> TimeStamp" where
  "setTimeStamp c w t = (if isWallclockTimeValid w then \<lparr>ts_contentTime = c, ts_wallClockTime = w\<rparr> else t)"

definition TimeStamp_new :: "u64 option \<Rightarrow> string \<Rightarrow> TimeStamp" where
  "TimeStamp_new c w = setTimeStamp c w \<lparr>ts_contentTime = None, ts_wallClockTime = []\<rparr>"

text \<open>The multiplier is a double of a clock that is stored as a float: a word here, and two of them are
  compared by the parameter \<open>feq\<close>. When both are null the code compares values that were never
  initialised; \<open>isControlTimestampChanged\<close> has returned before, unless just one content time is null.\<close>

record ControlTimestamp =
  ct_stamp :: TimeStamp
  ct_multiplier :: "u64 option"

definition multiplier_eq :: "(u64 \<Rightarrow> u64 \<Rightarrow> bool) \<Rightarrow> u64 option \<Rightarrow> u64 option \<Rightarrow> bool" where
  "multiplier_eq feq a b = (case (a, b) of (Some x, Some y) \<Rightarrow> feq x y | (None, None) \<Rightarrow> True | _ \<Rightarrow> False)"

definition ControlTimestamp_eq :: "(u64 \<Rightarrow> u64 \<Rightarrow> bool) \<Rightarrow> ControlTimestamp \<Rightarrow> ControlTimestamp \<Rightarrow> bool" where
  "ControlTimestamp_eq feq a b = (ct_stamp a = ct_stamp b \<and> multiplier_eq feq (ct_multiplier a) (ct_multiplier b))"

definition isControlTimestampChanged ::
    "(u64 \<Rightarrow> u64 \<Rightarrow> bool) \<Rightarrow> ControlTimestamp option \<Rightarrow> ControlTimestamp option \<Rightarrow> bool" where
  "isControlTimestampChanged feq prev latest =
     (case latest of
        None \<Rightarrow> False
      | Some l \<Rightarrow> (case prev of
          None \<Rightarrow> True
        | Some p \<Rightarrow> if ts_contentTime (ct_stamp p) = None \<and> ts_contentTime (ct_stamp l) = None then False
                    else \<not> ControlTimestamp_eq feq p l))"

text \<open>\<open>ControlTimestamp::pack\<close>; \<open>of_multiplier\<close> is the JSON number of a multiplier.\<close>

definition ControlTimestamp_pack :: "'j jsoncpp \<Rightarrow> (u64 \<Rightarrow> 'j) \<Rightarrow> ControlTimestamp \<Rightarrow> 'j" where
  "ControlTimestamp_pack J of_multiplier ct =
     jc_of_object J
      [(''contentTime'', case ts_contentTime (ct_stamp ct) of
          None \<Rightarrow> jc_null J | Some t \<Rightarrow> jc_of_string J (dec_string (unat t))),
       (''timelineSpeedMultiplier'', case ct_multiplier ct of None \<Rightarrow> jc_null J | Some m \<Rightarrow> of_multiplier m),
       (''wallClockTime'', jc_of_string J (ts_wallClockTime (ct_stamp ct)))]"

section \<open>Setup messages\<close>

record SetupTSData =
  su_contentIdStem :: string
  su_timelineSelector :: string

definition SetupTSData_empty :: SetupTSData where
  "SetupTSData_empty = \<lparr>su_contentIdStem = [], su_timelineSelector = []\<rparr>"

definition setup_isEmpty :: "SetupTSData \<Rightarrow> bool" where
  "setup_isEmpty d = (su_contentIdStem d = [] \<and> su_timelineSelector d = [])"

definition SetupTSData_unpack :: "'j jsoncpp \<Rightarrow> string \<Rightarrow> SetupTSData res" where
  "SetupTSData_unpack J msg =
     (case jc_parse J msg of
        None \<Rightarrow> Inr SetupTSData_empty
      | Some root \<Rightarrow>
          bindR (or_throw (jc_get J root ''timelineSelector'')) (\<lambda>sel.
          if jc_is_null J sel then Inr SetupTSData_empty
          else bindR (or_throw (jc_get J root ''contentIdStem'')) (\<lambda>stem.
               bindR (or_throw (jc_as_string J stem)) (\<lambda>stem.
               bindR (or_throw (jc_as_string J sel)) (\<lambda>sel.
               Inr \<lparr>su_contentIdStem = stem, su_timelineSelector = sel\<rparr>)))))"

text \<open>\<open>AptEptLpt::unpack\<close> reads the message into locals and returns a message as its constructor leaves it,
  whatever the text is: the exceptions of the library are caught.\<close>

record AptEptLpt =
  apt_earliest :: TimeStamp
  apt_latest :: TimeStamp
  apt_actual :: "TimeStamp option"

definition AptEptLpt_new :: AptEptLpt where
  "AptEptLpt_new =
     \<lparr>apt_earliest = TimeStamp_new (Some 0) ''-inf'', apt_latest = TimeStamp_new (Some 0) ''+inf'', apt_actual = None\<rparr>"

definition AptEptLpt_unpack :: "string \<Rightarrow> AptEptLpt" where
  "AptEptLpt_unpack msg = AptEptLpt_new"

text \<open>A null \<open>m_actual\<close> still holds a value, the timestamp its constructor makes, whose content time is null.\<close>

definition isInDefaultState :: "AptEptLpt \<Rightarrow> bool" where
  "isInDefaultState a =
     (if ts_contentTime (apt_earliest a) \<noteq> Some 0 \<and> ts_wallClockTime (apt_earliest a) \<noteq> ''-inf'' then False
      else if ts_contentTime (apt_latest a) \<noteq> Some 0 \<and> ts_wallClockTime (apt_latest a) \<noteq> ''+inf'' then False
      else case apt_actual a of
        None \<Rightarrow> ts_contentTime (TimeStamp_new None ''0'') \<noteq> None
      | Some t \<Rightarrow> ts_contentTime t \<noteq> None)"

definition ciMatchesStem :: "string \<Rightarrow> string \<Rightarrow> bool" where
  "ciMatchesStem contentId stem = (contentId \<noteq> [] \<and> (take (length stem) contentId = stem \<or> stem = []))"

section \<open>Properties of the content identification service\<close>

definition cii_keys :: "string list" where
  "cii_keys = [''protocolVersion'', ''mrsUrl'', ''contentId'', ''contentIdStatus'', ''presentationStatus'', ''wcUrl'',
     ''tsUrl'', ''teUrl'', ''private'', ''timelines'']"

definition cii_contentIdStatus :: "string list" where
  "cii_contentIdStatus = [''partial'', ''final'']"

definition cii_protocolVersion :: string where
  "cii_protocolVersion = ''1.1''"

text \<open>The pattern of the presentation status, \<open>^(okay|transitioning|fault|[^ ]+)( [^ ]+)*$\<close>: words with one space
  between them; the three states are words as well.\<close>

fun words_ok :: "bool \<Rightarrow> string \<Rightarrow> bool" where
  "words_ok in_word [] = in_word"
| "words_ok in_word (c # cs) = (if c = CHR '' '' then in_word \<and> words_ok False cs else words_ok True cs)"

definition presentation_pattern :: "string \<Rightarrow> bool" where
  "presentation_pattern v = words_ok False v"

text \<open>The pattern of a URI of RFC 3986, appendix B. Everything up to the first \<open>#\<close> matches; the rest has to be
  free of line ends, which the dot does not match.\<close>

definition uri_pattern :: "string \<Rightarrow> bool" where
  "uri_pattern v = list_all (\<lambda>c. (of_char c :: nat) \<noteq> 10 \<and> (of_char c :: nat) \<noteq> 13) (dropWhile (\<lambda>c. c \<noteq> CHR ''#'') v)"

text \<open>\<open>val.back()\<close> of an empty string reads the byte in front of its terminator's place: undefined.\<close>

definition setProperty :: "'j jsoncpp \<Rightarrow> string \<Rightarrow> 'j \<Rightarrow> (string \<times> 'j) list \<Rightarrow> (bool \<times> (string \<times> 'j) list) res" where
  "setProperty J key value m =
     (if key = [] \<or> key \<notin> set cii_keys then Inr (False, m)
      else if jc_is_string J value then
        bindR (or_throw (jc_as_string J value)) (\<lambda>val.
          let url = (str_find key ''Url'' 0 \<noteq> None) in
          if url \<and> val = [] then Inl OobRead
          else if url \<and> last val = CHR ''/'' then Inr (False, m)
          else if key = ''contentIdStatus'' \<and> key \<in> set cii_contentIdStatus then Inr (False, m)
          else if key = ''presentationStatus'' then
            (if presentation_pattern val then Inr (True, om_ins key value m) else Inr (False, m))
          else if key = ''protocolVersion'' \<and> val \<noteq> cii_protocolVersion then Inr (False, m)
          else if uri_pattern val then Inr (True, om_ins key value m)
          else Inr (False, m))
      else if key = ''private'' \<or> (key = ''timelines'' \<and> jc_is_array J value)
              \<or> ((key = ''mrsUrl'' \<or> key = ''teUrl'') \<and> jc_is_null J value)
        then Inr (True, om_ins key value m)
      else Inr (False, m))"

definition getProperty :: "'j jsoncpp \<Rightarrow> string \<Rightarrow> (string \<times> 'j) list \<Rightarrow> 'j" where
  "getProperty J key m = (case om_get m key of None \<Rightarrow> jc_null J | Some v \<Rightarrow> v)"

section \<open>Timeline selectors\<close>

record 'j TimelineWrapper =
  tw_numWatchers :: int
  tw_pendingWatchers :: int
  tw_temiFilterId :: int
  tw_temiComponentTag :: int
  tw_temiTimelineId :: int
  tw_timeline :: 'j

definition TimelineWrapper_new :: "'j jsoncpp \<Rightarrow> 'j TimelineWrapper" where
  "TimelineWrapper_new J =
     \<lparr>tw_numWatchers = 0, tw_pendingWatchers = 0, tw_temiFilterId = -1, tw_temiComponentTag = -1,
      tw_temiTimelineId = -1, tw_timeline = jc_null J\<rparr>"

definition flushPendingWatchers :: "'j TimelineWrapper \<Rightarrow> 'j TimelineWrapper" where
  "flushPendingWatchers w = w\<lparr>tw_numWatchers := tw_numWatchers w + tw_pendingWatchers w, tw_pendingWatchers := 0\<rparr>"

definition quote :: char where
  "quote = CHR 0x22"

text \<open>The JSON text of a timeline, made by concatenation: the selector is not escaped, and the text of a TEMI
  timeline closes the object before its last two members.\<close>

definition timeline_text :: "string \<Rightarrow> string \<Rightarrow> string" where
  "timeline_text sel rest = [CHR ''{'', quote] @ ''timelineSelector'' @ [quote, CHR '':'', quote] @ sel @ [quote] @ rest"

definition timeline_rate :: "string \<Rightarrow> string" where
  "timeline_rate r = '','' @ [quote] @ ''timelineProperties'' @ [quote] @ '':{'' @ [quote] @ ''unitsPerTick'' @ [quote]
     @ '':1,'' @ [quote] @ ''unitsPerSecond'' @ [quote] @ '':'' @ r @ ''}}''"

definition timeline_temi :: "string \<Rightarrow> string \<Rightarrow> string" where
  "timeline_temi tag tid = ''},'' @ [quote] @ ''componentTag'' @ [quote] @ '':'' @ tag @ '','' @ [quote] @ ''timelineId'' @ [quote]
     @ '':'' @ tid @ ''}''"

definition unpack_timeline :: "'j jsoncpp \<Rightarrow> string \<Rightarrow> 'j TimelineWrapper \<Rightarrow> bool \<times> 'j TimelineWrapper" where
  "unpack_timeline J msg w = (case jc_parse J msg of None \<Rightarrow> (False, w) | Some j \<Rightarrow> (True, w\<lparr>tw_timeline := j\<rparr>))"

text \<open>\<open>timeline["timelineProperties"][k] = v\<close>.\<close>

definition put_timeline_property :: "'j jsoncpp \<Rightarrow> string \<Rightarrow> 'j \<Rightarrow> 'j \<Rightarrow> 'j res" where
  "put_timeline_property J k v t =
     bindR (or_throw (jc_get J t ''timelineProperties'')) (\<lambda>p.
     bindR (or_throw (jc_put J p k v)) (\<lambda>p.
     or_throw (jc_put J t ''timelineProperties'' p)))"

definition ParseTimelineSelector :: "'j jsoncpp \<Rightarrow> string \<Rightarrow> 'j TimelineWrapper \<Rightarrow> (bool \<times> 'j TimelineWrapper) res" where
  "ParseTimelineSelector J sel w =
     (case str_find sel '':timeline:'' 0 of
        None \<Rightarrow> Inr (False, w)
      | Some pos \<Rightarrow>
          (case split_at (CHR '':'') [] (drop (pos + 10) sel) of
             [] \<Rightarrow> Inr (False, w)
           | p # ps \<Rightarrow>
               if p = ''html-media-timeline'' then Inr (unpack_timeline J (timeline_text sel (timeline_rate ''1000'')) w)
               else if p = ''pts'' then Inr (unpack_timeline J (timeline_text sel (timeline_rate ''90000'')) w)
               else if p = ''mpd'' then
                 (let (result, w) = unpack_timeline J (timeline_text sel (timeline_rate ''1000'')) w in
                  if result \<and> 3 < length (p # ps) then
                    bindR (or_throw (stoull (ps ! 2))) (\<lambda>r.
                    bindR (put_timeline_property J ''unitsPerSecond'' (jc_of_uint J r) (tw_timeline w)) (\<lambda>j.
                    Inr (True, w\<lparr>tw_timeline := j\<rparr>)))
                  else Inr (result, w))
               else if p = ''temi'' \<and> 3 \<le> length (p # ps) then
                 (let (result, w) = unpack_timeline J (timeline_text sel (timeline_temi (ps ! 0) (ps ! 1))) w in
                  bindR (or_throw (stoi (ps ! 0))) (\<lambda>tag.
                  bindR (or_throw (stoi (ps ! 1))) (\<lambda>tid.
                  Inr (result, w\<lparr>tw_temiComponentTag := tag, tw_temiTimelineId := tid\<rparr>))))
               else Inr (False, w)))"

end
