(* ===== verification/MediaSync.thy ===== *)
theory MediaSync
  imports CssTypes
begin

text \<open>
  The media synchroniser: \<open>MediaSynchroniser\<close> (\<open>media_synchroniser.cpp\<close>), the services of content
  identification and of timeline synchronisation (\<open>ContentIdentificationService.cpp\<close>,
  \<open>TimelineSyncService.cpp\<close>) and the \<open>ServiceManager\<close> (\<open>service_manager.cpp\<close>) that owns the services and tells the
  synchroniser when they have stopped.

  Timeline sources (each with its correlated clock) and services are objects on heaps; following a
  pointer to a destroyed one is a fault. The synchroniser and its services run in several threads;
  its public operations take its mutex, so that each is one step. What the clocks show is computed
  in floating point and is a parameter, as are the results of the platform: the \<open>n\<close>-th reading is the
  value of a function at \<open>n\<close>.
\<close>

section \<open>State\<close>

record 'j css_env =
  css_json :: "'j jsoncpp"
  css_feq :: "u64 \<Rightarrow> u64 \<Rightarrow> bool"
  css_multiplier :: "u64 \<Rightarrow> 'j"
  css_wall :: "nat \<Rightarrow> u64"
  css_ticks :: "nat \<Rightarrow> nat \<Rightarrow> u64"
  css_start_temi :: "nat \<Rightarrow> int"
  css_temi :: "nat \<Rightarrow> int \<Rightarrow> u64"
  css_pts :: "nat \<Rightarrow> u64"

text \<open>A timeline source and its correlated clock. The parent of a clock is the system clock (\<^const>\<open>None\<close>) or
  the clock of another source.\<close>

record tl_source =
  s_selector :: string
  s_rate :: "u64 \<times> u64"
  s_available :: bool
  s_parent :: "nat option"
  s_parentTicks :: u64
  s_childTicks :: u64
  s_speed :: u64
  s_changed :: bool
  s_latestCt :: ControlTimestamp
  s_sinks :: "nat list"

record 'j cii_service =
  cii_connections :: "nat list"
  cii_previousMessage :: "(string \<times> 'j) list"

record ts_service =
  ts_connections :: "nat list"
  ts_contentId :: string
  ts_contentIdOverride :: string
  ts_ciiService :: nat
  ts_timelineSources :: "nat list"
  ts_timelineSelectors :: "(string \<times> int) list"
  ts_setupData :: "(nat \<times> SetupTSData) list"
  ts_previousTimestamp :: "(nat \<times> ControlTimestamp) list"

datatype 'j service_kind = WallClockKind | CiiKind "'j cii_service" | TsKind ts_service

record 'j service =
  sv_stop :: bool
  sv_kind :: "'j service_kind"

datatype ms_output =
    TimelineAvailable string u64
  | TimelineUnavailable string
  | InterDeviceSyncEnabled
  | InterDeviceSyncDisabled
  | StartTemi int int
  | StopTemi int
  | ClientMessage nat string

record 'j media_sync =
  ms_timelines :: "(string \<times> 'j TimelineWrapper) list"
  ms_masterTimeline :: string
  ms_isMasterBroadcast :: bool
  ms_syncing :: bool
  ms_delete :: bool
  ms_initialised :: bool
  ms_runningServices :: int
  ms_wcService :: int
  ms_ciiService :: int
  ms_tsService :: int
  ms_ciiProps :: "(string \<times> 'j) list"
  ms_contentIdOverride :: string
  ms_contentId :: string
  ms_timelineSources :: "(string \<times> nat) list"
  ms_currentCSSId :: string
  ms_currentCSSStatus :: string
  ms_contentCSSIdStatus :: string
  ms_wcPort :: nat
  ms_tsPort :: nat
  tl_heap :: "(nat \<times> tl_source) list"
  sm_services :: "(int \<times> nat) list"
  sm_callbacks :: "nat list"
  sm_locked :: bool
  sv_heap :: "(nat \<times> 'j service) list"
  ms_next :: nat
  ms_reads :: nat
  ms_outputs :: "ms_output list"

definition ms_emit :: "ms_output \<Rightarrow> 'j media_sync \<Rightarrow> 'j media_sync" where
  "ms_emit o1 st = st\<lparr>ms_outputs := ms_outputs st @ [o1]\<rparr>"

definition ms_tick :: "'j media_sync \<Rightarrow> 'j media_sync" where
  "ms_tick st = st\<lparr>ms_reads := ms_reads st + 1\<rparr>"

section \<open>Clocks\<close>

definition src_at :: "(nat \<times> tl_source) list \<Rightarrow> nat \<Rightarrow> tl_source res" where
  "src_at h p = (case om_get h p of None \<Rightarrow> Inl UseAfterFree | Some s \<Rightarrow> Inr s)"

text \<open>\<open>ClockBase::isAvailable\<close> and \<open>ClockBase::notify\<close> walk the tree of clocks, which is no deeper than the number
  of clocks.\<close>

fun clock_available :: "nat \<Rightarrow> (nat \<times> tl_source) list \<Rightarrow> nat \<Rightarrow> bool res" where
  "clock_available 0 h p = Inl Diverge"
| "clock_available (Suc n) h p = bindR (src_at h p) (\<lambda>s.
     if \<not> s_available s then Inr False
     else case s_parent s of None \<Rightarrow> Inr True | Some q \<Rightarrow> clock_available n h q)"

definition is_available :: "(nat \<times> tl_source) list \<Rightarrow> nat \<Rightarrow> bool res" where
  "is_available h p = clock_available (length h + 1) h p"

text \<open>A notified clock notifies the clocks below it and its source, if that is bound to it.\<close>

definition source_notify :: "nat \<Rightarrow> (nat \<times> tl_source) list \<Rightarrow> (nat \<times> tl_source) list" where
  "source_notify p h = (case om_get h p of
     None \<Rightarrow> h
   | Some s \<Rightarrow> if s_sinks s \<noteq> [] then om_ins p (s\<lparr>s_changed := True\<rparr>) h else h)"

fun clock_notify :: "nat \<Rightarrow> nat \<Rightarrow> (nat \<times> tl_source) list \<Rightarrow> (nat \<times> tl_source) list" where
  "clock_notify 0 p h = h"
| "clock_notify (Suc n) p h =
     fold (clock_notify n) (map fst (filter (\<lambda>(q, s). s_parent s = Some p) h)) (source_notify p h)"

definition notify_clock :: "nat \<Rightarrow> (nat \<times> tl_source) list \<Rightarrow> (nat \<times> tl_source) list" where
  "notify_clock p h = clock_notify (length h + 1) p h"

definition clock_SetAvailability :: "bool \<Rightarrow> nat \<Rightarrow> (nat \<times> tl_source) list \<Rightarrow> (nat \<times> tl_source) list res" where
  "clock_SetAvailability a p h = bindR (src_at h p) (\<lambda>s.
     bindR (if s_available s = a then Inr False else case s_parent s of None \<Rightarrow> Inr True | Some q \<Rightarrow> is_available h q) (\<lambda>change.
     let h = om_ins p (s\<lparr>s_available := a\<rparr>) h in
     Inr (if change then notify_clock p h else h)))"

text \<open>\<open>setParent\<close> unbinds the clock from its old parent and binds it to the new one; both are followed. The system clock, which
  is the parent of a clock without one here, is never destroyed.\<close>

definition live_parent :: "(nat \<times> tl_source) list \<Rightarrow> nat option \<Rightarrow> unit res" where
  "live_parent h q = (case q of None \<Rightarrow> Inr () | Some q \<Rightarrow> bindR (src_at h q) (\<lambda>_. Inr ()))"

definition clock_setParent :: "nat option \<Rightarrow> nat \<Rightarrow> (nat \<times> tl_source) list \<Rightarrow> (nat \<times> tl_source) list res" where
  "clock_setParent q p h = bindR (src_at h p) (\<lambda>s.
     if s_parent s \<noteq> q then
       bindR (live_parent h (s_parent s)) (\<lambda>_. bindR (live_parent h q) (\<lambda>_.
       Inr (notify_clock p (om_ins p (s\<lparr>s_parent := q\<rparr>) h))))
     else Inr h)"

definition on_sources :: "((nat \<times> tl_source) list \<Rightarrow> (nat \<times> tl_source) list res) \<Rightarrow> 'j media_sync \<Rightarrow> 'j media_sync res" where
  "on_sources f st = bindR (f (tl_heap st)) (\<lambda>h. Inr (st\<lparr>tl_heap := h\<rparr>))"

text \<open>\<open>getTicks\<close> of the system clock and of the clock of a source, which asks its parent for its ticks and that its own
  parent: a clock that has been destroyed is still followed. What the clock shows is computed in floating point.\<close>

fun clock_chain :: "nat \<Rightarrow> (nat \<times> tl_source) list \<Rightarrow> nat \<Rightarrow> unit res" where
  "clock_chain 0 h p = Inl Diverge"
| "clock_chain (Suc n) h p = bindR (src_at h p) (\<lambda>s. case s_parent s of None \<Rightarrow> Inr () | Some q \<Rightarrow> clock_chain n h q)"

definition read_wall :: "'j css_env \<Rightarrow> 'j media_sync \<Rightarrow> u64 \<times> 'j media_sync" where
  "read_wall E st = (css_wall E (ms_reads st), ms_tick st)"

definition read_clock :: "'j css_env \<Rightarrow> nat \<Rightarrow> 'j media_sync \<Rightarrow> (u64 \<times> 'j media_sync) res" where
  "read_clock E p st = bindR (clock_chain (length (tl_heap st) + 1) (tl_heap st) p) (\<lambda>_. Inr (css_ticks E (ms_reads st) p, ms_tick st))"

text \<open>\<open>SimpleClockTimelineSource::getControlTimestamp\<close>.\<close>

definition getControlTimestamp :: "'j css_env \<Rightarrow> nat \<Rightarrow> 'j media_sync \<Rightarrow> (ControlTimestamp \<times> 'j media_sync) res" where
  "getControlTimestamp E p st = bindR (src_at (tl_heap st) p) (\<lambda>s.
     if \<not> s_changed s then Inr (s_latestCt s, st)
     else bindR (is_available (tl_heap st) p) (\<lambda>a.
       bindR (if a then bindR (read_clock E p st) (\<lambda>(t, st). Inr (Some t, st)) else Inr (None, st)) (\<lambda>(content, st).
       let (w, st) = read_wall E st;
           ct = \<lparr>ct_stamp = TimeStamp_new content (dec_string (unat w)), ct_multiplier = (if a then Some (s_speed s) else None)\<rparr>
       in Inr (ct, st\<lparr>tl_heap := om_ins p (s\<lparr>s_changed := False, s_latestCt := ct\<rparr>) (tl_heap st)\<rparr>))))"

definition attachSink :: "nat \<Rightarrow> nat \<Rightarrow> (nat \<times> tl_source) list \<Rightarrow> (nat \<times> tl_source) list res" where
  "attachSink ts p h = bindR (src_at h p) (\<lambda>s.
     Inr (om_ins p (s\<lparr>s_sinks := (if ts \<in> set (s_sinks s) then s_sinks s else s_sinks s @ [ts])\<rparr>) h))"

definition removeSink :: "nat \<Rightarrow> nat \<Rightarrow> (nat \<times> tl_source) list \<Rightarrow> (nat \<times> tl_source) list res" where
  "removeSink ts p h = bindR (src_at h p) (\<lambda>s. Inr (om_ins p (s\<lparr>s_sinks := filter (\<lambda>x. x \<noteq> ts) (s_sinks s)\<rparr>) h))"

section \<open>Services\<close>

definition FindService :: "int \<Rightarrow> 'j media_sync \<Rightarrow> (nat \<times> 'j service) option" where
  "FindService i st = (case om_get (sm_services st) i of
     None \<Rightarrow> None
   | Some p \<Rightarrow> (case om_get (sv_heap st) p of None \<Rightarrow> None | Some sv \<Rightarrow> Some (p, sv)))"

definition FindCii :: "int \<Rightarrow> 'j media_sync \<Rightarrow> nat option" where
  "FindCii i st = (case FindService i st of
     Some (p, sv) \<Rightarrow> (case sv_kind sv of CiiKind c \<Rightarrow> Some p | _ \<Rightarrow> None) | None \<Rightarrow> None)"

definition FindTs :: "int \<Rightarrow> 'j media_sync \<Rightarrow> nat option" where
  "FindTs i st = (case FindService i st of
     Some (p, sv) \<Rightarrow> (case sv_kind sv of TsKind t \<Rightarrow> Some p | _ \<Rightarrow> None) | None \<Rightarrow> None)"

definition cii_at :: "nat \<Rightarrow> 'j media_sync \<Rightarrow> 'j cii_service res" where
  "cii_at p st = (case om_get (sv_heap st) p of
     Some sv \<Rightarrow> (case sv_kind sv of CiiKind c \<Rightarrow> Inr c | _ \<Rightarrow> Inl UseAfterFree) | None \<Rightarrow> Inl UseAfterFree)"

definition ts_at :: "nat \<Rightarrow> 'j media_sync \<Rightarrow> ts_service res" where
  "ts_at p st = (case om_get (sv_heap st) p of
     Some sv \<Rightarrow> (case sv_kind sv of TsKind t \<Rightarrow> Inr t | _ \<Rightarrow> Inl UseAfterFree) | None \<Rightarrow> Inl UseAfterFree)"

definition put_kind :: "nat \<Rightarrow> 'j service_kind \<Rightarrow> 'j media_sync \<Rightarrow> 'j media_sync" where
  "put_kind p k st = (case om_get (sv_heap st) p of
     None \<Rightarrow> st | Some sv \<Rightarrow> st\<lparr>sv_heap := om_ins p (sv\<lparr>sv_kind := k\<rparr>) (sv_heap st)\<rparr>)"

definition put_ts :: "nat \<Rightarrow> ts_service \<Rightarrow> 'j media_sync \<Rightarrow> 'j media_sync" where
  "put_ts p t = put_kind p (TsKind t)"

definition put_cii :: "nat \<Rightarrow> 'j cii_service \<Rightarrow> 'j media_sync \<Rightarrow> 'j media_sync" where
  "put_cii p c = put_kind p (CiiKind c)"

subsection \<open>Content identification\<close>

text \<open>\<open>pack\<close> computes the difference to the previous message and sends the whole message.\<close>

definition cii_pack :: "'j css_env \<Rightarrow> (string \<times> 'j) list \<Rightarrow> string" where
  "cii_pack E m = jc_write (css_json E) (jc_of_object (css_json E) m)"

definition cii_OnConnection :: "'j css_env \<Rightarrow> nat \<Rightarrow> nat \<Rightarrow> 'j media_sync \<Rightarrow> 'j media_sync res" where
  "cii_OnConnection E p c st = bindR (cii_at p st) (\<lambda>cii.
     Inr (put_cii p (cii\<lparr>cii_previousMessage := ms_ciiProps st\<rparr>) (ms_emit (ClientMessage c (cii_pack E (ms_ciiProps st))) st)))"

definition updateClients :: "'j css_env \<Rightarrow> nat \<Rightarrow> 'j media_sync \<Rightarrow> 'j media_sync res" where
  "updateClients E p st = bindR (cii_at p st) (\<lambda>cii.
     Inr (put_cii p (cii\<lparr>cii_previousMessage := ms_ciiProps st\<rparr>)
       (fold (\<lambda>c. ms_emit (ClientMessage c (cii_pack E (ms_ciiProps st)))) (cii_connections cii) st)))"

definition ms_setProperty :: "'j css_env \<Rightarrow> string \<Rightarrow> 'j \<Rightarrow> 'j media_sync \<Rightarrow> 'j media_sync res" where
  "ms_setProperty E k v st = bindR (setProperty (css_json E) k v (ms_ciiProps st)) (\<lambda>(ok, m). Inr (st\<lparr>ms_ciiProps := m\<rparr>))"

text \<open>\<open>setCIIMessageProperty\<close> goes through a pointer to the service of content identification.\<close>

definition setCIIMessageProperty :: "'j css_env \<Rightarrow> nat \<Rightarrow> string \<Rightarrow> string \<Rightarrow> 'j media_sync \<Rightarrow> 'j media_sync res" where
  "setCIIMessageProperty E cii k v st = bindR (cii_at cii st) (\<lambda>_. ms_setProperty E k (jc_of_string (css_json E) v) st)"

subsection \<open>Timeline synchronisation\<close>

definition setup_of :: "ts_service \<Rightarrow> nat \<Rightarrow> SetupTSData" where
  "setup_of t c = (case om_get (ts_setupData t) c of None \<Rightarrow> SetupTSData_empty | Some d \<Rightarrow> d)"

definition getContentId :: "ts_service \<Rightarrow> string" where
  "getContentId t = (if ts_contentIdOverride t = [] then ts_contentId t else ts_contentIdOverride t)"

text \<open>The sources that recognise the selector are asked one after the other; the last one counts.\<close>

definition ask_source :: "'j css_env \<Rightarrow> string \<Rightarrow> nat \<Rightarrow> ControlTimestamp \<times> 'j media_sync \<Rightarrow> (ControlTimestamp \<times> 'j media_sync) res" where
  "ask_source E sel p r = (case r of (ct, st) \<Rightarrow> bindR (src_at (tl_heap st) p) (\<lambda>s.
     if s_selector s = sel then getControlTimestamp E p st else Inr (ct, st)))"

definition updateClient :: "'j css_env \<Rightarrow> nat \<Rightarrow> nat \<Rightarrow> 'j media_sync \<Rightarrow> 'j media_sync res" where
  "updateClient E p c st = bindR (ts_at p st) (\<lambda>t.
     let d = setup_of t c; st = put_ts p (t\<lparr>ts_setupData := om_ins c d (ts_setupData t)\<rparr>) st in
     if setup_isEmpty d then Inr st
     else
       (let (w, st) = read_wall E st;
            ct = \<lparr>ct_stamp = TimeStamp_new None (dec_string (unat w)), ct_multiplier = None\<rparr>
        in bindR (if ciMatchesStem (getContentId t) (su_contentIdStem d)
                  then foldR (ask_source E (su_timelineSelector d)) (ts_timelineSources t) (ct, st) else Inr (ct, st)) (\<lambda>(ct, st).
           bindR (ts_at p st) (\<lambda>t.
           if isControlTimestampChanged (css_feq E) (om_get (ts_previousTimestamp t) c) (Some ct) then
             Inr (ms_emit (ClientMessage c (jc_write (css_json E) (ControlTimestamp_pack (css_json E) (css_multiplier E) ct)))
               (put_ts p (t\<lparr>ts_previousTimestamp := om_ins c ct (ts_previousTimestamp t)\<rparr>) st))
           else Inr st))))"

definition updateAllClients :: "'j css_env \<Rightarrow> nat \<Rightarrow> 'j media_sync \<Rightarrow> 'j media_sync res" where
  "updateAllClients E p st = bindR (ts_at p st) (\<lambda>t. foldR (updateClient E p) (ts_connections t) st)"

definition ts_setContentId :: "'j css_env \<Rightarrow> nat \<Rightarrow> string \<Rightarrow> bool \<Rightarrow> 'j media_sync \<Rightarrow> 'j media_sync res" where
  "ts_setContentId E p cid forceUpdate st = bindR (ts_at p st) (\<lambda>t.
     if cid \<noteq> ts_contentId t then
       (let t = t\<lparr>ts_contentId := cid\<rparr>; st = put_ts p t st in
        if ts_contentId t = getContentId t then
          bindR (setCIIMessageProperty E (ts_ciiService t) ''contentId'' (getContentId t) st) (\<lambda>st.
          if forceUpdate then bindR (updateAllClients E p st) (updateClients E (ts_ciiService t)) else Inr st)
        else Inr st)
     else Inr st)"

definition ts_setContentIdOverride :: "'j css_env \<Rightarrow> nat \<Rightarrow> string \<Rightarrow> bool \<Rightarrow> 'j media_sync \<Rightarrow> 'j media_sync res" where
  "ts_setContentIdOverride E p cid forceUpdate st = bindR (ts_at p st) (\<lambda>t.
     if cid \<noteq> ts_contentIdOverride t then
       (let t = t\<lparr>ts_contentIdOverride := cid\<rparr>; st = put_ts p t st in
        bindR (setCIIMessageProperty E (ts_ciiService t) ''contentId'' (getContentId t) st) (\<lambda>st.
        bindR (setCIIMessageProperty E (ts_ciiService t) ''contentIdStatus'' ''final'' st) (\<lambda>st.
        if forceUpdate then bindR (updateAllClients E p st) (updateClients E (ts_ciiService t)) else Inr st)))
     else Inr st)"

definition attachTimelineSource :: "nat \<Rightarrow> nat \<Rightarrow> 'j media_sync \<Rightarrow> 'j media_sync res" where
  "attachTimelineSource p s st = bindR (on_sources (attachSink p s) st) (\<lambda>st. bindR (ts_at p st) (\<lambda>t.
     Inr (put_ts p (t\<lparr>ts_timelineSources :=
        (if s \<in> set (ts_timelineSources t) then ts_timelineSources t else ts_timelineSources t @ [s])\<rparr>) st)))"

definition removeTimelineSource :: "nat \<Rightarrow> nat \<Rightarrow> 'j media_sync \<Rightarrow> 'j media_sync res" where
  "removeTimelineSource p s st = bindR (on_sources (removeSink p s) st) (\<lambda>st. bindR (ts_at p st) (\<lambda>t.
     Inr (put_ts p (t\<lparr>ts_timelineSources := filter (\<lambda>x. x \<noteq> s) (ts_timelineSources t)\<rparr>) st)))"

section \<open>The synchroniser\<close>

definition timeline_at :: "'j css_env \<Rightarrow> string \<Rightarrow> 'j media_sync \<Rightarrow> 'j TimelineWrapper" where
  "timeline_at E k st = (case om_get (ms_timelines st) k of None \<Rightarrow> TimelineWrapper_new (css_json E) | Some w \<Rightarrow> w)"

definition put_timeline :: "string \<Rightarrow> 'j TimelineWrapper \<Rightarrow> 'j media_sync \<Rightarrow> 'j media_sync" where
  "put_timeline k w st = st\<lparr>ms_timelines := om_ins k w (ms_timelines st)\<rparr>"

definition erase_timeline :: "string \<Rightarrow> 'j media_sync \<Rightarrow> 'j media_sync" where
  "erase_timeline k st = st\<lparr>ms_timelines := om_del k (ms_timelines st)\<rparr>"

definition getTimelineSource :: "string \<Rightarrow> 'j media_sync \<Rightarrow> nat option" where
  "getTimelineSource k st = om_get (ms_timelineSources st) k"

definition updateAllCIIClients :: "'j css_env \<Rightarrow> 'j media_sync \<Rightarrow> 'j media_sync res" where
  "updateAllCIIClients E st = (case FindCii (ms_ciiService st) st of None \<Rightarrow> Inr st | Some p \<Rightarrow> updateClients E p st)"

definition updateAllTSClients :: "'j css_env \<Rightarrow> 'j media_sync \<Rightarrow> 'j media_sync res" where
  "updateAllTSClients E st = (case FindTs (ms_tsService st) st of None \<Rightarrow> Inr st | Some p \<Rightarrow> updateAllClients E p st)"

definition ms_setContentId :: "'j css_env \<Rightarrow> string \<Rightarrow> 'j media_sync \<Rightarrow> 'j media_sync res" where
  "ms_setContentId E cid st =
     (let ts = FindTs (ms_tsService st) st; st = st\<lparr>ms_contentId := cid\<rparr> in
      case ts of None \<Rightarrow> Inr st | Some p \<Rightarrow> ts_setContentId E p cid False st)"

definition ms_setContentIdOverride :: "'j css_env \<Rightarrow> string \<Rightarrow> bool \<Rightarrow> 'j media_sync \<Rightarrow> 'j media_sync res" where
  "ms_setContentIdOverride E cid forceUpdate st =
     (let ts = FindTs (ms_tsService st) st; st = st\<lparr>ms_contentIdOverride := cid\<rparr> in
      case ts of None \<Rightarrow> Inr st | Some p \<Rightarrow> ts_setContentIdOverride E p cid forceUpdate st)"

text \<open>\<open>setContentTimeAndSpeed\<close>: a new correlation with the present reading of the parent clock.\<close>

definition set_correlation :: "'j css_env \<Rightarrow> u64 \<Rightarrow> u64 \<Rightarrow> nat \<Rightarrow> 'j media_sync \<Rightarrow> 'j media_sync res" where
  "set_correlation E t speed p st = bindR (src_at (tl_heap st) p) (\<lambda>s.
     bindR (case s_parent s of None \<Rightarrow> Inr (read_wall E st) | Some q \<Rightarrow> read_clock E q st) (\<lambda>(parentTicks, st).
     Inr (st\<lparr>tl_heap := notify_clock p
        (om_ins p (s\<lparr>s_childTicks := t, s_parentTicks := parentTicks, s_speed := speed\<rparr>) (tl_heap st))\<rparr>)))"

definition setContentTimeAndSpeed :: "'j css_env \<Rightarrow> string \<Rightarrow> u64 \<Rightarrow> u64 \<Rightarrow> 'j media_sync \<Rightarrow> 'j media_sync res" where
  "setContentTimeAndSpeed E k t speed st =
     bindR (case getTimelineSource k st of None \<Rightarrow> Inr st | Some p \<Rightarrow> set_correlation E t speed p st) (updateAllTSClients E)"

text \<open>\<open>SimpleClockTimelineSourceFactory::Make\<close>: the rate is the quotient of the two properties, in floating point.\<close>

definition one_double :: u64 where
  "one_double = 0x3FF0000000000000"

definition Make :: "'j css_env \<Rightarrow> 'j \<Rightarrow> 'j media_sync \<Rightarrow> ((nat \<times> 'j) \<times> 'j media_sync) res" where
  "Make E timeline st =
     (let J = css_json E in
      bindR (or_throw (jc_get J timeline ''timelineSelector'')) (\<lambda>sel.
      bindR (or_throw (jc_as_string J sel)) (\<lambda>sel.
      bindR (or_throw (jc_get J timeline ''timelineProperties'')) (\<lambda>props.
      bindR (or_throw (jc_get J props ''unitsPerSecond'')) (\<lambda>ups.
      bindR (or_throw (jc_as_uint J ups)) (\<lambda>ups.
      bindR (or_throw (jc_get J props ''unitsPerTick'')) (\<lambda>upt.
      bindR (or_throw (jc_as_double J upt)) (\<lambda>upt.
      bindR (or_throw (jc_put J (jc_touch J timeline ''timelineSelector'') ''timelineProperties''
               (jc_touch J (jc_touch J props ''unitsPerSecond'') ''unitsPerTick''))) (\<lambda>timeline.
        let (w, st) = read_wall E st; p = ms_next st;
            s = \<lparr>s_selector = sel, s_rate = (ups, upt), s_available = True, s_parent = None, s_parentTicks = w,
                 s_childTicks = 0, s_speed = one_double, s_changed = True,
                 s_latestCt = \<lparr>ct_stamp = TimeStamp_new None ''0'', ct_multiplier = None\<rparr>, s_sinks = []\<rparr>
        in Inr ((p, timeline), st\<lparr>tl_heap := om_ins p s (tl_heap st), ms_next := p + 1\<rparr>))))))))))"

definition set_parents :: "nat option \<Rightarrow> 'j media_sync \<Rightarrow> 'j media_sync res" where
  "set_parents q st = on_sources (foldR (clock_setParent q) (map snd (ms_timelineSources st))) st"

definition pts_rate :: u64 where
  "pts_rate = 1000"

text \<open>The part of \<open>addTimeline\<close> that creates the source of a timeline.\<close>

definition create_source :: "'j css_env \<Rightarrow> string \<Rightarrow> 'j \<Rightarrow> 'j media_sync \<Rightarrow> 'j media_sync res" where
  "create_source E k timeline st =
     (let J = css_json E; temp = getProperty J ''timelines'' (ms_ciiProps st) in
      bindR (Make E timeline st) (\<lambda>((p, timeline), st).
      bindR (if ms_masterTimeline st = k then set_parents (Some p) st else Inr st) (\<lambda>st.
      bindR (or_throw (jc_append J temp timeline)) (\<lambda>temp.
      bindR (ms_setProperty E ''timelines'' temp (st\<lparr>ms_timelineSources := om_ins k p (ms_timelineSources st)\<rparr>)) (\<lambda>st.
      bindR (case FindTs (ms_tsService st) st of None \<Rightarrow> Inr st | Some ts \<Rightarrow> attachTimelineSource ts p st) (\<lambda>st.
      bindR (if has_suffix '':pts'' k then
               bindR (setContentTimeAndSpeed E k (css_pts E (ms_reads st)) one_double (ms_tick st)) (\<lambda>st.
               Inr (ms_emit (TimelineAvailable k pts_rate) st))
             else Inr st) (\<lambda>st.
      bindR (updateAllCIIClients E st) (updateAllTSClients E))))))))"

definition addTimeline :: "'j css_env \<Rightarrow> string \<Rightarrow> 'j media_sync \<Rightarrow> 'j media_sync res" where
  "addTimeline E k st =
     (let w = timeline_at E k st in
      if jc_is_null (css_json E) (tw_timeline w) then Inr (erase_timeline k st)
      else if tw_numWatchers w \<le> 0 then
        (let w = flushPendingWatchers w; st = put_timeline k w st in
         if 0 < tw_numWatchers w then
           (case getTimelineSource k st of None \<Rightarrow> create_source E k (tw_timeline w) st | Some p \<Rightarrow> Inr st)
         else Inr (erase_timeline k st))
      else Inr (put_timeline k (flushPendingWatchers w) st))"

text \<open>The first timeline of the array that has the selector is removed (jsoncpp 1.9).\<close>

fun timeline_index :: "'j jsoncpp \<Rightarrow> string \<Rightarrow> nat \<Rightarrow> 'j list \<Rightarrow> nat option res" where
  "timeline_index J k i [] = Inr None"
| "timeline_index J k i (j # js) =
     bindR (or_throw (jc_get J j ''timelineSelector'')) (\<lambda>s.
     if jc_eq J s (jc_of_string J k) then Inr (Some i) else timeline_index J k (i + 1) js)"

definition remove_from_cii :: "'j css_env \<Rightarrow> string \<Rightarrow> 'j media_sync \<Rightarrow> 'j media_sync res" where
  "remove_from_cii E k st =
     (let J = css_json E; temp = getProperty J ''timelines'' (ms_ciiProps st) in
      bindR (timeline_index J k 0 (jc_elems J temp)) (\<lambda>r. case r of
        None \<Rightarrow> Inr st
      | Some i \<Rightarrow> bindR (ms_setProperty E ''timelines'' (jc_remove J temp i) st) (updateAllCIIClients E)))"

definition Destroy :: "nat \<Rightarrow> 'j media_sync \<Rightarrow> 'j media_sync" where
  "Destroy p st = st\<lparr>tl_heap := om_del p (tl_heap st)\<rparr>"

definition removeTimeline :: "'j css_env \<Rightarrow> string \<Rightarrow> 'j media_sync \<Rightarrow> 'j media_sync res" where
  "removeTimeline E k st =
     (case getTimelineSource k st of
        None \<Rightarrow> Inr (erase_timeline k st)
      | Some p \<Rightarrow>
          bindR (remove_from_cii E k (put_timeline k (timeline_at E k st) st)) (\<lambda>st.
          bindR (if ms_masterTimeline st = k then set_parents None (st\<lparr>ms_masterTimeline := []\<rparr>) else Inr st) (\<lambda>st.
          bindR (on_sources (clock_SetAvailability False p) st) (\<lambda>st.
          bindR (case FindTs (ms_tsService st) st of None \<Rightarrow> Inr st | Some ts \<Rightarrow> removeTimelineSource ts p st) (\<lambda>st.
          bindR (updateAllTSClients E st) (\<lambda>st.
          Inr (erase_timeline k (ms_emit (TimelineUnavailable k)
            (Destroy p (st\<lparr>ms_timelineSources := om_del k (ms_timelineSources st)\<rparr>))))))))))"

definition start_temi :: "'j css_env \<Rightarrow> int \<Rightarrow> int \<Rightarrow> 'j media_sync \<Rightarrow> int \<times> 'j media_sync" where
  "start_temi E tag tid st = (css_start_temi E (ms_reads st), ms_tick (ms_emit (StartTemi tag tid) st))"

definition startTimelineMonitoring :: "'j css_env \<Rightarrow> string \<Rightarrow> bool \<Rightarrow> 'j media_sync \<Rightarrow> (bool \<times> 'j media_sync) res" where
  "startTimelineMonitoring E k isMaster st =
     (if \<not> ms_initialised st then Inr (False, st)
      else let w = timeline_at E k st in
        if tw_numWatchers w \<le> 0 then
          if tw_pendingWatchers w \<le> 0 then
            bindR (ParseTimelineSelector (css_json E) k w) (\<lambda>(ok, w).
              if ok then
                let w = w\<lparr>tw_pendingWatchers := 1\<rparr>; st = (if isMaster then st\<lparr>ms_masterTimeline := k\<rparr> else st) in
                if tw_temiComponentTag w \<noteq> -1 \<and> tw_temiTimelineId w \<noteq> -1 then
                  let (f, st) = start_temi E (tw_temiComponentTag w) (tw_temiTimelineId w) st;
                      w = (if 0 \<le> f then w\<lparr>tw_temiFilterId := f\<rparr> else w)
                  in Inr (True, put_timeline k w st)
                else if has_suffix '':pts'' k then
                  bindR (addTimeline E k (put_timeline k w st)) (\<lambda>st. Inr (True, st))
                else Inr (True, put_timeline k w st)
              else Inr (False, erase_timeline k st))
          else Inr (False, put_timeline k (w\<lparr>tw_pendingWatchers := tw_pendingWatchers w + 1\<rparr>) st)
        else Inr (False, put_timeline k (w\<lparr>tw_numWatchers := tw_numWatchers w + 1\<rparr>) st))"

definition stopTimelineMonitoring :: "'j css_env \<Rightarrow> string \<Rightarrow> bool \<Rightarrow> 'j media_sync \<Rightarrow> (bool \<times> 'j media_sync) res" where
  "stopTimelineMonitoring E k forceStop st =
     (let w = timeline_at E k st in
      if forceStop \<or> (tw_numWatchers w = 1 \<and> tw_pendingWatchers w \<le> 0) then
        bindR (removeTimeline E k
           (let st = put_timeline k w st in
            if tw_temiFilterId w \<noteq> -1 then ms_emit (StopTemi (tw_temiFilterId w)) st else st)) (\<lambda>st. Inr (True, st))
      else if 0 < tw_pendingWatchers w then
        Inr (False, put_timeline k (w\<lparr>tw_pendingWatchers := tw_pendingWatchers w - 1\<rparr>) st)
      else if 1 < tw_numWatchers w then
        Inr (False, put_timeline k (w\<lparr>tw_numWatchers := tw_numWatchers w - 1\<rparr>) st)
      else Inr (False, erase_timeline k st))"

definition set_source_availability :: "string \<Rightarrow> bool \<Rightarrow> 'j media_sync \<Rightarrow> 'j media_sync res" where
  "set_source_availability k a st =
     (case getTimelineSource k st of None \<Rightarrow> Inr st | Some p \<Rightarrow> on_sources (clock_SetAvailability a p) st)"

definition setTimelineAvailability :: "'j css_env \<Rightarrow> string \<Rightarrow> bool \<Rightarrow> u64 \<Rightarrow> u64 \<Rightarrow> 'j media_sync \<Rightarrow> (bool \<times> 'j media_sync) res" where
  "setTimelineAvailability E k isAvailable t speed st =
     (let result = (getTimelineSource k st \<noteq> None) in
      bindR (set_source_availability k isAvailable st) (\<lambda>st.
      if isAvailable then
        bindR (addTimeline E k st) (\<lambda>st.
        bindR (setContentTimeAndSpeed E k t speed st) (\<lambda>st.
        Inr (result, ms_emit (TimelineAvailable k 1000) st)))
      else bindR (updateAllTSClients E (ms_emit (TimelineUnavailable k) st)) (\<lambda>st. Inr (result, st))))"

text \<open>\<open>setTEMITimelineAvailability\<close> holds an iterator to the entry of the timeline; if \<open>addTimeline\<close> erases the
  entry, the uses of the iterator that follow read freed memory.\<close>

definition temi_timeline :: "int \<Rightarrow> 'j media_sync \<Rightarrow> string option" where
  "temi_timeline f st = map_option fst (find (\<lambda>(k, w). tw_temiFilterId w = f) (ms_timelines st))"

definition iterator :: "string \<Rightarrow> 'j media_sync \<Rightarrow> unit res" where
  "iterator k st = (case om_get (ms_timelines st) k of None \<Rightarrow> Inl UseAfterFree | Some w \<Rightarrow> Inr ())"

definition setTEMITimelineAvailability ::
    "'j css_env \<Rightarrow> int \<Rightarrow> bool \<Rightarrow> u64 \<Rightarrow> u64 \<Rightarrow> u64 \<Rightarrow> 'j media_sync \<Rightarrow> (bool \<times> 'j media_sync) res" where
  "setTEMITimelineAvailability E f isAvailable t timescale speed st =
     (let J = css_json E in
      case temi_timeline f st of
        None \<Rightarrow> Inr (False, st)
      | Some k \<Rightarrow>
          (let result = (getTimelineSource k st \<noteq> None) in
           bindR (set_source_availability k isAvailable st) (\<lambda>st.
           if isAvailable then
             bindR (put_timeline_property J ''unitsPerTick'' (jc_of_uint J 1) (tw_timeline (timeline_at E k st))) (\<lambda>j.
             bindR (put_timeline_property J ''unitsPerSecond'' (jc_of_uint J timescale) j) (\<lambda>j.
             bindR (addTimeline E k (put_timeline k ((timeline_at E k st)\<lparr>tw_timeline := j\<rparr>) st)) (\<lambda>st.
             bindR (iterator k st) (\<lambda>_.
             bindR (setContentTimeAndSpeed E k t speed st) (\<lambda>st.
             Inr (result, ms_emit (TimelineAvailable k timescale) st))))))
           else bindR (updateAllTSClients E (ms_emit (TimelineUnavailable k) st)) (\<lambda>st. Inr (result, st)))))"

text \<open>\<open>ticks >= 0\<close> holds of every unsigned number.\<close>

definition getContentTime :: "'j css_env \<Rightarrow> string \<Rightarrow> 'j media_sync \<Rightarrow> ((u64 \<times> bool) \<times> 'j media_sync) res" where
  "getContentTime E k st =
     bindR (case getTimelineSource k st of
           Some p \<Rightarrow> read_clock E p st
         | None \<Rightarrow>
             if str_find k '':temi:'' 0 \<noteq> None then
               let w = timeline_at E k st; st = put_timeline k w st in
               Inr (css_temi E (ms_reads st) (tw_temiFilterId w), ms_tick st)
             else if str_find k '':pts'' 0 \<noteq> None then Inr (css_pts E (ms_reads st), ms_tick st)
             else Inr (0, st)) (\<lambda>(ticks, st).
     Inr ((ticks, 0 \<le> ticks), st))"

section \<open>The handlers of the timeline service\<close>

definition configureConnection :: "'j css_env \<Rightarrow> nat \<Rightarrow> nat \<Rightarrow> string \<Rightarrow> 'j media_sync \<Rightarrow> 'j media_sync res" where
  "configureConnection E p c txt st =
     bindR (SetupTSData_unpack (css_json E) txt) (\<lambda>d. bindR (ts_at p st) (\<lambda>t.
       let t = t\<lparr>ts_setupData := om_ins c d (ts_setupData t)\<rparr>; k = su_timelineSelector d in
       if setup_isEmpty d then Inr (put_ts p t st)
       else if k = [] then Inr (put_ts p t st)
       else
         (case om_get (ts_timelineSelectors t) k of
            None \<Rightarrow>
              bindR (startTimelineMonitoring E k False (put_ts p (t\<lparr>ts_timelineSelectors := om_ins k 1 (ts_timelineSelectors t)\<rparr>) st))
                (\<lambda>(r, st). updateClient E p c st)
          | Some n \<Rightarrow>
              updateClient E p c (put_ts p (t\<lparr>ts_timelineSelectors := om_ins k (n + 1) (ts_timelineSelectors t)\<rparr>) st))))"

definition ts_OnMessageReceived :: "'j css_env \<Rightarrow> nat \<Rightarrow> nat \<Rightarrow> string \<Rightarrow> 'j media_sync \<Rightarrow> 'j media_sync res" where
  "ts_OnMessageReceived E p c txt st = bindR (ts_at p st) (\<lambda>t.
     let st = put_ts p (t\<lparr>ts_setupData := om_ins c (setup_of t c) (ts_setupData t)\<rparr>) st in
     if setup_isEmpty (setup_of t c) then configureConnection E p c txt st
     else if \<not> isInDefaultState (AptEptLpt_unpack txt) then Inr st
     else configureConnection E p c txt st)"

definition ts_OnDisconnected :: "'j css_env \<Rightarrow> nat \<Rightarrow> nat \<Rightarrow> 'j media_sync \<Rightarrow> 'j media_sync res" where
  "ts_OnDisconnected E p c st = bindR (ts_at p st) (\<lambda>t.
     let d = setup_of t c; t = t\<lparr>ts_setupData := om_ins c d (ts_setupData t)\<rparr>; k = su_timelineSelector d in
     if setup_isEmpty d then Inr (put_ts p t st)
     else
       (let n = (case om_get (ts_timelineSelectors t) k of None \<Rightarrow> 0 | Some n \<Rightarrow> n) - 1;
            t = t\<lparr>ts_timelineSelectors := (if n = 0 then om_del k (ts_timelineSelectors t) else om_ins k n (ts_timelineSelectors t))\<rparr>;
            st = put_ts p t st
        in bindR (if n = 0 then bindR (stopTimelineMonitoring E k False st) (\<lambda>(r, st). Inr st) else Inr st) (\<lambda>st.
           bindR (ts_at p st) (\<lambda>t.
           Inr (put_ts p (t\<lparr>ts_setupData := om_del c (ts_setupData t),
                           ts_previousTimestamp := om_del c (ts_previousTimestamp t)\<rparr>) st)))))"

section \<open>The service manager\<close>

definition MAX_SERVICES :: int where
  "MAX_SERVICES = 1000"

definition NewServiceId :: "'j media_sync \<Rightarrow> int" where
  "NewServiceId st = (case find (\<lambda>i. om_get (sm_services st) i = None) [0 .. MAX_SERVICES - 1] of None \<Rightarrow> -1 | Some i \<Rightarrow> i)"

text \<open>A service is made, started (\<open>ok\<close>: whether that succeeds) and registered with its callback.\<close>

definition start_service :: "'j service_kind \<Rightarrow> bool \<Rightarrow> 'j media_sync \<Rightarrow> int \<times> 'j media_sync" where
  "start_service k ok st =
     (let i = NewServiceId st; p = ms_next st in
      if 0 \<le> i \<and> ok then
        (i, st\<lparr>ms_next := p + 1, sv_heap := om_ins p \<lparr>sv_stop = False, sv_kind = k\<rparr> (sv_heap st),
              sm_services := om_ins i p (sm_services st), sm_callbacks := sm_callbacks st @ [p]\<rparr>)
      else (-1, st))"

definition StartWallClockService :: "bool \<Rightarrow> 'j media_sync \<Rightarrow> int \<times> 'j media_sync" where
  "StartWallClockService = start_service WallClockKind"

definition StartContentIdentificationService :: "bool \<Rightarrow> 'j media_sync \<Rightarrow> int \<times> 'j media_sync" where
  "StartContentIdentificationService = start_service (CiiKind \<lparr>cii_connections = [], cii_previousMessage = []\<rparr>)"

text \<open>Without a service of content identification the function returns with the mutex of the manager locked.\<close>

definition StartTimelineSyncService :: "int \<Rightarrow> bool \<Rightarrow> 'j media_sync \<Rightarrow> int \<times> 'j media_sync" where
  "StartTimelineSyncService ciiService ok st =
     (case FindCii ciiService st of
        None \<Rightarrow> (-1, st\<lparr>sm_locked := True\<rparr>)
      | Some cii \<Rightarrow> start_service (TsKind \<lparr>ts_connections = [], ts_contentId = [], ts_contentIdOverride = [], ts_ciiService = cii,
            ts_timelineSources = [], ts_timelineSelectors = [], ts_setupData = [], ts_previousTimestamp = []\<rparr>) ok st)"

definition sm_StopService :: "int \<Rightarrow> 'j media_sync \<Rightarrow> 'j media_sync" where
  "sm_StopService i st = (case FindService i st of
     None \<Rightarrow> st | Some (p, sv) \<Rightarrow> st\<lparr>sv_heap := om_ins p (sv\<lparr>sv_stop := True\<rparr>) (sv_heap st)\<rparr>)"

section \<open>Inter-device synchronisation\<close>

definition CSS_SERVICE_COUNT :: int where
  "CSS_SERVICE_COUNT = 3"

definition disableInterDeviceSync :: "'j media_sync \<Rightarrow> 'j media_sync" where
  "disableInterDeviceSync st =
     (if ms_syncing st then
        (let st = sm_StopService (ms_wcService st) (sm_StopService (ms_ciiService st) (sm_StopService (ms_tsService st) (st\<lparr>ms_syncing := False\<rparr>)))
         in (ms_emit InterDeviceSyncDisabled st)\<lparr>ms_currentCSSId := [], ms_currentCSSStatus := [], ms_contentCSSIdStatus := []\<rparr>)
      else st)"

definition enableInterDeviceSync :: "'j css_env \<Rightarrow> string \<Rightarrow> bool \<times> bool \<times> bool \<Rightarrow> 'j media_sync \<Rightarrow> (bool \<times> 'j media_sync) res" where
  "enableInterDeviceSync E ip started st =
     (if ms_runningServices st \<le> 0 \<and> ms_initialised st then
        let J = css_json E in
        bindR (ms_setProperty E ''wcUrl'' (jc_of_string J (''udp://'' @ ip @ '':'' @ dec_string (ms_wcPort st))) st) (\<lambda>st.
        bindR (ms_setProperty E ''tsUrl'' (jc_of_string J (''ws://'' @ ip @ '':'' @ dec_string (ms_tsPort st))) st) (\<lambda>st.
        let (wc_ok, cii_ok, ts_ok) = started;
            (wc, st) = StartWallClockService wc_ok st;
            (cii, st) = StartContentIdentificationService cii_ok st;
            (ts, st) = StartTimelineSyncService cii ts_ok st;
            st = st\<lparr>ms_wcService := wc, ms_ciiService := cii, ms_tsService := ts\<rparr>
        in if -1 < cii \<and> -1 < wc \<and> -1 < ts then
             (case FindTs ts st of
                None \<Rightarrow> Inl NullDeref
              | Some p \<Rightarrow>
                  bindR (ts_setContentId E p (ms_contentId st) False (st\<lparr>ms_syncing := True, ms_runningServices := CSS_SERVICE_COUNT\<rparr>)) (\<lambda>st.
                  bindR (ts_setContentIdOverride E p (ms_contentIdOverride st) False st) (\<lambda>st.
                  bindR (foldR (attachTimelineSource p) (map snd (ms_timelineSources st)) st) (\<lambda>st.
                  Inr (True, ms_emit InterDeviceSyncEnabled st)))))
           else Inr (False, disableInterDeviceSync st)))
      else Inr (False, st))"

definition nrOfSlaves :: "'j media_sync \<Rightarrow> int" where
  "nrOfSlaves st = (case FindCii (ms_ciiService st) st of
     None \<Rightarrow> -1
   | Some p \<Rightarrow> (case cii_at p st of Inr c \<Rightarrow> int (length (cii_connections c)) | Inl e \<Rightarrow> -1))"

text \<open>The lock guard of \<open>deleteLater\<close> and \<open>OnStopped\<close> unlocks the mutex of the object they have deleted.\<close>

definition delete_synchroniser :: "'j media_sync res" where
  "delete_synchroniser = Inl UseAfterFree"

definition deleteLater :: "'j media_sync \<Rightarrow> 'j media_sync res" where
  "deleteLater st =
     (if ms_delete st then Inr st
      else
        (let st = fold (\<lambda>(k, w) st. if tw_temiFilterId w \<noteq> -1 then ms_emit (StopTemi (tw_temiFilterId w)) st else st)
                       (ms_timelines st) (st\<lparr>ms_delete := True\<rparr>);
             st = st\<lparr>ms_timelines := []\<rparr>
         in if ms_runningServices st \<le> 0 then delete_synchroniser
            else if ms_syncing st then Inr (disableInterDeviceSync st) else Inr st))"

definition OnStopped :: "'j media_sync \<Rightarrow> 'j media_sync res" where
  "OnStopped st =
     (let st = disableInterDeviceSync st; st = st\<lparr>ms_runningServices := ms_runningServices st - 1\<rparr> in
      if ms_runningServices st \<le> 0 then
        let st = st\<lparr>ms_tsService := -1, ms_ciiService := -1\<rparr> in
        if ms_delete st then delete_synchroniser else Inr st
      else Inr st)"

text \<open>\<open>ServiceManager::OnServiceStopped\<close>, called by the thread of a service at its end.\<close>

definition FindServiceId :: "nat \<Rightarrow> 'j media_sync \<Rightarrow> int" where
  "FindServiceId p st = (case find (\<lambda>(i, q). q = p) (sm_services st) of None \<Rightarrow> -1 | Some (i, q) \<Rightarrow> i)"

definition sm_OnServiceStopped :: "nat \<Rightarrow> 'j media_sync \<Rightarrow> 'j media_sync res" where
  "sm_OnServiceStopped p st =
     (if sm_locked st then Inl Blocked
      else
        (let i = FindServiceId p st in
         bindR (if p \<in> set (sm_callbacks st) then OnStopped st else Inr st) (\<lambda>st.
         Inr (if -1 < i then st\<lparr>sm_services := om_del i (sm_services st), sv_heap := om_del p (sv_heap st),
                               sm_callbacks := filter (\<lambda>q. q \<noteq> p) (sm_callbacks st)\<rparr>
              else st))))"

section \<open>The status of the broadcast\<close>

definition updateCssCiiProperties :: "'j css_env \<Rightarrow> string \<Rightarrow> string \<Rightarrow> string \<Rightarrow> string \<Rightarrow> 'j media_sync \<Rightarrow> 'j media_sync res" where
  "updateCssCiiProperties E contentId presentationStatus contentIdStatus mrsUrl st =
     (let J = css_json E in
      bindR (ms_setContentId E contentId st) (\<lambda>st.
      bindR (if ms_contentIdOverride st = [] then ms_setProperty E ''contentIdStatus'' (jc_of_string J contentIdStatus) st else Inr st) (\<lambda>st.
      bindR (if mrsUrl \<noteq> [] then ms_setProperty E ''mrsUrl'' (jc_of_string J mrsUrl) st else Inr st) (\<lambda>st.
      bindR (ms_setProperty E ''presentationStatus'' (jc_of_string J presentationStatus) st) (\<lambda>st.
      bindR (if ms_currentCSSId st \<noteq> [] \<and> ms_currentCSSStatus st \<noteq> presentationStatus
                \<and> ms_contentCSSIdStatus st \<noteq> contentIdStatus
             then updateAllCIIClients E st else Inr st) (\<lambda>st.
      updateAllTSClients E (st\<lparr>ms_currentCSSId := contentId, ms_currentCSSStatus := presentationStatus,
                              ms_contentCSSIdStatus := contentIdStatus\<rparr>)))))))"

definition restart_temi :: "'j css_env \<Rightarrow> 'j media_sync \<Rightarrow> 'j media_sync" where
  "restart_temi E st = fold (\<lambda>k st.
     let w = timeline_at E k st in
     if tw_temiFilterId w = -1 \<and> tw_temiComponentTag w \<noteq> -1 \<and> tw_temiTimelineId w \<noteq> -1 then
       let (f, st) = start_temi E (tw_temiComponentTag w) (tw_temiTimelineId w) st
       in put_timeline k (w\<lparr>tw_temiFilterId := f\<rparr>) st
     else st) (map fst (ms_timelines st)) st"

definition updateBroadcastContentStatus :: "'j css_env \<Rightarrow> string \<Rightarrow> bool \<Rightarrow> bool \<Rightarrow> 'j media_sync \<Rightarrow> 'j media_sync res" where
  "updateBroadcastContentStatus E dvbUri permanentError presenting st =
     (let st = (if presenting then restart_temi E st else st) in
      if ms_isMasterBroadcast st then
        updateCssCiiProperties E dvbUri
          (if permanentError then ''fault'' else if presenting then ''okay'' else ''transitioning'')
          (if presenting then ''final'' else ''partial'') [] st
      else Inr st)"

definition initialise :: "'j css_env \<Rightarrow> bool \<Rightarrow> string \<Rightarrow> bool \<Rightarrow> bool \<Rightarrow> 'j media_sync \<Rightarrow> 'j media_sync res" where
  "initialise E isMasterBroadcast dvbUri permanentError presenting st =
     updateBroadcastContentStatus E dvbUri permanentError presenting
       (st\<lparr>ms_isMasterBroadcast := isMasterBroadcast, ms_initialised := True\<rparr>)"

section \<open>Events\<close>

datatype ms_event =
    Initialise bool string bool bool
  | UpdateBroadcast string bool bool
  | UpdateCss string string string string
  | EnableSync string "bool \<times> bool \<times> bool"
  | DisableSync
  | StartMonitoring string bool
  | StopMonitoring string bool
  | SetTimelineAvailable string bool u64 u64
  | SetTemiAvailable int bool u64 u64 u64
  | SetContentTime string u64 u64
  | GetContentTime string
  | SetContentIdOverride string bool
  | DeleteLater
  | TsConnected nat nat
  | TsMessage nat nat string
  | TsClosed nat nat
  | CiiConnected nat nat
  | CiiClosed nat nat
  | ServiceFails nat
  | ServiceStopped nat

text \<open>Connections of a service are identified by their addresses, which are distinct while they are open. A
  service whose loop has ended has no connections any more.\<close>

definition sv_connections :: "'j service \<Rightarrow> nat list" where
  "sv_connections sv = (case sv_kind sv of WallClockKind \<Rightarrow> [] | CiiKind c \<Rightarrow> cii_connections c | TsKind t \<Rightarrow> ts_connections t)"

definition drop_connections :: "'j service_kind \<Rightarrow> 'j service_kind" where
  "drop_connections k = (case k of
     WallClockKind \<Rightarrow> WallClockKind | CiiKind c \<Rightarrow> CiiKind (c\<lparr>cii_connections := []\<rparr>) | TsKind t \<Rightarrow> TsKind (t\<lparr>ts_connections := []\<rparr>))"

definition ms_step :: "'j css_env \<Rightarrow> 'j media_sync \<Rightarrow> ms_event \<Rightarrow> 'j media_sync res" where
  "ms_step E st ev = (case ev of
     Initialise b uri e p \<Rightarrow> initialise E b uri e p st
   | UpdateBroadcast uri e p \<Rightarrow> updateBroadcastContentStatus E uri e p st
   | UpdateCss cid ps cs mrs \<Rightarrow> updateCssCiiProperties E cid ps cs mrs st
   | EnableSync ip started \<Rightarrow> bindR (enableInterDeviceSync E ip started st) (\<lambda>(r, st). Inr st)
   | DisableSync \<Rightarrow> Inr (disableInterDeviceSync st)
   | StartMonitoring k m \<Rightarrow> bindR (startTimelineMonitoring E k m st) (\<lambda>(r, st). Inr st)
   | StopMonitoring k f \<Rightarrow> bindR (stopTimelineMonitoring E k f st) (\<lambda>(r, st). Inr st)
   | SetTimelineAvailable k a t v \<Rightarrow> bindR (setTimelineAvailability E k a t v st) (\<lambda>(r, st). Inr st)
   | SetTemiAvailable f a t s v \<Rightarrow> bindR (setTEMITimelineAvailability E f a t s v st) (\<lambda>(r, st). Inr st)
   | SetContentTime k t v \<Rightarrow> setContentTimeAndSpeed E k t v st
   | GetContentTime k \<Rightarrow> bindR (getContentTime E k st) (\<lambda>(r, st). Inr st)
   | SetContentIdOverride cid f \<Rightarrow> ms_setContentIdOverride E cid f st
   | DeleteLater \<Rightarrow> deleteLater st
   | TsConnected p c \<Rightarrow> (case ts_at p st of
       Inr t \<Rightarrow> if c \<in> set (ts_connections t) then Inr st else Inr (put_ts p (t\<lparr>ts_connections := ts_connections t @ [c]\<rparr>) st)
     | Inl e \<Rightarrow> Inr st)
   | TsMessage p c txt \<Rightarrow> (case ts_at p st of
       Inr t \<Rightarrow> if c \<in> set (ts_connections t) then ts_OnMessageReceived E p c txt st else Inr st | Inl e \<Rightarrow> Inr st)
   | TsClosed p c \<Rightarrow> (case ts_at p st of
       Inr t \<Rightarrow> if c \<in> set (ts_connections t) then
           bindR (ts_OnDisconnected E p c st) (\<lambda>st. bindR (ts_at p st) (\<lambda>t.
           Inr (put_ts p (t\<lparr>ts_connections := filter (\<lambda>x. x \<noteq> c) (ts_connections t)\<rparr>) st)))
         else Inr st
     | Inl e \<Rightarrow> Inr st)
   | CiiConnected p c \<Rightarrow> (case cii_at p st of
       Inr t \<Rightarrow> if c \<in> set (cii_connections t) then Inr st
         else bindR (cii_OnConnection E p c st) (\<lambda>st. bindR (cii_at p st) (\<lambda>t.
           Inr (put_cii p (t\<lparr>cii_connections := cii_connections t @ [c]\<rparr>) st)))
     | Inl e \<Rightarrow> Inr st)
   | CiiClosed p c \<Rightarrow> (case cii_at p st of
       Inr t \<Rightarrow> Inr (put_cii p (t\<lparr>cii_connections := filter (\<lambda>x. x \<noteq> c) (cii_connections t)\<rparr>) st) | Inl e \<Rightarrow> Inr st)
   | ServiceFails p \<Rightarrow> (case om_get (sv_heap st) p of
       None \<Rightarrow> Inr st
     | Some sv \<Rightarrow> Inr (st\<lparr>sv_heap := om_ins p \<lparr>sv_stop = True, sv_kind = drop_connections (sv_kind sv)\<rparr> (sv_heap st)\<rparr>))
   | ServiceStopped p \<Rightarrow> (case om_get (sv_heap st) p of
       None \<Rightarrow> Inr st
     | Some sv \<Rightarrow> if sv_stop sv \<and> sv_connections sv = [] then sm_OnServiceStopped p st else Inr st))"

definition MediaSynchroniser_new :: "'j css_env \<Rightarrow> nat \<Rightarrow> nat \<Rightarrow> 'j media_sync res" where
  "MediaSynchroniser_new E wcPort tsPort =
     (let J = css_json E;
          st = \<lparr>ms_timelines = [], ms_masterTimeline = [], ms_isMasterBroadcast = False, ms_syncing = False, ms_delete = False,
            ms_initialised = False, ms_runningServices = 0, ms_wcService = -1, ms_ciiService = -1, ms_tsService = -1,
            ms_ciiProps = [(''protocolVersion'', jc_of_string J cii_protocolVersion)], ms_contentIdOverride = [],
            ms_contentId = [], ms_timelineSources = [], ms_currentCSSId = [], ms_currentCSSStatus = [], ms_contentCSSIdStatus = [],
            ms_wcPort = wcPort, ms_tsPort = tsPort, tl_heap = [], sm_services = [], sm_callbacks = [], sm_locked = False,
            sv_heap = [], ms_next = 0, ms_reads = 0, ms_outputs = []\<rparr>
      in bindR (ms_setProperty E ''teUrl'' (jc_null J) st) (ms_setProperty E ''mrsUrl'' (jc_null J)))"

end
