(* ===== verification/MediaSyncTimelines.thy ===== *)
theory MediaSyncTimelines
  imports MediaSync
begin

text \<open>
  The timelines and sources of the media synchroniser. Most operations are quiet: they send messages and
  refresh timestamps, and leave alone which timelines and sources there are and what the clients have
  subscribed to. Those that start and stop the monitoring of a timeline are shown to keep the states well
  formed (\<open>ms_wf\<close>): watchers are counted, a source exists exactly for the watched timelines, every source
  is alive and belongs to one timeline.
\<close>

section \<open>What clients of the timeline service have asked for\<close>

definition subs_of :: "ts_service \<Rightarrow> nat \<Rightarrow> SetupTSData option" where
  "subs_of t c = (if setup_isEmpty (setup_of t c) then None else Some (setup_of t c))"

definition ts_view :: "nat \<Rightarrow> 'j media_sync \<Rightarrow> ((nat \<Rightarrow> SetupTSData option) \<times> (string \<times> int) list \<times> nat list) option" where
  "ts_view p st = (case ts_at p st of
     Inl e \<Rightarrow> None | Inr t \<Rightarrow> Some (subs_of t, ts_timelineSelectors t, ts_connections t))"

lemma ts_view_congI: "(\<And>q. ts_at q st' = ts_at q st) \<Longrightarrow> ts_view p st' = ts_view p st"
  by (simp add: ts_view_def)

lemma ts_at_put_ts: "ts_at p st = Inr t0 \<Longrightarrow> ts_at q (put_ts p t st) = (if q = p then Inr t else ts_at q st)"
  by (auto simp: ts_at_def put_ts_def put_kind_def split: option.splits service_kind.splits)

lemma ts_at_put_cii: "cii_at p st = Inr c0 \<Longrightarrow> ts_at q (put_cii p c st) = ts_at q st"
  by (auto simp: ts_at_def cii_at_def put_cii_def put_kind_def split: option.splits service_kind.splits)

lemma cii_at_put_ts: "ts_at p st = Inr t0 \<Longrightarrow> cii_at q (put_ts p t st) = cii_at q st"
  by (auto simp: ts_at_def cii_at_def put_ts_def put_kind_def split: option.splits service_kind.splits)

text \<open>The addresses of the objects of a heap.\<close>

definition ptrs :: "(nat \<times> 'a) list \<Rightarrow> nat set" where
  "ptrs h = dom (om_get h)"

lemma ptrs_ins [simp]: "ptrs (om_ins p s h) = insert p (ptrs h)"
  by (auto simp: ptrs_def split: if_splits)

lemma ptrs_del [simp]: "ptrs (om_del p h) = ptrs h - {p}"
  by (auto simp: ptrs_def split: if_splits)

lemma ptrs_present [simp]: "om_get h p = Some s \<Longrightarrow> insert p (ptrs h) = ptrs h"
  by (auto simp: ptrs_def)

text \<open>A step is quiet when it changes neither the timelines nor which sources there are nor what the
  clients have asked for. Most operations are: they send messages and refresh timestamps.\<close>

definition fixed :: "'j media_sync \<Rightarrow> _" where
  "fixed st = (ms_timelines st, ms_timelineSources st, ms_next st, ms_delete st, ms_initialised st,
     ms_tsService st, ms_ciiService st, sm_services st, sm_locked st, sm_callbacks st)"

definition quiet :: "'j media_sync \<Rightarrow> 'j media_sync \<Rightarrow> bool" where
  "quiet st st' = (fixed st' = fixed st \<and> ptrs (tl_heap st') = ptrs (tl_heap st)
     \<and> (\<forall>p. ts_view p st' = ts_view p st))"

lemma quiet_refl [simp]: "quiet st st"
  by (simp add: quiet_def)

lemma quiet_trans [trans]: "quiet st st' \<Longrightarrow> quiet st' st'' \<Longrightarrow> quiet st st''"
  by (simp add: quiet_def)

lemma quiet_emit [simp]: "quiet st (ms_emit x st)" "quiet st (ms_tick st)"
  by (simp_all add: quiet_def fixed_def ms_emit_def ms_tick_def ts_view_def ts_at_def)

lemma quiet_props [simp]: "quiet st (st\<lparr>ms_ciiProps := m\<rparr>)" "quiet st (st\<lparr>ms_contentId := s\<rparr>)"
    "quiet st (st\<lparr>ms_contentIdOverride := s\<rparr>)"
  by (simp_all add: quiet_def fixed_def ts_view_def ts_at_def)

lemma quiet_heap: "ptrs h = ptrs (tl_heap st) \<Longrightarrow> quiet st (st\<lparr>tl_heap := h\<rparr>)"
  by (simp add: quiet_def fixed_def ts_view_def ts_at_def)

lemma quiet_put_cii: "cii_at p st = Inr c0 \<Longrightarrow> quiet st (put_cii p c st)"
  by (simp add: quiet_def ts_view_def ts_at_put_cii) (simp add: fixed_def put_cii_def put_kind_def split: option.split)

lemma fixed_put_ts [simp]: "fixed (put_ts p t st) = fixed st" "tl_heap (put_ts p t st) = tl_heap st"
  by (simp_all add: fixed_def put_ts_def put_kind_def split: option.split)

lemma quiet_put_ts:
  "ts_at p st = Inr t0 \<Longrightarrow> subs_of t = subs_of t0 \<Longrightarrow> ts_timelineSelectors t = ts_timelineSelectors t0 \<Longrightarrow>
   ts_connections t = ts_connections t0 \<Longrightarrow> quiet st (put_ts p t st)"
  by (auto simp: quiet_def ts_view_def ts_at_put_ts)

lemma quiet_foldR:
  assumes "\<And>x s s'. f x s = Inr s' \<Longrightarrow> quiet s s'"
  shows "foldR f xs st = Inr st' \<Longrightarrow> quiet st st'"
proof (induction xs arbitrary: st)
  case Nil
  then show ?case by simp
next
  case (Cons x xs)
  then obtain s where "f x st = Inr s" "foldR f xs s = Inr st'" by (auto simp: ret_iff)
  with assms Cons.IH quiet_trans show ?case by blast
qed

section \<open>Clocks keep the sources\<close>

lemma src_at_Inr: "src_at h p = Inr s \<longleftrightarrow> om_get h p = Some s"
  by (simp add: src_at_def split: option.split)

lemma dom_source_notify: "ptrs (source_notify p h) = ptrs h"
  by (simp add: source_notify_def split: option.split)

lemma dom_clock_notify: "ptrs (clock_notify n p h) = ptrs h"
proof (induction n arbitrary: p h)
  case 0
  then show ?case by simp
next
  case (Suc n)
  have "\<And>xs g. ptrs (fold (clock_notify n) xs g) = ptrs g"
  proof -
    fix xs g show "ptrs (fold (clock_notify n) xs g) = ptrs g"
      by (induction xs arbitrary: g) (simp_all add: Suc)
  qed
  then show ?case by (simp add: dom_source_notify)
qed

lemma dom_notify_clock [simp]: "ptrs (notify_clock p h) = ptrs h"
  by (simp add: notify_clock_def dom_clock_notify del: clock_notify.simps)

lemma dom_SetAvailability: "clock_SetAvailability a p h = Inr h' \<Longrightarrow> ptrs h' = ptrs h"
  by (auto simp: clock_SetAvailability_def ret_iff src_at_Inr Let_def split: if_splits)

lemma dom_setParent: "clock_setParent q p h = Inr h' \<Longrightarrow> ptrs h' = ptrs h"
  by (auto simp: clock_setParent_def ret_iff src_at_Inr split: if_splits)

lemma dom_sinks: "attachSink t p h = Inr h' \<Longrightarrow> ptrs h' = ptrs h"
    "removeSink t p h = Inr h' \<Longrightarrow> ptrs h' = ptrs h"
  by (auto simp: attachSink_def removeSink_def ret_iff src_at_Inr split: if_splits)

lemma quiet_on_sources:
  "(\<And>h h'. f h = Inr h' \<Longrightarrow> ptrs h' = ptrs h) \<Longrightarrow> on_sources f st = Inr st' \<Longrightarrow> quiet st st'"
  by (auto simp: on_sources_def ret_iff intro!: quiet_heap)

lemma dom_setParents: "foldR (clock_setParent q) ps h = Inr h' \<Longrightarrow> ptrs h' = ptrs h"
  by (induction ps arbitrary: h) (auto simp: ret_iff dest!: dom_setParent)

lemma quiet_set_parents: "set_parents q st = Inr st' \<Longrightarrow> quiet st st'"
  unfolding set_parents_def by (rule quiet_on_sources [rotated]) (auto dest: dom_setParents)

lemma quiet_set_source_availability: "set_source_availability k a st = Inr st' \<Longrightarrow> quiet st st'"
  by (auto simp: set_source_availability_def split: option.splits dest: quiet_on_sources [rotated, OF _ dom_SetAvailability])

section \<open>Quiet operations\<close>

lemma quiet_emitI: "quiet st s \<Longrightarrow> quiet st (ms_emit x s)" "quiet st s \<Longrightarrow> quiet st (ms_tick s)"
  by (auto intro: quiet_trans)

lemma quiet_setProperty: "ms_setProperty E k v st = Inr st' \<Longrightarrow> quiet st st'"
  by (auto simp: ms_setProperty_def ret_iff)

lemma quiet_setCII: "setCIIMessageProperty E p k v st = Inr st' \<Longrightarrow> quiet st st'"
  by (auto simp: setCIIMessageProperty_def ret_iff intro: quiet_setProperty)

lemma quiet_read: "quiet st (snd (read_wall E st))" "read_clock E p st = Inr (t, st') \<Longrightarrow> quiet st st'"
  by (auto simp: read_wall_def read_clock_def ret_iff)

lemma tick_heap [simp]: "tl_heap (ms_tick st) = tl_heap st" "tl_heap (ms_emit x st) = tl_heap st"
  by (simp_all add: ms_tick_def ms_emit_def)

lemma quiet_getControlTimestamp: "getControlTimestamp E p st = Inr (ct, st') \<Longrightarrow> quiet st st'"
  by (auto simp: getControlTimestamp_def ret_iff src_at_Inr read_wall_def read_clock_def Let_def
      intro!: quiet_trans [OF quiet_emit(2) quiet_heap] quiet_trans [OF quiet_emit(2) quiet_trans [OF quiet_emit(2) quiet_heap]] split: if_splits)

lemma quiet_ask: "ask_source E k p (ct, st) = Inr (ct', st') \<Longrightarrow> quiet st st'"
  by (auto simp: ask_source_def ret_iff split: if_splits dest: quiet_getControlTimestamp)

lemma quiet_asks: "foldR (ask_source E k) ps (ct, st) = Inr (ct', st') \<Longrightarrow> quiet st st'"
proof (induction ps arbitrary: ct st)
  case Nil
  then show ?case by simp
next
  case (Cons p ps)
  then obtain ct1 s where "ask_source E k p (ct, st) = Inr (ct1, s)" "foldR (ask_source E k) ps (ct1, s) = Inr (ct', st')"
    by (auto simp: ret_iff)
  with Cons.IH quiet_ask quiet_trans show ?case by blast
qed

lemma subs_touch: "subs_of (t\<lparr>ts_setupData := om_ins c (setup_of t c) m\<rparr>) = subs_of t" if "m = ts_setupData t"
  unfolding that by (auto simp: subs_of_def setup_of_def fun_eq_iff)

lemma subs_simps [simp]:
  "subs_of (t\<lparr>ts_previousTimestamp := x1\<rparr>) = subs_of t" "subs_of (t\<lparr>ts_timelineSources := x2\<rparr>) = subs_of t"
  "subs_of (t\<lparr>ts_timelineSelectors := x3\<rparr>) = subs_of t" "subs_of (t\<lparr>ts_contentId := x4\<rparr>) = subs_of t"
  "subs_of (t\<lparr>ts_contentIdOverride := x5\<rparr>) = subs_of t" "subs_of (t\<lparr>ts_connections := x6\<rparr>) = subs_of t"
  by (simp_all add: subs_of_def setup_of_def fun_eq_iff)

lemma quiet_touch: "ts_at p st = Inr t \<Longrightarrow> quiet st (put_ts p (t\<lparr>ts_setupData := om_ins c (setup_of t c) (ts_setupData t)\<rparr>) st)"
  by (rule quiet_put_ts) (simp_all add: subs_touch)

lemma quiet_updateClient: "updateClient E p c st = Inr st' \<Longrightarrow> quiet st st'"
proof -
  assume A: "updateClient E p c st = Inr st'"
  then obtain t where t: "ts_at p st = Inr t" by (auto simp: updateClient_def ret_iff)
  define s where "s = put_ts p (t\<lparr>ts_setupData := om_ins c (setup_of t c) (ts_setupData t)\<rparr>) st"
  have q: "quiet st s" unfolding s_def by (rule quiet_touch [OF t])
  show ?thesis
  proof (cases "setup_isEmpty (setup_of t c)")
    case True
    with A t q show ?thesis by (simp add: updateClient_def s_def)
  next
    case False
    define ct0 where "ct0 = \<lparr>ct_stamp = TimeStamp_new None (dec_string (unat (css_wall E (ms_reads s)))), ct_multiplier = None\<rparr>"
    obtain ct s2 where 2: "(if ciMatchesStem (getContentId t) (su_contentIdStem (setup_of t c))
        then foldR (ask_source E (su_timelineSelector (setup_of t c))) (ts_timelineSources t) (ct0, ms_tick s) else Inr (ct0, ms_tick s)) = Inr (ct, s2)"
      and 3: "bindR (ts_at p s2) (\<lambda>t.
        if isControlTimestampChanged (css_feq E) (om_get (ts_previousTimestamp t) c) (Some ct) then
          Inr (ms_emit (ClientMessage c (jc_write (css_json E) (ControlTimestamp_pack (css_json E) (css_multiplier E) ct)))
            (put_ts p (t\<lparr>ts_previousTimestamp := om_ins c ct (ts_previousTimestamp t)\<rparr>) s2))
        else Inr s2) = Inr st'"
      using A t False unfolding ct0_def s_def updateClient_def
      by (auto simp: Let_def read_wall_def bindR_eq_Inr [of "if a then b else d" for a b d])
    have "quiet (ms_tick s) s2" using 2 by (auto split: if_splits dest: quiet_asks)
    moreover have "quiet s2 st'"
      using 3 by (auto simp: ret_iff split: if_splits intro!: quiet_emitI quiet_put_ts)
    ultimately show ?thesis using q quiet_emit(2) quiet_trans by blast
  qed
qed

lemma quiet_updateAllClients: "updateAllClients E p st = Inr st' \<Longrightarrow> quiet st st'"
  by (auto simp: updateAllClients_def ret_iff dest!: quiet_foldR [rotated] intro: quiet_updateClient)

lemma quiet_fold_emit: "quiet st (fold (\<lambda>c. ms_emit (f c)) cs st)"
  by (induction cs arbitrary: st) (auto intro: quiet_trans quiet_emit)

lemma cii_at_emit [simp]: "cii_at p (ms_emit x st) = cii_at p st" "ts_at p (ms_emit x st) = ts_at p st"
    "cii_at p (ms_tick st) = cii_at p st" "ts_at p (ms_tick st) = ts_at p st"
  by (simp_all add: cii_at_def ts_at_def ms_emit_def ms_tick_def)

lemma cii_at_fold_emit [simp]: "cii_at p (fold (\<lambda>c. ms_emit (f c)) cs st) = cii_at p st"
  by (induction cs arbitrary: st) simp_all

lemma quiet_updateClients: "updateClients E p st = Inr st' \<Longrightarrow> quiet st st'"
  by (auto simp: updateClients_def ret_iff intro!: quiet_trans [OF quiet_fold_emit quiet_put_cii])

lemma quiet_cii_OnConnection: "cii_OnConnection E p c st = Inr st' \<Longrightarrow> quiet st st'"
  by (auto simp: cii_OnConnection_def ret_iff intro!: quiet_trans [OF quiet_emit(1) quiet_put_cii])

lemma quiet_force:
  "(if f then bindR (updateAllClients E p st) (updateClients E c) else Inr st) = Inr st' \<Longrightarrow> quiet st st'"
  by (auto simp: ret_iff split: if_splits dest!: quiet_updateAllClients quiet_updateClients intro: quiet_trans)

lemma quiet_ts_setContentId:
  assumes "ts_setContentId E p cid f st = Inr st'"
  shows "quiet st st'"
proof -
  obtain t where t: "ts_at p st = Inr t" using assms by (auto simp: ts_setContentId_def ret_iff)
  let ?t = "t\<lparr>ts_contentId := cid\<rparr>"
  have q: "quiet st (put_ts p ?t st)" by (rule quiet_put_ts [OF t]) simp_all
  show ?thesis
  proof (cases "cid \<noteq> ts_contentId t \<and> ts_contentId ?t = getContentId ?t")
    case False
    with assms t q show ?thesis by (auto simp: ts_setContentId_def Let_def split: if_splits)
  next
    case True
    with assms t obtain s where 1: "setCIIMessageProperty E (ts_ciiService t) ''contentId'' (getContentId ?t) (put_ts p ?t st) = Inr s"
      and 2: "(if f then bindR (updateAllClients E p s) (updateClients E (ts_ciiService ?t)) else Inr s) = Inr st'"
      by (auto simp: ts_setContentId_def ret_iff Let_def)
    show ?thesis by (rule quiet_trans [OF q quiet_trans [OF quiet_setCII [OF 1] quiet_force [OF 2]]])
  qed
qed

lemma quiet_ts_setContentIdOverride:
  assumes "ts_setContentIdOverride E p cid f st = Inr st'"
  shows "quiet st st'"
proof -
  obtain t where t: "ts_at p st = Inr t" using assms by (auto simp: ts_setContentIdOverride_def ret_iff)
  let ?t = "t\<lparr>ts_contentIdOverride := cid\<rparr>"
  have q: "quiet st (put_ts p ?t st)" by (rule quiet_put_ts [OF t]) simp_all
  show ?thesis
  proof (cases "cid = ts_contentIdOverride t")
    case True
    with assms t show ?thesis by (simp add: ts_setContentIdOverride_def)
  next
    case False
    with assms t obtain s1 where 1: "setCIIMessageProperty E (ts_ciiService t) ''contentId'' (getContentId ?t) (put_ts p ?t st) = Inr s1"
      and "bindR (setCIIMessageProperty E (ts_ciiService t) ''contentIdStatus'' ''final'' s1) (\<lambda>s.
          if f then bindR (updateAllClients E p s) (updateClients E (ts_ciiService ?t)) else Inr s) = Inr st'"
      by (auto simp: ts_setContentIdOverride_def bindR_eq_Inr [of "setCIIMessageProperty E a b c (put_ts d e f)" for a b c d e f] Let_def)
    then obtain s2 where 2: "setCIIMessageProperty E (ts_ciiService t) ''contentIdStatus'' ''final'' s1 = Inr s2"
      and 3: "(if f then bindR (updateAllClients E p s2) (updateClients E (ts_ciiService ?t)) else Inr s2) = Inr st'"
      by (blast elim: bindR_InrE)
    show ?thesis
      by (rule quiet_trans [OF q quiet_trans [OF quiet_setCII [OF 1] quiet_trans [OF quiet_setCII [OF 2] quiet_force [OF 3]]]])
  qed
qed

lemma quiet_attach: "attachTimelineSource p s st = Inr st' \<Longrightarrow> quiet st st'"
  by (auto simp: attachTimelineSource_def ret_iff dest!: quiet_on_sources [rotated, OF _ dom_sinks(1)]
      intro!: quiet_put_ts elim!: quiet_trans)

lemma quiet_removeSource: "removeTimelineSource p s st = Inr st' \<Longrightarrow> quiet st st'"
  by (auto simp: removeTimelineSource_def ret_iff dest!: quiet_on_sources [rotated, OF _ dom_sinks(2)]
      intro!: quiet_put_ts elim!: quiet_trans)

lemma quiet_updateAll: "updateAllCIIClients E st = Inr st' \<Longrightarrow> quiet st st'" "updateAllTSClients E st = Inr st' \<Longrightarrow> quiet st st'"
  by (auto simp: updateAllCIIClients_def updateAllTSClients_def split: option.splits intro: quiet_updateClients quiet_updateAllClients)

lemma quiet_ms_setContentId: "ms_setContentId E cid st = Inr st' \<Longrightarrow> quiet st st'"
  by (auto simp: ms_setContentId_def Let_def split: option.splits dest!: quiet_ts_setContentId intro: quiet_trans quiet_props)

lemma quiet_ms_setContentIdOverride: "ms_setContentIdOverride E cid f st = Inr st' \<Longrightarrow> quiet st st'"
  by (auto simp: ms_setContentIdOverride_def Let_def split: option.splits dest!: quiet_ts_setContentIdOverride intro: quiet_trans quiet_props)

lemma quiet_set_correlation: "set_correlation E t v p st = Inr st' \<Longrightarrow> quiet st st'"
  by (auto simp: set_correlation_def ret_iff src_at_Inr Let_def read_wall_def read_clock_def
      intro!: quiet_trans [OF quiet_emit(2) quiet_heap] split: option.splits)

lemma quiet_setContentTime: "setContentTimeAndSpeed E k t v st = Inr st' \<Longrightarrow> quiet st st'"
  by (auto simp: setContentTimeAndSpeed_def ret_iff split: option.splits dest!: quiet_set_correlation quiet_updateAll(2) intro: quiet_trans)

lemma quiet_remove_from_cii: "remove_from_cii E k st = Inr st' \<Longrightarrow> quiet st st'"
  by (auto simp: remove_from_cii_def ret_iff Let_def split: option.splits dest!: quiet_setProperty quiet_updateAll(1) intro: quiet_trans)

section \<open>Well-formed states\<close>

text \<open>What the synchroniser relies on of jsoncpp: a value to which a member was assigned is not null.\<close>

definition jsoncpp_ok :: "'j jsoncpp \<Rightarrow> bool" where
  "jsoncpp_ok J = (\<forall>j k v j'. jc_put J j k v = Some j' \<longrightarrow> \<not> jc_is_null J j')"

definition wrapper_ok :: "'j jsoncpp \<Rightarrow> 'j TimelineWrapper \<Rightarrow> bool" where
  "wrapper_ok J w = (0 \<le> tw_numWatchers w \<and> 0 \<le> tw_pendingWatchers w \<and> (tw_numWatchers w = 0 \<or> tw_pendingWatchers w = 0)
     \<and> (0 < tw_numWatchers w \<longrightarrow> \<not> jc_is_null J (tw_timeline w)))"

definition watched :: "'j media_sync \<Rightarrow> string \<Rightarrow> bool" where
  "watched st k = (\<exists>w. om_get (ms_timelines st) k = Some w \<and> 0 < tw_numWatchers w)"

definition ms_wf :: "'j css_env \<Rightarrow> 'j media_sync \<Rightarrow> bool" where
  "ms_wf E st =
     ((\<forall>k w. om_get (ms_timelines st) k = Some w \<longrightarrow> wrapper_ok (css_json E) w)
      \<and> ptrs (tl_heap st) = ran (om_get (ms_timelineSources st))
      \<and> inj_on (om_get (ms_timelineSources st)) (dom (om_get (ms_timelineSources st)))
      \<and> (\<forall>p \<in> ptrs (tl_heap st). p < ms_next st)
      \<and> (\<not> ms_delete st \<longrightarrow> (\<forall>k. (om_get (ms_timelineSources st) k \<noteq> None) = watched st k)))"

lemma wf_quiet: "quiet st st' \<Longrightarrow> ms_wf E st' = ms_wf E st"
  by (simp add: quiet_def fixed_def ms_wf_def watched_def)

lemma wf_cong:
  "fixed st' = fixed st \<Longrightarrow> ptrs (tl_heap st') = ptrs (tl_heap st) \<Longrightarrow> ms_wf E st' = ms_wf E st"
  by (simp add: fixed_def ms_wf_def watched_def)

lemma wf_timeline_at: "ms_wf E st \<Longrightarrow> wrapper_ok (css_json E) (timeline_at E k st)"
  by (auto simp: ms_wf_def timeline_at_def wrapper_ok_def TimelineWrapper_new_def split: option.split)

lemma watched_at: "watched st k \<longleftrightarrow> 0 < tw_numWatchers (timeline_at E k st)"
  by (auto simp: watched_def timeline_at_def TimelineWrapper_new_def split: option.split)

lemma watched_put: "watched (put_timeline k w st) k' \<longleftrightarrow> (if k' = k then 0 < tw_numWatchers w else watched st k')"
  by (auto simp: watched_def put_timeline_def)

lemma watched_erase: "watched (erase_timeline k st) k' \<longleftrightarrow> k' \<noteq> k \<and> watched st k'"
  by (auto simp: watched_def erase_timeline_def)

lemma put_timeline_fields [simp]:
  "ms_timelineSources (put_timeline k w st) = ms_timelineSources st" "tl_heap (put_timeline k w st) = tl_heap st"
  "ms_next (put_timeline k w st) = ms_next st" "ms_delete (put_timeline k w st) = ms_delete st"
  "ms_timelines (put_timeline k w st) = om_ins k w (ms_timelines st)"
  by (simp_all add: put_timeline_def)

lemma erase_timeline_fields [simp]:
  "ms_timelineSources (erase_timeline k st) = ms_timelineSources st" "tl_heap (erase_timeline k st) = tl_heap st"
  "ms_next (erase_timeline k st) = ms_next st" "ms_delete (erase_timeline k st) = ms_delete st"
  "ms_timelines (erase_timeline k st) = om_del k (ms_timelines st)"
  by (simp_all add: erase_timeline_def)

text \<open>A timeline is updated or erased without a change of whether it has watchers.\<close>

lemma wf_put:
  assumes "ms_wf E st" and "wrapper_ok (css_json E) w"
    and "\<not> ms_delete st \<longrightarrow> (0 < tw_numWatchers w) = (0 < tw_numWatchers (timeline_at E k st))"
  shows "ms_wf E (put_timeline k w st)"
  using assms watched_at [of st k E] by (auto simp: ms_wf_def watched_put)

lemma wf_erase:
  assumes "ms_wf E st" and "\<not> ms_delete st \<longrightarrow> tw_numWatchers (timeline_at E k st) \<le> 0"
  shows "ms_wf E (erase_timeline k st)"
  using assms watched_at [of st k E] by (auto simp: ms_wf_def watched_erase split: if_splits)

lemma no_source: "ms_wf E st \<Longrightarrow> \<not> ms_delete st \<Longrightarrow> (getTimelineSource k st \<noteq> None) = (0 < tw_numWatchers (timeline_at E k st))"
  using watched_at [of st k E] by (simp add: ms_wf_def getTimelineSource_def)

section \<open>A new source\<close>

definition with_source :: "string \<Rightarrow> tl_source \<Rightarrow> 'j media_sync \<Rightarrow> 'j media_sync" where
  "with_source k s st = st\<lparr>tl_heap := om_ins (ms_next st) s (tl_heap st), ms_next := ms_next st + 1,
     ms_timelineSources := om_ins k (ms_next st) (ms_timelineSources st)\<rparr>"

lemma ts_at_upd [simp]:
  "ts_at p (st\<lparr>tl_heap := x1\<rparr>) = ts_at p st" "ts_at p (st\<lparr>ms_next := x2\<rparr>) = ts_at p st"
  "ts_at p (st\<lparr>ms_timelineSources := x3\<rparr>) = ts_at p st" "ts_at p (st\<lparr>ms_timelines := x4\<rparr>) = ts_at p st"
  "ts_at p (st\<lparr>ms_masterTimeline := x5\<rparr>) = ts_at p st"
  by (simp_all add: ts_at_def)

lemma Make_new:
  assumes "Make E j st = Inr ((p, j'), st')"
  shows "p = ms_next st" and "\<exists>s. st' = (ms_tick st)\<lparr>tl_heap := om_ins (ms_next st) s (tl_heap st), ms_next := ms_next st + 1\<rparr>"
  using assms by (auto simp: Make_def ret_iff Let_def read_wall_def ms_tick_def)

lemma quiet_source_cong:
  "quiet a b \<Longrightarrow> quiet (a\<lparr>ms_timelineSources := x\<rparr>) (b\<lparr>ms_timelineSources := x\<rparr>)"
  by (simp add: quiet_def fixed_def ts_view_def)

lemma create_source_quiet:
  assumes "create_source E k j st = Inr st'"
  shows "\<exists>s. quiet (with_source k s st) st'"
proof -
  let ?n = "ms_next st"
  let ?src = "\<lambda>a. a\<lparr>ms_timelineSources := om_ins k ?n (ms_timelineSources a)\<rparr>"
  obtain p j' s1 where 1: "Make E j st = Inr ((p, j'), s1)"
    using assms unfolding create_source_def Let_def by (cases "Make E j st") auto
  from Make_new [OF 1] obtain s where s: "p = ?n"
    "s1 = (ms_tick st)\<lparr>tl_heap := om_ins ?n s (tl_heap st), ms_next := ?n + 1\<rparr>" by blast
  show ?thesis using assms [unfolded create_source_def Let_def 1 bindR_Inr prod.case s(1)]
  proof (elim bindR_InrE, goal_cases)
    case (1 s2 temp s3 s4 s5 s6)
    have q2: "quiet s1 s2" using 1(1) by (auto split: if_splits dest: quiet_set_parents)
    have q3: "quiet (?src s2) s3" by (rule quiet_setProperty [OF 1(3)])
    have q4: "quiet s3 s4" using 1(4) by (auto split: option.splits dest: quiet_attach)
    have q5: "quiet s4 s5"
    proof (cases "has_suffix '':pts'' k")
      case True
      with 1(5) obtain a where "setContentTimeAndSpeed E k (css_pts E (ms_reads s4)) one_double (ms_tick s4) = Inr a"
        and "s5 = ms_emit (TimelineAvailable k pts_rate) a" by (auto simp: ret_iff)
      with quiet_trans [OF quiet_emit(2) quiet_setContentTime] quiet_emitI(1) show ?thesis by blast
    qed (use 1(5) in simp)
    have "quiet (?src s1) (?src s2)"
      using quiet_source_cong [OF q2] q2 by (simp add: quiet_def fixed_def)
    moreover have "quiet (with_source k s st) (?src s1)"
      by (simp add: with_source_def s(2) quiet_def fixed_def ms_tick_def ts_view_def) (simp add: ts_at_def)
    ultimately have "quiet (with_source k s st) (?src s2)" by (rule quiet_trans [rotated])
    from quiet_trans [OF this quiet_trans [OF q3 quiet_trans [OF q4 quiet_trans [OF q5
       quiet_trans [OF quiet_updateAll(1) [OF 1(6)] quiet_updateAll(2) [OF 1(7)]]]]]]
    show ?case by blast
  qed
qed

section \<open>The timelines\<close>

definition same_view :: "'j media_sync \<Rightarrow> 'j media_sync \<Rightarrow> bool" where
  "same_view st st' = ((\<forall>p. ts_view p st' = ts_view p st) \<and> ms_next st \<le> ms_next st')"

lemma same_view_refl [simp]: "same_view st st"
  by (simp add: same_view_def)

lemma same_view_trans: "same_view a b \<Longrightarrow> same_view b c \<Longrightarrow> same_view a c"
  by (simp add: same_view_def)

lemma same_view_quiet: "quiet st st' \<Longrightarrow> same_view st st'"
  by (simp add: same_view_def quiet_def fixed_def)

lemma same_view_upd [simp]:
  "same_view st (put_timeline k w st)" "same_view st (erase_timeline k st)" "same_view st (with_source k s st)"
  "same_view st (ms_emit x st)" "same_view st (ms_tick st)" "same_view st (Destroy p st)"
  "same_view st (st\<lparr>ms_timelineSources := x1\<rparr>)" "same_view st (st\<lparr>ms_masterTimeline := x2\<rparr>)"
  by (simp_all add: same_view_def ts_view_def put_timeline_def erase_timeline_def with_source_def Destroy_def ms_emit_def ms_tick_def)
     (simp_all add: ts_at_def)

lemma wrapper_flush:
  "wrapper_ok J w \<Longrightarrow> \<not> jc_is_null J (tw_timeline w) \<Longrightarrow> wrapper_ok J (flushPendingWatchers w)"
  by (auto simp: wrapper_ok_def flushPendingWatchers_def)

lemma wf_with_source:
  assumes "ms_wf E st" and "wrapper_ok (css_json E) w" and "0 < tw_numWatchers w" and "getTimelineSource k st = None"
  shows "ms_wf E (with_source k s (put_timeline k w st))"
proof -
  let ?st = "with_source k s (put_timeline k w st)" and ?S = "ms_timelineSources st" and ?n = "ms_next st"
  have f: "ms_timelineSources ?st = om_ins k ?n ?S" "tl_heap ?st = om_ins ?n s (tl_heap st)" "ms_next ?st = ?n + 1"
    "ms_delete ?st = ms_delete st" "ms_timelines ?st = om_ins k w (ms_timelines st)"
    by (simp_all add: with_source_def)
  have k: "om_get ?S k = None" using assms(4) by (simp add: getTimelineSource_def)
  have heap: "ptrs (tl_heap st) = ran (om_get ?S)" "\<forall>p \<in> ptrs (tl_heap st). p < ?n"
    "inj_on (om_get ?S) (dom (om_get ?S))" using assms(1) by (simp_all add: ms_wf_def)
  have "watched ?st k' = (if k' = k then True else watched st k')" for k'
    using assms(3) by (simp add: watched_def f)
  moreover have "ptrs (tl_heap ?st) = ran (om_get (ms_timelineSources ?st))"
    using heap(1) k by (simp add: f om_get_ins_eq ran_map_upd)
  moreover have "inj_on (om_get (ms_timelineSources ?st)) (dom (om_get (ms_timelineSources ?st)))"
  proof (rule inj_onI)
    fix a b assume ab: "a \<in> dom (om_get (ms_timelineSources ?st))" "b \<in> dom (om_get (ms_timelineSources ?st))"
      "om_get (ms_timelineSources ?st) a = om_get (ms_timelineSources ?st) b"
    have new: "om_get ?S c \<noteq> Some ?n" for c using heap(1,2) by (auto simp: ran_def)
    have "a = k \<longleftrightarrow> b = k" using ab(3) new [of a] new [of b] by (auto simp: f split: if_splits)
    with ab inj_onD [OF heap(3), of a b] show "a = b" by (auto simp: f dom_def split: if_splits)
  qed
  moreover have "\<forall>p \<in> ptrs (tl_heap ?st). p < ms_next ?st"
    using heap(2) by (auto simp: f)
  ultimately show ?thesis
    using assms(1,2) by (simp add: ms_wf_def) (simp add: f)
qed

lemma addTimeline_wf:
  assumes "ms_wf E st" and "addTimeline E k st = Inr st'"
  shows "ms_wf E st'"
proof -
  let ?w = "timeline_at E k st"
  have w: "wrapper_ok (css_json E) ?w" by (rule wf_timeline_at [OF assms(1)])
  show ?thesis
  proof (cases "jc_is_null (css_json E) (tw_timeline ?w)")
    case True
    with assms w show ?thesis by (auto simp: addTimeline_def wrapper_ok_def intro!: wf_erase)
  next
    case False
    note f = wrapper_flush [OF w False]
    show ?thesis
    proof (cases "tw_numWatchers ?w \<le> 0")
      case True
      show ?thesis
      proof (cases "0 < tw_numWatchers (flushPendingWatchers ?w)")
        case True
        show ?thesis
        proof (cases "getTimelineSource k st")
          case None
          with assms(2) False True \<open>tw_numWatchers ?w \<le> 0\<close>
          have "create_source E k (tw_timeline (flushPendingWatchers ?w)) (put_timeline k (flushPendingWatchers ?w) st) = Inr st'"
            by (simp add: addTimeline_def Let_def getTimelineSource_def)
          from create_source_quiet [OF this] wf_with_source [OF assms(1) f True None] wf_quiet show ?thesis by blast
        next
          case (Some p)
          then have "ms_delete st" using no_source [OF assms(1), of k] \<open>tw_numWatchers ?w \<le> 0\<close> by auto
          with wf_put [OF assms(1) f, of k] assms(2) False True Some \<open>tw_numWatchers ?w \<le> 0\<close> show ?thesis
            by (simp add: addTimeline_def Let_def getTimelineSource_def)
        qed
      next
        case False2: False
        with assms(2) False \<open>tw_numWatchers ?w \<le> 0\<close> have "st' = erase_timeline k (put_timeline k (flushPendingWatchers ?w) st)"
          by (simp add: addTimeline_def Let_def)
        moreover have "ms_wf E (put_timeline k (flushPendingWatchers ?w) st)"
          by (rule wf_put [OF assms(1) f]) (use False2 \<open>tw_numWatchers ?w \<le> 0\<close> in simp)
        moreover have "timeline_at E k (put_timeline k (flushPendingWatchers ?w) st) = flushPendingWatchers ?w"
          by (simp add: timeline_at_def)
        ultimately show ?thesis using False2 by (simp add: wf_erase)
      qed
    next
      case True: False
      with w have "tw_pendingWatchers ?w = 0" by (auto simp: wrapper_ok_def)
      with True have "tw_numWatchers (flushPendingWatchers ?w) = tw_numWatchers ?w" by (simp add: flushPendingWatchers_def)
      with wf_put [OF assms(1) f, of k] assms(2) False True show ?thesis by (simp add: addTimeline_def Let_def)
    qed
  qed
qed

lemma addTimeline_view: "addTimeline E k st = Inr st' \<Longrightarrow> same_view st st'"
  by (auto simp: addTimeline_def Let_def split: if_splits option.splits dest!: create_source_quiet
      intro: same_view_trans [OF same_view_upd(1) same_view_upd(2)] same_view_trans [OF same_view_upd(1) same_view_trans [OF same_view_upd(3) same_view_quiet]])


text \<open>What \<open>removeTimeline\<close> does, but for the messages to clients.\<close>

definition without_source :: "string \<Rightarrow> nat \<Rightarrow> 'j media_sync \<Rightarrow> 'j media_sync" where
  "without_source k p st = erase_timeline k (ms_emit (TimelineUnavailable k)
     (Destroy p (st\<lparr>ms_timelineSources := om_del k (ms_timelineSources st)\<rparr>)))"

lemma removeTimeline_quiet:
  assumes "removeTimeline E k st = Inr st'" and "getTimelineSource k st = Some p"
  shows "\<exists>s. quiet (put_timeline k (timeline_at E k st) st) s \<and> st' = without_source k p s"
proof -
  show ?thesis using assms(1) [unfolded removeTimeline_def assms(2) option.case]
  proof (elim bindR_InrE, goal_cases)
    case (1 s1 s2 s3 s4 s5)
    have m: "quiet s1 (s1\<lparr>ms_masterTimeline := []\<rparr>)" by (simp add: quiet_def fixed_def ts_view_def)
    have "quiet s1 s2" using 1(2) by (auto split: if_splits dest!: quiet_set_parents intro: quiet_trans [OF m])
    moreover have "quiet s2 s3" by (rule quiet_on_sources [OF dom_SetAvailability 1(3)])
    moreover have "quiet s3 s4" using 1(4) by (auto split: option.splits dest: quiet_removeSource)
    ultimately have "quiet s1 s5" using quiet_updateAll(2) [OF 1(5)] by (blast intro: quiet_trans)
    with quiet_trans [OF quiet_remove_from_cii [OF 1(1)]] 1(6) show ?case by (auto simp: without_source_def)
  qed
qed

lemma wf_without_source:
  assumes "ms_wf E st" and "getTimelineSource k st = Some p"
  shows "ms_wf E (without_source k p st)"
proof -
  let ?st = "without_source k p st" and ?S = "ms_timelineSources st"
  have f: "ms_timelineSources ?st = om_del k ?S" "tl_heap ?st = om_del p (tl_heap st)" "ms_next ?st = ms_next st"
    "ms_delete ?st = ms_delete st" "ms_timelines ?st = om_del k (ms_timelines st)"
    by (simp_all add: without_source_def ms_emit_def Destroy_def)
  have k: "om_get ?S k = Some p" using assms(2) by (simp add: getTimelineSource_def)
  have heap: "ptrs (tl_heap st) = ran (om_get ?S)" "\<forall>p \<in> ptrs (tl_heap st). p < ms_next st"
    "inj_on (om_get ?S) (dom (om_get ?S))" using assms(1) by (simp_all add: ms_wf_def)
  have uniq: "om_get ?S a = Some p \<Longrightarrow> a = k" for a using inj_onD [OF heap(3), of a k] k by auto
  have "watched ?st k' = (k' \<noteq> k \<and> watched st k')" for k' by (simp add: watched_def f)
  moreover have "ptrs (tl_heap ?st) = ran (om_get (ms_timelineSources ?st))"
  proof -
    have "ran (om_get (om_del k ?S)) = ran (om_get ?S) - {p}"
    proof (rule set_eqI)
      fix x
      have "(\<exists>a. a \<noteq> k \<and> om_get ?S a = Some x) \<longleftrightarrow> (\<exists>a. om_get ?S a = Some x) \<and> x \<noteq> p"
        using k uniq by (metis option.inject)
      then show "x \<in> ran (om_get (om_del k ?S)) \<longleftrightarrow> x \<in> ran (om_get ?S) - {p}"
        by (simp add: ran_def cong: conj_cong)
    qed
    with heap(1) show ?thesis by (simp add: f)
  qed
  moreover have "inj_on (om_get (ms_timelineSources ?st)) (dom (om_get (ms_timelineSources ?st)))"
    using heap(3) by (auto simp: f inj_on_def dom_def split: if_splits)
  moreover have "\<forall>p \<in> ptrs (tl_heap ?st). p < ms_next ?st"
    using heap(2) by (auto simp: f)
  ultimately show ?thesis using assms(1) by (simp add: ms_wf_def) (simp add: f)
qed

lemma removeTimeline_wf:
  assumes "ms_wf E st" and "removeTimeline E k st = Inr st'"
  shows "ms_wf E st'"
proof (cases "getTimelineSource k st")
  case None
  then have "st' = erase_timeline k st" using assms(2) by (simp add: removeTimeline_def)
  with None no_source [OF assms(1), of k] show ?thesis by (auto intro!: wf_erase [OF assms(1)])
next
  case (Some p)
  from removeTimeline_quiet [OF assms(2) Some] obtain s where
    s: "quiet (put_timeline k (timeline_at E k st) st) s" "st' = without_source k p s" by blast
  have "ms_wf E (put_timeline k (timeline_at E k st) st)" by (rule wf_put [OF assms(1) wf_timeline_at [OF assms(1)]]) simp
  with wf_quiet [OF s(1)] have "ms_wf E s" by simp
  moreover have "getTimelineSource k s = Some p" using s(1) Some by (simp add: quiet_def fixed_def getTimelineSource_def)
  ultimately show ?thesis using wf_without_source s(2) by blast
qed

lemma removeTimeline_view: "removeTimeline E k st = Inr st' \<Longrightarrow> same_view st st'"
proof (cases "getTimelineSource k st")
  case (Some p)
  assume "removeTimeline E k st = Inr st'"
  from removeTimeline_quiet [OF this Some] obtain s where
    s: "quiet (put_timeline k (timeline_at E k st) st) s" "st' = without_source k p s" by blast
  have "same_view s st'" unfolding s(2) without_source_def
    by (simp add: same_view_def ts_view_def erase_timeline_def Destroy_def ms_emit_def)
       (simp add: ts_at_def)
  then show ?thesis using same_view_trans [OF same_view_upd(1) same_view_trans [OF same_view_quiet [OF s(1)]]] by blast
next
  case None
  assume "removeTimeline E k st = Inr st'"
  with None have "st' = erase_timeline k st" by (simp add: removeTimeline_def)
  then show ?thesis by simp
qed

lemma ParseTimelineSelector_keeps:
  assumes "ParseTimelineSelector J k w = Inr (ok, w')"
  shows "tw_numWatchers w' = tw_numWatchers w" and "tw_pendingWatchers w' = tw_pendingWatchers w"
  using assms
  by (auto simp: ParseTimelineSelector_def unpack_timeline_def ret_iff Let_def split: option.splits list.splits if_splits prod.splits)

lemma wf_upd [simp]:
  "ms_wf E (ms_emit x st) = ms_wf E st" "ms_wf E (ms_tick st) = ms_wf E st"
  "ms_wf E (st\<lparr>ms_masterTimeline := x1\<rparr>) = ms_wf E st" "ms_wf E (st\<lparr>ms_syncing := x2\<rparr>) = ms_wf E st"
  "ms_wf E (st\<lparr>ms_runningServices := x3\<rparr>) = ms_wf E st" "ms_wf E (st\<lparr>sm_locked := x4\<rparr>) = ms_wf E st"
  "ms_wf E (st\<lparr>sv_heap := x5\<rparr>) = ms_wf E st" "ms_wf E (st\<lparr>sm_services := x6\<rparr>) = ms_wf E st"
  "ms_wf E (st\<lparr>sm_callbacks := x7\<rparr>) = ms_wf E st" "ms_wf E (st\<lparr>ms_isMasterBroadcast := x8\<rparr>) = ms_wf E st"
  "ms_wf E (st\<lparr>ms_initialised := x9\<rparr>) = ms_wf E st" "ms_wf E (st\<lparr>ms_currentCSSId := y1\<rparr>) = ms_wf E st"
  "ms_wf E (st\<lparr>ms_currentCSSStatus := y2\<rparr>) = ms_wf E st" "ms_wf E (st\<lparr>ms_contentCSSIdStatus := y3\<rparr>) = ms_wf E st"
  "ms_wf E (st\<lparr>ms_wcService := y4\<rparr>) = ms_wf E st" "ms_wf E (st\<lparr>ms_ciiService := y5\<rparr>) = ms_wf E st"
  "ms_wf E (st\<lparr>ms_tsService := y6\<rparr>) = ms_wf E st"
  by (simp_all add: ms_wf_def watched_def ms_emit_def ms_tick_def)

lemma wf_put_kind [simp]: "ms_wf E (put_ts p t st) = ms_wf E st" "ms_wf E (put_cii p c st) = ms_wf E st"
  by (simp_all add: put_ts_def put_cii_def put_kind_def split: option.split)

lemma timeline_at_upd [simp]:
  "timeline_at E k (ms_emit x st) = timeline_at E k st" "timeline_at E k (ms_tick st) = timeline_at E k st"
  "timeline_at E k (st\<lparr>ms_masterTimeline := x1\<rparr>) = timeline_at E k st"
  "timeline_at E k (put_timeline k w st) = w"
  by (simp_all add: timeline_at_def ms_emit_def ms_tick_def)

lemma delete_upd [simp]: "ms_delete (ms_emit x st) = ms_delete st" "ms_delete (ms_tick st) = ms_delete st"
  by (simp_all add: ms_emit_def ms_tick_def)

lemma startTimelineMonitoring_wf:
  assumes "ms_wf E st" and "startTimelineMonitoring E k m st = Inr (r, st')"
  shows "ms_wf E st'"
proof -
  let ?w = "timeline_at E k st" and ?J = "css_json E"
  have w: "wrapper_ok ?J ?w" by (rule wf_timeline_at [OF assms(1)])
  show ?thesis
  proof (cases "ms_initialised st")
    case False
    with assms show ?thesis by (simp add: startTimelineMonitoring_def)
  next
    case True
    consider "0 < tw_numWatchers ?w" | "tw_numWatchers ?w \<le> 0" "0 < tw_pendingWatchers ?w"
      | "tw_numWatchers ?w \<le> 0" "tw_pendingWatchers ?w \<le> 0" by linarith
    then show ?thesis
    proof cases
      case 1
      with assms(2) True have "st' = put_timeline k (?w\<lparr>tw_numWatchers := tw_numWatchers ?w + 1\<rparr>) st"
        by (simp add: startTimelineMonitoring_def Let_def)
      with w 1 show ?thesis by (auto intro!: wf_put [OF assms(1)] simp: wrapper_ok_def)
    next
      case 2
      with assms(2) True have "st' = put_timeline k (?w\<lparr>tw_pendingWatchers := tw_pendingWatchers ?w + 1\<rparr>) st"
        by (simp add: startTimelineMonitoring_def Let_def)
      with w 2 show ?thesis by (auto intro!: wf_put [OF assms(1)] simp: wrapper_ok_def)
    next
      case 3
      from assms(2) True 3 obtain ok w' where p: "ParseTimelineSelector ?J k ?w = Inr (ok, w')"
        by (cases "ParseTimelineSelector ?J k ?w") (auto simp: startTimelineMonitoring_def Let_def)
      define u where "u = w'\<lparr>tw_pendingWatchers := 1\<rparr>"
      have u: "wrapper_ok ?J u" "tw_numWatchers u = 0" "\<And>f. wrapper_ok ?J (u\<lparr>tw_temiFilterId := f\<rparr>)"
        using w 3(1) ParseTimelineSelector_keeps(1) [OF p] by (auto simp: u_def wrapper_ok_def)
      have put: "ms_wf E s \<Longrightarrow> ms_delete s = ms_delete st \<Longrightarrow> timeline_at E k s = ?w \<Longrightarrow> wrapper_ok ?J v \<Longrightarrow> tw_numWatchers v = 0
          \<Longrightarrow> ms_wf E (put_timeline k v s)" for s v
        by (rule wf_put) (use 3(1) in auto)
      show ?thesis
      proof (cases ok)
        case False
        with assms(2) True 3 p have "st' = erase_timeline k st"
          by (simp add: startTimelineMonitoring_def Let_def)
        with 3(1) show ?thesis by (auto intro: wf_erase [OF assms(1)])
      next
        case ok: True
        define s0 where "s0 = (if m then st\<lparr>ms_masterTimeline := k\<rparr> else st)"
        have s: "ms_wf E s0" "ms_delete s0 = ms_delete st" "timeline_at E k s0 = ?w" using assms(1) by (simp_all add: s0_def)
        let ?tick = "ms_tick (ms_emit (StartTemi (tw_temiComponentTag u) (tw_temiTimelineId u)) s0)"
        define g where "g = css_start_temi E (ms_reads s0)"
        have g: "startTimelineMonitoring E k m st =
          (if tw_temiComponentTag u \<noteq> -1 \<and> tw_temiTimelineId u \<noteq> -1
           then Inr (True, put_timeline k (if 0 \<le> g then u\<lparr>tw_temiFilterId := g\<rparr> else u) ?tick)
           else if has_suffix '':pts'' k then bindR (addTimeline E k (put_timeline k u s0)) (\<lambda>st. Inr (True, st))
           else Inr (True, put_timeline k u s0))"
          using True 3 p ok unfolding g_def s0_def
          by (simp add: startTimelineMonitoring_def Let_def u_def start_temi_def del: put_timeline_fields cong: if_cong)
        consider (temi) "st' = put_timeline k (if 0 \<le> g then u\<lparr>tw_temiFilterId := g\<rparr> else u) ?tick"
          | (pts) "addTimeline E k (put_timeline k u s0) = Inr st'" | (wait) "st' = put_timeline k u s0"
          using assms(2) unfolding g by (auto simp only: bindR_eq_Inr sum.inject prod.inject split: if_splits)
        then show ?thesis
        proof cases
          case temi
          with s u show ?thesis by (auto intro!: put)
        next
          case pts
          show ?thesis by (rule addTimeline_wf [OF put [OF s u(1,2)] pts])
        next
          case wait
          with put [OF s u(1,2)] show ?thesis by simp
        qed
      qed
    qed
  qed
qed

lemma stopTimelineMonitoring_wf:
  assumes "ms_wf E st" and "stopTimelineMonitoring E k f st = Inr (r, st')"
  shows "ms_wf E st'"
proof -
  let ?w = "timeline_at E k st"
  have w: "wrapper_ok (css_json E) ?w" by (rule wf_timeline_at [OF assms(1)])
  have p: "ms_wf E (put_timeline k ?w st)" by (rule wf_put [OF assms(1) w]) simp
  consider "f \<or> tw_numWatchers ?w = 1 \<and> tw_pendingWatchers ?w \<le> 0"
    | "\<not> (f \<or> tw_numWatchers ?w = 1 \<and> tw_pendingWatchers ?w \<le> 0)" "0 < tw_pendingWatchers ?w"
    | "\<not> (f \<or> tw_numWatchers ?w = 1 \<and> tw_pendingWatchers ?w \<le> 0)" "tw_pendingWatchers ?w \<le> 0" "1 < tw_numWatchers ?w"
    | "\<not> (f \<or> tw_numWatchers ?w = 1 \<and> tw_pendingWatchers ?w \<le> 0)" "tw_pendingWatchers ?w \<le> 0" "tw_numWatchers ?w \<le> 1"
    by linarith
  then show ?thesis
  proof cases
    case 1
    with assms(2) have "removeTimeline E k
        (if tw_temiFilterId ?w \<noteq> -1 then ms_emit (StopTemi (tw_temiFilterId ?w)) (put_timeline k ?w st) else put_timeline k ?w st) = Inr st'"
      by (auto simp: stopTimelineMonitoring_def Let_def ret_iff simp del: put_timeline_fields)
    from removeTimeline_wf [OF _ this] p show ?thesis by simp
  next
    case 2
    then have "st' = put_timeline k (?w\<lparr>tw_pendingWatchers := tw_pendingWatchers ?w - 1\<rparr>) st"
      using assms(2) by (auto simp: stopTimelineMonitoring_def Let_def)
    with w 2 show ?thesis by (auto intro!: wf_put [OF assms(1)] simp: wrapper_ok_def)
  next
    case 3
    then have "st' = put_timeline k (?w\<lparr>tw_numWatchers := tw_numWatchers ?w - 1\<rparr>) st"
      using assms(2) by (auto simp: stopTimelineMonitoring_def Let_def)
    with w 3 show ?thesis by (auto intro!: wf_put [OF assms(1)] simp: wrapper_ok_def)
  next
    case 4
    then have "st' = erase_timeline k st"
      using assms(2) by (auto simp: stopTimelineMonitoring_def Let_def)
    with 4 show ?thesis by (auto intro!: wf_erase [OF assms(1)])
  qed
qed

end
