(* ===== verification/MediaSyncProofs.thy ===== *)
theory MediaSyncProofs
  imports MediaSyncTimelines
begin

text \<open>
  Every step of the media synchroniser keeps the states well formed and implements the subscriptions of the
  timeline service (\<open>subscribe\<close>, the abstract specification), and so does every run.
\<close>

lemma wf_quietI: "ms_wf E st \<Longrightarrow> quiet st st' \<Longrightarrow> ms_wf E st'"
  by (simp add: wf_quiet)

lemma setTimelineAvailability_wf:
  assumes "ms_wf E st" and "setTimelineAvailability E k a t v st = Inr (r, st')"
  shows "ms_wf E st'"
proof -
  obtain s where s: "set_source_availability k a st = Inr s"
    using assms(2) by (auto simp: setTimelineAvailability_def Let_def ret_iff)
  have wf: "ms_wf E s" by (rule wf_quietI [OF assms(1) quiet_set_source_availability [OF s]])
  show ?thesis
  proof (cases a)
    case True
    with assms(2) s obtain s1 s2 where "addTimeline E k s = Inr s1" "setContentTimeAndSpeed E k t v s1 = Inr s2"
      "st' = ms_emit (TimelineAvailable k 1000) s2" by (auto simp: setTimelineAvailability_def Let_def ret_iff)
    with addTimeline_wf [OF wf] quiet_setContentTime wf_quietI show ?thesis by (metis wf_upd(1))
  next
    case False
    with assms(2) s have "updateAllTSClients E (ms_emit (TimelineUnavailable k) s) = Inr st'"
      by (auto simp: setTimelineAvailability_def Let_def ret_iff)
    with wf show ?thesis by (metis quiet_updateAll(2) wf_quietI wf_upd(1))
  qed
qed

lemma put_timeline_property_not_null:
  "jsoncpp_ok J \<Longrightarrow> put_timeline_property J k v j = Inr j' \<Longrightarrow> \<not> jc_is_null J j'"
  by (auto simp: put_timeline_property_def ret_iff jsoncpp_ok_def)

lemma setTEMI_wf:
  assumes "jsoncpp_ok (css_json E)" and "ms_wf E st" and "setTEMITimelineAvailability E f a t ts v st = Inr (r, st')"
  shows "ms_wf E st'"
proof (cases "temi_timeline f st")
  case None
  with assms(2,3) show ?thesis by (simp add: setTEMITimelineAvailability_def Let_def)
next
  case (Some k)
  let ?J = "css_json E"
  obtain s where s: "set_source_availability k a st = Inr s"
    using assms(3) Some by (auto simp: setTEMITimelineAvailability_def Let_def ret_iff)
  have wf: "ms_wf E s" by (rule wf_quietI [OF assms(2) quiet_set_source_availability [OF s]])
  show ?thesis
  proof (cases a)
    case True
    with assms(3) s Some obtain i j s1 s2 where j: "put_timeline_property ?J ''unitsPerSecond'' (jc_of_uint ?J ts) i = Inr j"
      and s1: "addTimeline E k (put_timeline k ((timeline_at E k s)\<lparr>tw_timeline := j\<rparr>) s) = Inr s1"
      and s2: "setContentTimeAndSpeed E k t v s1 = Inr s2" "st' = ms_emit (TimelineAvailable k ts) s2"
      by (auto simp: setTEMITimelineAvailability_def Let_def ret_iff simp del: put_timeline_fields)
    have "ms_wf E (put_timeline k ((timeline_at E k s)\<lparr>tw_timeline := j\<rparr>) s)"
      by (rule wf_put [OF wf])
         (use wf_timeline_at [OF wf, of k] put_timeline_property_not_null [OF assms(1) j] in \<open>auto simp: wrapper_ok_def\<close>)
    from wf_quietI [OF addTimeline_wf [OF this s1] quiet_setContentTime [OF s2(1)]] s2(2) show ?thesis by simp
  next
    case False
    with assms(3) s Some have "updateAllTSClients E (ms_emit (TimelineUnavailable k) s) = Inr st'"
      by (auto simp: setTEMITimelineAvailability_def Let_def ret_iff)
    with wf show ?thesis by (metis quiet_updateAll(2) wf_quietI wf_upd(1))
  qed
qed

lemma getContentTime_wf: "getContentTime E k st = Inr (r, st') \<Longrightarrow> ms_wf E st \<Longrightarrow> ms_wf E st'"
  by (auto simp: getContentTime_def Let_def read_clock_def ret_iff intro!: wf_put wf_timeline_at split: option.splits if_splits)

lemma wf_next [simp]: "ms_wf E st \<Longrightarrow> ms_wf E (st\<lparr>ms_next := ms_next st + 1\<rparr>)"
  by (simp add: ms_wf_def watched_def less_SucI)

lemma start_service_wf: "ms_wf E st \<Longrightarrow> ms_wf E (snd (start_service x ok st))"
proof -
  assume a: "ms_wf E st"
  have "snd (start_service x ok st) = st \<or> (\<exists>h s c. snd (start_service x ok st) =
      ((st\<lparr>ms_next := ms_next st + 1\<rparr>)\<lparr>sv_heap := h\<rparr>)\<lparr>sm_services := s\<rparr>\<lparr>sm_callbacks := c\<rparr>)"
    by (auto simp: start_service_def Let_def)
  with a show ?thesis by (auto simp del: One_nat_def)
qed

lemma start_service_wfI: "start_service x ok st = (i, st') \<Longrightarrow> ms_wf E st \<Longrightarrow> ms_wf E st'"
  using start_service_wf [of E st x ok] by simp

lemma sm_StopService_wf [simp]: "ms_wf E (sm_StopService i st) = ms_wf E st"
  by (simp add: sm_StopService_def split: option.split prod.split)

lemma disable_wf [simp]: "ms_wf E (disableInterDeviceSync st) = ms_wf E st"
  by (simp add: disableInterDeviceSync_def Let_def)

lemma enable_wf:
  assumes "ms_wf E st" and "enableInterDeviceSync E ip started st = Inr (r, st')"
  shows "ms_wf E st'"
proof (cases "ms_runningServices st \<le> 0 \<and> ms_initialised st")
  case False
  with assms show ?thesis by (auto simp: enableInterDeviceSync_def)
next
  case True
  obtain a b c where abc: "started = (a, b, c)" by (cases started)
  let ?wc = "ms_setProperty E ''wcUrl'' (jc_of_string (css_json E) (''udp://'' @ ip @ '':'' @ dec_string (ms_wcPort st))) st"
  let ?ts = "\<lambda>s. ms_setProperty E ''tsUrl'' (jc_of_string (css_json E) (''ws://'' @ ip @ '':'' @ dec_string (ms_tsPort s))) s"
  note e0 = assms(2) [unfolded enableInterDeviceSync_def if_P [OF True] Let_def]
  obtain s1 where s1: "?wc = Inr s1" by (rule bindR_InrE [OF e0]) (rule that)
  note e1 = e0 [unfolded s1 bindR_Inr]
  obtain s2 where s2: "?ts s1 = Inr s2" by (rule bindR_InrE [OF e1]) (rule that)
  note 1 = s1 s2
  obtain wc s3 where 3: "StartWallClockService a s2 = (wc, s3)" by fastforce
  obtain ci s4 where 4: "StartContentIdentificationService b s3 = (ci, s4)" by fastforce
  obtain ts s5 where 5: "StartTimelineSyncService ci c s4 = (ts, s5)" by fastforce
  have w2: "ms_wf E s2" by (rule wf_quietI [OF wf_quietI [OF assms(1) quiet_setProperty [OF s1]] quiet_setProperty [OF s2]])
  have w3: "ms_wf E s3" using start_service_wf [OF w2, of WallClockKind a] 3 by (simp add: StartWallClockService_def)
  have w4: "ms_wf E s4" using start_service_wf [OF w3, of "CiiKind \<lparr>cii_connections = [], cii_previousMessage = []\<rparr>" b] 4
    by (simp add: StartContentIdentificationService_def)
  have w5: "ms_wf E s5" using 5 w4
    by (auto simp: StartTimelineSyncService_def split: option.splits elim: start_service_wfI)
  let ?s = "s5\<lparr>ms_wcService := wc, ms_ciiService := ci, ms_tsService := ts\<rparr>"
  note e = assms(2) [unfolded enableInterDeviceSync_def if_P [OF True] Let_def 1 bindR_Inr abc prod.case 3 4 5]
  show ?thesis
  proof (cases "-1 < ci \<and> -1 < wc \<and> -1 < ts")
    case False
    with e w5 show ?thesis by auto
  next
    case True
    then obtain p where p: "FindTs ts ?s = Some p" using e by (cases "FindTs ts ?s") auto
    with e True obtain s6 s7 s8 where
      6: "ts_setContentId E p (ms_contentId ?s) False (?s\<lparr>ms_syncing := True, ms_runningServices := CSS_SERVICE_COUNT\<rparr>) = Inr s6"
      and 7: "ts_setContentIdOverride E p (ms_contentIdOverride s6) False s6 = Inr s7"
      and 8: "foldR (attachTimelineSource p) (map snd (ms_timelineSources s7)) s7 = Inr s8" and st': "st' = ms_emit InterDeviceSyncEnabled s8"
      by (auto elim!: bindR_InrE)
    have "ms_wf E (?s\<lparr>ms_syncing := True, ms_runningServices := CSS_SERVICE_COUNT\<rparr>)" using w5 by simp
    from wf_quietI [OF wf_quietI [OF wf_quietI [OF this quiet_ts_setContentId [OF 6]] quiet_ts_setContentIdOverride [OF 7]]
        quiet_foldR [OF quiet_attach 8]]
    show ?thesis by (simp add: st')
  qed
qed

lemma sv_quiet: "quiet s s' \<Longrightarrow> same_view st s \<Longrightarrow> same_view st s'"
  using same_view_quiet same_view_trans by blast

lemma sv_upd [simp]:
  "same_view st (ms_emit x s) = same_view st s" "same_view st (ms_tick s) = same_view st s"
  "same_view st (put_timeline k w s) = same_view st s" "same_view st (erase_timeline k s) = same_view st s"
  "same_view st (s\<lparr>ms_masterTimeline := x1\<rparr>) = same_view st s" "same_view st (s\<lparr>ms_timelines := x2\<rparr>) = same_view st s"
  "same_view st (s\<lparr>ms_syncing := x3\<rparr>) = same_view st s" "same_view st (s\<lparr>ms_delete := x4\<rparr>) = same_view st s"
  "same_view st (s\<lparr>ms_runningServices := x5\<rparr>) = same_view st s" "same_view st (s\<lparr>sm_locked := x6\<rparr>) = same_view st s"
  "same_view st (s\<lparr>ms_isMasterBroadcast := x7\<rparr>) = same_view st s" "same_view st (s\<lparr>ms_initialised := x8\<rparr>) = same_view st s"
  "same_view st (s\<lparr>ms_currentCSSId := y1\<rparr>) = same_view st s" "same_view st (s\<lparr>ms_currentCSSStatus := y2\<rparr>) = same_view st s"
  "same_view st (s\<lparr>ms_contentCSSIdStatus := y3\<rparr>) = same_view st s" "same_view st (s\<lparr>ms_wcService := y4\<rparr>) = same_view st s"
  "same_view st (s\<lparr>ms_ciiService := y5\<rparr>) = same_view st s" "same_view st (s\<lparr>ms_tsService := y6\<rparr>) = same_view st s"
  "same_view st (s\<lparr>sm_services := y7\<rparr>) = same_view st s" "same_view st (s\<lparr>sm_callbacks := y8\<rparr>) = same_view st s"
  by (simp_all add: same_view_def ts_view_def ts_at_def put_timeline_def erase_timeline_def ms_emit_def ms_tick_def)

lemma startTimelineMonitoring_view:
  assumes "startTimelineMonitoring E k m st = Inr (r, st')"
  shows "same_view st st'"
proof -
  have add: "addTimeline E k s = Inr s' \<Longrightarrow> same_view st s \<Longrightarrow> same_view st s'" for s s'
    using addTimeline_view same_view_trans by blast
  show ?thesis
    using assms by (auto simp: startTimelineMonitoring_def start_temi_def Let_def bindR_eq_Inr split: if_splits dest!: add)
qed

lemma stopTimelineMonitoring_view:
  assumes "stopTimelineMonitoring E k f st = Inr (r, st')"
  shows "same_view st st'"
proof -
  have rm: "removeTimeline E k s = Inr s' \<Longrightarrow> same_view st s \<Longrightarrow> same_view st s'" for s s'
    using removeTimeline_view same_view_trans by blast
  show ?thesis
    using assms by (auto simp: stopTimelineMonitoring_def Let_def bindR_eq_Inr split: if_splits dest!: rm)
qed

lemma set_source_view: "set_source_availability k a st = Inr s \<Longrightarrow> same_view st s"
  by (rule same_view_quiet [OF quiet_set_source_availability])

lemma setTimelineAvailability_view:
  assumes "setTimelineAvailability E k a t v st = Inr (r, st')"
  shows "same_view st st'"
proof -
  obtain s where s: "set_source_availability k a st = Inr s"
    using assms by (auto simp: setTimelineAvailability_def Let_def ret_iff)
  note v = set_source_view [OF s]
  show ?thesis
  proof (cases a)
    case True
    with assms s obtain s1 s2 where "addTimeline E k s = Inr s1" "setContentTimeAndSpeed E k t v s1 = Inr s2"
      "st' = ms_emit (TimelineAvailable k 1000) s2" by (auto simp: setTimelineAvailability_def Let_def ret_iff)
    with sv_quiet [OF quiet_setContentTime same_view_trans [OF v addTimeline_view]] show ?thesis by simp
  next
    case False
    with assms s have "updateAllTSClients E (ms_emit (TimelineUnavailable k) s) = Inr st'"
      by (auto simp: setTimelineAvailability_def Let_def ret_iff)
    from sv_quiet [OF quiet_updateAll(2) [OF this]] v show ?thesis by simp
  qed
qed

lemma setTEMI_view:
  assumes "setTEMITimelineAvailability E f a t ts v st = Inr (r, st')"
  shows "same_view st st'"
proof (cases "temi_timeline f st")
  case None
  with assms show ?thesis by (simp add: setTEMITimelineAvailability_def Let_def)
next
  case (Some k)
  obtain s where s: "set_source_availability k a st = Inr s"
    using assms Some by (auto simp: setTEMITimelineAvailability_def Let_def ret_iff)
  note v = set_source_view [OF s]
  show ?thesis
  proof (cases a)
    case True
    with assms s Some obtain j s1 s2 where s1: "addTimeline E k (put_timeline k ((timeline_at E k s)\<lparr>tw_timeline := j\<rparr>) s) = Inr s1"
      and s2: "setContentTimeAndSpeed E k t v s1 = Inr s2" "st' = ms_emit (TimelineAvailable k ts) s2"
      by (auto simp: setTEMITimelineAvailability_def Let_def ret_iff simp del: put_timeline_fields)
    have "same_view st (put_timeline k ((timeline_at E k s)\<lparr>tw_timeline := j\<rparr>) s)" using v by simp
    from sv_quiet [OF quiet_setContentTime [OF s2(1)] same_view_trans [OF this addTimeline_view [OF s1]]] s2(2) show ?thesis by simp
  next
    case False
    with assms s Some have "updateAllTSClients E (ms_emit (TimelineUnavailable k) s) = Inr st'"
      by (auto simp: setTEMITimelineAvailability_def Let_def ret_iff)
    from sv_quiet [OF quiet_updateAll(2) [OF this]] v show ?thesis by simp
  qed
qed

lemma getContentTime_view: "getContentTime E k st = Inr (r, st') \<Longrightarrow> same_view st st'"
  by (auto simp: getContentTime_def Let_def read_clock_def ret_iff split: option.splits if_splits)

lemma sm_StopService_view: "same_view st (sm_StopService i st)"
  by (auto simp: sm_StopService_def FindService_def same_view_def ts_view_def ts_at_def split: option.split)

lemma disable_view: "same_view st (disableInterDeviceSync st)"
proof -
  have "same_view st (sm_StopService a (sm_StopService b (sm_StopService c (st\<lparr>ms_syncing := False\<rparr>))))" for a b c
    by (rule same_view_trans [OF _ sm_StopService_view])+ simp
  then show ?thesis by (simp add: disableInterDeviceSync_def Let_def)
qed

section \<open>The broadcast\<close>

lemma quiet_css [simp]: "quiet st (st\<lparr>ms_currentCSSId := a, ms_currentCSSStatus := b, ms_contentCSSIdStatus := c\<rparr>)"
  by (simp add: quiet_def fixed_def ts_view_def ts_at_def)

lemma quiet_updateCss:
  assumes "updateCssCiiProperties E cid ps cs mrs st = Inr st'"
  shows "quiet st st'"
proof -
  show ?thesis using assms [unfolded updateCssCiiProperties_def Let_def]
  proof (elim bindR_InrE, goal_cases)
    case (1 s1 s2 s3 s4 s5)
    have 2: "quiet s1 s2" using 1(2) by (auto split: if_splits dest: quiet_setProperty)
    have 3: "quiet s2 s3" using 1(3) by (auto split: if_splits dest: quiet_setProperty)
    have 5: "quiet s4 s5" using 1(5) by (auto split: if_splits dest: quiet_updateAll)
    show ?case
      by (rule quiet_trans [OF quiet_ms_setContentId [OF 1(1)] quiet_trans [OF 2 quiet_trans [OF 3
           quiet_trans [OF quiet_setProperty [OF 1(4)] quiet_trans [OF 5 quiet_trans [OF quiet_css quiet_updateAll(2) [OF 1(6)]]]]]]])
  qed
qed

lemma restart_temi_keeps:
  "(ms_wf E st \<longrightarrow> ms_wf E (restart_temi E st)) \<and> same_view st (restart_temi E st)"
proof -
  let ?f = "\<lambda>k st. let w = timeline_at E k st in
     if tw_temiFilterId w = -1 \<and> tw_temiComponentTag w \<noteq> -1 \<and> tw_temiTimelineId w \<noteq> -1 then
       let (f, st) = start_temi E (tw_temiComponentTag w) (tw_temiTimelineId w) st
       in put_timeline k (w\<lparr>tw_temiFilterId := f\<rparr>) st
     else st"
  have f: "ms_wf E s \<Longrightarrow> ms_wf E (?f k s)" for k s
    using wf_timeline_at [of E s k]
    by (auto simp: Let_def start_temi_def wrapper_ok_def intro!: wf_put)
  have v: "same_view s (?f k s)" for k s
    by (auto simp: Let_def start_temi_def)
  have "(ms_wf E s \<longrightarrow> ms_wf E (fold ?f ks s)) \<and> same_view s (fold ?f ks s)" for ks s
  proof (induction ks arbitrary: s)
    case (Cons k ks)
    show ?case using Cons [of "?f k s"] f [of s k] same_view_trans [OF v [of s k]] by (simp del: Let_def)
  qed simp
  then show ?thesis by (simp add: restart_temi_def)
qed

lemma updateBroadcast_keeps:
  assumes "updateBroadcastContentStatus E uri e p st = Inr st'"
  shows "ms_wf E st \<Longrightarrow> ms_wf E st'" and "same_view st st'"
proof -
  let ?s = "if p then restart_temi E st else st"
  have q: "quiet ?s st'" using assms
    by (auto simp: updateBroadcastContentStatus_def Let_def split: if_splits dest: quiet_updateCss)
  show "ms_wf E st \<Longrightarrow> ms_wf E st'" using restart_temi_keeps [of E st] wf_quietI [OF _ q] by (cases p) auto
  show "same_view st st'" using restart_temi_keeps [of E st] sv_quiet [OF q] by (cases p) auto
qed

lemma initialise_keeps:
  assumes "initialise E b uri e p st = Inr st'"
  shows "ms_wf E st \<Longrightarrow> ms_wf E st'" and "same_view st st'"
proof -
  note a = updateBroadcast_keeps [OF assms [unfolded initialise_def]]
  show "ms_wf E st \<Longrightarrow> ms_wf E st'" by (rule a(1)) simp
  have "same_view st (st\<lparr>ms_isMasterBroadcast := b, ms_initialised := True\<rparr>)" by simp
  from same_view_trans [OF this a(2)] show "same_view st st'" .
qed

section \<open>The end of a synchroniser and of a service\<close>

lemma fold_emit_stop:
  "\<exists>os. fold (\<lambda>(k, w) st. if g w then ms_emit (f w) st else st) xs st = st\<lparr>ms_outputs := ms_outputs st @ os\<rparr>"
proof (induction xs arbitrary: st)
  case (Cons x xs)
  obtain k w where x: "x = (k, w)" by (cases x)
  from Cons [of "if g w then ms_emit (f w) st else st"] show ?case by (auto simp: x ms_emit_def)
qed (auto intro: exI [of _ "[]"])

lemma deleteLater_keeps:
  assumes "deleteLater st = Inr st'"
  shows "ms_wf E st \<Longrightarrow> ms_wf E st'" and "same_view st st'"
proof -
  let ?d = "st\<lparr>ms_delete := True\<rparr>"
  obtain os where os: "fold (\<lambda>(k, w) st. if tw_temiFilterId w \<noteq> -1 then ms_emit (StopTemi (tw_temiFilterId w)) st else st)
      (ms_timelines st) ?d = ?d\<lparr>ms_outputs := ms_outputs ?d @ os\<rparr>"
    using fold_emit_stop [of "\<lambda>w. tw_temiFilterId w \<noteq> -1" "\<lambda>w. StopTemi (tw_temiFilterId w)" "ms_timelines st" ?d] by (elim exE)
  let ?s = "?d\<lparr>ms_outputs := ms_outputs ?d @ os, ms_timelines := []\<rparr>"
  have c: "st' = st \<or> st' = disableInterDeviceSync ?s \<or> st' = ?s"
    using assms os by (auto simp: deleteLater_def delete_synchroniser_def Let_def split: if_splits)
  have "ms_wf E st \<Longrightarrow> ms_wf E ?s" by (simp add: ms_wf_def)
  with c show "ms_wf E st \<Longrightarrow> ms_wf E st'" by auto
  have "same_view st ?s" by (simp add: same_view_def ts_view_def ts_at_def)
  with c same_view_trans [OF this disable_view] show "same_view st st'" by auto
qed

lemma OnStopped_keeps:
  assumes "OnStopped st = Inr st'"
  shows "ms_wf E st \<Longrightarrow> ms_wf E st'" and "same_view st st'"
  using assms disable_view [of st] by (auto simp: OnStopped_def delete_synchroniser_def Let_def split: if_splits)

definition other_view :: "nat \<Rightarrow> 'j media_sync \<Rightarrow> 'j media_sync \<Rightarrow> bool" where
  "other_view q st st' = ((\<forall>p. p \<noteq> q \<longrightarrow> ts_view p st' = ts_view p st) \<and> ms_next st \<le> ms_next st'
     \<and> (ts_view q st' = ts_view q st \<or> ts_view q st' = None))"

lemma sm_OnServiceStopped_keeps:
  assumes "sm_OnServiceStopped q st = Inr st'"
  shows "ms_wf E st \<Longrightarrow> ms_wf E st'" and "other_view q st st'"
proof -
  let ?m = "if q \<in> set (sm_callbacks st) then OnStopped st else Inr st" and ?i = "FindServiceId q st"
  let ?f = "\<lambda>s. if -1 < ?i then s\<lparr>sm_services := om_del ?i (sm_services s),
       sv_heap := om_del q (sv_heap s), sm_callbacks := filter (\<lambda>x. x \<noteq> q) (sm_callbacks s)\<rparr> else s"
  from assms have a: "bindR ?m (\<lambda>s. Inr (?f s)) = Inr st'"
    unfolding sm_OnServiceStopped_def Let_def by (cases "sm_locked st") simp_all
  obtain s where s: "?m = Inr s" by (rule bindR_InrE [OF a]) (rule that)
  from a s have st': "st' = ?f s" by simp
  have "ms_wf E st \<Longrightarrow> ms_wf E s" using s OnStopped_keeps(1) by (auto split: if_splits)
  then show "ms_wf E st \<Longrightarrow> ms_wf E st'" by (simp add: st')
  have "same_view st s" using s OnStopped_keeps(2) by (auto split: if_splits)
  then show "other_view q st st'"
    by (auto simp: st' other_view_def same_view_def ts_view_def ts_at_def)
qed

section \<open>The handlers of the timeline service\<close>

definition set_view :: "nat \<Rightarrow> ((nat \<Rightarrow> SetupTSData option) \<times> (string \<times> int) list \<times> nat list) \<Rightarrow> 'j media_sync \<Rightarrow> 'j media_sync \<Rightarrow> bool" where
  "set_view p v st st' = (ts_view p st' = Some v \<and> (\<forall>q. q \<noteq> p \<longrightarrow> ts_view q st' = ts_view q st) \<and> ms_next st \<le> ms_next st')"

lemma set_view_put_ts:
  "ts_at p st = Inr t0 \<Longrightarrow> set_view p (subs_of t, ts_timelineSelectors t, ts_connections t) st (put_ts p t st)"
  using fixed_put_ts(1) [of p t st] by (auto simp: set_view_def ts_view_def ts_at_put_ts fixed_def)

lemma set_view_same: "set_view p v st s \<Longrightarrow> same_view s st' \<Longrightarrow> set_view p v st st'"
  by (auto simp: set_view_def same_view_def)

lemma set_view_quiet: "set_view p v st s \<Longrightarrow> quiet s st' \<Longrightarrow> set_view p v st st'"
  by (rule set_view_same [OF _ same_view_quiet])

lemma set_view_trans: "set_view p v st s \<Longrightarrow> set_view p v' s st' \<Longrightarrow> set_view p v' st st'"
  by (auto simp: set_view_def)

lemma ts_view_at: "ts_at p st = Inr t \<Longrightarrow> ts_view p st = Some (subs_of t, ts_timelineSelectors t, ts_connections t)"
  by (simp add: ts_view_def)

lemma view_atE:
  assumes "ts_view p st = Some (S, sel, C)"
  obtains t where "ts_at p st = Inr t" and "subs_of t = S" and "ts_timelineSelectors t = sel" and "ts_connections t = C"
  using assms by (auto simp: ts_view_def split: sum.splits)

lemma quiet_sameI: "quiet a b \<Longrightarrow> ts_view p a = v \<Longrightarrow> ts_view p b = v"
  by (simp add: quiet_def)

text \<open>How a subscription changes the number of clients of a selector.\<close>

definition count_of :: "(string \<times> int) list \<Rightarrow> string \<Rightarrow> int" where
  "count_of sel k = (case om_get sel k of None \<Rightarrow> 0 | Some n \<Rightarrow> n)"

definition bump :: "string \<Rightarrow> (string \<times> int) list \<Rightarrow> (string \<times> int) list" where
  "bump k sel = (if k = [] then sel else om_ins k (count_of sel k + 1) sel)"

definition unbump :: "string \<Rightarrow> (string \<times> int) list \<Rightarrow> (string \<times> int) list" where
  "unbump k sel = (if count_of sel k = 1 then om_del k sel else om_ins k (count_of sel k - 1) sel)"

lemma subs_setup: "m = ts_setupData t \<Longrightarrow>
   subs_of (t\<lparr>ts_setupData := om_ins c d m\<rparr>) = (subs_of t)(c := if setup_isEmpty d then None else Some d)"
  by (auto simp: subs_of_def setup_of_def fun_eq_iff)

lemma subs_setup_del: "m = ts_setupData t \<Longrightarrow> subs_of (t\<lparr>ts_setupData := om_del c m\<rparr>) = (subs_of t)(c := None)"
  by (auto simp: subs_of_def setup_of_def fun_eq_iff setup_isEmpty_def SetupTSData_empty_def)

lemma configureConnection_keeps:
  assumes "configureConnection E p c txt st = Inr st'" and "ts_view p st = Some (S, sel, C)"
  shows "\<exists>d. SetupTSData_unpack (css_json E) txt = Inr d
      \<and> set_view p (S(c := if setup_isEmpty d then None else Some d),
          if setup_isEmpty d then sel else bump (su_timelineSelector d) sel, C) st st'"
    and "ms_wf E st \<Longrightarrow> ms_wf E st'"
proof -
  from assms(2) obtain t where t: "ts_at p st = Inr t" "subs_of t = S" "ts_timelineSelectors t = sel" "ts_connections t = C"
    by (rule view_atE)
  obtain d where d: "SetupTSData_unpack (css_json E) txt = Inr d"
    using assms(1) by (auto simp: configureConnection_def bindR_eq_Inr)
  let ?t = "t\<lparr>ts_setupData := om_ins c d (ts_setupData t)\<rparr>" and ?k = "su_timelineSelector d"
  let ?u = "\<lambda>n. put_ts p (?t\<lparr>ts_timelineSelectors := om_ins ?k n sel\<rparr>) st"
  have set0: "set_view p (S(c := if setup_isEmpty d then None else Some d), sel, C) st (put_ts p ?t st)"
    using set_view_put_ts [OF t(1), of ?t] t by (simp add: subs_setup)
  have set1: "set_view p (S(c := if setup_isEmpty d then None else Some d), om_ins ?k n sel, C) st (?u n)" for n
    using set_view_put_ts [OF t(1), of "?t\<lparr>ts_timelineSelectors := om_ins ?k n sel\<rparr>"] t by (simp add: subs_setup)
  note e = assms(1) [unfolded configureConnection_def d bindR_Inr t(1) Let_def]
  consider (bad) "setup_isEmpty d" | (empty) "\<not> setup_isEmpty d" "?k = []"
    | (new) "\<not> setup_isEmpty d" "?k \<noteq> []" "om_get sel ?k = None"
    | (old) n where "\<not> setup_isEmpty d" "?k \<noteq> []" "om_get sel ?k = Some n" by blast
  then have "set_view p (S(c := if setup_isEmpty d then None else Some d),
          if setup_isEmpty d then sel else bump ?k sel, C) st st' \<and> (ms_wf E st \<longrightarrow> ms_wf E st')"
  proof cases
    case bad
    with e set0 show ?thesis by auto
  next
    case empty
    with e set0 show ?thesis by (auto simp: bump_def)
  next
    case new
    with e t(3) obtain r s where r: "startTimelineMonitoring E ?k False (?u 1) = Inr (r, s)" "updateClient E p c s = Inr st'"
      by (auto simp: bindR_eq_Inr)
    with new set_view_quiet [OF set_view_same [OF set1 startTimelineMonitoring_view [OF r(1)]] quiet_updateClient [OF r(2)]]
      wf_quietI [OF startTimelineMonitoring_wf [OF _ r(1)] quiet_updateClient [OF r(2)]]
    show ?thesis by (simp add: bump_def count_of_def)
  next
    case old
    with e t(3) have r: "updateClient E p c (?u (n + 1)) = Inr st'" by simp
    with old set_view_quiet [OF set1 quiet_updateClient [OF r]] wf_quietI [OF _ quiet_updateClient [OF r]]
    show ?thesis by (simp add: bump_def count_of_def)
  qed
  with d show "\<exists>d. SetupTSData_unpack (css_json E) txt = Inr d
      \<and> set_view p (S(c := if setup_isEmpty d then None else Some d),
          if setup_isEmpty d then sel else bump (su_timelineSelector d) sel, C) st st'" and "ms_wf E st \<Longrightarrow> ms_wf E st'"
    by blast+
qed

lemma not_default: "isInDefaultState (AptEptLpt_unpack txt) = False"
  by (simp add: isInDefaultState_def AptEptLpt_unpack_def AptEptLpt_new_def TimeStamp_new_def setTimeStamp_def)

lemma subs_None: "subs_of t c = None \<longleftrightarrow> setup_isEmpty (setup_of t c)"
  by (simp add: subs_of_def)

lemma subs_not_None: "\<not> setup_isEmpty (setup_of t c) \<Longrightarrow> subs_of t c = Some (setup_of t c)"
  by (simp add: subs_of_def)

lemma ts_OnMessage_keeps:
  assumes "ts_OnMessageReceived E p c txt st = Inr st'" and "ts_view p st = Some (S, sel, C)"
  shows "(if S c = None then \<exists>d. SetupTSData_unpack (css_json E) txt = Inr d
      \<and> set_view p (S(c := if setup_isEmpty d then None else Some d),
          if setup_isEmpty d then sel else bump (su_timelineSelector d) sel, C) st st' else same_view st st')"
    and "ms_wf E st \<Longrightarrow> ms_wf E st'"
proof -
  from assms(2) obtain t where t: "ts_at p st = Inr t" "subs_of t = S" by (rule view_atE)
  let ?s = "put_ts p (t\<lparr>ts_setupData := om_ins c (setup_of t c) (ts_setupData t)\<rparr>) st"
  have q: "quiet st ?s" by (rule quiet_touch [OF t(1)])
  note e = assms(1) [unfolded ts_OnMessageReceived_def t(1) bindR_Inr Let_def not_default not_False_eq_True if_True]
  have Sc: "S c = None \<longleftrightarrow> setup_isEmpty (setup_of t c)" using subs_None [of t c] t(2) by simp
  have "(if S c = None then \<exists>d. SetupTSData_unpack (css_json E) txt = Inr d
      \<and> set_view p (S(c := if setup_isEmpty d then None else Some d),
          if setup_isEmpty d then sel else bump (su_timelineSelector d) sel, C) st st' else same_view st st')
      \<and> (ms_wf E st \<longrightarrow> ms_wf E st')"
  proof (cases "S c = None")
    case True
    with e Sc have conf: "configureConnection E p c txt ?s = Inr st'" by simp
    have v: "ts_view p ?s = Some (S, sel, C)" using q assms(2) by (rule quiet_sameI)
    have "set_view p v ?s st' \<Longrightarrow> set_view p v st st'" for v
      using q by (simp add: set_view_def quiet_def fixed_def)
    with configureConnection_keeps [OF conf v] True wf_quietI [OF _ q] show ?thesis by auto
  next
    case False
    with e Sc have "st' = ?s" by simp
    with False same_view_quiet [OF q] wf_quietI [OF _ q] show ?thesis by auto
  qed
  then show "(if S c = None then \<exists>d. SetupTSData_unpack (css_json E) txt = Inr d
      \<and> set_view p (S(c := if setup_isEmpty d then None else Some d),
          if setup_isEmpty d then sel else bump (su_timelineSelector d) sel, C) st st' else same_view st st')"
    and "ms_wf E st \<Longrightarrow> ms_wf E st'" by blast+
qed

lemma ts_OnDisconnected_keeps:
  assumes "ts_OnDisconnected E p c st = Inr st'" and "ts_view p st = Some (S, sel, C)"
  shows "set_view p (S(c := None), case S c of None \<Rightarrow> sel | Some d \<Rightarrow> unbump (su_timelineSelector d) sel, C) st st'"
    and "ms_wf E st \<Longrightarrow> ms_wf E st'"
proof -
  from assms(2) obtain t where t: "ts_at p st = Inr t" "subs_of t = S" "ts_timelineSelectors t = sel" "ts_connections t = C"
    by (rule view_atE)
  let ?d = "setup_of t c"
  let ?t = "t\<lparr>ts_setupData := om_ins c ?d (ts_setupData t)\<rparr>" and ?k = "su_timelineSelector ?d" and ?n = "count_of sel (su_timelineSelector ?d) - 1"
  have q: "quiet st (put_ts p ?t st)" by (rule quiet_touch [OF t(1)])
  have "set_view p (S(c := None), case S c of None \<Rightarrow> sel | Some d \<Rightarrow> unbump (su_timelineSelector d) sel, C) st st'
    \<and> (ms_wf E st \<longrightarrow> ms_wf E st')"
  proof (cases "setup_isEmpty ?d")
    case True
    then have S: "S c = None" using subs_None [of t c] t(2) by simp
    then have S': "S(c := None) = S" by (simp add: fun_eq_iff)
    have "st' = put_ts p ?t st" using assms(1) True t(1) by (simp add: ts_OnDisconnected_def Let_def)
    with S S' assms(2) q same_view_quiet [OF q] show ?thesis
      by (auto simp: set_view_def same_view_def intro: wf_quietI)
  next
    case False
    then have S: "S c = Some ?d" using subs_not_None t(2) by blast
    let ?u = "?t\<lparr>ts_timelineSelectors := unbump ?k sel\<rparr>"
    let ?fin = "\<lambda>t. t\<lparr>ts_setupData := om_del c (ts_setupData t), ts_previousTimestamp := om_del c (ts_previousTimestamp t)\<rparr>"
    let ?m = "if ?n = 0 then bindR (stopTimelineMonitoring E ?k False (put_ts p ?u st)) (\<lambda>(r, st). Inr st) else Inr (put_ts p ?u st)"
    have e: "bindR ?m (\<lambda>s. bindR (ts_at p s) (\<lambda>t. Inr (put_ts p (?fin t) s))) = Inr st'"
      using assms(1) [unfolded ts_OnDisconnected_def t(1) bindR_Inr Let_def if_not_P [OF False] count_of_def [symmetric]] t(3)
      by (simp add: unbump_def count_of_def [symmetric] cong: if_cong)
    obtain s t2 where s: "(if ?n = 0 then bindR (stopTimelineMonitoring E ?k False (put_ts p ?u st)) (\<lambda>(r, st). Inr st) else Inr (put_ts p ?u st)) = Inr s"
      and t2: "ts_at p s = Inr t2"
      and st': "st' = put_ts p (t2\<lparr>ts_setupData := om_del c (ts_setupData t2), ts_previousTimestamp := om_del c (ts_previousTimestamp t2)\<rparr>) s"
      using e by (elim bindR_InrE) blast
    have u: "set_view p (S, unbump ?k sel, C) st (put_ts p ?u st)"
      using set_view_put_ts [OF t(1), of ?u] t subs_touch [of "ts_setupData t" t c] by simp
    have s2: "same_view (put_ts p ?u st) s" "ms_wf E (put_ts p ?u st) \<Longrightarrow> ms_wf E s"
      using s by (auto split: if_splits simp: bindR_eq_Inr dest: stopTimelineMonitoring_view
          stopTimelineMonitoring_wf [rotated] simp del: wf_put_kind)
    note v = set_view_same [OF u s2(1)]
    then have S2: "subs_of t2 = S" "ts_timelineSelectors t2 = unbump ?k sel" "ts_connections t2 = C"
      using t2 by (simp_all add: set_view_def ts_view_def)
    let ?v = "t2\<lparr>ts_setupData := om_del c (ts_setupData t2), ts_previousTimestamp := om_del c (ts_previousTimestamp t2)\<rparr>"
    have "set_view p (S(c := None), unbump ?k sel, C) s st'"
      using set_view_put_ts [OF t2, of ?v] S2 by (simp add: st' subs_setup_del)
    from set_view_trans [OF v this] S s2(2) show ?thesis by (simp add: st')
  qed
  then show "set_view p (S(c := None), case S c of None \<Rightarrow> sel | Some d \<Rightarrow> unbump (su_timelineSelector d) sel, C) st st'"
    and "ms_wf E st \<Longrightarrow> ms_wf E st'" by blast+
qed

section \<open>What the timeline service promises its clients\<close>

text \<open>The subscriptions of a service: who is connected, and what each client has subscribed to. The first
  valid message of a client subscribes it for the life of its connection.\<close>

type_synonym subscriptions = "nat list \<times> (nat \<Rightarrow> SetupTSData option)"

definition subscribe :: "'j jsoncpp \<Rightarrow> nat \<Rightarrow> ms_event \<Rightarrow> subscriptions \<Rightarrow> subscriptions" where
  "subscribe J p ev a = (case a of (C, S) \<Rightarrow> (case ev of
     TsConnected q c \<Rightarrow> if q = p \<and> c \<notin> set C then (C @ [c], S) else a
   | TsMessage q c txt \<Rightarrow> if q = p \<and> c \<in> set C \<and> S c = None then
       (case SetupTSData_unpack J txt of
          Inr d \<Rightarrow> if setup_isEmpty d then a else (C, S(c \<mapsto> d)) | Inl e \<Rightarrow> a) else a
   | TsClosed q c \<Rightarrow> if q = p \<and> c \<in> set C then (filter (\<lambda>x. x \<noteq> c) C, S(c := None)) else a
   | ServiceFails q \<Rightarrow> if q = p then ([], S) else a
   | _ \<Rightarrow> a))"

definition subscriptions_of :: "nat \<Rightarrow> 'j media_sync \<Rightarrow> subscriptions option" where
  "subscriptions_of p st = (case ts_view p st of None \<Rightarrow> None | Some (S, sel, C) \<Rightarrow> Some (C, S))"

text \<open>The service counts the clients of each selector.\<close>

definition clients_of :: "(nat \<Rightarrow> SetupTSData option) \<Rightarrow> string \<Rightarrow> nat set" where
  "clients_of S k = {c. \<exists>d. S c = Some d \<and> su_timelineSelector d = k}"

definition counts_ok :: "(nat \<Rightarrow> SetupTSData option) \<Rightarrow> (string \<times> int) list \<Rightarrow> bool" where
  "counts_ok S sel = (finite (dom S) \<and> (\<forall>k. k \<noteq> [] \<longrightarrow>
     om_get sel k = (if clients_of S k = {} then None else Some (int (card (clients_of S k))))))"

lemma clients_finite: "finite (dom S) \<Longrightarrow> finite (clients_of S k)"
  by (rule finite_subset [of _ "dom S"]) (auto simp: clients_of_def)

lemma clients_add: "S c = None \<Longrightarrow> clients_of (S(c \<mapsto> d)) k = (if su_timelineSelector d = k then insert c (clients_of S k) else clients_of S k)"
  by (auto simp: clients_of_def)

lemma clients_del: "S c = Some d \<Longrightarrow> clients_of (S(c := None)) k = (if su_timelineSelector d = k then clients_of S k - {c} else clients_of S k)"
  by (auto simp: clients_of_def)

lemma count_of_ok: "counts_ok S sel \<Longrightarrow> k \<noteq> [] \<Longrightarrow> count_of sel k = int (card (clients_of S k))"
  by (simp add: counts_ok_def count_of_def)

lemma counts_add:
  assumes "counts_ok S sel" and "S c = None"
  shows "counts_ok (S(c \<mapsto> d)) (bump (su_timelineSelector d) sel)"
proof -
  have fin: "finite (dom S)" using assms(1) by (simp add: counts_ok_def)
  have "c \<notin> clients_of S k" for k using assms(2) by (simp add: clients_of_def)
  then show ?thesis
    using assms fin clients_finite [OF fin] count_of_ok [OF assms(1)]
    by (auto simp: counts_ok_def bump_def clients_add)
qed

lemma counts_del:
  assumes "counts_ok S sel" and "S c = Some d"
  shows "counts_ok (S(c := None)) (unbump (su_timelineSelector d) sel)"
proof -
  let ?k = "su_timelineSelector d"
  have fin: "finite (dom S)" using assms(1) by (simp add: counts_ok_def)
  have c: "c \<in> clients_of S ?k" using assms(2) by (auto simp: clients_of_def)
  have n: "card (clients_of S ?k - {c}) = card (clients_of S ?k) - 1" "0 < card (clients_of S ?k)"
    using c clients_finite [OF fin] by (auto simp: card_gt_0_iff)
  have one: "clients_of S ?k - {c} = {} \<longleftrightarrow> card (clients_of S ?k) = 1"
    using n clients_finite [OF fin, of ?k] by (metis card_0_eq diff_is_0_eq' finite_Diff le_numeral_extra(4) nat_less_le Suc_leI One_nat_def diff_Suc_1 less_one not_less zero_less_diff)
  have u: "om_get (unbump ?k sel) k = (if k = ?k then if count_of sel ?k = 1 then None else Some (count_of sel ?k - 1) else om_get sel k)" for k
    by (simp add: unbump_def)
  show ?thesis
    unfolding counts_ok_def
  proof (intro conjI allI impI)
    show "finite (dom (S(c := None)))" using fin by simp
    fix k :: string assume k: "k \<noteq> []"
    show "om_get (unbump ?k sel) k = (if clients_of (S(c := None)) k = {} then None else Some (int (card (clients_of (S(c := None)) k))))"
    proof (cases "k = ?k")
      case True
      with k count_of_ok [OF assms(1)] n one show ?thesis by (auto simp: u clients_del [of S c d, OF assms(2)])
    next
      case False
      with k assms(1) show ?thesis by (simp add: u clients_del [of S c d, OF assms(2)] counts_ok_def)
    qed
  qed
qed

section \<open>New services\<close>

definition grows :: "'j media_sync \<Rightarrow> 'j media_sync \<Rightarrow> bool" where
  "grows st st' = (ms_next st \<le> ms_next st' \<and> (\<forall>p. ts_view p st' = ts_view p st
     \<or> (ms_next st \<le> p \<and> p < ms_next st' \<and> (ts_view p st' = None \<or> ts_view p st' = Some (\<lambda>c. None, [], [])))))"

lemma grows_same: "same_view st st' \<Longrightarrow> grows st st'"
  by (simp add: grows_def same_view_def)

lemma grows_quiet: "quiet st st' \<Longrightarrow> grows st st'"
  by (rule grows_same [OF same_view_quiet])

lemma grows_trans:
  assumes "grows a b" and "grows b c"
  shows "grows a c"
  unfolding grows_def
proof (intro conjI allI)
  have ab: "ms_next a \<le> ms_next b" and bc: "ms_next b \<le> ms_next c" using assms by (simp_all add: grows_def)
  then show "ms_next a \<le> ms_next c" by simp
  fix p
  consider "ts_view p c = ts_view p b" | "ms_next b \<le> p \<and> p < ms_next c \<and> (ts_view p c = None \<or> ts_view p c = Some (\<lambda>c. None, [], []))"
    using assms(2) unfolding grows_def by blast
  then show "ts_view p c = ts_view p a \<or> ms_next a \<le> p \<and> p < ms_next c \<and> (ts_view p c = None \<or> ts_view p c = Some (\<lambda>c. None, [], []))"
  proof cases
    case 1
    consider "ts_view p b = ts_view p a" | "ms_next a \<le> p \<and> p < ms_next b \<and> (ts_view p b = None \<or> ts_view p b = Some (\<lambda>c. None, [], []))"
      using assms(1) unfolding grows_def by blast
    then show ?thesis by cases (use 1 bc in auto)
  next
    case 2
    with ab show ?thesis by auto
  qed
qed

definition new_kind :: "'j service_kind \<Rightarrow> bool" where
  "new_kind x = (case x of TsKind t \<Rightarrow> ts_setupData t = [] \<and> ts_timelineSelectors t = [] \<and> ts_connections t = [] | _ \<Rightarrow> True)"

lemma start_service_grows: "start_service x ok st = (i, st') \<Longrightarrow> new_kind x \<Longrightarrow> grows st st'"
  by (auto simp: start_service_def Let_def grows_def new_kind_def ts_view_def ts_at_def subs_of_def setup_of_def fun_eq_iff
      setup_isEmpty_def SetupTSData_empty_def split: if_splits service_kind.splits)

lemma enable_grows:
  assumes "enableInterDeviceSync E ip started st = Inr (r, st')"
  shows "grows st st'"
proof (cases "ms_runningServices st \<le> 0 \<and> ms_initialised st")
  case False
  with assms have "st' = st" by (auto simp: enableInterDeviceSync_def)
  then show ?thesis by (simp add: grows_def)
next
  case True
  obtain a b c where abc: "started = (a, b, c)" by (cases started)
  let ?wc = "ms_setProperty E ''wcUrl'' (jc_of_string (css_json E) (''udp://'' @ ip @ '':'' @ dec_string (ms_wcPort st))) st"
  let ?ts = "\<lambda>s. ms_setProperty E ''tsUrl'' (jc_of_string (css_json E) (''ws://'' @ ip @ '':'' @ dec_string (ms_tsPort s))) s"
  note e0 = assms [unfolded enableInterDeviceSync_def if_P [OF True] Let_def]
  obtain s1 where s1: "?wc = Inr s1" by (rule bindR_InrE [OF e0]) (rule that)
  note e1 = e0 [unfolded s1 bindR_Inr]
  obtain s2 where s2: "?ts s1 = Inr s2" by (rule bindR_InrE [OF e1]) (rule that)
  obtain wc s3 where 3: "StartWallClockService a s2 = (wc, s3)" by fastforce
  obtain ci s4 where 4: "StartContentIdentificationService b s3 = (ci, s4)" by fastforce
  obtain ts s5 where 5: "StartTimelineSyncService ci c s4 = (ts, s5)" by fastforce
  note g2 = grows_quiet [OF quiet_trans [OF quiet_setProperty [OF s1] quiet_setProperty [OF s2]]]
  have g3: "grows s2 s3" using 3 by (auto simp: StartWallClockService_def new_kind_def intro: start_service_grows)
  have g4: "grows s3 s4" using 4 by (auto simp: StartContentIdentificationService_def new_kind_def intro: start_service_grows)
  have g5: "grows s4 s5" using 5
    by (auto simp: StartTimelineSyncService_def new_kind_def intro: start_service_grows grows_same split: option.splits)
  let ?s = "s5\<lparr>ms_wcService := wc, ms_ciiService := ci, ms_tsService := ts\<rparr>"
  let ?u = "?s\<lparr>ms_syncing := True, ms_runningServices := CSS_SERVICE_COUNT\<rparr>"
  note e = assms [unfolded enableInterDeviceSync_def if_P [OF True] Let_def s1 s2 bindR_Inr abc prod.case 3 4 5]
  have sv: "same_view s5 ?s" "same_view s5 ?u" by simp_all
  have "same_view s5 st'"
  proof (cases "-1 < ci \<and> -1 < wc \<and> -1 < ts")
    case False
    then have "st' = disableInterDeviceSync ?s" using e by auto
    then show ?thesis using same_view_trans [OF sv(1) disable_view] by simp
  next
    case True
    then obtain p where p: "FindTs ts ?s = Some p" using e by (cases "FindTs ts ?s") auto
    with e True obtain s6 s7 s8 where
      6: "ts_setContentId E p (ms_contentId ?s) False ?u = Inr s6"
      and 7: "ts_setContentIdOverride E p (ms_contentIdOverride s6) False s6 = Inr s7"
      and 8: "foldR (attachTimelineSource p) (map snd (ms_timelineSources s7)) s7 = Inr s8" and st': "st' = ms_emit InterDeviceSyncEnabled s8"
      by (auto elim!: bindR_InrE)
    from sv_quiet [OF quiet_trans [OF quiet_ts_setContentId [OF 6] quiet_trans [OF quiet_ts_setContentIdOverride [OF 7]
        quiet_foldR [OF quiet_attach 8]]] sv(2)]
    show ?thesis by (simp add: st')
  qed
  from grows_trans [OF g2 grows_trans [OF g3 grows_trans [OF g4 grows_trans [OF g5 grows_same [OF this]]]]] show ?thesis .
qed

section \<open>A step\<close>

definition views_ok :: "'j media_sync \<Rightarrow> bool" where
  "views_ok st = (\<forall>p S sel C. ts_view p st = Some (S, sel, C) \<longrightarrow> p < ms_next st \<and> counts_ok S sel)"

definition implements :: "'j css_env \<Rightarrow> ms_event \<Rightarrow> 'j media_sync \<Rightarrow> 'j media_sync \<Rightarrow> bool" where
  "implements E ev st st' = (views_ok st' \<and> ms_next st \<le> ms_next st'
     \<and> (\<forall>p. p < ms_next st \<longrightarrow> ts_view p st = None \<longrightarrow> ts_view p st' = None) \<and> (\<forall>p a. subscriptions_of p st = Some a \<longrightarrow>
     subscriptions_of p st' = None \<or> subscriptions_of p st' = Some (subscribe (css_json E) p ev a)))"

lemma counts_empty: "counts_ok (\<lambda>c. None) []"
  by (simp add: counts_ok_def clients_of_def)

lemma views_okD:
  "views_ok st \<Longrightarrow> ts_view p st = Some (S, sel, C) \<Longrightarrow> p < ms_next st"
  "views_ok st \<Longrightarrow> ts_view p st = Some (S, sel, C) \<Longrightarrow> counts_ok S sel"
  by (auto simp: views_ok_def)

lemma implementsI:
  assumes "\<And>p S sel C. ts_view p st' = Some (S, sel, C) \<Longrightarrow> p < ms_next st' \<and> counts_ok S sel"
    and "\<And>p S sel C. ts_view p st = Some (S, sel, C) \<Longrightarrow> ts_view p st' = None
      \<or> (\<exists>sel'. ts_view p st' = Some (snd (subscribe (css_json E) p ev (C, S)), sel', fst (subscribe (css_json E) p ev (C, S))))"
    and "ms_next st \<le> ms_next st'" and "\<And>p. p < ms_next st \<Longrightarrow> ts_view p st = None \<Longrightarrow> ts_view p st' = None"
  shows "implements E ev st st'"
proof -
  have "views_ok st'" using assms(1) unfolding views_ok_def by blast
  moreover have "subscriptions_of p st = Some a \<Longrightarrow> subscriptions_of p st' = None
     \<or> subscriptions_of p st' = Some (subscribe (css_json E) p ev a)" for p a
    using assms(2) [of p] by (auto simp: subscriptions_of_def split: option.splits)
  ultimately show ?thesis using assms(3,4) by (simp add: implements_def)
qed

lemma implements_grows:
  assumes "views_ok st" and "grows st st'" and "\<And>p a. subscribe (css_json E) p ev a = a"
  shows "implements E ev st st'"
proof (rule implementsI)
  note g = assms(2) [unfolded grows_def]
  fix p S sel C assume v: "ts_view p st' = Some (S, sel, C)"
  from g consider "ts_view p st' = ts_view p st" | "p < ms_next st' \<and> ts_view p st' = Some (\<lambda>c. None, [], [])"
    using v by (metis option.distinct(1))
  then show "p < ms_next st' \<and> counts_ok S sel"
  proof cases
    case 1
    with views_okD [OF assms(1)] v g show ?thesis by fastforce
  qed (use v counts_empty in auto)
next
  fix p S sel C assume v: "ts_view p st = Some (S, sel, C)"
  have "\<not> ms_next st \<le> p" using views_okD(1) [OF assms(1) v] by simp
  with assms(2) have "ts_view p st' = ts_view p st" by (auto simp: grows_def)
  with v assms(3) show "ts_view p st' = None
      \<or> (\<exists>sel'. ts_view p st' = Some (snd (subscribe (css_json E) p ev (C, S)), sel', fst (subscribe (css_json E) p ev (C, S))))"
    by simp
next
  show "ms_next st \<le> ms_next st'" using assms(2) by (simp add: grows_def)
  fix p assume "p < ms_next st" and "ts_view p st = None"
  with assms(2) [unfolded grows_def] show "ts_view p st' = None" by (metis leD)
qed

lemma implements_same:
  "views_ok st \<Longrightarrow> same_view st st' \<Longrightarrow> (\<And>p a. subscribe (css_json E) p ev a = a) \<Longrightarrow> implements E ev st st'"
  by (rule implements_grows [OF _ grows_same])

lemma implements_set:
  assumes "views_ok st" and "ts_view p st = Some (S, sel, C)" and "set_view p (S', sel', C') st st'"
    and "counts_ok S sel \<Longrightarrow> counts_ok S' sel'"
    and "\<And>q a. q \<noteq> p \<Longrightarrow> subscribe (css_json E) q ev a = a" and "subscribe (css_json E) p ev (C, S) = (C', S')"
  shows "implements E ev st st'"
proof (rule implementsI)
  note v = assms(3) [unfolded set_view_def]
  {
    fix q S1 sel1 C1 assume q: "ts_view q st' = Some (S1, sel1, C1)"
    show "q < ms_next st' \<and> counts_ok S1 sel1"
    proof (cases "q = p")
      case True
      with views_okD [OF assms(1,2)] v q assms(4) show ?thesis by auto
    next
      case False
      with v q have "ts_view q st = Some (S1, sel1, C1)" by simp
      with views_okD [OF assms(1) this] v show ?thesis by simp
    qed
  next
    fix q S1 sel1 C1 assume q: "ts_view q st = Some (S1, sel1, C1)"
    show "ts_view q st' = None
      \<or> (\<exists>sel'. ts_view q st' = Some (snd (subscribe (css_json E) q ev (C1, S1)), sel', fst (subscribe (css_json E) q ev (C1, S1))))"
      using q v assms(2,5,6) by (cases "q = p") auto
  next
    show "ms_next st \<le> ms_next st'" using v by simp
    show "ts_view q st = None \<Longrightarrow> ts_view q st' = None" for q using v assms(2) by (cases "q = p") auto
  }
qed

lemma implements_other:
  assumes "views_ok st" and "other_view q st st'" and "\<And>p a. subscribe (css_json E) p ev a = a"
  shows "implements E ev st st'"
proof (rule implementsI)
  note o = assms(2) [unfolded other_view_def]
  have v: "ts_view p st' = ts_view p st \<or> ts_view p st' = None" for p
    using o by (cases "p = q") auto
  {
    fix p S sel C assume p: "ts_view p st' = Some (S, sel, C)"
    with v [of p] have "ts_view p st = Some (S, sel, C)" by simp
    with views_okD [OF assms(1) this] o show "p < ms_next st' \<and> counts_ok S sel" by simp
  next
    fix p S sel C assume p: "ts_view p st = Some (S, sel, C)"
    then show "ts_view p st' = None
      \<or> (\<exists>sel'. ts_view p st' = Some (snd (subscribe (css_json E) p ev (C, S)), sel', fst (subscribe (css_json E) p ev (C, S))))"
      using v [of p] assms(3) by auto
  next
    show "ms_next st \<le> ms_next st'" using o by simp
    show "ts_view p st = None \<Longrightarrow> ts_view p st' = None" for p using v [of p] by auto
  }
qed

definition kept :: "'j css_env \<Rightarrow> ms_event \<Rightarrow> 'j media_sync \<Rightarrow> 'j media_sync \<Rightarrow> bool" where
  "kept E ev st st' = (implements E ev st st' \<and> (jsoncpp_ok (css_json E) \<and> ms_wf E st \<longrightarrow> ms_wf E st'))"

lemma kept_same:
  "views_ok st \<Longrightarrow> (\<And>p a. subscribe (css_json E) p ev a = a) \<Longrightarrow> same_view st st' \<Longrightarrow>
   (jsoncpp_ok (css_json E) \<Longrightarrow> ms_wf E st \<Longrightarrow> ms_wf E st') \<Longrightarrow> kept E ev st st'"
  by (simp add: kept_def implements_same)

lemma kept_quiet:
  "views_ok st \<Longrightarrow> (\<And>p a. subscribe (css_json E) p ev a = a) \<Longrightarrow> quiet st st' \<Longrightarrow> kept E ev st st'"
  by (rule kept_same [OF _ _ same_view_quiet]) (auto intro: wf_quietI)

lemma ts_at_Inl: "ts_at p st = Inl e \<Longrightarrow> subscriptions_of p st = None"
  by (simp add: subscriptions_of_def ts_view_def)

lemma kept_stay: "views_ok st \<Longrightarrow> st' = st \<Longrightarrow> (\<And>p a. subscriptions_of p st = Some a \<Longrightarrow> subscribe (css_json E) p ev a = a)
    \<Longrightarrow> kept E ev st st'"
  by (simp add: kept_def implements_def)

lemma step_TsConnected:
  assumes "ms_step E st (TsConnected p c) = Inr st'" and ok: "views_ok st"
  shows "kept E (TsConnected p c) st st'"
proof (cases "ts_at p st")
  case (Inl e)
  with assms(1) ts_at_Inl [OF Inl] show ?thesis
    by (intro kept_stay [OF ok]) (auto simp: ms_step_def subscribe_def)
next
  case (Inr t)
  note v = ts_view_at [OF Inr]
  let ?t = "t\<lparr>ts_connections := ts_connections t @ [c]\<rparr>"
  show ?thesis
  proof (cases "c \<in> set (ts_connections t)")
    case True
    with assms(1) Inr v show ?thesis
      by (intro kept_stay [OF ok]) (auto simp: ms_step_def subscribe_def subscriptions_of_def split: option.splits)
  next
    case False
    with assms(1) Inr have st': "st' = put_ts p ?t st" by (simp add: ms_step_def)
    have set: "set_view p (subs_of t, ts_timelineSelectors t, ts_connections t @ [c]) st st'"
      using set_view_put_ts [OF Inr, of ?t] by (simp add: st')
    have "implements E (TsConnected p c) st st'"
      by (rule implements_set [OF ok v set]) (use False in \<open>auto simp: subscribe_def\<close>)
    then show ?thesis by (simp add: kept_def st')
  qed
qed

lemma step_TsMessage:
  assumes "ms_step E st (TsMessage p c m) = Inr st'" and ok: "views_ok st"
  shows "kept E (TsMessage p c m) st st'"
proof (cases "ts_at p st")
  case (Inl e)
  with assms(1) ts_at_Inl [OF Inl] show ?thesis
    by (intro kept_stay [OF ok]) (auto simp: ms_step_def subscribe_def)
next
  case (Inr t)
  note v = ts_view_at [OF Inr]
  show ?thesis
  proof (cases "c \<in> set (ts_connections t)")
    case False
    with assms(1) Inr v show ?thesis
      by (intro kept_stay [OF ok]) (auto simp: ms_step_def subscribe_def subscriptions_of_def split: option.splits)
  next
    case True
    with assms(1) Inr have on: "ts_OnMessageReceived E p c m st = Inr st'" by (simp add: ms_step_def)
    note k = ts_OnMessage_keeps [OF on v]
    show ?thesis
    proof (cases "subs_of t c = None")
      case False
      with k(1) have "same_view st st'" by simp
      then have "ts_view q st' = ts_view q st" "ms_next st \<le> ms_next st'" for q by (simp_all add: same_view_def)
      then have "implements E (TsMessage p c m) st st'"
        using False v ok by (intro implementsI) (auto simp: subscribe_def dest: views_okD)
      with k(2) show ?thesis by (simp add: kept_def)
    next
      case None: True
      with k(1) obtain d where d: "SetupTSData_unpack (css_json E) m = Inr d"
        and set: "set_view p ((subs_of t)(c := if setup_isEmpty d then None else Some d),
          if setup_isEmpty d then ts_timelineSelectors t else bump (su_timelineSelector d) (ts_timelineSelectors t), ts_connections t) st st'"
        by auto
      have idem: "(subs_of t)(c := None) = subs_of t" using None by (simp add: fun_eq_iff)
      have "implements E (TsMessage p c m) st st'"
        by (rule implements_set [OF ok v set])
           (use None True d idem counts_add [of "subs_of t"] in \<open>auto simp: subscribe_def\<close>)
      with k(2) show ?thesis by (simp add: kept_def)
    qed
  qed
qed

lemma step_TsClosed:
  assumes "ms_step E st (TsClosed p c) = Inr st'" and ok: "views_ok st"
  shows "kept E (TsClosed p c) st st'"
proof (cases "ts_at p st")
  case (Inl e)
  with assms(1) ts_at_Inl [OF Inl] show ?thesis
    by (intro kept_stay [OF ok]) (auto simp: ms_step_def subscribe_def)
next
  case (Inr t)
  note v = ts_view_at [OF Inr]
  show ?thesis
  proof (cases "c \<in> set (ts_connections t)")
    case False
    with assms(1) Inr v show ?thesis
      by (intro kept_stay [OF ok]) (auto simp: ms_step_def subscribe_def subscriptions_of_def split: option.splits)
  next
    case True
    with assms(1) Inr obtain s t2 where m: "ts_OnDisconnected E p c st = Inr s" and t2: "ts_at p s = Inr t2"
      and st': "st' = put_ts p (t2\<lparr>ts_connections := filter (\<lambda>x. x \<noteq> c) (ts_connections t2)\<rparr>) s"
      by (auto simp: ms_step_def bindR_eq_Inr)
    note k = ts_OnDisconnected_keeps [OF m v]
    have t2v: "subs_of t2 = (subs_of t)(c := None)" "ts_connections t2 = ts_connections t"
      "ts_timelineSelectors t2 = (case subs_of t c of None \<Rightarrow> ts_timelineSelectors t | Some d \<Rightarrow> unbump (su_timelineSelector d) (ts_timelineSelectors t))"
      using k(1) ts_view_at [OF t2] by (simp_all add: set_view_def)
    have idem: "subs_of t c = None \<Longrightarrow> (subs_of t)(c := None) = subs_of t" by (simp add: fun_eq_iff)
    have "set_view p ((subs_of t)(c := None), ts_timelineSelectors t2, filter (\<lambda>x. x \<noteq> c) (ts_connections t)) s st'"
      using set_view_put_ts [OF t2, of "t2\<lparr>ts_connections := filter (\<lambda>x. x \<noteq> c) (ts_connections t2)\<rparr>"] t2v by (simp add: st')
    from set_view_trans [OF k(1) this] have "implements E (TsClosed p c) st st'"
      by (rule implements_set [OF ok v])
         (use True t2v(3) idem counts_del [of "subs_of t"] in \<open>auto simp: subscribe_def split: option.splits\<close>)
    with k(2) show ?thesis by (simp add: kept_def st')
  qed
qed

lemma step_ServiceFails:
  assumes "ms_step E st (ServiceFails p) = Inr st'" and ok: "views_ok st"
  shows "kept E (ServiceFails p) st st'"
proof (cases "om_get (sv_heap st) p")
  case None
  then have "subscriptions_of p st = None" by (simp add: subscriptions_of_def ts_view_def ts_at_def)
  with None assms(1) show ?thesis
    by (intro kept_stay [OF ok]) (auto simp: ms_step_def subscribe_def)
next
  case (Some sv)
  with assms(1) have st': "st' = st\<lparr>sv_heap := om_ins p \<lparr>sv_stop = True, sv_kind = drop_connections (sv_kind sv)\<rparr> (sv_heap st)\<rparr>"
    by (simp add: ms_step_def)
  have o: "q \<noteq> p \<Longrightarrow> ts_view q st' = ts_view q st" for q by (simp add: st' ts_view_def ts_at_def)
  have n: "ms_next st' = ms_next st" by (simp add: st')
  have "implements E (ServiceFails p) st st'"
  proof (cases "ts_view p st")
    case None
    then have "ts_view p st' = None"
      using Some by (auto simp: st' ts_view_def ts_at_def drop_connections_def split: service_kind.splits)
    then have "other_view p st st'" using o n by (simp add: other_view_def)
    moreover have "ts_view q st' = ts_view q st" for q using o None \<open>ts_view p st' = None\<close> by (cases "q = p") auto
    ultimately show ?thesis using ok None n by (intro implementsI) (auto simp: subscribe_def dest: views_okD)
  next
    case v: (Some v)
    obtain S sel C where vv: "v = (S, sel, C)" by (cases v)
    have "ts_view p st' = Some (S, sel, [])"
      using Some v vv by (auto simp: st' ts_view_def ts_at_def drop_connections_def split: service_kind.splits)
    then have "set_view p (S, sel, []) st st'" using o n by (simp add: set_view_def)
    then show ?thesis by (rule implements_set [OF ok v [unfolded vv]]) (auto simp: subscribe_def)
  qed
  then show ?thesis by (simp add: kept_def st')
qed

lemma step_kept:
  assumes "ms_step E st ev = Inr st'" and ok: "views_ok st"
  shows "kept E ev st st'"
proof (cases ev)
  case (TsConnected p c) with assms step_TsConnected show ?thesis by blast
next
  case (TsMessage p c m) with assms step_TsMessage show ?thesis by blast
next
  case (TsClosed p c) with assms step_TsClosed show ?thesis by blast
next
  case (ServiceFails p) with assms step_ServiceFails show ?thesis by blast
next
  case (Initialise b uri e p)
  with assms have "initialise E b uri e p st = Inr st'" by (simp add: ms_step_def)
  from initialise_keeps [OF this] show ?thesis by (auto intro!: kept_same [OF ok] simp: Initialise subscribe_def)
next
  case (UpdateBroadcast uri e p)
  with assms have "updateBroadcastContentStatus E uri e p st = Inr st'" by (simp add: ms_step_def)
  from updateBroadcast_keeps [OF this] show ?thesis by (auto intro!: kept_same [OF ok] simp: UpdateBroadcast subscribe_def)
next
  case (UpdateCss cid ps cs mrs)
  with assms have "updateCssCiiProperties E cid ps cs mrs st = Inr st'" by (simp add: ms_step_def)
  from quiet_updateCss [OF this] show ?thesis by (auto intro!: kept_quiet [OF ok] simp: UpdateCss subscribe_def)
next
  case (EnableSync ip started)
  with assms obtain r where r: "enableInterDeviceSync E ip started st = Inr (r, st')" by (auto simp: ms_step_def bindR_eq_Inr)
  have "implements E ev st st'" by (rule implements_grows [OF ok enable_grows [OF r]]) (simp add: EnableSync subscribe_def)
  with enable_wf [OF _ r] show ?thesis by (simp add: kept_def)
next
  case DisableSync
  with assms have "st' = disableInterDeviceSync st" by (simp add: ms_step_def)
  with disable_view show ?thesis by (auto intro!: kept_same [OF ok] simp: DisableSync subscribe_def)
next
  case (StartMonitoring k m)
  with assms obtain r where "startTimelineMonitoring E k m st = Inr (r, st')" by (auto simp: ms_step_def bindR_eq_Inr)
  from startTimelineMonitoring_view [OF this] startTimelineMonitoring_wf [OF _ this] show ?thesis
    by (auto intro!: kept_same [OF ok] simp: StartMonitoring subscribe_def)
next
  case (StopMonitoring k f)
  with assms obtain r where "stopTimelineMonitoring E k f st = Inr (r, st')" by (auto simp: ms_step_def bindR_eq_Inr)
  from stopTimelineMonitoring_view [OF this] stopTimelineMonitoring_wf [OF _ this] show ?thesis
    by (auto intro!: kept_same [OF ok] simp: StopMonitoring subscribe_def)
next
  case (SetTimelineAvailable k a t v)
  with assms obtain r where "setTimelineAvailability E k a t v st = Inr (r, st')" by (auto simp: ms_step_def bindR_eq_Inr)
  from setTimelineAvailability_view [OF this] setTimelineAvailability_wf [OF _ this] show ?thesis
    by (auto intro!: kept_same [OF ok] simp: SetTimelineAvailable subscribe_def)
next
  case (SetTemiAvailable f a t s v)
  with assms obtain r where "setTEMITimelineAvailability E f a t s v st = Inr (r, st')" by (auto simp: ms_step_def bindR_eq_Inr)
  from setTEMI_view [OF this] setTEMI_wf [OF _ _ this] show ?thesis
    by (auto intro!: kept_same [OF ok] simp: SetTemiAvailable subscribe_def)
next
  case (SetContentTime k t v)
  with assms have "setContentTimeAndSpeed E k t v st = Inr st'" by (simp add: ms_step_def)
  from quiet_setContentTime [OF this] show ?thesis by (auto intro!: kept_quiet [OF ok] simp: SetContentTime subscribe_def)
next
  case (GetContentTime k)
  with assms obtain r where "getContentTime E k st = Inr (r, st')" by (auto simp: ms_step_def ret_iff)
  from getContentTime_view [OF this] getContentTime_wf [OF this] show ?thesis by (auto intro!: kept_same [OF ok] simp: GetContentTime subscribe_def)
next
  case (SetContentIdOverride cid f)
  with assms have "ms_setContentIdOverride E cid f st = Inr st'" by (simp add: ms_step_def)
  from quiet_ms_setContentIdOverride [OF this] show ?thesis by (auto intro!: kept_quiet [OF ok] simp: SetContentIdOverride subscribe_def)
next
  case DeleteLater
  with assms have "deleteLater st = Inr st'" by (simp add: ms_step_def)
  from deleteLater_keeps [OF this] show ?thesis by (auto intro!: kept_same [OF ok] simp: DeleteLater subscribe_def)
next
  case (CiiConnected p c)
  show ?thesis
  proof (cases "\<exists>x. cii_at p st = Inr x \<and> c \<notin> set (cii_connections x)")
    case True
    then obtain x where x: "cii_at p st = Inr x" "c \<notin> set (cii_connections x)" by blast
    then obtain s y where s: "cii_OnConnection E p c st = Inr s" "cii_at p s = Inr y"
      "st' = put_cii p (y\<lparr>cii_connections := cii_connections y @ [c]\<rparr>) s"
      using assms(1) CiiConnected by (auto simp: ms_step_def bindR_eq_Inr)
    from quiet_trans [OF quiet_cii_OnConnection [OF s(1)] quiet_put_cii [OF s(2)]] show ?thesis
      by (auto intro!: kept_quiet [OF ok] simp: CiiConnected subscribe_def s(3))
  next
    case False
    then have "st' = st" using assms(1) CiiConnected by (cases "cii_at p st") (auto simp: ms_step_def split: if_splits)
    then show ?thesis by (auto intro!: kept_quiet [OF ok] simp: CiiConnected subscribe_def)
  qed
next
  case (CiiClosed p c)
  with assms(1) have "quiet st st'" by (cases "cii_at p st") (auto simp: ms_step_def intro: quiet_put_cii)
  then show ?thesis by (auto intro!: kept_quiet [OF ok] simp: CiiClosed subscribe_def)
next
  case (ServiceStopped p)
  show ?thesis
  proof (cases "\<exists>sv. om_get (sv_heap st) p = Some sv \<and> sv_stop sv \<and> sv_connections sv = []")
    case True
    with assms(1) ServiceStopped have s: "sm_OnServiceStopped p st = Inr st'" by (auto simp: ms_step_def)
    have "implements E ev st st'"
      by (rule implements_other [OF ok sm_OnServiceStopped_keeps(2) [OF s]]) (simp add: ServiceStopped subscribe_def)
    with sm_OnServiceStopped_keeps(1) [OF s] show ?thesis by (simp add: kept_def)
  next
    case False
    then have "st' = st" using assms(1) ServiceStopped by (auto simp: ms_step_def split: option.splits if_splits)
    then show ?thesis by (auto intro!: kept_quiet [OF ok] simp: ServiceStopped subscribe_def)
  qed
qed

section \<open>Runs\<close>

definition ms_inv :: "'j css_env \<Rightarrow> 'j media_sync \<Rightarrow> bool" where
  "ms_inv E st = ((jsoncpp_ok (css_json E) \<longrightarrow> ms_wf E st) \<and> views_ok st)"

interpretation ms: event_system "ms_step E" "ms_inv E" for E
proof unfold_locales
  fix s e s' assume "ms_inv E s" and "ms_step E s e = Inr s'"
  with step_kept [of E s e s'] show "ms_inv E s'" by (simp add: ms_inv_def kept_def implements_def)
qed

lemma new_inv:
  assumes "MediaSynchroniser_new E wc ts = Inr st"
  shows "ms_inv E st"
proof -
  let ?z = "\<lambda>m. \<lparr>ms_timelines = [], ms_masterTimeline = [], ms_isMasterBroadcast = False, ms_syncing = False, ms_delete = False,
            ms_initialised = False, ms_runningServices = 0, ms_wcService = -1, ms_ciiService = -1, ms_tsService = -1,
            ms_ciiProps = m, ms_contentIdOverride = [],
            ms_contentId = [], ms_timelineSources = [], ms_currentCSSId = [], ms_currentCSSStatus = [], ms_contentCSSIdStatus = [],
            ms_wcPort = wc, ms_tsPort = ts, tl_heap = [], sm_services = [], sm_callbacks = [], sm_locked = False,
            sv_heap = [], ms_next = 0, ms_reads = 0, ms_outputs = []\<rparr>"
  have "\<exists>m. st = ?z m"
    using assms unfolding MediaSynchroniser_new_def Let_def by (elim bindR_InrE) (auto simp: ms_setProperty_def bindR_eq_Inr)
  then obtain m where "st = ?z m" by blast
  then show ?thesis
    by (simp add: ms_inv_def ms_wf_def watched_def views_ok_def ts_view_def ts_at_def ptrs_def inj_on_def ran_def dom_def)
qed

lemma ms_reachable: "MediaSynchroniser_new E wc ts = Inr s0 \<Longrightarrow> run (ms_step E) s0 evs = Inr st \<Longrightarrow> ms_inv E st"
  by (rule ms.run_inv [OF new_inv])

lemma run_implements:
  assumes "ms_inv E st" and "run (ms_step E) st evs = Inr st'" and "subscriptions_of p st = Some a"
    and "subscriptions_of p st' = Some b"
  shows "b = fold (subscribe (css_json E) p) evs a"
  using assms
proof (induction evs arbitrary: st a)
  case Nil
  then show ?case by simp
next
  case (Cons ev evs)
  then obtain s where s: "ms_step E st ev = Inr s" "run (ms_step E) s evs = Inr st'" by (auto simp: bindR_eq_Inr)
  have inv: "ms_inv E s" by (rule ms.stp_inv [OF Cons.prems(1) s(1)])
  have k: "implements E ev st s" using step_kept [OF s(1)] Cons.prems(1) by (simp add: ms_inv_def kept_def)
  then have "subscriptions_of p s = None \<or> subscriptions_of p s = Some (subscribe (css_json E) p ev a)"
    using Cons.prems(3) unfolding implements_def by blast
  moreover have "subscriptions_of p s \<noteq> None"
  proof
    assume "subscriptions_of p s = None"
    then have none: "ts_view p s = None" by (auto simp: subscriptions_of_def split: option.splits prod.splits)
    have "p < ms_next st" using Cons.prems(1,3) by (auto simp: ms_inv_def subscriptions_of_def split: option.splits dest: views_okD)
    then have "p < ms_next s" using k by (simp add: implements_def)
    with none s(2) inv have "ts_view p st' = None"
    proof (induction evs arbitrary: s)
      case (Cons ev evs)
      then obtain s2 where s2: "ms_step E s ev = Inr s2" "run (ms_step E) s2 evs = Inr st'" by (auto simp: bindR_eq_Inr)
      have "implements E ev s s2" using step_kept [OF s2(1)] Cons.prems(3) by (simp add: ms_inv_def kept_def)
      with Cons.prems Cons.IH [OF _ s2(2) ms.stp_inv [OF Cons.prems(3) s2(1)]] show ?case by (simp add: implements_def)
    qed simp
    with Cons.prems(4) show False by (simp add: subscriptions_of_def)
  qed
  ultimately have "subscriptions_of p s = Some (subscribe (css_json E) p ev a)" by auto
  from Cons.IH [OF inv s(2) this Cons.prems(4)] show ?case by simp
qed

end
