(* ===== verification/MediaSyncRun.thy ===== *)
theory MediaSyncRun
  imports MediaSyncProofs Json
begin

text \<open>
  Runs of the media synchroniser from its construction, and what they show of it: the timelines are counted,
  the timeline service implements its specification, and three orders of calls that reach freed memory or a
  locked mutex.
\<close>

section \<open>Concrete inputs\<close>

definition demo_member :: "json \<Rightarrow> string \<Rightarrow> json option" where
  "demo_member j k = (case j of JObject ms \<Rightarrow> Some (case om_get ms k of None \<Rightarrow> JNull | Some v \<Rightarrow> v) | JNull \<Rightarrow> Some JNull | _ \<Rightarrow> None)"

definition demo_pts :: string where
  "demo_pts = ''urn:dvb:css:timeline:pts''"

definition demo_setup :: json where
  "demo_setup = JObject [(''contentIdStem'', JString ''dvb:''), (''timelineSelector'', JString demo_pts)]"

definition demo_timeline :: json where
  "demo_timeline = JObject [(''timelineProperties'', JObject [(''unitsPerSecond'', JInt 90000), (''unitsPerTick'', JInt 1)]),
     (''timelineSelector'', JString demo_pts)]"

text \<open>A library of JSON whose parser knows a setup message, and takes every other object for a timeline.\<close>

definition demo_jsoncpp :: "json jsoncpp" where
  "demo_jsoncpp = \<lparr>
     jc_parse = (\<lambda>s. if s = ''SETUP'' then Some demo_setup else if s = [] then None else Some demo_timeline),
     jc_write = (\<lambda>j. []),
     jc_null = JNull,
     jc_is_null = (\<lambda>j. j = JNull),
     jc_is_string = (\<lambda>j. case j of JString s \<Rightarrow> True | _ \<Rightarrow> False),
     jc_is_array = (\<lambda>j. case j of JArray s \<Rightarrow> True | _ \<Rightarrow> False),
     jc_get = demo_member,
     jc_touch = (\<lambda>j k. j),
     jc_put = (\<lambda>j k v. case j of JObject ms \<Rightarrow> Some (JObject (om_ins k v ms)) | JNull \<Rightarrow> Some (JObject [(k, v)]) | _ \<Rightarrow> None),
     jc_append = (\<lambda>j v. case j of JArray xs \<Rightarrow> Some (JArray (xs @ [v])) | JNull \<Rightarrow> Some (JArray [v]) | _ \<Rightarrow> None),
     jc_elems = (\<lambda>j. case j of JArray xs \<Rightarrow> xs | _ \<Rightarrow> []),
     jc_remove = (\<lambda>j i. case j of JArray xs \<Rightarrow> JArray (take i xs @ drop (i + 1) xs) | _ \<Rightarrow> j),
     jc_of_string = JString,
     jc_of_uint = (\<lambda>w. JInt (uint w)),
     jc_as_string = (\<lambda>j. case j of JString s \<Rightarrow> Some s | JNull \<Rightarrow> Some [] | _ \<Rightarrow> None),
     jc_as_uint = (\<lambda>j. case j of JInt i \<Rightarrow> Some (word_of_int i) | JNull \<Rightarrow> Some 0 | _ \<Rightarrow> None),
     jc_as_double = (\<lambda>j. case j of JInt i \<Rightarrow> Some (word_of_int i) | JNull \<Rightarrow> Some 0 | _ \<Rightarrow> None),
     jc_of_object = JObject,
     jc_eq = (\<lambda>a b. a = b)\<rparr>"

definition demo_css :: "json css_env" where
  "demo_css = \<lparr>css_json = demo_jsoncpp, css_feq = (=), css_multiplier = (\<lambda>w. JInt (uint w)), css_wall = (\<lambda>n. 0),
     css_ticks = (\<lambda>n p. 0), css_start_temi = (\<lambda>n. 4), css_temi = (\<lambda>n f. 0), css_pts = (\<lambda>n. 0)\<rparr>"

lemma demo_ok: "jsoncpp_ok (css_json demo_css)"
  by (auto simp: jsoncpp_ok_def demo_css_def demo_jsoncpp_def split: json.splits)

definition demo_start :: "ms_event list" where
  "demo_start = [Initialise True ''dvb://1.2.3'' False True, EnableSync ''1.2.3.4'' (True, True, True)]"

definition demo_clients :: "ms_event list" where
  "demo_clients = [TsConnected 2 7, TsMessage 2 7 ''SETUP'']"

definition demo_temi :: string where
  "demo_temi = ''urn:dvb:css:timeline:temi:1:1''"

definition demo_run :: "ms_event list \<Rightarrow> json media_sync res" where
  "demo_run evs = bindR (MediaSynchroniser_new demo_css 6677 7681) (\<lambda>st. run (ms_step demo_css) st evs)"

lemma demo_run_iff: "demo_run evs = Inr st \<longleftrightarrow> (\<exists>s0. MediaSynchroniser_new demo_css 6677 7681 = Inr s0 \<and> run (ms_step demo_css) s0 evs = Inr st)"
  by (auto simp: demo_run_def bindR_eq_Inr)

lemmas ms_eval = or_throw_def is_dec_def dec_num_def dec_prefix_def stoull_def has_suffix_def isWallclockTimeValid_def
   setTimeStamp_def TimeStamp_new_def multiplier_eq_def ControlTimestamp_eq_def isControlTimestampChanged_def ControlTimestamp_pack_def
   SetupTSData_empty_def setup_isEmpty_def SetupTSData_unpack_def AptEptLpt_new_def
   ciMatchesStem_def cii_keys_def cii_contentIdStatus_def cii_protocolVersion_def presentation_pattern_def uri_pattern_def
   setProperty_def getProperty_def TimelineWrapper_new_def flushPendingWatchers_def quote_def timeline_text_def timeline_rate_def
   timeline_temi_def unpack_timeline_def put_timeline_property_def ParseTimelineSelector_def ms_emit_def ms_tick_def
   src_at_def is_available_def source_notify_def notify_clock_def clock_SetAvailability_def clock_setParent_def on_sources_def
   read_wall_def read_clock_def live_parent_def getControlTimestamp_def attachSink_def removeSink_def FindService_def FindCii_def
   FindTs_def cii_at_def ts_at_def put_kind_def put_ts_def put_cii_def cii_pack_def cii_OnConnection_def updateClients_def
   ms_setProperty_def setCIIMessageProperty_def setup_of_def getContentId_def ask_source_def updateClient_def updateAllClients_def
   ts_setContentId_def ts_setContentIdOverride_def attachTimelineSource_def removeTimelineSource_def timeline_at_def
   put_timeline_def erase_timeline_def getTimelineSource_def updateAllCIIClients_def updateAllTSClients_def ms_setContentId_def
   ms_setContentIdOverride_def set_correlation_def setContentTimeAndSpeed_def one_double_def Make_def set_parents_def
   pts_rate_def create_source_def addTimeline_def remove_from_cii_def Destroy_def removeTimeline_def start_temi_def
   startTimelineMonitoring_def stopTimelineMonitoring_def set_source_availability_def setTimelineAvailability_def
   temi_timeline_def iterator_def setTEMITimelineAvailability_def getContentTime_def configureConnection_def ts_OnMessageReceived_def
   ts_OnDisconnected_def MAX_SERVICES_def NewServiceId_def start_service_def StartWallClockService_def StartContentIdentificationService_def
   StartTimelineSyncService_def sm_StopService_def CSS_SERVICE_COUNT_def disableInterDeviceSync_def enableInterDeviceSync_def
   nrOfSlaves_def delete_synchroniser_def deleteLater_def OnStopped_def FindServiceId_def sm_OnServiceStopped_def
   updateCssCiiProperties_def restart_temi_def updateBroadcastContentStatus_def initialise_def sv_connections_def
   drop_connections_def ms_step_def MediaSynchroniser_new_def str_find_def not_default demo_member_def
   demo_setup_def demo_timeline_def demo_pts_def


lemma returns_Inr: "returns (Inr x) Q = Q x"
  by (simp add: returns_def)

lemma find_upto: "find Q [i..j] = (if i \<le> j then if Q i then Some i else find Q [i + 1..j] else None)"
  by (subst upto.simps) simp

lemma demo_css_simps:
  "css_json demo_css = demo_jsoncpp" "css_feq demo_css = (=)" "css_wall demo_css n = 0"
  "css_ticks demo_css n p = 0" "css_start_temi demo_css n = 4" "css_temi demo_css n f = 0" "css_pts demo_css n = 0"
  by (simp_all add: demo_css_def)

lemma demo_jc_simps:
  "jc_parse demo_jsoncpp s = (if s = ''SETUP'' then Some demo_setup else if s = [] then None else Some demo_timeline)"
  "jc_write demo_jsoncpp j = []" "jc_null demo_jsoncpp = JNull" "jc_is_null demo_jsoncpp j = (j = JNull)"
  "jc_is_string demo_jsoncpp j = (case j of JString s \<Rightarrow> True | _ \<Rightarrow> False)"
  "jc_is_array demo_jsoncpp j = (case j of JArray s \<Rightarrow> True | _ \<Rightarrow> False)"
  "jc_get demo_jsoncpp = demo_member" "jc_touch demo_jsoncpp j k = j"
  "jc_put demo_jsoncpp j k v = (case j of JObject ms \<Rightarrow> Some (JObject (om_ins k v ms)) | JNull \<Rightarrow> Some (JObject [(k, v)]) | _ \<Rightarrow> None)"
  "jc_append demo_jsoncpp j v = (case j of JArray xs \<Rightarrow> Some (JArray (xs @ [v])) | JNull \<Rightarrow> Some (JArray [v]) | _ \<Rightarrow> None)"
  "jc_elems demo_jsoncpp j = (case j of JArray xs \<Rightarrow> xs | _ \<Rightarrow> [])"
  "jc_remove demo_jsoncpp j i = (case j of JArray xs \<Rightarrow> JArray (take i xs @ drop (i + 1) xs) | _ \<Rightarrow> j)"
  "jc_of_string demo_jsoncpp = JString" "jc_of_uint demo_jsoncpp w = JInt (uint w)"
  "jc_as_string demo_jsoncpp j = (case j of JString s \<Rightarrow> Some s | JNull \<Rightarrow> Some [] | _ \<Rightarrow> None)"
  "jc_as_uint demo_jsoncpp j = (case j of JInt i \<Rightarrow> Some (word_of_int i) | JNull \<Rightarrow> Some 0 | _ \<Rightarrow> None)"
  "jc_as_double demo_jsoncpp j = (case j of JInt i \<Rightarrow> Some (word_of_int i) | JNull \<Rightarrow> Some 0 | _ \<Rightarrow> None)"
  "jc_of_object demo_jsoncpp = JObject" "jc_eq demo_jsoncpp = (=)"
  by (simp_all add: demo_jsoncpp_def)

lemma demo_dec: "dec_string 6677 = ''6677''"
  by (simp add: dec_string.simps hex_digit_def, code_simp)

lemma demo_dec2: "dec_string 7681 = ''7681''"
  by (simp add: dec_string.simps hex_digit_def, code_simp)

lemma demo_dec3: "dec_string 0 = ''0''"
  by (simp add: dec_string.simps hex_digit_def, code_simp)

lemma demo_stoi: "stoi ''1'' = Some 1"
  by code_simp

lemmas demo_eval = returns_Inr Let_def ms_eval find_upto demo_css_simps demo_jc_simps demo_dec demo_dec2 demo_dec3 demo_stoi om_get_def om_del_def

definition demo_temi_run :: "ms_event list" where
  "demo_temi_run = [Initialise True ''dvb://1.2.3'' False True, StartMonitoring demo_temi False, StopMonitoring demo_temi False]"

lemma demo_after_start: "returns (demo_run demo_start) (\<lambda>st. subscriptions_of 2 st = Some ([], \<lambda>c. None))"
  by (simp add: demo_run_def demo_start_def demo_eval subscriptions_of_def ts_view_def subs_of_def fun_eq_iff cong: lazy)

lemma demo_after_clients: "returns (demo_run (demo_start @ demo_clients)) (\<lambda>st.
    map_option fst (subscriptions_of 2 st) = Some [7] \<and> returns (ts_at 2 st) (\<lambda>t. om_get (ts_timelineSelectors t) demo_pts = Some 1))"
  by (simp add: demo_run_def demo_start_def demo_clients_def demo_eval subscriptions_of_def ts_view_def cong: lazy)

lemma demo_after_temi: "returns (demo_run demo_temi_run) (\<lambda>st. temi_timeline 4 st = Some demo_temi
    \<and> getTimelineSource demo_temi st = None \<and> tw_numWatchers (timeline_at demo_css demo_temi st) = 0
    \<and> tw_pendingWatchers (timeline_at demo_css demo_temi st) = 0 \<and> tw_timeline (timeline_at demo_css demo_temi st) = demo_timeline)"
  by (simp add: demo_run_def demo_temi_run_def demo_temi_def demo_eval cong: lazy)

section \<open>Properties\<close>

text \<open>C11. The timelines of the synchroniser are well typed in every state it reaches: the numbers of watchers and of
  pending watchers are not negative and not both positive, a watched timeline has a JSON description, no two timelines share a
  source and every source is alive. As long as the deletion of the object has not begun, exactly the timelines whose number of
  watchers is positive have a source; after \<open>DeleteLater\<close> the sources outlive the timelines.\<close>

theorem timelines_wellformed:
  assumes "jsoncpp_ok (css_json E)" and "MediaSynchroniser_new E wcPort tsPort = Inr s0" and "run (ms_step E) s0 evs = Inr st"
  shows "ms_wf E st"
  using ms_reachable [OF assms(2,3)] assms(1) by (simp add: ms_inv_def)

theorem timelines_wellformed_witness:
  "\<exists>st. demo_run (demo_start @ demo_clients) = Inr st \<and> ms_wf demo_css st"
proof -
  from demo_after_clients obtain st where "demo_run (demo_start @ demo_clients) = Inr st" by (auto elim: returnsE)
  with timelines_wellformed [OF demo_ok] show ?thesis by (auto simp: demo_run_iff)
qed

text \<open>C10. The timeline service implements its specification: while the service lives, the clients connected to it
  and what each has subscribed to are what \<open>subscribe\<close> computes from the events, whatever the synchroniser, the
  platform and the other services do in between.\<close>

theorem subscriptions_refined:
  assumes "MediaSynchroniser_new E wcPort tsPort = Inr s0" and "run (ms_step E) s0 evs0 = Inr st"
    and "run (ms_step E) st evs = Inr st'" and "subscriptions_of p st = Some a" and "subscriptions_of p st' = Some b"
  shows "b = fold (subscribe (css_json E) p) evs a"
  by (rule run_implements [OF ms_reachable [OF assms(1,2)] assms(3,4,5)])

theorem subscriptions_refined_witness:
  "\<exists>st b. demo_run (demo_start @ demo_clients) = Inr st \<and> subscriptions_of 2 st = Some b \<and> fst b = [7]
     \<and> b = fold (subscribe (css_json demo_css) 2) demo_clients ([], \<lambda>c. None)"
proof -
  from demo_after_start obtain s where s: "demo_run demo_start = Inr s" "subscriptions_of 2 s = Some ([], \<lambda>c. None)" by (auto elim: returnsE)
  from demo_after_clients obtain st b where st: "demo_run (demo_start @ demo_clients) = Inr st" "subscriptions_of 2 st = Some b" "fst b = [7]"
    by (auto elim!: returnsE)
  from s(1) obtain s0 where s0: "MediaSynchroniser_new demo_css 6677 7681 = Inr s0" "run (ms_step demo_css) s0 demo_start = Inr s"
    by (auto simp: demo_run_iff)
  with st(1) have "run (ms_step demo_css) s demo_clients = Inr st" by (auto simp: demo_run_iff run_append)
  from subscriptions_refined [OF s0 this s(2) st(2)] st show ?thesis by blast
qed

text \<open>C12. The timeline service counts its clients: in every state that is reached, the number it keeps for a
  selector is the number of clients whose setup data name that selector, and there is none without clients.\<close>

theorem selectors_counted:
  assumes "MediaSynchroniser_new E wcPort tsPort = Inr s0" and "run (ms_step E) s0 evs = Inr st"
    and "ts_at p st = Inr t" and "k \<noteq> []"
  shows "om_get (ts_timelineSelectors t) k =
    (let n = card {c. su_timelineSelector (setup_of t c) = k} in if n = 0 then None else Some (int n))"
proof -
  have "views_ok st" using ms_reachable [OF assms(1,2)] by (simp add: ms_inv_def)
  then have c: "counts_ok (subs_of t) (ts_timelineSelectors t)" by (rule views_okD(2) [OF _ ts_view_at [OF assms(3)]])
  have eq: "clients_of (subs_of t) k = {c. su_timelineSelector (setup_of t c) = k}"
    using assms(4) by (auto simp: clients_of_def subs_of_def setup_isEmpty_def)
  have "finite (clients_of (subs_of t) k)" using c clients_finite by (simp add: counts_ok_def)
  with c assms(4) show ?thesis by (simp add: counts_ok_def eq Let_def card_eq_0_iff)
qed

theorem selectors_counted_witness:
  "\<exists>st t. demo_run (demo_start @ demo_clients) = Inr st \<and> ts_at 2 st = Inr t
     \<and> card {c. su_timelineSelector (setup_of t c) = demo_pts} = 1"
proof -
  from demo_after_clients obtain st t where st: "demo_run (demo_start @ demo_clients) = Inr st" "ts_at 2 st = Inr t"
    "om_get (ts_timelineSelectors t) demo_pts = Some 1" by (auto elim!: returnsE)
  then obtain s0 where s0: "MediaSynchroniser_new demo_css 6677 7681 = Inr s0" "run (ms_step demo_css) s0 (demo_start @ demo_clients) = Inr st"
    by (auto simp: demo_run_iff)
  have "demo_pts \<noteq> []" by (simp add: demo_pts_def)
  from selectors_counted [OF s0 st(2) this] st show ?thesis by (auto simp: Let_def split: if_splits)
qed

text \<open>C39. A TEMI filter outlives the interest in its timeline: when the last pending watcher has gone and the filter then
  reports its first timestamp, \<open>addTimeline\<close> erases the entry and \<open>setTEMITimelineAvailability\<close> goes on with an
  iterator to it.\<close>

theorem temi_iterator_dangles:
  assumes "jsoncpp_ok (css_json E)" and "temi_timeline f st = Some k" and "getTimelineSource k st = None"
    and "tw_numWatchers (timeline_at E k st) = 0" and "tw_pendingWatchers (timeline_at E k st) = 0"
    and "put_timeline_property (css_json E) ''unitsPerTick'' (jc_of_uint (css_json E) 1) (tw_timeline (timeline_at E k st)) = Inr i"
    and "put_timeline_property (css_json E) ''unitsPerSecond'' (jc_of_uint (css_json E) scale) i = Inr j"
  shows "ms_step E st (SetTemiAvailable f True t scale v) = Inl UseAfterFree"
  using assms put_timeline_property_not_null [OF assms(1,7)]
  by (simp add: ms_step_def setTEMITimelineAvailability_def set_source_availability_def addTimeline_def flushPendingWatchers_def
      iterator_def timeline_at_def put_timeline_def erase_timeline_def Let_def)

theorem temi_iterator_dangles_witness:
  "\<exists>st. demo_run demo_temi_run = Inr st \<and> ms_step demo_css st (SetTemiAvailable 4 True 0 90000 0) = Inl UseAfterFree"
proof -
  from demo_after_temi obtain st where st: "demo_run demo_temi_run = Inr st" "temi_timeline 4 st = Some demo_temi" "getTimelineSource demo_temi st = None"
    "tw_numWatchers (timeline_at demo_css demo_temi st) = 0" "tw_pendingWatchers (timeline_at demo_css demo_temi st) = 0"
    and tl: "tw_timeline (timeline_at demo_css demo_temi st) = demo_timeline"
    by (auto elim!: returnsE)
  define i where "i = JObject [(''timelineProperties'', JObject [(''unitsPerSecond'', JInt 90000), (''unitsPerTick'', JInt 1)]), (''timelineSelector'', JString demo_pts)]"
  have put: "put_timeline_property (css_json demo_css) ''unitsPerTick'' (jc_of_uint (css_json demo_css) 1) (tw_timeline (timeline_at demo_css demo_temi st)) = Inr i"
    "put_timeline_property (css_json demo_css) ''unitsPerSecond'' (jc_of_uint (css_json demo_css) 90000) i = Inr i"
    unfolding tl i_def by (simp_all add: demo_eval cong: lazy)
  from temi_iterator_dangles [OF demo_ok st(2-5) put] st(1) show ?thesis by blast
qed

text \<open>C40. When the service of content identification does not start, \<open>StartTimelineSyncService\<close> returns with the mutex
  of the service manager locked: the wall clock service, which has started, can never be taken down, and the
  thread that ends it waits for ever.\<close>

theorem failed_start_blocks:
  assumes "enableInterDeviceSync E ip (wc_ok, False, ts_ok) st = Inr (r, st')" and "ms_runningServices st \<le> 0" and "ms_initialised st"
    and "om_get (sm_services st) (-1) = None" and "om_get (sv_heap st') p \<noteq> None"
  shows "run (ms_step E) st' [ServiceFails p, ServiceStopped p] = Inl Blocked"
proof -
  have True: "ms_runningServices st \<le> 0 \<and> ms_initialised st" using assms(2,3) by simp
  let ?wc = "ms_setProperty E ''wcUrl'' (jc_of_string (css_json E) (''udp://'' @ ip @ '':'' @ dec_string (ms_wcPort st))) st"
  let ?ts = "\<lambda>s. ms_setProperty E ''tsUrl'' (jc_of_string (css_json E) (''ws://'' @ ip @ '':'' @ dec_string (ms_tsPort s))) s"
  note e0 = assms(1) [unfolded enableInterDeviceSync_def if_P [OF True] Let_def]
  obtain s1 where s1: "?wc = Inr s1" by (rule bindR_InrE [OF e0]) (rule that)
  note e1 = e0 [unfolded s1 bindR_Inr]
  obtain s2 where s2: "?ts s1 = Inr s2" by (rule bindR_InrE [OF e1]) (rule that)
  have sm: "sm_services s2 = sm_services st"
    using quiet_trans [OF quiet_setProperty [OF s1] quiet_setProperty [OF s2]] by (simp add: quiet_def fixed_def)
  obtain wc s3 where 3: "StartWallClockService wc_ok s2 = (wc, s3)" by fastforce
  have "om_get (sm_services s3) (-1) = None"
    using 3 assms(4) sm by (auto simp: StartWallClockService_def start_service_def Let_def split: if_splits)
  then have none: "FindCii (-1) s3 = None" by (simp add: FindCii_def FindService_def)
  have 4: "StartContentIdentificationService False s3 = (-1, s3)"
    by (simp add: StartContentIdentificationService_def start_service_def Let_def)
  have 5: "StartTimelineSyncService (-1) ts_ok s3 = (-1, s3\<lparr>sm_locked := True\<rparr>)"
    by (simp add: StartTimelineSyncService_def none)
  have st': "st' = disableInterDeviceSync (s3\<lparr>sm_locked := True, ms_wcService := wc, ms_ciiService := -1, ms_tsService := -1\<rparr>)"
    using assms(1) [unfolded enableInterDeviceSync_def if_P [OF True] Let_def s1 s2 bindR_Inr prod.case 3 4 5] by simp
  have stop: "sm_locked (sm_StopService i s) = sm_locked s" for i and s :: "'a media_sync"
    by (simp add: sm_StopService_def split: option.split)
  have "sm_locked st'" by (simp add: st' disableInterDeviceSync_def Let_def stop ms_emit_def)
  then show ?thesis
    using assms(5) by (auto simp: ms_step_def sm_OnServiceStopped_def sv_connections_def drop_connections_def split: service_kind.split)
qed

lemma demo_after_failure: "returns (demo_run [Initialise False [] False False]) (\<lambda>st. ms_runningServices st \<le> 0 \<and> ms_initialised st
    \<and> om_get (sm_services st) (-1) = None
    \<and> returns (enableInterDeviceSync demo_css ''1.2.3.4'' (True, False, True) st) (\<lambda>r. om_get (sv_heap (snd r)) 0 \<noteq> None))"
  by (simp add: demo_run_def demo_eval cong: lazy)

theorem failed_start_blocks_witness:
  "\<exists>st st'. demo_run [Initialise False [] False False] = Inr st \<and> enableInterDeviceSync demo_css ''1.2.3.4'' (True, False, True) st = Inr st'
     \<and> run (ms_step demo_css) (snd st') [ServiceFails 0, ServiceStopped 0] = Inl Blocked"
proof -
  from demo_after_failure obtain st r st' where "demo_run [Initialise False [] False False] = Inr st" "ms_runningServices st \<le> 0" "ms_initialised st"
    "om_get (sm_services st) (-1) = None" "enableInterDeviceSync demo_css ''1.2.3.4'' (True, False, True) st = Inr (r, st')"
    "om_get (sv_heap st') 0 \<noteq> None" by (auto elim!: returnsE)
  with failed_start_blocks [of demo_css "''1.2.3.4''" True True st r st' 0] show ?thesis by fastforce
qed

text \<open>The timeline service keeps a pointer to the service of content identification, and each of them ends when
  its own thread ends: once the latter has gone, a change of the content identifier reads freed memory.\<close>

theorem stale_cii_service:
  assumes "FindTs (ms_tsService st) st = Some p" and "ts_at p st = Inr t" and "cii_at (ts_ciiService t) st = Inl e"
    and "ts_contentIdOverride t = []" and "cid \<noteq> ts_contentId t"
  shows "ms_step E st (UpdateCss cid ps cs mrs) = Inl UseAfterFree"
proof -
  have cii: "cii_at q (put_ts p u (st\<lparr>ms_contentId := cid\<rparr>)) = cii_at q st" for q u
  proof -
    have "ts_at p (st\<lparr>ms_contentId := cid\<rparr>) = Inr t" using assms(2) by (simp add: ts_at_def)
    from cii_at_put_ts [OF this] show ?thesis by (simp add: cii_at_def)
  qed
  have "e = UseAfterFree" using assms(3) by (auto simp: cii_at_def split: option.splits service_kind.splits)
  moreover have "ts_at p (st\<lparr>ms_contentId := cid\<rparr>) = Inr t" using assms(2) by (simp add: ts_at_def)
  ultimately have "ms_setContentId E cid st = Inl UseAfterFree"
    using assms by (simp add: ms_setContentId_def ts_setContentId_def getContentId_def setCIIMessageProperty_def cii Let_def)
  then show ?thesis by (simp add: ms_step_def updateCssCiiProperties_def Let_def)
qed

definition demo_stop :: "ms_event list" where
  "demo_stop = demo_start @ [DisableSync, ServiceStopped 1]"

lemma demo_after_stop: "returns (demo_run demo_stop) (\<lambda>st. FindTs (ms_tsService st) st = Some 2
    \<and> returns (ts_at 2 st) (\<lambda>t. ts_contentIdOverride t = [] \<and> ts_contentId t = ''dvb://1.2.3'' \<and> cii_at (ts_ciiService t) st = Inl UseAfterFree))"
  by (simp add: demo_run_def demo_stop_def demo_start_def demo_eval cong: lazy)

theorem stale_cii_service_witness:
  "\<exists>st. demo_run demo_stop = Inr st \<and> ms_step demo_css st (UpdateCss ''dvb://4.5.6'' ''okay'' ''final'' []) = Inl UseAfterFree"
proof -
  from demo_after_stop obtain st t where "demo_run demo_stop = Inr st" "FindTs (ms_tsService st) st = Some 2" "ts_at 2 st = Inr t"
    "cii_at (ts_ciiService t) st = Inl UseAfterFree" "ts_contentIdOverride t = []" "ts_contentId t = ''dvb://1.2.3''"
    by (auto elim!: returnsE)
  with stale_cii_service [of st 2 t UseAfterFree "''dvb://4.5.6''"] show ?thesis by auto
qed

end
