(* ===== verification/IsoTime.thy ===== *)
theory IsoTime
  imports CssTypes
begin

text \<open>
  The conversions between seconds and wall-clock time in ISO 8601 at the end of
  \<open>network_services/json_rpc/JsonRpcService.cpp\<close>, with what they use of the C library: \<open>strptime\<close>,
  \<open>sscanf\<close>, \<open>mktime\<close>, \<open>gmtime\<close> and \<open>strftime\<close>. The time zone of the terminal is a function from local
  civil seconds to seconds of UTC, and the variable of \<open>struct tm\<close> that \<open>strptime\<close> fills is not initialised:
  what it holds before is an argument. A conversion of \<open>strptime\<close> that fails leaves the fields that it has
  not reached (the conversions skip no white space).
\<close>

section \<open>The calendar\<close>

definition leap :: "int \<Rightarrow> bool" where
  "leap y = (4 dvd y \<and> (\<not> 100 dvd y \<or> 400 dvd y))"

definition year_len :: "int \<Rightarrow> int" where
  "year_len y = (if leap y then 366 else 365)"

definition month_lens :: "bool \<Rightarrow> int list" where
  "month_lens l = [31, if l then 29 else 28, 31, 30, 31, 30, 31, 31, 30, 31, 30, 31]"

text \<open>The days from 1970-01-01 to the first day of a year.\<close>

definition leaps :: "int \<Rightarrow> int" where
  "leaps y = y div 4 - y div 100 + y div 400"

definition days_before_year :: "int \<Rightarrow> int" where
  "days_before_year y = 365 * (y - 1970) + leaps (y - 1) - leaps 1969"

function civil_year :: "int \<Rightarrow> int \<Rightarrow> int \<times> int" where
  "civil_year y d =
     (if d < 0 then civil_year (y - 1) (d + year_len (y - 1))
      else if d < year_len y then (y, d)
      else civil_year (y + 1) (d - year_len y))"
  by pat_completeness auto

termination
  by (relation "measure (\<lambda>(y, d). if d < 0 then nat (1000 - d) else nat d)") (auto simp: year_len_def split: if_splits)

declare civil_year.simps [simp del]

fun civil_month :: "int list \<Rightarrow> int \<Rightarrow> int \<Rightarrow> int \<times> int" where
  "civil_month [] m d = (m, d)"
| "civil_month (n # ns) m d = (if d < n then (m, d) else civil_month ns (m + 1) (d - n))"

section \<open>Broken-down time\<close>

record tm =
  tm_sec :: int
  tm_min :: int
  tm_hour :: int
  tm_mday :: int
  tm_mon :: int
  tm_year :: int
  tm_isdst :: int

definition civil_days :: "int \<Rightarrow> int \<Rightarrow> int \<Rightarrow> int" where
  "civil_days y m mday =
     (let y = y + m div 12; m = m mod 12
      in days_before_year y + sum_list (take (nat m) (month_lens (leap y))) + mday - 1)"

text \<open>\<open>mktime\<close> brings fields that are out of their range back into it.\<close>

definition civil_seconds :: "tm \<Rightarrow> int" where
  "civil_seconds t = ((civil_days (tm_year t + 1900) (tm_mon t) (tm_mday t) * 24 + tm_hour t) * 60 + tm_min t) * 60 + tm_sec t"

definition mktime :: "(int \<Rightarrow> int) \<Rightarrow> tm \<Rightarrow> int" where
  "mktime zone t = zone (civil_seconds t)"

definition gmtime :: "int \<Rightarrow> tm" where
  "gmtime t =
     (let s = t mod 86400;
          (y, d) = civil_year 1970 (t div 86400);
          (m, d) = civil_month (month_lens (leap y)) 0 d
      in \<lparr>tm_sec = s mod 60, tm_min = s div 60 mod 60, tm_hour = s div 3600, tm_mday = d + 1, tm_mon = m,
          tm_year = y - 1900, tm_isdst = 0\<rparr>)"

section \<open>Formatting and parsing\<close>

definition pad :: "nat \<Rightarrow> int \<Rightarrow> string" where
  "pad n v = (let s = dec_string (nat v) in replicate (n - length s) (CHR ''0'') @ s)"

definition strftime_FTZ :: "tm \<Rightarrow> string" where
  "strftime_FTZ t =
     pad 4 (tm_year t + 1900) @ ''-'' @ pad 2 (tm_mon t + 1) @ ''-'' @ pad 2 (tm_mday t) @ ''T''
     @ pad 2 (tm_hour t) @ '':'' @ pad 2 (tm_min t) @ '':'' @ pad 2 (tm_sec t) @ ''Z''"

definition ConvertSecondToISO8601 :: "int \<Rightarrow> string" where
  "ConvertSecondToISO8601 sec = strftime_FTZ (gmtime sec)"

text \<open>A number of \<open>strptime\<close>: the upper limit also bounds the number of its digits.\<close>

fun conv_loop :: "nat \<Rightarrow> nat \<Rightarrow> nat \<Rightarrow> string \<Rightarrow> nat \<times> string" where
  "conv_loop hi room v [] = (v, [])"
| "conv_loop hi room v (c # cs) =
     (if is_dec c \<and> v * 10 \<le> hi \<and> room \<noteq> 0 then conv_loop hi (room div 10) (v * 10 + (of_char c - 48)) cs else (v, c # cs))"

definition conv_num :: "nat \<Rightarrow> nat \<Rightarrow> string \<Rightarrow> (nat \<times> string) option" where
  "conv_num lo hi s =
     (case s of [] \<Rightarrow> None | c # cs \<Rightarrow>
        if \<not> is_dec c then None
        else case conv_loop hi hi 0 s of (v, rest) \<Rightarrow> if v < lo \<or> hi < v then None else Some (v, rest))"

definition lit :: "char \<Rightarrow> string \<Rightarrow> string option" where
  "lit c s = (case s of [] \<Rightarrow> None | d # ds \<Rightarrow> if d = c then Some ds else None)"

datatype conv = Num nat nat "int \<Rightarrow> tm \<Rightarrow> tm" | Lit char

fun strptime :: "conv list \<Rightarrow> string \<Rightarrow> tm \<Rightarrow> tm" where
  "strptime [] s t = t"
| "strptime (Lit c # fs) s t = (case lit c s of None \<Rightarrow> t | Some s \<Rightarrow> strptime fs s t)"
| "strptime (Num lo hi put # fs) s t =
     (case conv_num lo hi s of None \<Rightarrow> t | Some (v, s) \<Rightarrow> strptime fs s (put (int v) t))"

text \<open>\<open>%FT%TZ\<close>\<close>

definition FTZ :: "conv list" where
  "FTZ =
    [Num 0 9999 (\<lambda>v t. t\<lparr>tm_year := v - 1900\<rparr>), Lit (CHR ''-''), Num 1 12 (\<lambda>v t. t\<lparr>tm_mon := v - 1\<rparr>), Lit (CHR ''-''),
     Num 1 31 (\<lambda>v t. t\<lparr>tm_mday := v\<rparr>), Lit (CHR ''T''), Num 0 23 (\<lambda>v t. t\<lparr>tm_hour := v\<rparr>), Lit (CHR '':''),
     Num 0 59 (\<lambda>v t. t\<lparr>tm_min := v\<rparr>), Lit (CHR '':''), Num 0 61 (\<lambda>v t. t\<lparr>tm_sec := v\<rparr>), Lit (CHR ''Z'')]"

text \<open>\<open>sscanf\<close> with \<open>%d:%d\<close> into two variables that hold 0.\<close>

definition scan_d :: "string \<Rightarrow> (int \<times> string) option" where
  "scan_d s =
     (let t = dropWhile is_space s;
          (neg, u) = (case t of c # cs \<Rightarrow> if c = CHR ''-'' then (True, cs) else if c = CHR ''+'' then (False, cs) else (False, t)
                      | [] \<Rightarrow> (False, t));
          ds = takeWhile is_dec u
      in if ds = [] then None
         else Some (if neg then - int (dec_num ds) else int (dec_num ds), dropWhile is_dec u))"

definition scan_zone :: "string \<Rightarrow> int \<times> int" where
  "scan_zone s =
     (case scan_d s of
        None \<Rightarrow> (0, 0)
      | Some (zh, s) \<Rightarrow>
          (case lit (CHR '':'') s of
             None \<Rightarrow> (zh, 0)
           | Some s \<Rightarrow> (case scan_d s of None \<Rightarrow> (zh, 0) | Some (zm, s) \<Rightarrow> (zh, zm))))"

definition zone_offset :: "string \<Rightarrow> (int \<times> int) option" where
  "zone_offset input =
     (let lenDateTime = (if length input < 6 then 0 else length input - 6);
          c = input ! lenDateTime
      in if c = CHR ''+'' \<or> c = CHR ''-'' then
           (case scan_zone (drop lenDateTime input) of (zh, zm) \<Rightarrow>
              if zh < -23 \<or> zh > 23 \<or> zm < 0 \<or> zm > 59 then None
              else Some (zh, if zh < 0 then - zm else zm))
         else Some (0, 0))"

definition ConvertISO8601ToSecond :: "(int \<Rightarrow> int) \<Rightarrow> tm \<Rightarrow> string \<Rightarrow> int" where
  "ConvertISO8601ToSecond zone junk input =
     (if input = [] then -1
      else case zone_offset input of
        None \<Rightarrow> -1
      | Some (zh, zm) \<Rightarrow>
          let t = strptime FTZ input junk
          in mktime zone (t\<lparr>tm_isdst := 0, tm_hour := tm_hour t - zh, tm_min := tm_min t - zm\<rparr>))"

section \<open>The calendar is consistent\<close>

lemma div_step:
  assumes "0 < k"
  shows "(y :: int) div k = (y - 1) div k + (if k dvd y then 1 else 0)"
proof (cases "k dvd y")
  case True
  then obtain c where c: "y = k * c" by auto
  have "(y - 1) div k = c - 1"
    by (rule int_div_pos_eq [where r = "k - 1"]) (use assms c in \<open>simp_all add: algebra_simps\<close>)
  with c assms show ?thesis by simp
next
  case False
  then have "y mod k \<noteq> 0" by (simp add: dvd_eq_mod_eq_0)
  with assms have r: "0 \<le> y mod k - 1" "y mod k - 1 < k"
    using pos_mod_sign [of k y] pos_mod_bound [of k y] by linarith+
  have "(y - 1) div k = y div k"
    by (rule int_div_pos_eq [where r = "y mod k - 1", OF _ r]) simp
  with False show ?thesis by simp
qed

lemma leaps_arith:
  "(q \<Longrightarrow> p) \<Longrightarrow> (r \<Longrightarrow> q) \<Longrightarrow> a = a' + (if p then 1 else 0) \<Longrightarrow> b = b' + (if q then 1 else 0) \<Longrightarrow>
   c = c' + (if r then 1 else 0) \<Longrightarrow> a - b + c = a' - b' + c' + (if p \<and> (\<not> q \<or> r) then 1 else (0 :: int))"
  by auto

lemma leaps_step: "leaps y = leaps (y - 1) + (if leap y then 1 else 0)"
  unfolding leaps_def leap_def
  by (rule leaps_arith [OF _ _ div_step div_step div_step]) (use dvd_trans [of 100 400 y] dvd_trans [of 4 100 y] in simp_all)

lemma year_step: "days_before_year (y + 1) = days_before_year y + year_len y"
  using leaps_step [of y] by (simp add: days_before_year_def year_len_def algebra_simps)

lemma civil_year_ok:
  "civil_year y d = (y', d') \<Longrightarrow> 0 \<le> d' \<and> d' < year_len y' \<and> days_before_year y' + d' = days_before_year y + d"
proof (induction y d rule: civil_year.induct)
  case (1 y d)
  note eq = 1(3) [unfolded civil_year.simps [of y d]]
  consider (neg) "d < 0" | (here) "\<not> d < 0" "d < year_len y" | (later) "\<not> d < 0" "\<not> d < year_len y" by blast
  then show ?case
  proof cases
    case neg
    with eq have "civil_year (y - 1) (d + year_len (y - 1)) = (y', d')" by simp
    from 1(1) [OF neg this] year_step [of "y - 1"] show ?thesis by simp
  next
    case here
    with eq show ?thesis by auto
  next
    case later
    with eq have "civil_year (y + 1) (d - year_len y) = (y', d')" by simp
    from 1(2) [OF later this] year_step [of y] show ?thesis by simp
  qed
qed

lemma civil_month_ok:
  assumes "0 \<le> d" and "d < sum_list (month_lens l)" and "civil_month (month_lens l) 0 d = (m, d')"
  shows "0 \<le> m \<and> m < 12 \<and> 0 \<le> d' \<and> d' < 31 \<and> sum_list (take (nat m) (month_lens l)) + d' = d"
  using assms by (cases l) (auto simp: month_lens_def split: if_splits)

lemma civil_year_bounds:
  "civil_year y d = (y', d') \<Longrightarrow> 0 \<le> d \<Longrightarrow> y \<le> y' \<and> 365 * (y' - y) \<le> d"
proof (induction y d rule: civil_year.induct)
  case (1 y d)
  note eq = 1(3) [unfolded civil_year.simps [of y d]]
  show ?case
  proof (cases "d < year_len y")
    case True
    with eq 1(4) show ?thesis by auto
  next
    case False
    with eq 1(4) have "civil_year (y + 1) (d - year_len y) = (y', d')" by simp
    moreover have "365 \<le> year_len y" by (simp add: year_len_def)
    ultimately show ?thesis using 1(2) False 1(4) by auto
  qed
qed

lemma month_lens_sum: "sum_list (month_lens (leap y)) = year_len y"
  by (simp add: month_lens_def year_len_def)

lemma seconds_arith: "(h * 60 + m) * 60 + c = r \<Longrightarrow> 86400 * q + r = s \<Longrightarrow> ((q * 24 + h) * 60 + m) * 60 + c = (s :: int)"
  by (simp add: algebra_simps)

text \<open>The fields that \<open>gmtime\<close> computes are in the ranges of \<open>strptime\<close>, and \<open>mktime\<close> inverts it.\<close>

lemma gmtime_ok:
  assumes "0 \<le> s" and "s < 2147483648"
  defines "t \<equiv> gmtime s"
  shows "0 \<le> tm_sec t \<and> tm_sec t \<le> 59 \<and> 0 \<le> tm_min t \<and> tm_min t \<le> 59 \<and> 0 \<le> tm_hour t \<and> tm_hour t \<le> 23
    \<and> 1 \<le> tm_mday t \<and> tm_mday t \<le> 31 \<and> 0 \<le> tm_mon t \<and> tm_mon t \<le> 11
    \<and> 70 \<le> tm_year t \<and> tm_year t \<le> 138 \<and> civil_seconds t = s"
proof -
  obtain y d where yd: "civil_year 1970 (s div 86400) = (y, d)" by fastforce
  obtain m d' where md: "civil_month (month_lens (leap y)) 0 d = (m, d')" by fastforce
  note y = civil_year_ok [OF yd]
  have "0 \<le> s div 86400" "s div 86400 \<le> 24855" using assms by simp_all
  with civil_year_bounds [OF yd] have yb: "1970 \<le> y" "y \<le> 2038" by auto
  have m: "0 \<le> m \<and> m < 12 \<and> 0 \<le> d' \<and> d' < 31 \<and> sum_list (take (nat m) (month_lens (leap y))) + d' = d"
    by (rule civil_month_ok [OF _ _ md]) (use y in \<open>simp_all add: month_lens_sum\<close>)
  let ?r = "s mod 86400"
  have r: "0 \<le> ?r" "?r < 86400" by simp_all
  have t: "t = \<lparr>tm_sec = ?r mod 60, tm_min = ?r div 60 mod 60, tm_hour = ?r div 3600, tm_mday = d' + 1, tm_mon = m,
      tm_year = y - 1900, tm_isdst = 0\<rparr>"
    by (simp add: t_def gmtime_def Let_def yd md)
  have days: "civil_days y m (d' + 1) = s div 86400"
    using m y by (simp add: civil_days_def Let_def days_before_year_def)
  have day: "(?r div 3600 * 60 + ?r div 60 mod 60) * 60 + ?r mod 60 = ?r"
    using minus_div_mult_eq_mod [of ?r 60] minus_div_mult_eq_mod [of "?r div 60" 60]
    by (simp add: zdiv_zmult2_eq [symmetric])
  have "civil_seconds t = ((s div 86400 * 24 + ?r div 3600) * 60 + ?r div 60 mod 60) * 60 + ?r mod 60"
    by (simp add: civil_seconds_def t days)
  also have "\<dots> = s"
    by (rule seconds_arith [OF day]) simp
  finally have "civil_seconds t = s" .
  moreover obtain h mi c where f: "?r div 3600 = h" "?r div 60 mod 60 = mi" "?r mod 60 = c" by blast
  moreover have "0 \<le> h" "h \<le> 23" "0 \<le> mi" "mi \<le> 59" "0 \<le> c" "c \<le> 59"
    unfolding f [symmetric] by (simp_all add: pos_imp_zdiv_nonneg_iff)
  ultimately show ?thesis using m yb t [unfolded f] by simp
qed

section \<open>Parsing what was formatted\<close>

lemma hex_digit_dec:
  assumes "n < 10"
  shows "of_char (hex_digit n) = 48 + n" and "is_dec (hex_digit n)"
proof -
  have "n \<in> {0, 1, 2, 3, 4, 5, 6, 7, 8, 9}" using assms by auto
  then show "of_char (hex_digit n) = 48 + n" and "is_dec (hex_digit n)"
    by (auto simp: hex_digit_def is_dec_def)
qed

lemma pad2:
  assumes "0 \<le> v" and "v < 100"
  shows "pad 2 v = [hex_digit (nat v div 10), hex_digit (nat v mod 10)]"
proof -
  have "hex_digit 0 = CHR ''0''" by code_simp
  with assms show ?thesis
    by (simp add: pad_def Let_def dec_string.simps [of "nat v"] dec_string.simps [of "nat v div 10"] numeral_2_eq_2)
qed

lemma pad4:
  assumes "1000 \<le> v" and "v < 10000"
  shows "pad 4 v = [hex_digit (nat v div 1000), hex_digit (nat v div 100 mod 10), hex_digit (nat v div 10 mod 10), hex_digit (nat v mod 10)]"
proof -
  define n where "n = nat v"
  have n: "\<not> n < 10" "\<not> n div 10 < 10" "\<not> n div 100 < 10" "n div 1000 < 10" using assms by (simp_all add: n_def)
  have "dec_string n = [hex_digit (n div 1000), hex_digit (n div 100 mod 10), hex_digit (n div 10 mod 10), hex_digit (n mod 10)]"
    using n by (simp add: dec_string.simps [of n] dec_string.simps [of "n div 10"] dec_string.simps [of "n div 100"]
        dec_string.simps [of "n div 1000"] div_mult2_eq [symmetric])
  then show ?thesis by (simp add: pad_def n_def)
qed

text \<open>A padded number is read back by a conversion whose range it is in.\<close>

lemma conv_num2:
  assumes "int lo \<le> v" and "v \<le> int hi" and "10 \<le> hi" and "hi < 100" and "\<not> is_dec c"
  shows "conv_num lo hi (pad 2 v @ c # s) = Some (nat v, c # s)"
proof -
  define n where "n = nat v"
  have n: "lo \<le> n" "n \<le> hi" "n < 100" "n div 10 < 10" "n mod 10 < 10" "n div 10 * 10 \<le> hi" "hi div 10 \<noteq> 0" "hi \<noteq> 0"
    using assms div_times_less_eq_dividend [of n 10] by (auto simp: n_def)
  have p: "pad 2 v = [hex_digit (n div 10), hex_digit (n mod 10)]"
    using pad2 [of v] assms n by (simp add: n_def)
  show ?thesis
    using n(1,2,6,7,8) assms(5) unfolding p conv_num_def n_def [symmetric]
    by (simp add: hex_digit_dec [OF n(4)] hex_digit_dec [OF n(5)])
qed

lemma conv_num4:
  assumes "1000 \<le> v" and "v \<le> 9999" and "\<not> is_dec c"
  shows "conv_num 0 9999 (pad 4 v @ c # s) = Some (nat v, c # s)"
proof -
  define n where "n = nat v"
  have n: "n div 1000 < 10" "n div 100 mod 10 < 10" "n div 10 mod 10 < 10" "n mod 10 < 10" and le: "n \<le> 9999"
    using assms by (simp_all add: n_def)
  have p: "pad 4 v = [hex_digit (n div 1000), hex_digit (n div 100 mod 10), hex_digit (n div 10 mod 10), hex_digit (n mod 10)]"
    using pad4 [of v] assms by (simp add: n_def)
  have "n div 1000 * 10 + n div 100 mod 10 = n div 100" "n div 100 * 10 + n div 10 mod 10 = n div 10"
    using div_mult_mod_eq [of "n div 100" 10] div_mult_mod_eq [of "n div 10" 10] by (simp_all add: div_mult2_eq [symmetric])
  moreover have le2: "n div 10 * 10 \<le> 9999" "n div 10 \<le> 9999"
    by (rule order_trans [OF _ le], simp)+
  ultimately show ?thesis
    using n le assms(3)
    unfolding p conv_num_def n_def [symmetric]
    by (simp add: hex_digit_dec) (use le le2 in \<open>simp only: not_less simp_thms\<close>)
qed

lemma iso_fields:
  assumes "0 \<le> s" and "s < 2147483648"
  shows "strptime FTZ (ConvertSecondToISO8601 s) junk = (gmtime s)\<lparr>tm_isdst := tm_isdst junk\<rparr>"
proof -
  have sep: "\<not> is_dec CHR ''-''" "\<not> is_dec CHR ''T''" "\<not> is_dec CHR '':''" "\<not> is_dec CHR ''Z''"
    by (simp_all add: is_dec_def)
  note ok = gmtime_ok [OF assms]
  show ?thesis
    unfolding ConvertSecondToISO8601_def strftime_FTZ_def FTZ_def
    using ok by (simp add: conv_num2 conv_num4 sep lit_def)
qed

lemma zone_of_formatted:
  assumes "0 \<le> s" and "s < 2147483648"
  shows "zone_offset (ConvertSecondToISO8601 s) = Some (0, 0)"
proof -
  define t where "t = gmtime s"
  note ok = gmtime_ok [OF assms, folded t_def]
  have p: "pad 4 (tm_year t + 1900) = [hex_digit (nat (tm_year t + 1900) div 1000), hex_digit (nat (tm_year t + 1900) div 100 mod 10),
      hex_digit (nat (tm_year t + 1900) div 10 mod 10), hex_digit (nat (tm_year t + 1900) mod 10)]"
    "pad 2 (tm_mon t + 1) = [hex_digit (nat (tm_mon t + 1) div 10), hex_digit (nat (tm_mon t + 1) mod 10)]"
    "pad 2 (tm_mday t) = [hex_digit (nat (tm_mday t) div 10), hex_digit (nat (tm_mday t) mod 10)]"
    "pad 2 (tm_hour t) = [hex_digit (nat (tm_hour t) div 10), hex_digit (nat (tm_hour t) mod 10)]"
    "pad 2 (tm_min t) = [hex_digit (nat (tm_min t) div 10), hex_digit (nat (tm_min t) mod 10)]"
    "pad 2 (tm_sec t) = [hex_digit (nat (tm_sec t) div 10), hex_digit (nat (tm_sec t) mod 10)]"
    using ok by (intro pad2 pad4; simp)+
  have "nat (tm_min t) div 10 < 10" by (rule less_mult_imp_div_less) (use ok in \<open>simp add: nat_less_iff\<close>)
  from hex_digit_dec(2) [OF this] have "hex_digit (nat (tm_min t) div 10) \<noteq> CHR ''+'' \<and> hex_digit (nat (tm_min t) div 10) \<noteq> CHR ''-''"
    by (auto simp: is_dec_def)
  moreover have "ConvertSecondToISO8601 s ! 14 = hex_digit (nat (tm_min t) div 10)" "length (ConvertSecondToISO8601 s) = 20"
    unfolding ConvertSecondToISO8601_def strftime_FTZ_def t_def [symmetric] p by simp_all
  ultimately show ?thesis by (simp add: zone_offset_def)
qed

lemma formatted_nonempty: "ConvertSecondToISO8601 s \<noteq> []"
  by (simp add: ConvertSecondToISO8601_def strftime_FTZ_def)

lemma ConvertISO8601_formatted:
  assumes "0 \<le> s" and "s < 2147483648"
  shows "ConvertISO8601ToSecond zone junk (ConvertSecondToISO8601 s) = zone s"
  using gmtime_ok [OF assms]
  by (simp add: ConvertISO8601ToSecond_def formatted_nonempty zone_of_formatted [OF assms] iso_fields [OF assms] mktime_def civil_seconds_def Let_def)

section \<open>Properties\<close>

text \<open>C31. The conversions between seconds and wall-clock time are inverse to each other in the time zone of UTC: every
  time from 1970 that fits an \<open>int\<close> is formatted to a text that is read back as the same time, whatever the uninitialised
  variable held.\<close>

theorem iso_roundtrip:
  assumes "0 \<le> s" and "s < 2147483648"
  shows "ConvertISO8601ToSecond (\<lambda>t. t) junk (ConvertSecondToISO8601 s) = s"
  by (rule ConvertISO8601_formatted [OF assms])

theorem iso_roundtrip_witness:
  "ConvertISO8601ToSecond (\<lambda>t. t) \<lparr>tm_sec = 7, tm_min = 7, tm_hour = 7, tm_mday = 7, tm_mon = 7, tm_year = 7, tm_isdst = 7\<rparr>
     (ConvertSecondToISO8601 1709164800) = 1709164800"
  by (rule iso_roundtrip) simp_all

text \<open>In another time zone the text of UTC is read as local time, and a negative offset of less than an hour is
  read as a positive one.\<close>

lemma iso_local_time:
  "0 \<le> s \<Longrightarrow> s < 2147483648 \<Longrightarrow> ConvertISO8601ToSecond (\<lambda>t. t - 3600) junk (ConvertSecondToISO8601 s) = s - 3600"
  by (simp add: ConvertISO8601_formatted)

lemma iso_negative_half_hour:
  "ConvertISO8601ToSecond (\<lambda>t. t) junk ''2024-02-29T00:00:00-00:30'' = ConvertISO8601ToSecond (\<lambda>t. t) junk ''2024-02-29T00:00:00+00:30''"
  by (simp add: ConvertISO8601ToSecond_def zone_offset_def scan_zone_def scan_d_def lit_def is_space_def is_dec_def dec_num_def
      Let_def FTZ_def conv_num_def mktime_def civil_seconds_def)

end
