(* ===== verification/JsonRpcTypes.thy ===== *)
theory JsonRpcTypes
  imports IsoTime
begin

text \<open>
  The messages of \<open>network_services/json_rpc/JsonRpcService.cpp\<close>: the names of its methods and features, its
  tests of JSON values, the responses it builds and the settings it reports. The library \<open>jsoncpp\<close> is a
  parameter: the record of its operations in \<open>CssTypes\<close>, extended by those that only this service uses. An
  exception of the library leaves the callback of libwebsockets and ends the process.
\<close>

section \<open>The library of JSON\<close>

datatype value_type = nullValue | intValue | uintValue | realValue | stringValue | booleanValue | arrayValue | objectValue

record 'j jsonlib = "'j jsoncpp" +
  jv_type :: "'j \<Rightarrow> value_type"
  jv_is_member :: "'j \<Rightarrow> string \<Rightarrow> bool option"
  jv_is_object :: "'j \<Rightarrow> bool"
  jv_is_int :: "'j \<Rightarrow> bool"
  jv_is_bool :: "'j \<Rightarrow> bool"
  jv_of_int :: "int \<Rightarrow> 'j"
  jv_of_bool :: "bool \<Rightarrow> 'j"
  jv_as_int :: "'j \<Rightarrow> int option"
  jv_as_bool :: "'j \<Rightarrow> bool option"
  jv_put_index :: "'j \<Rightarrow> nat \<Rightarrow> 'j \<Rightarrow> 'j option"
  jv_write_string :: "'j \<Rightarrow> string"
  jv_parse_stream :: "string \<Rightarrow> 'j option"

text \<open>The surroundings of the service: the library, the time zone and the uninitialised variable of \<open>IsoTime\<close>,
  the arithmetic of \<open>double\<close> on words (a conversion to \<open>int\<close> of a value out of its range is undefined), the
  text of a \<open>double\<close>, and the order in which a hash table of connections is visited.\<close>

record 'j rpc_env =
  re_json :: "'j jsonlib"
  re_zone :: "int \<Rightarrow> int"
  re_junk :: tm
  re_double :: "int \<Rightarrow> u64"
  re_add :: "u64 \<Rightarrow> u64 \<Rightarrow> u64"
  re_sub :: "u64 \<Rightarrow> u64 \<Rightarrow> u64"
  re_less :: "u64 \<Rightarrow> u64 \<Rightarrow> bool"
  re_trunc :: "u64 \<Rightarrow> int option"
  re_text :: "u64 \<Rightarrow> string"
  re_order :: "int list \<Rightarrow> int list"

text \<open>The operations as the code calls them.\<close>

definition j_member :: "'j jsonlib \<Rightarrow> 'j \<Rightarrow> string \<Rightarrow> 'j res" where
  "j_member J j k = or_throw (jc_get J j k)"

definition j_string :: "'j jsonlib \<Rightarrow> 'j \<Rightarrow> string res" where
  "j_string J j = or_throw (jc_as_string J j)"

definition j_put_all :: "'j jsonlib \<Rightarrow> (string \<times> 'j) list \<Rightarrow> 'j \<Rightarrow> 'j res" where
  "j_put_all J = foldR (\<lambda>(k, v) j. or_throw (jc_put J j k v))"

text \<open>A default-constructed value and assignments to its members.\<close>

definition j_object :: "'j jsonlib \<Rightarrow> (string \<times> 'j) list \<Rightarrow> 'j res" where
  "j_object J ms = j_put_all J ms (jc_null J)"

section \<open>Integers\<close>

definition INT_MIN :: int where
  "INT_MIN = - 2147483648"

definition INT_MAX :: int where
  "INT_MAX = 2147483647"

definition in_int :: "int \<Rightarrow> bool" where
  "in_int i = (INT_MIN \<le> i \<and> i \<le> INT_MAX)"

text \<open>A conversion from \<open>time_t\<close> keeps the low bits; an addition or subtraction of \<open>int\<close> must not overflow.\<close>

definition to_int :: "int \<Rightarrow> int" where
  "to_int i = (i + 2147483648) mod 4294967296 - 2147483648"

definition int_op :: "int \<Rightarrow> int res" where
  "int_op i = (if in_int i then Inr i else Inl IntOverflow)"

definition OPTIONAL_INT_NOT_SET :: int where
  "OPTIONAL_INT_NOT_SET = - 999999"

section \<open>Names\<close>

definition MD_NEGOTIATE_METHODS :: string where "MD_NEGOTIATE_METHODS = ''org.hbbtv.negotiateMethods''"
definition MD_SUBSCRIBE :: string where "MD_SUBSCRIBE = ''org.hbbtv.subscribe''"
definition MD_UNSUBSCRIBE :: string where "MD_UNSUBSCRIBE = ''org.hbbtv.unsubscribe''"
definition MD_NOTIFY :: string where "MD_NOTIFY = ''org.hbbtv.notify''"
definition MD_AF_FEATURE_SUPPORT_INFO :: string where "MD_AF_FEATURE_SUPPORT_INFO = ''org.hbbtv.af.featureSupportInfo''"
definition MD_AF_FEATURE_SETTINGS_QUERY :: string where "MD_AF_FEATURE_SETTINGS_QUERY = ''org.hbbtv.af.featureSettingsQuery''"
definition MD_AF_FEATURE_SUPPRESS :: string where "MD_AF_FEATURE_SUPPRESS = ''org.hbbtv.af.featureSuppress''"
definition MD_AF_DIALOGUE_ENHANCEMENT_OVERRIDE :: string where
  "MD_AF_DIALOGUE_ENHANCEMENT_OVERRIDE = ''org.hbbtv.af.dialogueEnhancementOverride''"
definition MD_AF_TRIGGER_RESPONSE_TO_USER_ACTION :: string where
  "MD_AF_TRIGGER_RESPONSE_TO_USER_ACTION = ''org.hbbtv.af.triggerResponseToUserAction''"
definition MD_VOICE_READY :: string where "MD_VOICE_READY = ''org.hbbtv.app.voice.ready''"
definition MD_STATE_MEDIA :: string where "MD_STATE_MEDIA = ''org.hbbtv.app.state.media''"
definition MD_INTENT_MEDIA_PAUSE :: string where "MD_INTENT_MEDIA_PAUSE = ''org.hbbtv.app.intent.media.pause''"
definition MD_INTENT_MEDIA_PLAY :: string where "MD_INTENT_MEDIA_PLAY = ''org.hbbtv.app.intent.media.play''"
definition MD_INTENT_MEDIA_FAST_FORWARD :: string where "MD_INTENT_MEDIA_FAST_FORWARD = ''org.hbbtv.app.intent.media.fast-forward''"
definition MD_INTENT_MEDIA_FAST_REVERSE :: string where "MD_INTENT_MEDIA_FAST_REVERSE = ''org.hbbtv.app.intent.media.fast-reverse''"
definition MD_INTENT_MEDIA_STOP :: string where "MD_INTENT_MEDIA_STOP = ''org.hbbtv.app.intent.media.stop''"
definition MD_INTENT_MEDIA_SEEK_CONTENT :: string where "MD_INTENT_MEDIA_SEEK_CONTENT = ''org.hbbtv.app.intent.media.seek-content''"
definition MD_INTENT_MEDIA_SEEK_RELATIVE :: string where "MD_INTENT_MEDIA_SEEK_RELATIVE = ''org.hbbtv.app.intent.media.seek-relative''"
definition MD_INTENT_MEDIA_SEEK_LIVE :: string where "MD_INTENT_MEDIA_SEEK_LIVE = ''org.hbbtv.app.intent.media.seek-live''"
definition MD_INTENT_MEDIA_SEEK_WALLCLOCK :: string where
  "MD_INTENT_MEDIA_SEEK_WALLCLOCK = ''org.hbbtv.app.intent.media.seek-wallclock''"
definition MD_INTENT_SEARCH :: string where "MD_INTENT_SEARCH = ''org.hbbtv.app.intent.search''"
definition MD_INTENT_DISPLAY :: string where "MD_INTENT_DISPLAY = ''org.hbbtv.app.intent.display''"
definition MD_INTENT_PLAYBACK :: string where "MD_INTENT_PLAYBACK = ''org.hbbtv.app.intent.playback''"

text \<open>The accessibility features, in the order of their ids.\<close>

definition F_NAMES :: "string list" where
  "F_NAMES = [''subtitles'', ''dialogueEnhancement'', ''uiMagnifier'', ''highContrastUI'', ''screenReader'',
     ''responseToUserAction'', ''audioDescription'', ''inVisionSigning'']"

definition sizeOfAccessibilityFeature :: int where
  "sizeOfAccessibilityFeature = 8"

definition ACCESSIBILITY_FEATURE_IDS :: "(string \<times> int) list" where
  "ACCESSIBILITY_FEATURE_IDS = zip F_NAMES [0, 1, 2, 3, 4, 5, 6, 7]"

definition ACCESSIBILITY_FEATURE_NAMES :: "(int \<times> string) list" where
  "ACCESSIBILITY_FEATURE_NAMES = zip [0, 1, 2, 3, 4, 5, 6, 7] F_NAMES"

definition GetAccessibilityFeatureName :: "int \<Rightarrow> string" where
  "GetAccessibilityFeatureName i = (case map_of ACCESSIBILITY_FEATURE_NAMES i of Some n \<Rightarrow> n | None \<Rightarrow> [])"

definition GetAccessibilityFeatureId :: "string \<Rightarrow> int" where
  "GetAccessibilityFeatureId n = (case map_of ACCESSIBILITY_FEATURE_IDS n of Some i \<Rightarrow> i | None \<Rightarrow> -1)"

section \<open>Statuses\<close>

datatype JsonRpcStatus = SUCCESS | PARSE_ERROR | INVALID_REQUEST | METHOD_NOT_FOUND | INVALID_PARAMS | NOTIFICATION_ERROR | UNKNOWN

fun status_code :: "JsonRpcStatus \<Rightarrow> int" where
  "status_code SUCCESS = 0"
| "status_code PARSE_ERROR = -32700"
| "status_code INVALID_REQUEST = -32600"
| "status_code METHOD_NOT_FOUND = -32601"
| "status_code INVALID_PARAMS = -32602"
| "status_code NOTIFICATION_ERROR = -99999"
| "status_code UNKNOWN = 1"

fun GetErrorMessage :: "JsonRpcStatus \<Rightarrow> string" where
  "GetErrorMessage METHOD_NOT_FOUND = ''Method not found''"
| "GetErrorMessage PARSE_ERROR = ''Parse Error''"
| "GetErrorMessage INVALID_PARAMS = ''Invalid params''"
| "GetErrorMessage INVALID_REQUEST = ''Invalid request''"
| "GetErrorMessage _ = ''Unknown''"

section \<open>Tests of values\<close>

definition HasParam :: "'j jsonlib \<Rightarrow> 'j \<Rightarrow> string \<Rightarrow> value_type \<Rightarrow> bool res" where
  "HasParam J j k ty =
     bindR (or_throw (jv_is_member J j k)) (\<lambda>m.
       if \<not> m then Inr False else bindR (j_member J j k) (\<lambda>v. Inr (jv_type J v = ty)))"

definition HasJsonParam :: "'j jsonlib \<Rightarrow> 'j \<Rightarrow> string \<Rightarrow> bool res" where
  "HasJsonParam J j k =
     bindR (or_throw (jv_is_member J j k)) (\<lambda>m.
       if \<not> m then Inr False else bindR (j_member J j k) (\<lambda>v. Inr (jv_is_object J v)))"

text \<open>The id of a message is a string or an integer.\<close>

definition has_id :: "'j jsonlib \<Rightarrow> 'j \<Rightarrow> bool res" where
  "has_id J obj =
     bindR (HasParam J obj ''id'' stringValue) (\<lambda>a. if a then Inr True else
     bindR (HasParam J obj ''id'' intValue) (\<lambda>a. if a then Inr True else HasParam J obj ''id'' uintValue))"

definition EncodeJsonId :: "'j rpc_env \<Rightarrow> 'j \<Rightarrow> string res" where
  "EncodeJsonId E i =
     (let J = re_json E in
      if jv_type J i = realValue then bindR (or_throw (jc_as_double J i)) (\<lambda>d. Inr (re_text E d))
      else Inr (jv_write_string J i))"

definition DecodeJsonId :: "'j jsonlib \<Rightarrow> string \<Rightarrow> 'j" where
  "DecodeJsonId J i = (case jv_parse_stream J i of None \<Rightarrow> jc_null J | Some j \<Rightarrow> j)"

text \<open>A hash set of methods is a list without duplicates here: its order is not observed.\<close>

fun GetMethodsInJsonArray_loop :: "'j jsonlib \<Rightarrow> nat \<Rightarrow> string list \<Rightarrow> 'j \<Rightarrow> 'j res" where
  "GetMethodsInJsonArray_loop J i [] v = Inr v"
| "GetMethodsInJsonArray_loop J i (m # ms) v =
     bindR (or_throw (jv_put_index J v i (jc_of_string J m))) (GetMethodsInJsonArray_loop J (i + 1) ms)"

definition GetMethodsInJsonArray :: "'j jsonlib \<Rightarrow> string list \<Rightarrow> 'j res" where
  "GetMethodsInJsonArray J ms = GetMethodsInJsonArray_loop J 0 ms (jc_null J)"

fun any_string :: "'j jsonlib \<Rightarrow> string \<Rightarrow> 'j list \<Rightarrow> bool res" where
  "any_string J m [] = Inr False"
| "any_string J m (e # es) = bindR (j_string J e) (\<lambda>s. if s = m then Inr True else any_string J m es)"

definition IsMethodInJsonArray :: "'j jsonlib \<Rightarrow> 'j \<Rightarrow> string \<Rightarrow> bool res" where
  "IsMethodInJsonArray J a m = (if jv_type J a = arrayValue then any_string J m (jc_elems J a) else Inr False)"

section \<open>Messages to the application\<close>

definition CreateFeatureSettingsQuery :: "'j jsonlib \<Rightarrow> string \<Rightarrow> 'j \<Rightarrow> 'j res" where
  "CreateFeatureSettingsQuery J feature value =
     j_object J [(''method'', jc_of_string J MD_AF_FEATURE_SETTINGS_QUERY), (''feature'', jc_of_string J feature), (''value'', value)]"

definition CreateNotifyRequest :: "'j jsonlib \<Rightarrow> 'j \<Rightarrow> 'j res" where
  "CreateNotifyRequest J params =
     j_object J [(''jsonrpc'', jc_of_string J ''2.0''), (''method'', jc_of_string J MD_NOTIFY), (''params'', params)]"

definition CreateIntentResponse :: "'j jsonlib \<Rightarrow> string \<Rightarrow> string \<Rightarrow> 'j \<Rightarrow> 'j res" where
  "CreateIntentResponse J i method params =
     j_object J [(''jsonrpc'', jc_of_string J ''2.0''), (''id'', DecodeJsonId J i), (''params'', params),
       (''method'', jc_of_string J method)]"

definition CreateJsonResponse :: "'j jsonlib \<Rightarrow> string \<Rightarrow> 'j \<Rightarrow> 'j res" where
  "CreateJsonResponse J i result =
     j_object J [(''jsonrpc'', jc_of_string J ''2.0''), (''id'', DecodeJsonId J i), (''result'', result)]"

definition CreateJsonErrorResponse :: "'j jsonlib \<Rightarrow> string \<Rightarrow> 'j \<Rightarrow> 'j res" where
  "CreateJsonErrorResponse J i err =
     j_object J [(''jsonrpc'', jc_of_string J ''2.0''), (''id'', DecodeJsonId J i), (''error'', err)]"

section \<open>Settings\<close>

text \<open>The members of a settings object, in the order in which they are assigned; a setting that is not set is left out.\<close>

definition opt_member :: "bool \<Rightarrow> string \<Rightarrow> 'j \<Rightarrow> (string \<times> 'j) list" where
  "opt_member b k v = (if b then [(k, v)] else [])"

definition clamp :: "int \<Rightarrow> int \<Rightarrow> int \<Rightarrow> int" where
  "clamp lo hi i = min (max i lo) hi"

record subtitle_settings =
  ss_size :: int
  ss_fontFamily :: string
  ss_textColour :: string
  ss_textOpacity :: int
  ss_edgeType :: string
  ss_edgeColour :: string
  ss_backgroundColour :: string
  ss_backgroundOpacity :: int
  ss_windowColour :: string
  ss_windowOpacity :: int
  ss_language :: string

definition QuerySettingsSubtitles :: "'j jsonlib \<Rightarrow> bool \<Rightarrow> subtitle_settings \<Rightarrow> (string \<times> 'j) list" where
  "QuerySettingsSubtitles J enabled s =
     (''enabled'', jv_of_bool J enabled) #
     (if \<not> enabled then [] else
        opt_member (ss_size s \<noteq> OPTIONAL_INT_NOT_SET) ''size'' (jv_of_int J (clamp 25 300 (ss_size s)))
      @ opt_member (ss_fontFamily s \<noteq> []) ''fontFamily'' (jc_of_string J (ss_fontFamily s))
      @ opt_member (ss_textColour s \<noteq> []) ''textColour'' (jc_of_string J (ss_textColour s))
      @ opt_member (ss_textOpacity s \<noteq> OPTIONAL_INT_NOT_SET) ''textOpacity'' (jv_of_int J (clamp 0 100 (ss_size s)))
      @ opt_member (ss_edgeType s \<in> {''outline'', ''dropShadow'', ''raised'', ''depressed''}) ''edgeType'' (jc_of_string J (ss_edgeType s))
      @ opt_member (ss_edgeColour s \<noteq> []) ''edgeColour'' (jc_of_string J (ss_edgeColour s))
      @ opt_member (ss_backgroundColour s \<noteq> []) ''backgroundColour'' (jc_of_string J (ss_backgroundColour s))
      @ opt_member (ss_backgroundOpacity s \<noteq> OPTIONAL_INT_NOT_SET) ''backgroundOpacity'' (jv_of_int J (clamp 0 100 (ss_backgroundOpacity s)))
      @ opt_member (ss_windowColour s \<noteq> []) ''windowColour'' (jc_of_string J (ss_windowColour s))
      @ opt_member (ss_windowOpacity s \<noteq> OPTIONAL_INT_NOT_SET) ''windowOpacity'' (jv_of_int J (clamp 0 100 (ss_windowOpacity s)))
      @ opt_member (ss_language s \<noteq> []) ''language'' (jc_of_string J (ss_language s)))"

definition QuerySettingsDialogueEnhancement :: "'j jsonlib \<Rightarrow> int \<Rightarrow> int \<Rightarrow> int \<Rightarrow> int \<Rightarrow> (string \<times> 'j) list res" where
  "QuerySettingsDialogueEnhancement J gainPreference gain limitMin limitMax =
     bindR (j_object J [(''min'', jv_of_int J limitMin), (''max'', jv_of_int J limitMax)]) (\<lambda>limit.
       Inr [(''dialogueEnhancementGainPreference'', jv_of_int J gainPreference), (''dialogueEnhancementGain'', jv_of_int J gain),
            (''dialogueEnhancementLimit'', limit)])"

definition QuerySettingsUIMagnifier :: "'j jsonlib \<Rightarrow> bool \<Rightarrow> string \<Rightarrow> (string \<times> 'j) list" where
  "QuerySettingsUIMagnifier J enabled magType =
     (''enabled'', jv_of_bool J enabled) #
     (if \<not> enabled then []
      else [(''magType'', jc_of_string J
         (if magType \<in> {''textMagnification'', ''magnifierGlass'', ''screenZoom'', ''largeLayout'', ''other''} then magType else ''other''))])"

definition QuerySettingsHighContrastUI :: "'j jsonlib \<Rightarrow> bool \<Rightarrow> string \<Rightarrow> (string \<times> 'j) list" where
  "QuerySettingsHighContrastUI J enabled hcType =
     (''enabled'', jv_of_bool J enabled) #
     (if hcType \<in> {''monochrome'', ''other''} then [(''hcType'', jc_of_string J hcType)]
      else opt_member enabled ''hcType'' (jc_of_string J ''other''))"

definition QuerySettingsScreenReader :: "'j jsonlib \<Rightarrow> bool \<Rightarrow> int \<Rightarrow> string \<Rightarrow> string \<Rightarrow> (string \<times> 'j) list" where
  "QuerySettingsScreenReader J enabled speed voice language =
     (''enabled'', jv_of_bool J enabled) #
     opt_member (speed \<noteq> OPTIONAL_INT_NOT_SET) ''speed'' (jv_of_int J (clamp 10 1000 speed))
     @ (if voice \<in> {''default'', ''female'', ''male''} then [(''voice'', jc_of_string J voice)]
        else opt_member enabled ''voice'' (jc_of_string J ''default''))
     @ opt_member (language \<noteq> []) ''language'' (jc_of_string J language)"

definition QuerySettingsResponseToUserAction :: "'j jsonlib \<Rightarrow> bool \<Rightarrow> string \<Rightarrow> (string \<times> 'j) list" where
  "QuerySettingsResponseToUserAction J enabled ty =
     (''enabled'', jv_of_bool J enabled) #
     (if ty \<in> {''audio'', ''visual'', ''haptic'', ''other'', ''none''} then [(''type'', jc_of_string J ty)]
      else opt_member enabled ''type'' (jc_of_string J ''other''))"

definition QuerySettingsAudioDescription :: "'j jsonlib \<Rightarrow> bool \<Rightarrow> int \<Rightarrow> int \<Rightarrow> (string \<times> 'j) list" where
  "QuerySettingsAudioDescription J enabled gainPreference panAzimuthPreference =
     (''enabled'', jv_of_bool J enabled) #
     (if \<not> enabled then [] else
        opt_member (gainPreference \<noteq> OPTIONAL_INT_NOT_SET) ''gainPreference'' (jv_of_int J gainPreference)
      @ opt_member (panAzimuthPreference \<noteq> OPTIONAL_INT_NOT_SET) ''panAzimuthPreference'' (jv_of_int J (clamp (-180) 180 panAzimuthPreference)))"

text \<open>The opacity of the text is the clamped size.\<close>

lemma textOpacity_from_size:
  "(''textOpacity'', v) \<in> set (QuerySettingsSubtitles J enabled s) \<Longrightarrow> v = jv_of_int J (clamp 0 100 (ss_size s))"
  by (auto simp: QuerySettingsSubtitles_def opt_member_def split: if_splits)

end
