(* ===== verification/JsonRpc.thy ===== *)
theory JsonRpc
  imports JsonRpcTypes App2App
begin

text \<open>
  The JSON-RPC service of \<open>network_services/json_rpc/JsonRpcService.cpp\<close> on the callbacks of
  \<open>websocket_service.cpp\<close>: the data of its connections, the requests and notifications of applications, and
  the calls of the platform that answer requests, notify subscribers and send intents. The callbacks run in
  the thread of libwebsockets with the recursive mutex of the connections held; the calls of the platform run
  in threads of their own and take the mutex for each access. Calls of the session callback are recorded.
  Starting and stopping is that of the websocket service in \<open>App2App\<close>.
\<close>

section \<open>State\<close>

record ConnectionData =
  cd_actionPause :: bool
  cd_actionPlay :: bool
  cd_actionFastForward :: bool
  cd_actionFastReverse :: bool
  cd_actionStop :: bool
  cd_actionSeekContent :: bool
  cd_actionSeekRelative :: bool
  cd_actionSeekLive :: bool
  cd_actionSeekWallclock :: bool
  cd_mediaId :: string
  cd_title :: string
  cd_secondTitle :: string
  cd_synopsis :: string
  cd_biasToSystemTime :: int
  cd_startTime :: int
  cd_endTime :: int
  cd_state :: string
  cd_appToTerminal :: "string list"
  cd_terminalToApp :: "string list"
  cd_subscribed :: "string list"
  cd_intentIdCount :: int
  cd_voiceReady :: bool

text \<open>The counter of intents is not initialised by the constructor; \<open>InitialConnectionData\<close> sets it at once.\<close>

definition ConnectionData_new :: ConnectionData where
  "ConnectionData_new =
     \<lparr>cd_actionPause = False, cd_actionPlay = False, cd_actionFastForward = False, cd_actionFastReverse = False,
      cd_actionStop = False, cd_actionSeekContent = False, cd_actionSeekRelative = False, cd_actionSeekLive = False,
      cd_actionSeekWallclock = False, cd_mediaId = [], cd_title = [], cd_secondTitle = [], cd_synopsis = [],
      cd_biasToSystemTime = 0, cd_startTime = -1, cd_endTime = -1, cd_state = [], cd_appToTerminal = [],
      cd_terminalToApp = [], cd_subscribed = [], cd_intentIdCount = 0, cd_voiceReady = False\<rparr>"

datatype ConnectionDataType =
    ActionPause | ActionPlay | ActionFastForward | ActionFastReverse | ActionStop | ActionSeekContent
  | ActionSeekRelative | ActionSeekLive | ActionSeekWallclock | MediaId | Title | SecondTitle | Synopsis
  | BiasToSystemTime | StartTime | EndTime | State | NegotiateMethodsAppToTerminal | NegotiateMethodsTerminalToApp
  | SubscribedMethods | UnsubscribedMethods | IntentIdCount | VoiceReady

datatype session_call =
    CbNegotiateMethods
  | CbSubscribe "bool list"
  | CbUnsubscribe "bool list"
  | CbDialogueEnhancementOverride int string int
  | CbTriggerResponseToUserAction int string string
  | CbFeatureSupportInfo int string int
  | CbFeatureSettingsQuery int string int
  | CbFeatureSuppress int string int
  | CbVoiceReady bool
  | CbStateMedia string
  | CbRespondMessage string
  | CbIntentConfirm int string string
  | CbError int string
  | CbErrorWith int string string string

datatype rpc_thread = Looper | Platform nat

record ws_connection = connection +
  text_buffer :: string

text \<open>The mutex is free, or held by a thread that has locked it the given number of times beyond the first.
  \<open>rpc_sent\<close> lists the messages that were queued on a connection.\<close>

record json_rpc =
  rpc_endpoint :: string
  rpc_connections :: "(nat \<times> ws_connection) list"
  rpc_next_id :: int
  rpc_data :: "(int \<times> ConnectionData) list"
  rpc_mutex :: "(rpc_thread \<times> nat) option"
  rpc_calls :: "session_call list"
  rpc_sent :: "(int \<times> string) list"

definition rpc_lock :: "rpc_thread \<Rightarrow> json_rpc \<Rightarrow> json_rpc res" where
  "rpc_lock t st =
     (case rpc_mutex st of
        None \<Rightarrow> Inr (st\<lparr>rpc_mutex := Some (t, 0)\<rparr>)
      | Some (u, n) \<Rightarrow> if u = t then Inr (st\<lparr>rpc_mutex := Some (t, n + 1)\<rparr>) else Inl Blocked)"

definition rpc_unlock :: "rpc_thread \<Rightarrow> json_rpc \<Rightarrow> json_rpc res" where
  "rpc_unlock t st =
     (case rpc_mutex st of
        None \<Rightarrow> Inl BadUnlock
      | Some (u, n) \<Rightarrow> if u \<noteq> t then Inl BadUnlock
                      else Inr (st\<lparr>rpc_mutex := (if n = 0 then None else Some (t, n - 1))\<rparr>))"

definition rpc_call :: "session_call \<Rightarrow> json_rpc \<Rightarrow> json_rpc" where
  "rpc_call c st = st\<lparr>rpc_calls := rpc_calls st @ [c]\<rparr>"

definition supported_app_to_terminal :: "string list" where
  "supported_app_to_terminal =
     [MD_NEGOTIATE_METHODS, MD_SUBSCRIBE, MD_UNSUBSCRIBE, MD_AF_FEATURE_SUPPORT_INFO, MD_AF_FEATURE_SETTINGS_QUERY,
      MD_AF_FEATURE_SUPPRESS, MD_AF_DIALOGUE_ENHANCEMENT_OVERRIDE, MD_AF_TRIGGER_RESPONSE_TO_USER_ACTION, MD_VOICE_READY,
      MD_STATE_MEDIA]"

definition intent_methods :: "string list" where
  "intent_methods =
     [MD_INTENT_MEDIA_PAUSE, MD_INTENT_MEDIA_PLAY, MD_INTENT_MEDIA_FAST_FORWARD, MD_INTENT_MEDIA_FAST_REVERSE,
      MD_INTENT_MEDIA_STOP, MD_INTENT_MEDIA_SEEK_CONTENT, MD_INTENT_MEDIA_SEEK_RELATIVE, MD_INTENT_MEDIA_SEEK_LIVE,
      MD_INTENT_MEDIA_SEEK_WALLCLOCK, MD_INTENT_SEARCH, MD_INTENT_DISPLAY, MD_INTENT_PLAYBACK]"

definition supported_terminal_to_app :: "string list" where
  "supported_terminal_to_app = MD_NOTIFY # intent_methods"

section \<open>The data of the connections\<close>

definition GetAllConnectionIds :: "'j rpc_env \<Rightarrow> rpc_thread \<Rightarrow> json_rpc \<Rightarrow> (int list \<times> json_rpc) res" where
  "GetAllConnectionIds E t st =
     bindR (rpc_lock t st) (\<lambda>st.
     let ids = re_order E (map fst (rpc_data st)) in
     bindR (rpc_unlock t st) (\<lambda>st. Inr (ids, st)))"

definition InitialConnectionData :: "rpc_thread \<Rightarrow> int \<Rightarrow> json_rpc \<Rightarrow> json_rpc res" where
  "InitialConnectionData t cid st =
     bindR (rpc_lock t st) (\<lambda>st.
     let cd = (case om_get (rpc_data st) cid of None \<Rightarrow> ConnectionData_new | Some cd \<Rightarrow> cd);
         cd = cd\<lparr>cd_intentIdCount := 0, cd_appToTerminal := List.insert MD_NEGOTIATE_METHODS (cd_appToTerminal cd)\<rparr>
     in rpc_unlock t (st\<lparr>rpc_data := om_ins cid cd (rpc_data st)\<rparr>))"

definition set_field :: "'j jsonlib \<Rightarrow> ConnectionDataType \<Rightarrow> 'j \<Rightarrow> ConnectionData \<Rightarrow> ConnectionData res" where
  "set_field J ty v cd =
     (case ty of
        NegotiateMethodsAppToTerminal \<Rightarrow>
          bindR (j_string J v) (\<lambda>s. Inr (cd\<lparr>cd_appToTerminal := List.insert s (cd_appToTerminal cd)\<rparr>))
      | NegotiateMethodsTerminalToApp \<Rightarrow>
          bindR (j_string J v) (\<lambda>s. Inr (cd\<lparr>cd_terminalToApp := List.insert s (cd_terminalToApp cd)\<rparr>))
      | SubscribedMethods \<Rightarrow> bindR (j_string J v) (\<lambda>s. Inr (cd\<lparr>cd_subscribed := List.insert s (cd_subscribed cd)\<rparr>))
      | UnsubscribedMethods \<Rightarrow> bindR (j_string J v) (\<lambda>s. Inr (cd\<lparr>cd_subscribed := removeAll s (cd_subscribed cd)\<rparr>))
      | IntentIdCount \<Rightarrow> bindR (or_throw (jv_as_int J v)) (\<lambda>i. Inr (cd\<lparr>cd_intentIdCount := i\<rparr>))
      | VoiceReady \<Rightarrow> bindR (or_throw (jv_as_bool J v)) (\<lambda>b. Inr (cd\<lparr>cd_voiceReady := b\<rparr>))
      | _ \<Rightarrow> Inr cd)"

text \<open>For an unknown connection both setters return with the mutex locked.\<close>

definition SetConnectionData :: "'j jsonlib \<Rightarrow> rpc_thread \<Rightarrow> int \<Rightarrow> ConnectionDataType \<Rightarrow> 'j \<Rightarrow> json_rpc \<Rightarrow> json_rpc res" where
  "SetConnectionData J t cid ty v st =
     bindR (rpc_lock t st) (\<lambda>st.
       case om_get (rpc_data st) cid of
         None \<Rightarrow> Inr st
       | Some cd \<Rightarrow> bindR (set_field J ty v cd) (\<lambda>cd. rpc_unlock t (st\<lparr>rpc_data := om_ins cid cd (rpc_data st)\<rparr>)))"

definition copy_media :: "ConnectionData \<Rightarrow> ConnectionData \<Rightarrow> ConnectionData" where
  "copy_media m cd = cd\<lparr>cd_state := cd_state m, cd_actionPause := cd_actionPause m, cd_actionPlay := cd_actionPlay m,
     cd_actionFastForward := cd_actionFastForward m, cd_actionFastReverse := cd_actionFastReverse m,
     cd_actionStop := cd_actionStop m, cd_actionSeekContent := cd_actionSeekContent m,
     cd_actionSeekRelative := cd_actionSeekRelative m, cd_actionSeekLive := cd_actionSeekLive m,
     cd_actionSeekWallclock := cd_actionSeekWallclock m, cd_biasToSystemTime := cd_biasToSystemTime m,
     cd_startTime := cd_startTime m, cd_endTime := cd_endTime m, cd_title := cd_title m, cd_mediaId := cd_mediaId m,
     cd_secondTitle := cd_secondTitle m, cd_synopsis := cd_synopsis m\<rparr>"

definition SetStateMediaToConnectionData :: "rpc_thread \<Rightarrow> int \<Rightarrow> ConnectionData \<Rightarrow> json_rpc \<Rightarrow> json_rpc res" where
  "SetStateMediaToConnectionData t cid m st =
     bindR (rpc_lock t st) (\<lambda>st.
       case om_get (rpc_data st) cid of
         None \<Rightarrow> Inr st
       | Some cd \<Rightarrow> rpc_unlock t (st\<lparr>rpc_data := om_ins cid (copy_media m cd) (rpc_data st)\<rparr>))"

definition get_field :: "'j jsonlib \<Rightarrow> ConnectionDataType \<Rightarrow> ConnectionData \<Rightarrow> 'j res" where
  "get_field J ty cd =
     (case ty of
        NegotiateMethodsAppToTerminal \<Rightarrow> GetMethodsInJsonArray J (cd_appToTerminal cd)
      | NegotiateMethodsTerminalToApp \<Rightarrow> GetMethodsInJsonArray J (cd_terminalToApp cd)
      | SubscribedMethods \<Rightarrow> GetMethodsInJsonArray J (cd_subscribed cd)
      | UnsubscribedMethods \<Rightarrow> Inr (jc_null J)
      | IntentIdCount \<Rightarrow> Inr (jv_of_int J (cd_intentIdCount cd))
      | VoiceReady \<Rightarrow> Inr (jv_of_bool J (cd_voiceReady cd))
      | State \<Rightarrow> Inr (jc_of_string J (cd_state cd))
      | ActionPause \<Rightarrow> Inr (jv_of_bool J (cd_actionPause cd))
      | ActionPlay \<Rightarrow> Inr (jv_of_bool J (cd_actionPlay cd))
      | ActionFastForward \<Rightarrow> Inr (jv_of_bool J (cd_actionFastForward cd))
      | ActionFastReverse \<Rightarrow> Inr (jv_of_bool J (cd_actionFastReverse cd))
      | ActionStop \<Rightarrow> Inr (jv_of_bool J (cd_actionStop cd))
      | ActionSeekContent \<Rightarrow> Inr (jv_of_bool J (cd_actionSeekContent cd))
      | ActionSeekRelative \<Rightarrow> Inr (jv_of_bool J (cd_actionSeekRelative cd))
      | ActionSeekLive \<Rightarrow> Inr (jv_of_bool J (cd_actionSeekLive cd))
      | ActionSeekWallclock \<Rightarrow> Inr (jv_of_bool J (cd_actionSeekWallclock cd))
      | MediaId \<Rightarrow> Inr (jc_of_string J (cd_mediaId cd))
      | Title \<Rightarrow> Inr (jc_of_string J (cd_title cd))
      | SecondTitle \<Rightarrow> Inr (jc_of_string J (cd_secondTitle cd))
      | Synopsis \<Rightarrow> Inr (jc_of_string J (cd_synopsis cd))
      | BiasToSystemTime \<Rightarrow> Inr (jv_of_int J (cd_biasToSystemTime cd))
      | StartTime \<Rightarrow> Inr (jv_of_int J (cd_startTime cd))
      | EndTime \<Rightarrow> Inr (jv_of_int J (cd_endTime cd)))"

definition GetConnectionData :: "'j jsonlib \<Rightarrow> rpc_thread \<Rightarrow> int \<Rightarrow> ConnectionDataType \<Rightarrow> json_rpc \<Rightarrow> ('j \<times> json_rpc) res" where
  "GetConnectionData J t cid ty st =
     bindR (rpc_lock t st) (\<lambda>st.
     bindR (case om_get (rpc_data st) cid of None \<Rightarrow> Inr (jc_null J) | Some cd \<Rightarrow> get_field J ty cd) (\<lambda>v.
     bindR (rpc_unlock t st) (\<lambda>st. Inr (v, st))))"

fun get_fields :: "'j jsonlib \<Rightarrow> rpc_thread \<Rightarrow> int \<Rightarrow> ConnectionDataType list \<Rightarrow> json_rpc \<Rightarrow> ('j list \<times> json_rpc) res" where
  "get_fields J t cid [] st = Inr ([], st)"
| "get_fields J t cid (ty # tys) st =
     bindR (GetConnectionData J t cid ty st) (\<lambda>(v, st). bindR (get_fields J t cid tys st) (\<lambda>(vs, st). Inr (v # vs, st)))"

section \<open>Sending\<close>

definition GetConnection :: "int \<Rightarrow> (nat \<times> ws_connection) list \<Rightarrow> (nat \<times> ws_connection) option" where
  "GetConnection cid cs = find (\<lambda>(u, c). conn_id c = cid) cs"

definition SendJsonMessageToClient :: "'j jsonlib \<Rightarrow> rpc_thread \<Rightarrow> int \<Rightarrow> 'j \<Rightarrow> json_rpc \<Rightarrow> json_rpc res" where
  "SendJsonMessageToClient J t cid response st =
     (let message = jc_write J response in
      bindR (rpc_lock t st) (\<lambda>st.
        rpc_unlock t (case GetConnection cid (rpc_connections st) of
          None \<Rightarrow> st
        | Some (u, c) \<Rightarrow>
            st\<lparr>rpc_connections := om_ins u (c\<lparr>write_queue := write_queue c @ [mk_fragment message True True False]\<rparr>) (rpc_connections st),
               rpc_sent := rpc_sent st @ [(cid, message)]\<rparr>)))"

definition respond :: "'j jsonlib \<Rightarrow> rpc_thread \<Rightarrow> int \<Rightarrow> string \<Rightarrow> (string \<times> 'j) list \<Rightarrow> json_rpc \<Rightarrow> json_rpc res" where
  "respond J t cid i ms st =
     bindR (j_object J ms) (\<lambda>result.
     bindR (CreateJsonResponse J i result) (\<lambda>response. SendJsonMessageToClient J t cid response st))"

definition RespondError :: "'j jsonlib \<Rightarrow> rpc_thread \<Rightarrow> int \<Rightarrow> string \<Rightarrow> int \<Rightarrow> string \<Rightarrow> json_rpc \<Rightarrow> json_rpc res" where
  "RespondError J t cid i code message st =
     bindR (j_object J [(''code'', jv_of_int J code), (''message'', jc_of_string J message)]) (\<lambda>err.
     bindR (CreateJsonErrorResponse J i err) (\<lambda>response. SendJsonMessageToClient J t cid response st))"

definition RespondErrorData :: "'j jsonlib \<Rightarrow> rpc_thread \<Rightarrow> int \<Rightarrow> string \<Rightarrow> int \<Rightarrow> string \<Rightarrow> string \<Rightarrow> json_rpc \<Rightarrow> json_rpc res" where
  "RespondErrorData J t cid i code message data st =
     bindR (j_object J ([(''code'', jv_of_int J code), (''message'', jc_of_string J message)]
       @ opt_member (data \<noteq> []) ''data'' (jc_of_string J data))) (\<lambda>err.
     bindR (CreateJsonErrorResponse J i err) (\<lambda>response. SendJsonMessageToClient J t cid response st))"

definition RespondNegotiateMethods :: "'j jsonlib \<Rightarrow> rpc_thread \<Rightarrow> int \<Rightarrow> string \<Rightarrow> 'j \<Rightarrow> 'j \<Rightarrow> json_rpc \<Rightarrow> json_rpc res" where
  "RespondNegotiateMethods J t cid i terminalToApp appToTerminal =
     respond J t cid i [(''method'', jc_of_string J MD_NEGOTIATE_METHODS), (''terminalToApp'', terminalToApp), (''appToTerminal'', appToTerminal)]"

definition RespondSubscribe :: "'j jsonlib \<Rightarrow> rpc_thread \<Rightarrow> int \<Rightarrow> string \<Rightarrow> 'j \<Rightarrow> json_rpc \<Rightarrow> json_rpc res" where
  "RespondSubscribe J t cid i msgTypeList = respond J t cid i [(''msgType'', msgTypeList)]"

definition RespondUnsubscribe :: "'j jsonlib \<Rightarrow> rpc_thread \<Rightarrow> int \<Rightarrow> string \<Rightarrow> 'j \<Rightarrow> json_rpc \<Rightarrow> json_rpc res" where
  "RespondUnsubscribe J t cid i msgTypeList = respond J t cid i [(''msgType'', msgTypeList)]"

end
