(* ===== verification/JsonRpcRequests.thy ===== *)
theory JsonRpcRequests
  imports JsonRpc
begin

text \<open>
  What an application sends to the JSON-RPC service: the handlers of its methods, the dispatch of a message and
  the callbacks of libwebsockets, from \<open>OnConnection\<close> to \<open>NotifyStateMedia\<close> and \<open>ReceiveError\<close> in
  \<open>JsonRpcService.cpp\<close>. A handler returns a status with the state.
\<close>

type_synonym status_res = "(JsonRpcStatus \<times> json_rpc) res"

definition reject :: "JsonRpcStatus \<Rightarrow> json_rpc \<Rightarrow> status_res" where
  "reject s st = Inr (s, st)"

definition succeed :: "session_call \<Rightarrow> json_rpc \<Rightarrow> status_res" where
  "succeed c st = Inr (SUCCESS, rpc_call c st)"

text \<open>The start of every request: an id, then \<open>params\<close>; what comes next is given both.\<close>

definition with_id :: "'j rpc_env \<Rightarrow> 'j \<Rightarrow> json_rpc \<Rightarrow> (string \<Rightarrow> status_res) \<Rightarrow> status_res" where
  "with_id E obj st k =
     (let J = re_json E in
      bindR (has_id J obj) (\<lambda>a. if \<not> a then reject INVALID_PARAMS st else
      bindR (j_member J obj ''id'') (\<lambda>v. bindR (EncodeJsonId E v) k)))"

definition with_param :: "'j rpc_env \<Rightarrow> 'j \<Rightarrow> string \<Rightarrow> value_type \<Rightarrow> json_rpc \<Rightarrow> (string \<Rightarrow> 'j \<Rightarrow> status_res) \<Rightarrow> status_res" where
  "with_param E obj name ty st k =
     (let J = re_json E in
      with_id E obj st (\<lambda>i.
      bindR (HasJsonParam J obj ''params'') (\<lambda>a. if \<not> a then reject INVALID_PARAMS st else
      bindR (j_member J obj ''params'') (\<lambda>params.
      bindR (HasParam J params name ty) (\<lambda>a. if \<not> a then reject INVALID_PARAMS st else
      bindR (j_member J params name) (k i))))))"

section \<open>Negotiation and subscription\<close>

fun filter_loop :: "'j jsonlib \<Rightarrow> int \<Rightarrow> bool \<Rightarrow> 'j list \<Rightarrow> 'j \<Rightarrow> json_rpc \<Rightarrow> ('j \<times> json_rpc) res" where
  "filter_loop J cid app [] new st = Inr (new, st)"
| "filter_loop J cid app (m # ms) new st =
     bindR (j_string J m) (\<lambda>s.
     if s \<in> set (if app then supported_app_to_terminal else supported_terminal_to_app) then
       bindR (SetConnectionData J Looper cid (if app then NegotiateMethodsAppToTerminal else NegotiateMethodsTerminalToApp)
                (jc_of_string J s) st) (\<lambda>st.
       bindR (or_throw (jc_append J new m)) (\<lambda>new. filter_loop J cid app ms new st))
     else filter_loop J cid app ms new st)"

definition FilterMethods :: "'j jsonlib \<Rightarrow> int \<Rightarrow> 'j \<Rightarrow> bool \<Rightarrow> json_rpc \<Rightarrow> ('j \<times> json_rpc) res" where
  "FilterMethods J cid methodsList isAppToTerminal st =
     filter_loop J cid isAppToTerminal (jc_elems J methodsList) (jc_null J) st"

definition RequestNegotiateMethods :: "'j rpc_env \<Rightarrow> int \<Rightarrow> 'j \<Rightarrow> json_rpc \<Rightarrow> status_res" where
  "RequestNegotiateMethods E cid obj st =
     (let J = re_json E in
      with_param E obj ''terminalToApp'' arrayValue st (\<lambda>i terminalToApp.
      bindR (j_member J obj ''params'') (\<lambda>params.
      bindR (HasParam J params ''appToTerminal'' arrayValue) (\<lambda>a. if \<not> a then reject INVALID_PARAMS st else
      bindR (j_member J params ''appToTerminal'') (\<lambda>appToTerminal.
      bindR (FilterMethods J cid terminalToApp False st) (\<lambda>(filteredTerminalToApp, st).
      bindR (FilterMethods J cid appToTerminal True st) (\<lambda>(filteredAppToTerminal, st).
      bindR (RespondNegotiateMethods J Looper cid i filteredTerminalToApp filteredAppToTerminal (rpc_call CbNegotiateMethods st)) (\<lambda>st.
      Inr (SUCCESS, st)))))))))"

text \<open>The feature of a message type: its last ten characters are removed; of a shorter one, none.\<close>

definition feature_of :: "string \<Rightarrow> string" where
  "feature_of msg = (if length msg < 10 then msg else take (length msg - 10) msg)"

text \<open>The loop over the message types ends at the first that is unknown; those before it have been stored.\<close>

fun subscribe_loop :: "'j jsonlib \<Rightarrow> int \<Rightarrow> ConnectionDataType \<Rightarrow> 'j list \<Rightarrow> bool list \<Rightarrow> json_rpc \<Rightarrow> (bool list option \<times> json_rpc) res" where
  "subscribe_loop J cid ty [] flags st = Inr (Some flags, st)"
| "subscribe_loop J cid ty (m # ms) flags st =
     bindR (j_string J m) (\<lambda>msg.
     let featureId = GetAccessibilityFeatureId (feature_of msg) in
     if -1 < featureId \<and> featureId < sizeOfAccessibilityFeature then
       bindR (SetConnectionData J Looper cid ty (jc_of_string J msg) st) (\<lambda>st.
         subscribe_loop J cid ty ms (flags[nat featureId := True]) st)
     else Inr (None, st))"

definition RequestSubscribe :: "'j rpc_env \<Rightarrow> int \<Rightarrow> 'j \<Rightarrow> json_rpc \<Rightarrow> status_res" where
  "RequestSubscribe E cid obj st =
     (let J = re_json E in
      with_param E obj ''msgType'' arrayValue st (\<lambda>i msgType.
      bindR (subscribe_loop J cid SubscribedMethods (jc_elems J msgType) (replicate (nat sizeOfAccessibilityFeature) False) st) (\<lambda>(flags, st).
      case flags of
        None \<Rightarrow> reject INVALID_PARAMS st
      | Some flags \<Rightarrow> bindR (RespondSubscribe J Looper cid i msgType (rpc_call (CbSubscribe flags) st)) (\<lambda>st. Inr (SUCCESS, st)))))"

definition RequestUnsubscribe :: "'j rpc_env \<Rightarrow> int \<Rightarrow> 'j \<Rightarrow> json_rpc \<Rightarrow> status_res" where
  "RequestUnsubscribe E cid obj st =
     (let J = re_json E in
      with_param E obj ''msgType'' arrayValue st (\<lambda>i msgType.
      bindR (subscribe_loop J cid UnsubscribedMethods (jc_elems J msgType) (replicate (nat sizeOfAccessibilityFeature) False) st) (\<lambda>(flags, st).
      case flags of
        None \<Rightarrow> reject INVALID_PARAMS st
      | Some flags \<Rightarrow> bindR (RespondUnsubscribe J Looper cid i msgType (rpc_call (CbUnsubscribe flags) st)) (\<lambda>st. Inr (SUCCESS, st)))))"

section \<open>Accessibility\<close>

definition feature_request :: "'j rpc_env \<Rightarrow> 'j \<Rightarrow> (string \<Rightarrow> int \<Rightarrow> session_call) \<Rightarrow> json_rpc \<Rightarrow> status_res" where
  "feature_request E obj cb st =
     with_param E obj ''feature'' stringValue st (\<lambda>i v.
     bindR (j_string (re_json E) v) (\<lambda>feature.
     if GetAccessibilityFeatureId feature = -1 then reject INVALID_PARAMS st
     else succeed (cb i (GetAccessibilityFeatureId feature)) st))"

definition RequestFeatureSupportInfo :: "'j rpc_env \<Rightarrow> int \<Rightarrow> 'j \<Rightarrow> json_rpc \<Rightarrow> status_res" where
  "RequestFeatureSupportInfo E cid obj = feature_request E obj (CbFeatureSupportInfo cid)"

definition RequestFeatureSettingsQuery :: "'j rpc_env \<Rightarrow> int \<Rightarrow> 'j \<Rightarrow> json_rpc \<Rightarrow> status_res" where
  "RequestFeatureSettingsQuery E cid obj = feature_request E obj (CbFeatureSettingsQuery cid)"

definition RequestFeatureSuppress :: "'j rpc_env \<Rightarrow> int \<Rightarrow> 'j \<Rightarrow> json_rpc \<Rightarrow> status_res" where
  "RequestFeatureSuppress E cid obj = feature_request E obj (CbFeatureSuppress cid)"

definition RequestDialogueEnhancementOverride :: "'j rpc_env \<Rightarrow> int \<Rightarrow> 'j \<Rightarrow> json_rpc \<Rightarrow> status_res" where
  "RequestDialogueEnhancementOverride E cid obj st =
     (let J = re_json E in
      with_id E obj st (\<lambda>i.
      bindR (HasJsonParam J obj ''params'') (\<lambda>a.
      if \<not> a then succeed (CbDialogueEnhancementOverride cid i OPTIONAL_INT_NOT_SET) st
      else
        bindR (j_member J obj ''params'') (\<lambda>params.
        bindR (HasParam J params ''dialogueEnhancementGain'' intValue) (\<lambda>a.
        if a then
          bindR (j_member J params ''dialogueEnhancementGain'') (\<lambda>v.
          bindR (or_throw (jv_as_int J v)) (\<lambda>gain. succeed (CbDialogueEnhancementOverride cid i gain) st))
        else
          bindR (RespondError J Looper cid i (-24) ''Dialogue Enhancement override failed'' st) (\<lambda>st.
          reject NOTIFICATION_ERROR st))))))"

definition RequestTriggerResponseToUserAction :: "'j rpc_env \<Rightarrow> int \<Rightarrow> 'j \<Rightarrow> json_rpc \<Rightarrow> status_res" where
  "RequestTriggerResponseToUserAction E cid obj st =
     with_param E obj ''magnitude'' stringValue st (\<lambda>i v.
     bindR (j_string (re_json E) v) (\<lambda>magnitude.
     if magnitude \<noteq> ''triggerPrimary'' \<and> magnitude \<noteq> ''triggerSecondary'' \<and> magnitude \<noteq> ''triggerException'' then
       reject INVALID_PARAMS st
     else succeed (CbTriggerResponseToUserAction cid i magnitude) st))"

definition NotifyVoiceReady :: "'j rpc_env \<Rightarrow> int \<Rightarrow> 'j \<Rightarrow> json_rpc \<Rightarrow> status_res" where
  "NotifyVoiceReady E cid obj st =
     (let J = re_json E in
      bindR (HasJsonParam J obj ''params'') (\<lambda>a. if \<not> a then reject NOTIFICATION_ERROR st else
      bindR (j_member J obj ''params'') (\<lambda>params.
      bindR (HasParam J params ''ready'' booleanValue) (\<lambda>a. if \<not> a then reject NOTIFICATION_ERROR st else
      bindR (j_member J params ''ready'') (\<lambda>v.
      bindR (or_throw (jv_as_bool J v)) (\<lambda>voiceReady.
      bindR (SetConnectionData J Looper cid VoiceReady (jv_of_bool J voiceReady) st) (\<lambda>st.
      succeed (CbVoiceReady voiceReady) st)))))))"

section \<open>The state of the media\<close>

text \<open>A boolean member that is present and true, and a string member or what the variable held before.\<close>

definition is_true :: "'j jsonlib \<Rightarrow> 'j \<Rightarrow> string \<Rightarrow> bool res" where
  "is_true J j k =
     bindR (HasParam J j k booleanValue) (\<lambda>a. if \<not> a then Inr False else
     bindR (j_member J j k) (\<lambda>v. Inr (jc_eq J v (jv_of_bool J True))))"

definition string_or_empty :: "'j jsonlib \<Rightarrow> 'j \<Rightarrow> string \<Rightarrow> string res" where
  "string_or_empty J j k =
     bindR (HasParam J j k stringValue) (\<lambda>a. if \<not> a then Inr [] else
     bindR (j_member J j k) (j_string J))"

definition media_actions :: "'j jsonlib \<Rightarrow> 'j \<Rightarrow> ConnectionData \<Rightarrow> ConnectionData res" where
  "media_actions J actions m =
     bindR (is_true J actions ''pause'') (\<lambda>pause.
     bindR (is_true J actions ''play'') (\<lambda>play.
     bindR (is_true J actions ''fast-forward'') (\<lambda>ff.
     bindR (is_true J actions ''fast-reverse'') (\<lambda>fr.
     bindR (is_true J actions ''stop'') (\<lambda>stop.
     bindR (is_true J actions ''seek-content'') (\<lambda>sc.
     bindR (is_true J actions ''seek-relative'') (\<lambda>sr.
     bindR (is_true J actions ''seek-live'') (\<lambda>sl.
     bindR (is_true J actions ''seek-wallclock'') (\<lambda>sw.
     Inr (m\<lparr>cd_actionPause := pause, cd_actionPlay := play, cd_actionFastForward := ff, cd_actionFastReverse := fr,
            cd_actionStop := stop, cd_actionSeekContent := sc, cd_actionSeekRelative := sr, cd_actionSeekLive := sl,
            cd_actionSeekWallclock := sw\<rparr>))))))))))"

definition media_metadata :: "'j jsonlib \<Rightarrow> 'j \<Rightarrow> ConnectionData \<Rightarrow> ConnectionData res" where
  "media_metadata J metadata m =
     bindR (string_or_empty J metadata ''mediaId'') (\<lambda>mediaId.
     bindR (string_or_empty J metadata ''title'') (\<lambda>title.
     bindR (string_or_empty J metadata ''secondaryTitle'') (\<lambda>secondTitle.
     bindR (string_or_empty J metadata ''synopsis'') (\<lambda>synopsis.
     Inr (m\<lparr>cd_mediaId := mediaId, cd_title := title, cd_secondTitle := secondTitle, cd_synopsis := synopsis\<rparr>)))))"

definition is_number :: "'j jsonlib \<Rightarrow> 'j \<Rightarrow> bool" where
  "is_number J v = (jv_type J v = intValue \<or> jv_type J v = realValue)"

text \<open>A time that differs from the current position by so many seconds, as a time of the system. \<open>None\<close>: it does not fit
  an \<open>int\<close>.\<close>

definition shifted :: "'j rpc_env \<Rightarrow> int \<Rightarrow> u64 \<Rightarrow> u64 \<Rightarrow> u64" where
  "shifted E systemTime v cur = re_add E (re_double E systemTime) (re_sub E v cur)"

definition outside_int :: "'j rpc_env \<Rightarrow> u64 \<Rightarrow> bool" where
  "outside_int E d = (re_less E d (re_double E INT_MIN) \<or> re_less E (re_double E INT_MAX) d)"

definition trunc :: "'j rpc_env \<Rightarrow> u64 \<Rightarrow> int res" where
  "trunc E d = (case re_trunc E d of None \<Rightarrow> Inl IntOverflow | Some i \<Rightarrow> Inr i)"

text \<open>The times of the media, (bias, current, start, end), from the three members, or \<open>None\<close> for an error. Only the first
  of the three is tested for being a string.\<close>

definition media_times :: "'j rpc_env \<Rightarrow> int \<Rightarrow> 'j \<Rightarrow> 'j \<Rightarrow> 'j \<Rightarrow> (int \<times> int \<times> int \<times> int) option res" where
  "media_times E systemTime current start end =
     (let J = re_json E in
      if is_number J current \<and> is_number J start \<and> is_number J end then
        bindR (or_throw (jc_as_double J current)) (\<lambda>cur.
        bindR (or_throw (jc_as_double J start)) (\<lambda>s.
        bindR (or_throw (jc_as_double J end)) (\<lambda>e.
        let s = shifted E systemTime s cur; e = shifted E systemTime e cur in
        if outside_int E s \<or> outside_int E e then Inr None
        else bindR (trunc E s) (\<lambda>s. bindR (trunc E e) (\<lambda>e. Inr (Some (0, systemTime, s, e)))))))
      else if jv_type J current = stringValue then
        bindR (j_string J current) (\<lambda>c.
        let currentTime = to_int (ConvertISO8601ToSecond (re_zone E) (re_junk E) c) in
        bindR (int_op (currentTime - systemTime)) (\<lambda>bias.
        bindR (j_string J start) (\<lambda>s.
        bindR (j_string J end) (\<lambda>e.
        Inr (Some (bias, currentTime, to_int (ConvertISO8601ToSecond (re_zone E) (re_junk E) s),
               to_int (ConvertISO8601ToSecond (re_zone E) (re_junk E) e)))))))
      else Inr (Some (0, -1, -1, -1)))"

text \<open>Each of three kinds of accessibility must say whether it is enabled and available; a kind that is missing is null.\<close>

definition access_kind :: "'j jsonlib \<Rightarrow> 'j \<Rightarrow> string \<Rightarrow> 'j res" where
  "access_kind J params k =
     bindR (HasJsonParam J params ''accessibility'') (\<lambda>a. if \<not> a then Inr (jc_null J) else
     bindR (j_member J params ''accessibility'') (\<lambda>access.
     bindR (HasJsonParam J access k) (\<lambda>a. if \<not> a then Inr (jc_null J) else j_member J access k)))"

definition access_complete :: "'j jsonlib \<Rightarrow> 'j \<Rightarrow> bool res" where
  "access_complete J v =
     bindR (HasParam J v ''enabled'' booleanValue) (\<lambda>a. if \<not> a then Inr False else HasParam J v ''available'' booleanValue)"

definition media_accessibility :: "'j jsonlib \<Rightarrow> 'j \<Rightarrow> bool res" where
  "media_accessibility J params =
     bindR (access_kind J params ''subtitles'') (\<lambda>subtitles.
     bindR (access_kind J params ''audioDescription'') (\<lambda>audioDescription.
     bindR (access_kind J params ''signLanguage'') (\<lambda>signLanguage.
     bindR (access_complete J subtitles) (\<lambda>a. if \<not> a then Inr False else
     bindR (access_complete J audioDescription) (\<lambda>a. if \<not> a then Inr False else access_complete J signLanguage)))))"

definition store_media :: "int \<Rightarrow> ConnectionData \<Rightarrow> json_rpc \<Rightarrow> status_res" where
  "store_media cid m st = bindR (SetStateMediaToConnectionData Looper cid m st) (succeed (CbStateMedia (cd_state m)))"

text \<open>\<open>operator[]\<close> adds the members \<open>currentTime\<close> and \<open>range\<close> to the copy of \<open>params\<close>, with null, before they are tested for.\<close>

definition media_position :: "'j rpc_env \<Rightarrow> int \<Rightarrow> int \<Rightarrow> 'j \<Rightarrow> ConnectionData \<Rightarrow> json_rpc \<Rightarrow> status_res" where
  "media_position E now cid params m st =
     (let J = re_json E in
      bindR (j_member J params ''currentTime'') (\<lambda>current.
      let params = jc_touch J params ''currentTime'' in
      bindR (j_member J params ''range'') (\<lambda>range.
      let params = jc_touch J params ''range'' in
      bindR (or_throw (jv_is_member J params ''currentTime'')) (\<lambda>a. if \<not> a then reject NOTIFICATION_ERROR st else
      bindR (HasJsonParam J params ''range'') (\<lambda>a. if \<not> a then reject NOTIFICATION_ERROR st else
      bindR (or_throw (jv_is_member J range ''start'')) (\<lambda>a. if \<not> a then reject NOTIFICATION_ERROR st else
      bindR (or_throw (jv_is_member J range ''end'')) (\<lambda>a. if \<not> a then reject NOTIFICATION_ERROR st else
      bindR (j_member J range ''start'') (\<lambda>start.
      bindR (j_member J range ''end'') (\<lambda>end.
      let systemTime = to_int now in
      bindR (media_times E systemTime current start end) (\<lambda>times.
      case times of
        None \<Rightarrow> reject NOTIFICATION_ERROR st
      | Some (biasTime, currentTime, startTime, endTime) \<Rightarrow>
          if systemTime < 0 \<or> currentTime < 0 \<or> startTime < 0 \<or> endTime < 0 \<or> \<not> (startTime \<le> currentTime \<and> currentTime \<le> endTime)
          then reject NOTIFICATION_ERROR st
          else bindR (media_accessibility J params) (\<lambda>a.
            if \<not> a then reject NOTIFICATION_ERROR st
            else store_media cid (m\<lparr>cd_biasToSystemTime := biasTime, cd_startTime := startTime, cd_endTime := endTime\<rparr>) st)))))))))))"

definition media_details :: "'j rpc_env \<Rightarrow> int \<Rightarrow> int \<Rightarrow> 'j \<Rightarrow> ConnectionData \<Rightarrow> json_rpc \<Rightarrow> status_res" where
  "media_details E now cid params m st =
     (let J = re_json E in
      bindR (string_or_empty J params ''kind'') (\<lambda>kind.
      bindR (string_or_empty J params ''type'') (\<lambda>ty.
      if kind \<notin> {''audio'', ''audio-video''} \<or> ty \<notin> {''live'', ''on-demand''} then reject NOTIFICATION_ERROR st else
      bindR (HasJsonParam J params ''metadata'') (\<lambda>a. if \<not> a then reject NOTIFICATION_ERROR st else
      bindR (j_member J params ''metadata'') (\<lambda>metadata.
      bindR (media_metadata J metadata m) (\<lambda>m.
      if cd_title m = [] then reject NOTIFICATION_ERROR st
      else if cd_state m = ''stopped'' then store_media cid m st
      else media_position E now cid params m st))))))"

definition media_states :: "string list" where
  "media_states = [''no-media'', ''error'', ''buffering'', ''paused'', ''playing'', ''stopped'']"

definition NotifyStateMedia :: "'j rpc_env \<Rightarrow> int \<Rightarrow> int \<Rightarrow> 'j \<Rightarrow> json_rpc \<Rightarrow> status_res" where
  "NotifyStateMedia E now cid obj st =
     (let J = re_json E in
      bindR (HasJsonParam J obj ''params'') (\<lambda>a. if \<not> a then reject NOTIFICATION_ERROR st else
      bindR (j_member J obj ''params'') (\<lambda>params.
      bindR (HasParam J params ''state'' stringValue) (\<lambda>a. if \<not> a then reject NOTIFICATION_ERROR st else
      bindR (j_member J params ''state'') (\<lambda>v.
      bindR (j_string J v) (\<lambda>state.
      if state \<notin> set media_states then reject NOTIFICATION_ERROR st else
      bindR (HasJsonParam J params ''availableActions'') (\<lambda>a. if \<not> a then reject NOTIFICATION_ERROR st else
      bindR (j_member J params ''availableActions'') (\<lambda>actions.
      bindR (media_actions J actions (ConnectionData_new\<lparr>cd_state := state\<rparr>)) (\<lambda>m.
      if state = ''no-media'' \<or> state = ''error'' then store_media cid m st
      else media_details E now cid params m st)))))))))"

section \<open>Answers to intents, and errors\<close>

definition ReceiveIntentConfirm :: "'j rpc_env \<Rightarrow> int \<Rightarrow> 'j \<Rightarrow> json_rpc \<Rightarrow> status_res" where
  "ReceiveIntentConfirm E cid obj st =
     (let J = re_json E in
      bindR (j_member J obj ''result'') (\<lambda>result.
      with_id E obj st (\<lambda>i.
      bindR (HasParam J result ''method'' stringValue) (\<lambda>a. if \<not> a then reject INVALID_PARAMS st else
      bindR (j_member J result ''method'') (\<lambda>v.
      bindR (j_string J v) (\<lambda>method. succeed (CbIntentConfirm cid i method) st))))))"

definition ReceiveError :: "'j rpc_env \<Rightarrow> int \<Rightarrow> 'j \<Rightarrow> json_rpc \<Rightarrow> status_res" where
  "ReceiveError E cid obj st =
     (let J = re_json E in
      bindR (j_member J obj ''error'') (\<lambda>err.
      with_id E obj st (\<lambda>i.
      bindR (HasParam J err ''code'' intValue) (\<lambda>a. if \<not> a then reject INVALID_PARAMS st else
      bindR (j_member J err ''code'') (\<lambda>v.
      bindR (or_throw (jv_as_int J v)) (\<lambda>code.
      bindR (string_or_empty J err ''message'') (\<lambda>message.
      bindR (string_or_empty J err ''method'') (\<lambda>method.
      bindR (string_or_empty J err ''data'') (\<lambda>data.
      succeed (if method \<noteq> [] \<or> data \<noteq> [] then CbErrorWith code message method data else CbError code message) st)))))))))"

section \<open>Dispatch\<close>

datatype handler =
    H_NegotiateMethods | H_Subscribe | H_Unsubscribe | H_FeatureSupportInfo | H_FeatureSettingsQuery | H_FeatureSuppress
  | H_DialogueEnhancementOverride | H_TriggerResponseToUserAction | H_VoiceReady | H_StateMedia | H_IntentConfirm

definition json_rpc_methods :: "(string \<times> handler) list" where
  "json_rpc_methods =
     [(MD_NEGOTIATE_METHODS, H_NegotiateMethods), (MD_SUBSCRIBE, H_Subscribe), (MD_UNSUBSCRIBE, H_Unsubscribe),
      (MD_AF_FEATURE_SUPPORT_INFO, H_FeatureSupportInfo), (MD_AF_FEATURE_SETTINGS_QUERY, H_FeatureSettingsQuery),
      (MD_AF_FEATURE_SUPPRESS, H_FeatureSuppress), (MD_AF_DIALOGUE_ENHANCEMENT_OVERRIDE, H_DialogueEnhancementOverride),
      (MD_AF_TRIGGER_RESPONSE_TO_USER_ACTION, H_TriggerResponseToUserAction), (MD_VOICE_READY, H_VoiceReady),
      (MD_STATE_MEDIA, H_StateMedia)] @ map (\<lambda>m. (m, H_IntentConfirm)) intent_methods"

definition handle :: "'j rpc_env \<Rightarrow> int \<Rightarrow> handler \<Rightarrow> int \<Rightarrow> 'j \<Rightarrow> json_rpc \<Rightarrow> status_res" where
  "handle E now h = (case h of
     H_NegotiateMethods \<Rightarrow> RequestNegotiateMethods E
   | H_Subscribe \<Rightarrow> RequestSubscribe E
   | H_Unsubscribe \<Rightarrow> RequestUnsubscribe E
   | H_FeatureSupportInfo \<Rightarrow> RequestFeatureSupportInfo E
   | H_FeatureSettingsQuery \<Rightarrow> RequestFeatureSettingsQuery E
   | H_FeatureSuppress \<Rightarrow> RequestFeatureSuppress E
   | H_DialogueEnhancementOverride \<Rightarrow> RequestDialogueEnhancementOverride E
   | H_TriggerResponseToUserAction \<Rightarrow> RequestTriggerResponseToUserAction E
   | H_VoiceReady \<Rightarrow> NotifyVoiceReady E
   | H_StateMedia \<Rightarrow> NotifyStateMedia E now
   | H_IntentConfirm \<Rightarrow> ReceiveIntentConfirm E)"

text \<open>The method of a message: \<open>None\<close> is a status that is decided already. A method in a result is not looked up among the
  negotiated ones.\<close>

definition find_method :: "'j rpc_env \<Rightarrow> int \<Rightarrow> 'j \<Rightarrow> json_rpc \<Rightarrow> ((JsonRpcStatus + string) \<times> json_rpc) res" where
  "find_method E cid obj st =
     (let J = re_json E in
      bindR (HasParam J obj ''method'' stringValue) (\<lambda>a.
      if a then
        bindR (j_member J obj ''method'') (\<lambda>v.
        bindR (j_string J v) (\<lambda>method.
        bindR (GetConnectionData J Looper cid NegotiateMethodsAppToTerminal st) (\<lambda>(negotiateMethods, st).
        bindR (IsMethodInJsonArray J negotiateMethods method) (\<lambda>b.
        Inr (if b then Inr method else Inl METHOD_NOT_FOUND, st)))))
      else
        bindR (HasJsonParam J obj ''result'') (\<lambda>a.
        if \<not> a then Inr (Inl INVALID_REQUEST, st)
        else
          bindR (j_member J obj ''result'') (\<lambda>result.
          bindR (HasParam J result ''method'' stringValue) (\<lambda>a.
          if \<not> a then Inr (Inl INVALID_REQUEST, st)
          else bindR (j_member J result ''method'') (\<lambda>v. bindR (j_string J v) (\<lambda>method. Inr (Inr method, st))))))))"

definition dispatch :: "'j rpc_env \<Rightarrow> int \<Rightarrow> int \<Rightarrow> 'j \<Rightarrow> json_rpc \<Rightarrow> status_res" where
  "dispatch E now cid obj st =
     bindR (find_method E cid obj st) (\<lambda>(method, st).
     case method of
       Inl status \<Rightarrow> reject status st
     | Inr m \<Rightarrow> (case map_of json_rpc_methods m of None \<Rightarrow> reject METHOD_NOT_FOUND st | Some h \<Rightarrow> handle E now h cid obj st))"

definition message_status :: "'j rpc_env \<Rightarrow> int \<Rightarrow> int \<Rightarrow> 'j \<Rightarrow> json_rpc \<Rightarrow> status_res" where
  "message_status E now cid obj st =
     (let J = re_json E in
      bindR (HasParam J obj ''jsonrpc'' stringValue) (\<lambda>a. if \<not> a then reject INVALID_REQUEST st else
      bindR (j_member J obj ''jsonrpc'') (\<lambda>v. if \<not> jc_eq J v (jc_of_string J ''2.0'') then reject INVALID_REQUEST st else
      bindR (HasJsonParam J obj ''error'') (\<lambda>a.
      if a then ReceiveError E cid obj st else dispatch E now cid obj st))))"

text \<open>A message that has failed is answered with its id, unless it could not be read.\<close>

definition error_id :: "'j rpc_env \<Rightarrow> JsonRpcStatus \<Rightarrow> 'j \<Rightarrow> string res" where
  "error_id E status obj =
     (let J = re_json E in
      if status = PARSE_ERROR \<or> status = INVALID_REQUEST then Inr []
      else bindR (has_id J obj) (\<lambda>a. if \<not> a then Inr [] else bindR (j_member J obj ''id'') (EncodeJsonId E)))"

definition OnMessageReceived :: "'j rpc_env \<Rightarrow> int \<Rightarrow> int \<Rightarrow> string \<Rightarrow> json_rpc \<Rightarrow> json_rpc res" where
  "OnMessageReceived E now cid text st =
     (let J = re_json E in
      case jc_parse J text of
        None \<Rightarrow> RespondError J Looper cid [] (status_code PARSE_ERROR) (GetErrorMessage PARSE_ERROR) st
      | Some obj \<Rightarrow>
          bindR (message_status E now cid obj st) (\<lambda>(status, st).
          if status = SUCCESS \<or> status = NOTIFICATION_ERROR then Inr st
          else bindR (error_id E status obj) (\<lambda>i. RespondError J Looper cid i (status_code status) (GetErrorMessage status) st)))"

section \<open>Connections\<close>

definition rpc_OnConnection :: "int \<Rightarrow> string \<Rightarrow> json_rpc \<Rightarrow> (bool \<times> json_rpc) res" where
  "rpc_OnConnection cid u st =
     (if u \<noteq> rpc_endpoint st then Inr (False, st)
      else bindR (InitialConnectionData Looper cid st) (\<lambda>st. Inr (True, st)))"

definition rpc_OnDisconnected :: "int \<Rightarrow> json_rpc \<Rightarrow> json_rpc res" where
  "rpc_OnDisconnected cid st =
     bindR (rpc_lock Looper st) (\<lambda>st. rpc_unlock Looper (st\<lparr>rpc_data := om_del cid (rpc_data st)\<rparr>))"

text \<open>The default \<open>OnFragmentReceived\<close> gathers the text of a message; binary fragments are ignored.\<close>

definition rpc_OnFragmentReceived ::
    "'j rpc_env \<Rightarrow> int \<Rightarrow> nat \<Rightarrow> ws_connection \<Rightarrow> string \<Rightarrow> bool \<Rightarrow> bool \<Rightarrow> bool \<Rightarrow> json_rpc \<Rightarrow> json_rpc res" where
  "rpc_OnFragmentReceived E now user c d is_first is_final is_binary st =
     (if is_binary then Inr st
      else
        let c = c\<lparr>text_buffer := (if is_first then d else text_buffer c @ d)\<rparr>;
            st = st\<lparr>rpc_connections := om_ins user c (rpc_connections st)\<rparr>
        in if is_final then OnMessageReceived E now (conn_id c) (text_buffer c) st else Inr st)"

definition rpc_established :: "nat \<Rightarrow> string \<Rightarrow> json_rpc \<Rightarrow> json_rpc res" where
  "rpc_established user u st =
     (let cid = rpc_next_id st;
          c = \<lparr>conn_uri = u, write_queue = [], conn_id = cid, paired_connection = None, text_buffer = []\<rparr>
      in bindR (int_op (cid + 1)) (\<lambda>n.
         bindR (rpc_OnConnection cid u (st\<lparr>rpc_next_id := n\<rparr>)) (\<lambda>(ok, st).
           Inr (if ok then st\<lparr>rpc_connections := om_ins user c (rpc_connections st)\<rparr> else st))))"

definition rpc_LwsCallback :: "'j rpc_env \<Rightarrow> int \<Rightarrow> lws_callback \<Rightarrow> json_rpc \<Rightarrow> json_rpc res" where
  "rpc_LwsCallback E now reason st =
     bindR (rpc_lock Looper st) (\<lambda>st.
     bindR (case reason of
        CALLBACK_ESTABLISHED user u args \<Rightarrow> rpc_established user (if args \<noteq> [] then u @ ''?'' @ args else u) st
      | CALLBACK_CLOSED user \<Rightarrow>
          (case om_get (rpc_connections st) user of
             None \<Rightarrow> Inr st
           | Some c \<Rightarrow> bindR (rpc_OnDisconnected (conn_id c) st) (\<lambda>st.
               Inr (st\<lparr>rpc_connections := om_del user (rpc_connections st)\<rparr>)))
      | CALLBACK_SERVER_WRITEABLE user ok \<Rightarrow>
          (case om_get (rpc_connections st) user of
             None \<Rightarrow> Inr st
           | Some c \<Rightarrow> (case drain ok (write_queue c) of (rest, out, r) \<Rightarrow>
               Inr (st\<lparr>rpc_connections := om_ins user (c\<lparr>write_queue := rest\<rparr>) (rpc_connections st)\<rparr>)))
      | CALLBACK_RECEIVE user d is_first is_final is_binary \<Rightarrow>
          (case om_get (rpc_connections st) user of
             None \<Rightarrow> Inr st
           | Some c \<Rightarrow> rpc_OnFragmentReceived E now user c d is_first is_final is_binary st)) (rpc_unlock Looper))"

end
