(* ===== verification/JsonRpcPlatform.thy ===== *)
theory JsonRpcPlatform
  imports JsonRpcRequests
begin

text \<open>
  What the platform asks of the JSON-RPC service, each in a thread of the platform: the answers to requests, the
  notifications of settings that have changed, the intents of the voice control and the description of what is
  playing; and the events of the service, a callback of libwebsockets or such a call. \<open>now\<close> is the value of
  \<open>std::time\<close>.
\<close>

section \<open>Answers\<close>

definition respond_feature :: "'j jsonlib \<Rightarrow> rpc_thread \<Rightarrow> int \<Rightarrow> string \<Rightarrow> string \<Rightarrow> int \<Rightarrow> string \<Rightarrow> json_rpc \<Rightarrow> json_rpc res" where
  "respond_feature J t cid i method featureId value st =
     (if featureId < 0 \<or> sizeOfAccessibilityFeature \<le> featureId then Inr st
      else respond J t cid i [(''method'', jc_of_string J method),
             (''feature'', jc_of_string J (GetAccessibilityFeatureName featureId)), (''value'', jc_of_string J value)] st)"

definition RespondFeatureSupportInfo :: "'j jsonlib \<Rightarrow> rpc_thread \<Rightarrow> int \<Rightarrow> string \<Rightarrow> int \<Rightarrow> string \<Rightarrow> json_rpc \<Rightarrow> json_rpc res" where
  "RespondFeatureSupportInfo J t cid i = respond_feature J t cid i MD_AF_FEATURE_SUPPORT_INFO"

definition RespondFeatureSuppress :: "'j jsonlib \<Rightarrow> rpc_thread \<Rightarrow> int \<Rightarrow> string \<Rightarrow> int \<Rightarrow> string \<Rightarrow> json_rpc \<Rightarrow> json_rpc res" where
  "RespondFeatureSuppress J t cid i = respond_feature J t cid i MD_AF_FEATURE_SUPPRESS"

text \<open>The settings of a feature, from the arguments that the platform gives.\<close>

datatype feature_settings =
    Subtitles bool subtitle_settings
  | DialogueEnhancement int int int int
  | UIMagnifier bool string
  | HighContrastUI bool string
  | ScreenReader bool int string string
  | ResponseToUserAction bool string
  | AudioDescription bool int int
  | InVisionSigning bool

fun feature_name :: "feature_settings \<Rightarrow> string" where
  "feature_name (Subtitles _ _) = ''subtitles''"
| "feature_name (DialogueEnhancement _ _ _ _) = ''dialogueEnhancement''"
| "feature_name (UIMagnifier _ _) = ''uiMagnifier''"
| "feature_name (HighContrastUI _ _) = ''highContrastUI''"
| "feature_name (ScreenReader _ _ _ _) = ''screenReader''"
| "feature_name (ResponseToUserAction _ _) = ''responseToUserAction''"
| "feature_name (AudioDescription _ _ _) = ''audioDescription''"
| "feature_name (InVisionSigning _) = ''inVisionSigning''"

fun settings_members :: "'j jsonlib \<Rightarrow> feature_settings \<Rightarrow> (string \<times> 'j) list res" where
  "settings_members J (Subtitles e s) = Inr (QuerySettingsSubtitles J e s)"
| "settings_members J (DialogueEnhancement p g lo hi) = QuerySettingsDialogueEnhancement J p g lo hi"
| "settings_members J (UIMagnifier e m) = Inr (QuerySettingsUIMagnifier J e m)"
| "settings_members J (HighContrastUI e h) = Inr (QuerySettingsHighContrastUI J e h)"
| "settings_members J (ScreenReader e s v l) = Inr (QuerySettingsScreenReader J e s v l)"
| "settings_members J (ResponseToUserAction e ty) = Inr (QuerySettingsResponseToUserAction J e ty)"
| "settings_members J (AudioDescription e g p) = Inr (QuerySettingsAudioDescription J e g p)"
| "settings_members J (InVisionSigning e) = Inr [(''enabled'', jv_of_bool J e)]"

text \<open>\<open>RespondFeatureSettings\<dots>\<close>: eight functions of one form.\<close>

definition RespondFeatureSettings :: "'j jsonlib \<Rightarrow> rpc_thread \<Rightarrow> int \<Rightarrow> string \<Rightarrow> feature_settings \<Rightarrow> json_rpc \<Rightarrow> json_rpc res" where
  "RespondFeatureSettings J t cid i s st =
     bindR (settings_members J s) (\<lambda>ms.
     bindR (j_object J ms) (\<lambda>value.
     bindR (CreateFeatureSettingsQuery J (feature_name s) value) (\<lambda>result.
     bindR (CreateJsonResponse J i result) (\<lambda>response. SendJsonMessageToClient J t cid response st))))"

definition RespondDialogueEnhancementOverride :: "'j jsonlib \<Rightarrow> rpc_thread \<Rightarrow> int \<Rightarrow> string \<Rightarrow> int \<Rightarrow> json_rpc \<Rightarrow> json_rpc res" where
  "RespondDialogueEnhancementOverride J t cid i gain =
     respond J t cid i ((''method'', jc_of_string J MD_AF_DIALOGUE_ENHANCEMENT_OVERRIDE)
       # opt_member (gain \<noteq> OPTIONAL_INT_NOT_SET) ''dialogueEnhancementGain'' (jv_of_int J gain))"

definition RespondTriggerResponseToUserAction :: "'j jsonlib \<Rightarrow> rpc_thread \<Rightarrow> int \<Rightarrow> string \<Rightarrow> bool \<Rightarrow> json_rpc \<Rightarrow> json_rpc res" where
  "RespondTriggerResponseToUserAction J t cid i actioned =
     respond J t cid i [(''method'', jc_of_string J MD_AF_TRIGGER_RESPONSE_TO_USER_ACTION), (''actioned'', jv_of_bool J actioned)]"

section \<open>Notifications\<close>

fun notify_ids :: "'j jsonlib \<Rightarrow> rpc_thread \<Rightarrow> string \<Rightarrow> int list \<Rightarrow> json_rpc \<Rightarrow> (int list \<times> json_rpc) res" where
  "notify_ids J t msgType [] st = Inr ([], st)"
| "notify_ids J t msgType (i # is) st =
     bindR (GetConnectionData J t i SubscribedMethods st) (\<lambda>(subscribed, st).
     bindR (GetConnectionData J t i NegotiateMethodsTerminalToApp st) (\<lambda>(negotiated, st).
     bindR (if \<not> jc_is_array J subscribed \<or> \<not> jc_is_array J negotiated then Inr False
            else bindR (IsMethodInJsonArray J subscribed msgType) (\<lambda>a.
                 if \<not> a then Inr False else IsMethodInJsonArray J negotiated MD_NOTIFY)) (\<lambda>b.
     bindR (notify_ids J t msgType is st) (\<lambda>(is, st). Inr (if b then i # is else is, st)))))"

definition GetNotifyConnectionIds :: "'j rpc_env \<Rightarrow> rpc_thread \<Rightarrow> int \<Rightarrow> json_rpc \<Rightarrow> (int list \<times> json_rpc) res" where
  "GetNotifyConnectionIds E t msgTypeIndex st =
     bindR (or_throw (map_of ACCESSIBILITY_FEATURE_NAMES msgTypeIndex)) (\<lambda>n.
     bindR (GetAllConnectionIds E t st) (\<lambda>(ids, st). notify_ids (re_json E) t (n @ ''PrefChange'') ids st))"

definition SendNotifyMessage :: "'j rpc_env \<Rightarrow> rpc_thread \<Rightarrow> int \<Rightarrow> 'j \<Rightarrow> json_rpc \<Rightarrow> json_rpc res" where
  "SendNotifyMessage E t msgTypeIndex params st =
     bindR (CreateNotifyRequest (re_json E) params) (\<lambda>response.
     bindR (GetNotifyConnectionIds E t msgTypeIndex st) (\<lambda>(ids, st).
     foldR (\<lambda>i. SendJsonMessageToClient (re_json E) t i response) ids st))"

text \<open>\<open>Notify\<dots>\<close>: eight functions of one form, but \<open>NotifyHighContrastUI\<close> builds the settings of a magnifier.\<close>

definition notify_members :: "'j jsonlib \<Rightarrow> feature_settings \<Rightarrow> (string \<times> 'j) list res" where
  "notify_members J s = (case s of HighContrastUI e h \<Rightarrow> Inr (QuerySettingsUIMagnifier J e h) | _ \<Rightarrow> settings_members J s)"

definition NotifyFeature :: "'j rpc_env \<Rightarrow> rpc_thread \<Rightarrow> feature_settings \<Rightarrow> json_rpc \<Rightarrow> json_rpc res" where
  "NotifyFeature E t s st =
     (let J = re_json E in
      bindR (notify_members J s) (\<lambda>ms.
      bindR (j_object J ms) (\<lambda>value.
      bindR (j_object J [(''msgType'', jc_of_string J (feature_name s @ ''PrefChange'')), (''value'', value)]) (\<lambda>params.
      SendNotifyMessage E t (GetAccessibilityFeatureId (feature_name s)) params st))))"

section \<open>Intents\<close>

definition intent_fields :: "ConnectionDataType list" where
  "intent_fields = [State, ActionPause, ActionPlay, ActionFastForward, ActionFastReverse, ActionStop, ActionSeekContent,
     ActionSeekRelative, ActionSeekLive, ActionSeekWallclock]"

text \<open>Whether the state and the available actions of the media allow an intent.\<close>

definition intent_allowed :: "string \<Rightarrow> string \<Rightarrow> bool list \<Rightarrow> bool" where
  "intent_allowed method state acts =
     (if method \<in> {MD_INTENT_SEARCH, MD_INTENT_DISPLAY, MD_INTENT_PLAYBACK} then True
      else if state \<in> {[], ''no-media'', ''error''} then False
      else if state = ''stopped'' then method = MD_INTENT_MEDIA_PLAY \<and> acts ! 1
      else if method = MD_INTENT_MEDIA_PAUSE \<and> acts ! 0 then state \<noteq> ''paused''
      else (method = MD_INTENT_MEDIA_PLAY \<and> acts ! 1) \<or> (method = MD_INTENT_MEDIA_FAST_FORWARD \<and> acts ! 2)
         \<or> (method = MD_INTENT_MEDIA_FAST_REVERSE \<and> acts ! 3) \<or> (method = MD_INTENT_MEDIA_STOP \<and> acts ! 4)
         \<or> (method = MD_INTENT_MEDIA_SEEK_CONTENT \<and> acts ! 5) \<or> (method = MD_INTENT_MEDIA_SEEK_RELATIVE \<and> acts ! 6)
         \<or> (method = MD_INTENT_MEDIA_SEEK_LIVE \<and> acts ! 7) \<or> (method = MD_INTENT_MEDIA_SEEK_WALLCLOCK \<and> acts ! 8))"

fun as_bools :: "'j jsonlib \<Rightarrow> 'j list \<Rightarrow> bool list res" where
  "as_bools J [] = Inr []"
| "as_bools J (v # vs) = bindR (or_throw (jv_as_bool J v)) (\<lambda>b. bindR (as_bools J vs) (\<lambda>bs. Inr (b # bs)))"

text \<open>One round of the loop of \<open>CheckIntentMethod\<close>.\<close>

definition intent_target :: "'j jsonlib \<Rightarrow> rpc_thread \<Rightarrow> string \<Rightarrow> int \<Rightarrow> json_rpc \<Rightarrow> (bool \<times> json_rpc) res" where
  "intent_target J t method i st =
     bindR (GetConnectionData J t i VoiceReady st) (\<lambda>(voiceReady, st).
     bindR (GetConnectionData J t i NegotiateMethodsTerminalToApp st) (\<lambda>(negotiated, st).
     if \<not> jv_is_bool J voiceReady \<or> \<not> jc_is_array J negotiated then Inr (False, st)
     else bindR (or_throw (jv_as_bool J voiceReady)) (\<lambda>ready.
       bindR (if \<not> ready then Inr False else IsMethodInJsonArray J negotiated method) (\<lambda>a.
       if \<not> a then Inr (False, st)
       else bindR (get_fields J t i intent_fields st) (\<lambda>(vs, st).
         if \<not> jc_is_string J (hd vs) \<or> \<not> list_all (jv_is_bool J) (tl vs) then Inr (False, st)
         else bindR (j_string J (hd vs)) (\<lambda>state.
              bindR (as_bools J (tl vs)) (\<lambda>acts. Inr (intent_allowed method state acts, st))))))))"

fun check_intent :: "'j jsonlib \<Rightarrow> rpc_thread \<Rightarrow> string \<Rightarrow> int list \<Rightarrow> json_rpc \<Rightarrow> (int list \<times> json_rpc) res" where
  "check_intent J t method [] st = Inr ([], st)"
| "check_intent J t method (i # is) st =
     bindR (intent_target J t method i st) (\<lambda>(b, st).
     bindR (check_intent J t method is st) (\<lambda>(is, st). Inr (if b then i # is else is, st)))"

definition CheckIntentMethod :: "'j rpc_env \<Rightarrow> rpc_thread \<Rightarrow> string \<Rightarrow> json_rpc \<Rightarrow> (int list \<times> json_rpc) res" where
  "CheckIntentMethod E t method st =
     bindR (GetAllConnectionIds E t st) (\<lambda>(ids, st). check_intent (re_json E) t method ids st)"

text \<open>\<open>std::to_string\<close>\<close>

definition dec_int :: "int \<Rightarrow> string" where
  "dec_int n = (if n < 0 then CHR ''-'' # dec_string (nat (- n)) else dec_string (nat n))"

text \<open>\<open>GenerateId\<close> reads the counter in one critical section and stores it in another.\<close>

definition GenerateId_store :: "'j rpc_env \<Rightarrow> rpc_thread \<Rightarrow> int \<Rightarrow> 'j \<Rightarrow> json_rpc \<Rightarrow> (string \<times> json_rpc) res" where
  "GenerateId_store E t cid data st =
     (let J = re_json E in
      if \<not> jv_is_int J data then Inr ([], st)
      else bindR (or_throw (jv_as_int J data)) (\<lambda>n.
           bindR (int_op (n + 1)) (\<lambda>n.
           bindR (EncodeJsonId E (jc_of_string J (''IntentId'' @ dec_int n))) (\<lambda>i.
           bindR (SetConnectionData J t cid IntentIdCount (jv_of_int J n) st) (\<lambda>st. Inr (i, st))))))"

definition GenerateId :: "'j rpc_env \<Rightarrow> rpc_thread \<Rightarrow> int \<Rightarrow> json_rpc \<Rightarrow> (string \<times> json_rpc) res" where
  "GenerateId E t cid st =
     bindR (GetConnectionData (re_json E) t cid IntentIdCount st) (\<lambda>(data, st). GenerateId_store E t cid data st)"

definition seek_anchor :: "'j jsonlib \<Rightarrow> int \<Rightarrow> int \<Rightarrow> int \<Rightarrow> int \<Rightarrow> 'j \<Rightarrow> int res" where
  "seek_anchor J now biasTime startTime endTime params =
     bindR (or_throw (jv_is_member J params ''anchor'')) (\<lambda>m.
     bindR (if \<not> m then Inr [] else bindR (j_member J params ''anchor'') (j_string J)) (\<lambda>anchor.
     Inr (if m \<and> anchor = ''start'' then startTime
          else if m \<and> anchor = ''end'' then endTime
          else to_int (now + biasTime))))"

definition seek_offset :: "'j jsonlib \<Rightarrow> int \<Rightarrow> int \<Rightarrow> int \<Rightarrow> int \<Rightarrow> 'j \<Rightarrow> 'j res" where
  "seek_offset J now biasTime startTime endTime params =
     bindR (seek_anchor J now biasTime startTime endTime params) (\<lambda>anchorTime.
     bindR (j_member J params ''offset'') (\<lambda>v.
     bindR (or_throw (jv_as_int J v)) (\<lambda>offset.
     bindR (int_op (anchorTime + offset)) (\<lambda>setTime.
     bindR (int_op (min (max setTime startTime) endTime - anchorTime)) (\<lambda>offset.
     or_throw (jc_put J params ''offset'' (jv_of_int J offset)))))))"

definition seek_wallclock :: "'j rpc_env \<Rightarrow> int \<Rightarrow> int \<Rightarrow> 'j \<Rightarrow> 'j res" where
  "seek_wallclock E startTime endTime params =
     (let J = re_json E in
      bindR (j_member J params ''date-time'') (\<lambda>v.
      bindR (j_string J v) (\<lambda>dateTime.
      let setTime = to_int (ConvertISO8601ToSecond (re_zone E) (re_junk E) dateTime);
          setTime = min (max setTime startTime) endTime
      in or_throw (jc_put J params ''date-time'' (jc_of_string J (ConvertSecondToISO8601 setTime))))))"

text \<open>The parameters are changed in place, and those of one connection are the start for the next.\<close>

definition AdjustTimeRange :: "'j rpc_env \<Rightarrow> rpc_thread \<Rightarrow> int \<Rightarrow> int \<Rightarrow> string \<Rightarrow> 'j \<Rightarrow> json_rpc \<Rightarrow> ('j \<times> json_rpc) res" where
  "AdjustTimeRange E t now cid method params st =
     (let J = re_json E in
      bindR (GetConnectionData J t cid BiasToSystemTime st) (\<lambda>(bias, st).
      bindR (GetConnectionData J t cid StartTime st) (\<lambda>(start, st).
      bindR (GetConnectionData J t cid EndTime st) (\<lambda>(end, st).
      if \<not> jv_is_int J bias \<or> \<not> jv_is_int J start \<or> \<not> jv_is_int J end then Inr (params, st)
      else
        bindR (or_throw (jv_as_int J bias)) (\<lambda>biasTime.
        bindR (or_throw (jv_as_int J start)) (\<lambda>startTime.
        bindR (or_throw (jv_as_int J end)) (\<lambda>endTime.
        if startTime = -1 \<or> endTime = -1 then Inr (params, st)
        else
          bindR (if method = MD_INTENT_PLAYBACK then or_throw (jv_is_member J params ''offset'') else Inr False) (\<lambda>playback_offset.
          bindR (if method \<in> {MD_INTENT_MEDIA_SEEK_CONTENT, MD_INTENT_MEDIA_SEEK_RELATIVE, MD_INTENT_MEDIA_SEEK_LIVE} \<or> playback_offset
                 then seek_offset J now biasTime startTime endTime params
                 else if method = MD_INTENT_MEDIA_SEEK_WALLCLOCK then seek_wallclock E startTime endTime params
                 else Inr params) (\<lambda>params. Inr (params, st))))))))))"

fun send_intents :: "'j rpc_env \<Rightarrow> rpc_thread \<Rightarrow> int \<Rightarrow> string \<Rightarrow> int list \<Rightarrow> 'j \<Rightarrow> json_rpc \<Rightarrow> json_rpc res" where
  "send_intents E t now method [] params st = Inr st"
| "send_intents E t now method (cid # cids) params st =
     bindR (GenerateId E t cid st) (\<lambda>(i, st).
     bindR (AdjustTimeRange E t now cid method params st) (\<lambda>(params, st).
     bindR (CreateIntentResponse (re_json E) i method params) (\<lambda>response.
     bindR (SendJsonMessageToClient (re_json E) t cid response st) (\<lambda>st.
     send_intents E t now method cids params st))))"

definition SendIntentMessage :: "'j rpc_env \<Rightarrow> rpc_thread \<Rightarrow> int \<Rightarrow> string \<Rightarrow> 'j \<Rightarrow> json_rpc \<Rightarrow> json_rpc res" where
  "SendIntentMessage E t now method params st =
     bindR (CheckIntentMethod E t method st) (\<lambda>(cids, st). send_intents E t now method cids params st)"

text \<open>The intents, \<open>SendIntent\<dots>\<close>: each has a method and parameters.\<close>

datatype intent =
    Pause | Play | FastForward | FastReverse | StopMedia
  | SeekContent string int | SeekRelative int | SeekLive int | SeekWallclock string
  | Search string | Display string | Playback string string int

fun intent_method :: "intent \<Rightarrow> string" where
  "intent_method Pause = MD_INTENT_MEDIA_PAUSE"
| "intent_method Play = MD_INTENT_MEDIA_PLAY"
| "intent_method FastForward = MD_INTENT_MEDIA_FAST_FORWARD"
| "intent_method FastReverse = MD_INTENT_MEDIA_FAST_REVERSE"
| "intent_method StopMedia = MD_INTENT_MEDIA_STOP"
| "intent_method (SeekContent a n) = MD_INTENT_MEDIA_SEEK_CONTENT"
| "intent_method (SeekRelative n) = MD_INTENT_MEDIA_SEEK_RELATIVE"
| "intent_method (SeekLive n) = MD_INTENT_MEDIA_SEEK_LIVE"
| "intent_method (SeekWallclock d) = MD_INTENT_MEDIA_SEEK_WALLCLOCK"
| "intent_method (Search q) = MD_INTENT_SEARCH"
| "intent_method (Display m) = MD_INTENT_DISPLAY"
| "intent_method (Playback m a n) = MD_INTENT_PLAYBACK"

fun intent_params :: "'j jsonlib \<Rightarrow> intent \<Rightarrow> (string \<times> 'j) list" where
  "intent_params J (SeekContent a n) = [(''anchor'', jc_of_string J a), (''offset'', jv_of_int J n)]"
| "intent_params J (SeekRelative n) = [(''offset'', jv_of_int J n)]"
| "intent_params J (SeekLive n) = [(''offset'', jv_of_int J n)]"
| "intent_params J (SeekWallclock d) = [(''date-time'', jc_of_string J d)]"
| "intent_params J (Search q) = [(''query'', jc_of_string J q)]"
| "intent_params J (Display m) = [(''mediaId'', jc_of_string J m)]"
| "intent_params J (Playback m a n) = (''mediaId'', jc_of_string J m) # opt_member (a \<noteq> []) ''anchor'' (jc_of_string J a)
     @ opt_member (n \<noteq> OPTIONAL_INT_NOT_SET) ''offset'' (jv_of_int J n)"
| "intent_params J _ = []"

definition SendIntent :: "'j rpc_env \<Rightarrow> rpc_thread \<Rightarrow> int \<Rightarrow> intent \<Rightarrow> json_rpc \<Rightarrow> json_rpc res" where
  "SendIntent E t now i st =
     (let J = re_json E in
      bindR (j_object J ((''origin'', jc_of_string J ''voice'') # intent_params J i)) (\<lambda>params.
      SendIntentMessage E t now (intent_method i) params st))"

section \<open>What is playing\<close>

text \<open>The loop ends at the first connection without a title.\<close>

fun describe_loop :: "'j jsonlib \<Rightarrow> rpc_thread \<Rightarrow> int list \<Rightarrow> json_rpc \<Rightarrow> json_rpc res" where
  "describe_loop J t [] st = Inr st"
| "describe_loop J t (cid # cids) st =
     bindR (GetConnectionData J t cid Title st) (\<lambda>(title, st).
     bindR (GetConnectionData J t cid SecondTitle st) (\<lambda>(secTitle, st).
     bindR (GetConnectionData J t cid Synopsis st) (\<lambda>(synopsis, st).
     bindR (if \<not> jc_is_string J title then Inr [] else j_string J title) (\<lambda>title.
     if title = [] then Inr (rpc_call (CbRespondMessage ''No media is playing'') st)
     else
       bindR (if \<not> jc_is_string J secTitle then Inr [] else j_string J secTitle) (\<lambda>secTitle.
       bindR (if \<not> jc_is_string J synopsis then Inr [] else j_string J synopsis) (\<lambda>synopsis.
       describe_loop J t cids (rpc_call (CbRespondMessage
         ([CHR ''Y'', CHR ''o'', CHR ''u'', CHR 0x27] @ ''re watching '' @ title
          @ (if secTitle \<noteq> [] then '' {Secondary title: '' @ secTitle @ ''}'' else [])
          @ (if synopsis \<noteq> [] then '' '' @ [CHR 0x0A] @ ''Synopsis: '' @ synopsis else []))) st)))))))"

definition VoiceRequestDescription :: "'j rpc_env \<Rightarrow> rpc_thread \<Rightarrow> json_rpc \<Rightarrow> json_rpc res" where
  "VoiceRequestDescription E t st = bindR (GetAllConnectionIds E t st) (\<lambda>(ids, st). describe_loop (re_json E) t ids st)"

section \<open>Events\<close>

datatype rpc_event =
    Lws lws_callback
  | SupportInfo int string int string
  | Suppress int string int string
  | Settings int string feature_settings
  | OverrideDone int string int
  | TriggerDone int string bool
  | ReportError int string int string string
  | Notification feature_settings
  | Intent intent
  | Describe

text \<open>A call of the platform is made in the thread \<open>Platform n\<close>; a new session has memory of its own.\<close>

fun rpc_platform :: "'j rpc_env \<Rightarrow> rpc_thread \<Rightarrow> int \<Rightarrow> rpc_event \<Rightarrow> json_rpc \<Rightarrow> json_rpc res" where
  "rpc_platform E t now (Lws reason) st = Inr st"
| "rpc_platform E t now (SupportInfo cid i f v) st = RespondFeatureSupportInfo (re_json E) t cid i f v st"
| "rpc_platform E t now (Suppress cid i f v) st = RespondFeatureSuppress (re_json E) t cid i f v st"
| "rpc_platform E t now (Settings cid i s) st = RespondFeatureSettings (re_json E) t cid i s st"
| "rpc_platform E t now (OverrideDone cid i g) st = RespondDialogueEnhancementOverride (re_json E) t cid i g st"
| "rpc_platform E t now (TriggerDone cid i a) st = RespondTriggerResponseToUserAction (re_json E) t cid i a st"
| "rpc_platform E t now (ReportError cid i c m d) st = RespondErrorData (re_json E) t cid i c m d st"
| "rpc_platform E t now (Notification s) st = NotifyFeature E t s st"
| "rpc_platform E t now (Intent i) st = SendIntent E t now i st"
| "rpc_platform E t now Describe st = VoiceRequestDescription E t st"

fun rpc_fresh :: "json_rpc \<Rightarrow> lws_callback \<Rightarrow> bool" where
  "rpc_fresh st (CALLBACK_ESTABLISHED user u args) = (om_get (rpc_connections st) user = None)"
| "rpc_fresh st _ = True"

definition rpc_step :: "'j rpc_env \<Rightarrow> json_rpc \<Rightarrow> nat \<times> int \<times> rpc_event \<Rightarrow> json_rpc res" where
  "rpc_step E st = (\<lambda>(n, now, ev). case ev of
     Lws reason \<Rightarrow> if rpc_fresh st reason then rpc_LwsCallback E now reason st else Inr st
   | _ \<Rightarrow> rpc_platform E (Platform n) now ev st)"

text \<open>
  \<^const>\<open>rpc_step\<close> runs a call of the platform without interruption. The code takes the mutex for each access, so
  calls and callbacks interleave between the critical sections. \<open>rpc_section\<close> has a step for every section that changes the
  state: a callback of libwebsockets, which holds the mutex from its start to its end, the second section of \<open>GenerateId\<close>
  with what was read before, and the queueing of a message; \<open>Tell\<close> is a call back to the platform.
\<close>

datatype 'j rpc_section =
    Callback_section lws_callback
  | Store_section nat int 'j
  | Send_section nat int 'j
  | Tell_section session_call

definition rpc_section :: "'j rpc_env \<Rightarrow> json_rpc \<Rightarrow> int \<times> 'j rpc_section \<Rightarrow> json_rpc res" where
  "rpc_section E st = (\<lambda>(now, sec). case sec of
     Callback_section reason \<Rightarrow> rpc_step E st (0, now, Lws reason)
   | Store_section n cid data \<Rightarrow> bindR (GenerateId_store E (Platform n) cid data st) (\<lambda>(i, st). Inr st)
   | Send_section n cid j \<Rightarrow> SendJsonMessageToClient (re_json E) (Platform n) cid j st
   | Tell_section c \<Rightarrow> Inr (rpc_call c st))"

definition JsonRpcService_new :: "string \<Rightarrow> json_rpc" where
  "JsonRpcService_new endpoint =
     \<lparr>rpc_endpoint = endpoint, rpc_connections = [], rpc_next_id = 0, rpc_data = [], rpc_mutex = None, rpc_calls = [], rpc_sent = []\<rparr>"

end
