(* ===== verification/JsonRpcLaws.thy ===== *)
theory JsonRpcLaws
  imports JsonRpcPlatform
begin

text \<open>
  What the JSON-RPC service relies on: the documented behaviour of \<open>jsoncpp\<close> and of the conversion of a
  \<open>double\<close>; and what follows from it for the accesses to the data of a connection, when the mutex is free or
  held by the caller.
\<close>

section \<open>The library\<close>

definition jsonlib_ok :: "'j jsonlib \<Rightarrow> bool" where
  "jsonlib_ok J \<longleftrightarrow>
     (\<forall>s. jv_type J (jc_of_string J s) = stringValue \<and> jc_as_string J (jc_of_string J s) = Some s)
   \<and> (\<forall>b. jv_type J (jv_of_bool J b) = booleanValue \<and> jv_as_bool J (jv_of_bool J b) = Some b)
   \<and> (\<forall>i. in_int i \<longrightarrow> jv_is_int J (jv_of_int J i) \<and> jv_as_int J (jv_of_int J i) = Some i)
   \<and> (\<forall>v i. jv_as_int J v = Some i \<longrightarrow> in_int i)
   \<and> jv_type J (jc_null J) = nullValue \<and> jc_elems J (jc_null J) = [] \<and> \<not> jv_is_int J (jc_null J)
   \<and> (\<forall>v. jc_is_array J v = (jv_type J v = arrayValue) \<and> jc_is_string J v = (jv_type J v = stringValue)
        \<and> jv_is_bool J v = (jv_type J v = booleanValue) \<and> jv_is_object J v = (jv_type J v = objectValue))
   \<and> (\<forall>v n x. jv_type J v = (if n = 0 then nullValue else arrayValue) \<and> length (jc_elems J v) = n \<longrightarrow>
        (\<exists>v'. jv_put_index J v n x = Some v' \<and> jv_type J v' = arrayValue \<and> jc_elems J v' = jc_elems J v @ [x]))
   \<and> (\<forall>v k x. jv_type J v \<in> {nullValue, objectValue} \<longrightarrow>
        (\<exists>v'. jc_put J v k x = Some v' \<and> jv_type J v' = objectValue
          \<and> (\<forall>k'. jc_get J v' k' = (if k' = k then Some x else jc_get J v k'))
          \<and> (\<forall>k'. jv_is_member J v' k' = (if k' = k then Some True else jv_is_member J v k'))))"

definition rpc_env_ok :: "'j rpc_env \<Rightarrow> bool" where
  "rpc_env_ok E \<longleftrightarrow> jsonlib_ok (re_json E) \<and> (\<forall>d i. re_trunc E d = Some i \<longrightarrow> in_int i)
     \<and> (\<forall>ids. set (re_order E ids) = set ids \<and> (distinct ids \<longrightarrow> distinct (re_order E ids)))"

lemma rpc_env_okD:
  assumes "rpc_env_ok E"
  shows "jsonlib_ok (re_json E)" and "re_trunc E d = Some i \<Longrightarrow> in_int i"
    and "set (re_order E ids) = set ids" and "distinct ids \<Longrightarrow> distinct (re_order E ids)"
  using assms by (auto simp: rpc_env_ok_def)

lemma json_string:
  assumes "jsonlib_ok J"
  shows "jv_type J (jc_of_string J s) = stringValue" and "jc_as_string J (jc_of_string J s) = Some s"
    and "j_string J (jc_of_string J s) = Inr s" and "jc_is_string J (jc_of_string J s)"
  using assms by (auto simp: jsonlib_ok_def j_string_def or_throw_def)

lemma json_bool:
  assumes "jsonlib_ok J"
  shows "jv_type J (jv_of_bool J b) = booleanValue" and "jv_as_bool J (jv_of_bool J b) = Some b" and "jv_is_bool J (jv_of_bool J b)"
  using assms by (auto simp: jsonlib_ok_def)

lemma json_int:
  assumes "jsonlib_ok J"
  shows "in_int i \<Longrightarrow> jv_is_int J (jv_of_int J i)" and "in_int i \<Longrightarrow> jv_as_int J (jv_of_int J i) = Some i"
    and "jv_as_int J v = Some i \<Longrightarrow> in_int i"
  using assms by (auto simp: jsonlib_ok_def)

lemma json_null:
  assumes "jsonlib_ok J"
  shows "jv_type J (jc_null J) = nullValue" and "jc_elems J (jc_null J) = []" and "\<not> jv_is_int J (jc_null J)"
    and "\<not> jc_is_array J (jc_null J)" and "\<not> jc_is_string J (jc_null J)" and "\<not> jv_is_bool J (jc_null J)"
  using assms by (simp_all add: jsonlib_ok_def)

lemma json_types:
  assumes "jsonlib_ok J"
  shows "jc_is_array J v = (jv_type J v = arrayValue)" and "jc_is_string J v = (jv_type J v = stringValue)"
    and "jv_is_bool J v = (jv_type J v = booleanValue)" and "jv_is_object J v = (jv_type J v = objectValue)"
  using assms by (simp_all add: jsonlib_ok_def)

lemma json_put_index:
  assumes "jsonlib_ok J" and "jv_type J v = (if n = 0 then nullValue else arrayValue)" and "length (jc_elems J v) = n"
  obtains v' where "jv_put_index J v n x = Some v'" and "jv_type J v' = arrayValue" and "jc_elems J v' = jc_elems J v @ [x]"
  using assms unfolding jsonlib_ok_def by metis

lemma json_put:
  assumes "jsonlib_ok J" and "jv_type J v \<in> {nullValue, objectValue}"
  obtains v' where "jc_put J v k x = Some v'" and "jv_type J v' = objectValue"
    and "\<And>k'. jc_get J v' k' = (if k' = k then Some x else jc_get J v k')"
    and "\<And>k'. jv_is_member J v' k' = (if k' = k then Some True else jv_is_member J v k')"
  using assms unfolding jsonlib_ok_def by metis

lemma methods_loop:
  assumes "jsonlib_ok J" and "jv_type J v = (if n = 0 then nullValue else arrayValue)" and "length (jc_elems J v) = n"
  shows "\<exists>a. GetMethodsInJsonArray_loop J n ms v = Inr a \<and> jc_elems J a = jc_elems J v @ map (jc_of_string J) ms
    \<and> jv_type J a = (if n + length ms = 0 then nullValue else arrayValue)"
  using assms(2,3)
proof (induction ms arbitrary: n v)
  case Nil
  then show ?case by simp
next
  case (Cons m ms)
  from json_put_index [OF assms(1) Cons.prems] obtain v'
    where v': "jv_put_index J v n (jc_of_string J m) = Some v'" "jv_type J v' = arrayValue"
      "jc_elems J v' = jc_elems J v @ [jc_of_string J m]" by blast
  with Cons.prems Cons.IH [of v' "n + 1"] show ?case by (simp add: or_throw_def)
qed

lemma methods_array:
  assumes "jsonlib_ok J"
  obtains a where "GetMethodsInJsonArray J ms = Inr a" and "jc_elems J a = map (jc_of_string J) ms"
    and "jc_is_array J a = (ms \<noteq> [])"
  using methods_loop [OF assms, of "jc_null J" 0 ms] json_null [OF assms] json_types(1) [OF assms]
  by (auto simp: GetMethodsInJsonArray_def)

lemma any_string_methods: "jsonlib_ok J \<Longrightarrow> any_string J m (map (jc_of_string J) ms) = Inr (m \<in> set ms)"
  by (induction ms) (auto simp: json_string)

lemma method_in_array:
  assumes "jsonlib_ok J" and "GetMethodsInJsonArray J ms = Inr a"
  shows "IsMethodInJsonArray J a m = Inr (m \<in> set ms)" and "jc_is_array J a = (ms \<noteq> [])"
proof -
  obtain b where b: "GetMethodsInJsonArray J ms = Inr b" "jc_elems J b = map (jc_of_string J) ms" "jc_is_array J b = (ms \<noteq> [])"
    by (rule methods_array [OF assms(1), of ms])
  then have "a = b" using assms(2) by simp
  with b assms(1) show "IsMethodInJsonArray J a m = Inr (m \<in> set ms)" "jc_is_array J a = (ms \<noteq> [])"
    by (auto simp: IsMethodInJsonArray_def any_string_methods json_types)
qed

section \<open>Accesses under the mutex\<close>

definition may_lock :: "rpc_thread \<Rightarrow> json_rpc \<Rightarrow> bool" where
  "may_lock t st = (case rpc_mutex st of None \<Rightarrow> True | Some (u, n) \<Rightarrow> u = t)"

definition deeper :: "rpc_thread \<Rightarrow> (rpc_thread \<times> nat) option \<Rightarrow> (rpc_thread \<times> nat) option" where
  "deeper t m = (case m of None \<Rightarrow> Some (t, 0) | Some (u, n) \<Rightarrow> Some (t, n + 1))"

lemma rpc_lock_eq: "may_lock t st \<Longrightarrow> rpc_lock t st = Inr (st\<lparr>rpc_mutex := deeper t (rpc_mutex st)\<rparr>)"
  by (auto simp: may_lock_def rpc_lock_def deeper_def split: option.splits)

lemma rpc_unlock_eq: "may_lock t st \<Longrightarrow> rpc_mutex s = deeper t (rpc_mutex st) \<Longrightarrow> rpc_unlock t s = Inr (s\<lparr>rpc_mutex := rpc_mutex st\<rparr>)"
  by (auto simp: may_lock_def rpc_unlock_def deeper_def split: option.splits)

lemma rpc_mutex_same [simp]: "st\<lparr>rpc_mutex := rpc_mutex st\<rparr> = st"
  by simp

lemma mutex_swap [simp]:
  "st\<lparr>rpc_mutex := m, rpc_data := d, rpc_mutex := rpc_mutex st\<rparr> = st\<lparr>rpc_data := d\<rparr>"
  "st\<lparr>rpc_mutex := m, rpc_connections := c, rpc_sent := s, rpc_mutex := rpc_mutex st\<rparr> = st\<lparr>rpc_connections := c, rpc_sent := s\<rparr>"
  by (cases st; simp)+

lemma GetAllConnectionIds_eq:
  "may_lock t st \<Longrightarrow> GetAllConnectionIds E t st = Inr (re_order E (map fst (rpc_data st)), st)"
  by (simp add: GetAllConnectionIds_def rpc_lock_eq rpc_unlock_eq Let_def)

lemma GetConnectionData_eq:
  "may_lock t st \<Longrightarrow> GetConnectionData J t cid ty st =
     bindR (case om_get (rpc_data st) cid of None \<Rightarrow> Inr (jc_null J) | Some cd \<Rightarrow> get_field J ty cd) (\<lambda>v. Inr (v, st))"
  by (simp add: GetConnectionData_def rpc_lock_eq rpc_unlock_eq)

lemma SetConnectionData_eq:
  "may_lock t st \<Longrightarrow> om_get (rpc_data st) cid = Some cd \<Longrightarrow> SetConnectionData J t cid ty v st =
     bindR (set_field J ty v cd) (\<lambda>cd. Inr (st\<lparr>rpc_data := om_ins cid cd (rpc_data st)\<rparr>))"
  by (simp add: SetConnectionData_def rpc_lock_eq rpc_unlock_eq)

lemma SetConnectionData_unknown:
  "may_lock t st \<Longrightarrow> om_get (rpc_data st) cid = None \<Longrightarrow>
     SetConnectionData J t cid ty v st = Inr (st\<lparr>rpc_mutex := deeper t (rpc_mutex st)\<rparr>)"
  by (simp add: SetConnectionData_def rpc_lock_eq)

lemma SetStateMedia_eq:
  "may_lock t st \<Longrightarrow> om_get (rpc_data st) cid = Some cd \<Longrightarrow> SetStateMediaToConnectionData t cid m st =
     Inr (st\<lparr>rpc_data := om_ins cid (copy_media m cd) (rpc_data st)\<rparr>)"
  by (simp add: SetStateMediaToConnectionData_def rpc_lock_eq rpc_unlock_eq)

lemma get_fields_eq:
  "may_lock t st \<Longrightarrow> om_get (rpc_data st) cid = Some cd \<Longrightarrow> list_all2 (\<lambda>ty v. get_field J ty cd = Inr v) tys vs \<Longrightarrow>
   get_fields J t cid tys st = Inr (vs, st)"
  by (induction tys arbitrary: vs) (auto simp: list_all2_Cons1 GetConnectionData_eq)

text \<open>Queueing a message on its connection.\<close>

definition queue_message :: "int \<Rightarrow> string \<Rightarrow> json_rpc \<Rightarrow> json_rpc" where
  "queue_message cid message st =
     (case GetConnection cid (rpc_connections st) of
        None \<Rightarrow> st
      | Some (u, c) \<Rightarrow>
          st\<lparr>rpc_connections := om_ins u (c\<lparr>write_queue := write_queue c @ [mk_fragment message True True False]\<rparr>) (rpc_connections st),
             rpc_sent := rpc_sent st @ [(cid, message)]\<rparr>)"

lemma Send_eq: "may_lock t st \<Longrightarrow> SendJsonMessageToClient J t cid j st = Inr (queue_message cid (jc_write J j) st)"
  by (auto simp: SendJsonMessageToClient_def rpc_lock_eq rpc_unlock_eq queue_message_def Let_def split: option.split)

end
