(* ===== verification/JsonRpcProofs.thy ===== *)
theory JsonRpcProofs
  imports JsonRpcLaws
begin

text \<open>
  The invariant of the JSON-RPC service: every open connection has its data and no other has, the negotiated
  methods are methods the service supports, subscriptions name features, and the times of the media form a range.
  A handler or a call of the platform relates the state before it to the state after it by \<open>keeps\<close>; the locale
  \<open>step_relation\<close> composes such relations along the sequencing of the code.
\<close>

section \<open>Composing relations\<close>

definition post :: "('s \<Rightarrow> 's \<Rightarrow> bool) \<Rightarrow> ('y \<Rightarrow> 's) \<Rightarrow> 's \<Rightarrow> 'y res \<Rightarrow> bool" where
  "post R p s m = (\<forall>y. m = Inr y \<longrightarrow> R s (p y))"

lemma postD: "post R p s m \<Longrightarrow> m = Inr y \<Longrightarrow> R s (p y)"
  by (simp add: post_def)

locale step_relation =
  fixes R :: "'s \<Rightarrow> 's \<Rightarrow> bool"
  assumes refl: "R s s"
    and trans: "R s s' \<Longrightarrow> R s' s'' \<Longrightarrow> R s s''"
begin

lemma post_pure: "(\<And>v. m = Inr v \<Longrightarrow> post R p s (k v)) \<Longrightarrow> post R p s (bindR m k)"
  by (cases m) (auto simp: post_def)

lemma post_state: "post R (\<lambda>x. x) s m \<Longrightarrow> (\<And>s'. m = Inr s' \<Longrightarrow> post R p s' (k s')) \<Longrightarrow> post R p s (bindR m k)"
  by (cases m) (auto simp: post_def intro: trans)

lemma post_pair: "post R snd s m \<Longrightarrow> (\<And>v s'. m = Inr (v, s') \<Longrightarrow> post R p s' (k (v, s'))) \<Longrightarrow> post R p s (bindR m k)"
  by (cases m) (auto simp: post_def intro: trans)

lemma post_if: "(b \<Longrightarrow> post R p s m) \<Longrightarrow> (\<not> b \<Longrightarrow> post R p s m') \<Longrightarrow> post R p s (if b then m else m')"
  by simp

lemma post_Inl: "post R p s (Inl e)"
  by (simp add: post_def)

lemma post_Inr: "R s s' \<Longrightarrow> post R (\<lambda>x. x) s (Inr s')"
  by (simp add: post_def)

lemma post_Inr_pair: "R s s' \<Longrightarrow> post R snd s (Inr (x, s'))"
  by (simp add: post_def)

lemma post_option: "(x = None \<Longrightarrow> post R p s m) \<Longrightarrow> (\<And>v. x = Some v \<Longrightarrow> post R p s (k v)) \<Longrightarrow>
    post R p s (case x of None \<Rightarrow> m | Some v \<Rightarrow> k v)"
  by (cases x) auto

lemma post_foldR: "(\<And>x s. post R (\<lambda>x. x) s (f x s)) \<Longrightarrow> post R (\<lambda>x. x) s (foldR f xs s)"
proof (induction xs arbitrary: s)
  case Nil
  then show ?case by (simp add: post_def refl)
next
  case (Cons x xs)
  then show ?case by (auto intro!: post_state)
qed

lemmas post_rules = post_if post_option post_Inl post_Inr post_Inr_pair post_pair post_state post_pure refl

end

section \<open>The invariant\<close>

definition methods_ok :: "ConnectionData \<Rightarrow> bool" where
  "methods_ok cd \<longleftrightarrow> MD_NEGOTIATE_METHODS \<in> set (cd_appToTerminal cd) \<and> set (cd_appToTerminal cd) \<subseteq> set supported_app_to_terminal
     \<and> set (cd_terminalToApp cd) \<subseteq> set supported_terminal_to_app
     \<and> (\<forall>m \<in> set (cd_subscribed cd). GetAccessibilityFeatureId (feature_of m) \<noteq> -1)"

definition media_ok :: "ConnectionData \<Rightarrow> bool" where
  "media_ok cd \<longleftrightarrow> in_int (cd_biasToSystemTime cd)
     \<and> (cd_startTime cd = -1 \<and> cd_endTime cd = -1 \<or> 0 \<le> cd_startTime cd \<and> cd_startTime cd \<le> cd_endTime cd \<and> cd_endTime cd \<le> INT_MAX)
     \<and> (cd_state cd = [] \<or> cd_state cd \<in> set media_states)"

definition cd_ok :: "ConnectionData \<Rightarrow> bool" where
  "cd_ok cd \<longleftrightarrow> methods_ok cd \<and> media_ok cd \<and> in_int (cd_intentIdCount cd)"

text \<open>The connection ids of the sessions.\<close>

definition conn_view :: "json_rpc \<Rightarrow> nat \<Rightarrow> int option" where
  "conn_view st = (\<lambda>u. map_option conn_id (om_get (rpc_connections st) u))"

definition rpc_inv :: "json_rpc \<Rightarrow> bool" where
  "rpc_inv st \<longleftrightarrow> om_ok (rpc_data st) \<and> om_ok (rpc_connections st)
     \<and> (\<forall>k cd. om_get (rpc_data st) k = Some cd \<longrightarrow> cd_ok cd)
     \<and> dom (om_get (rpc_data st)) = ran (conn_view st) \<and> inj_on (conn_view st) (dom (conn_view st))
     \<and> (\<forall>k \<in> ran (conn_view st). k < rpc_next_id st)"

definition keeps :: "rpc_thread \<Rightarrow> int set \<Rightarrow> json_rpc \<Rightarrow> json_rpc \<Rightarrow> bool" where
  "keeps t C st st' \<longleftrightarrow> (may_lock t st \<and> rpc_inv st \<and> C \<subseteq> dom (om_get (rpc_data st)) \<longrightarrow>
     rpc_inv st' \<and> rpc_mutex st' = rpc_mutex st \<and> dom (om_get (rpc_data st')) = dom (om_get (rpc_data st)))"

interpretation kp: step_relation "keeps t C" for t C
  by unfold_locales (auto simp: keeps_def may_lock_def)

lemma keepsI:
  "(may_lock t st \<Longrightarrow> rpc_inv st \<Longrightarrow> C \<subseteq> dom (om_get (rpc_data st)) \<Longrightarrow> keeps t C st st') \<Longrightarrow> keeps t C st st'"
  by (simp add: keeps_def)

lemma post_keepsI:
  "(may_lock t st \<Longrightarrow> rpc_inv st \<Longrightarrow> C \<subseteq> dom (om_get (rpc_data st)) \<Longrightarrow> post (keeps t C) p st m) \<Longrightarrow> post (keeps t C) p st m"
  by (auto simp: post_def keeps_def)

lemma keeps_weaken: "keeps t {} st st' \<Longrightarrow> keeps t C st st'"
  by (auto simp: keeps_def)

lemma post_keeps_weaken: "post (keeps t {}) p st m \<Longrightarrow> post (keeps t C) p st m"
  by (auto simp: post_def intro: keeps_weaken)

lemma dom_om_ins: "om_get m k = Some v \<Longrightarrow> dom (om_get (om_ins k v' m)) = dom (om_get m)"
  by (auto simp: om_get_ins_eq)

lemma conn_view_data [simp]: "conn_view (st\<lparr>rpc_data := d\<rparr>) = conn_view st" "conn_view (st\<lparr>rpc_sent := s\<rparr>) = conn_view st"
  "conn_view (st\<lparr>rpc_calls := cs\<rparr>) = conn_view st" "conn_view (st\<lparr>rpc_mutex := mx\<rparr>) = conn_view st"
  by (simp_all add: conn_view_def)

lemma inv_frame [simp]: "rpc_inv (st\<lparr>rpc_sent := s\<rparr>) = rpc_inv st" "rpc_inv (st\<lparr>rpc_calls := cs\<rparr>) = rpc_inv st"
  "rpc_inv (st\<lparr>rpc_mutex := mx\<rparr>) = rpc_inv st"
  by (simp_all add: rpc_inv_def)

lemma inv_data:
  assumes "rpc_inv st" and "om_get (rpc_data st) cid = Some cd" and "cd_ok cd'"
  shows "rpc_inv (st\<lparr>rpc_data := om_ins cid cd' (rpc_data st)\<rparr>)"
  using assms dom_om_ins [OF assms(2)] by (simp add: rpc_inv_def om_ok_ins)

lemma keeps_data:
  assumes "om_get (rpc_data st) cid = Some cd" and "cd_ok cd \<Longrightarrow> cd_ok cd'"
  shows "keeps t C st (st\<lparr>rpc_data := om_ins cid cd' (rpc_data st)\<rparr>)"
proof (rule keepsI)
  assume inv: "rpc_inv st"
  with assms(1) have "cd_ok cd" by (auto simp: rpc_inv_def)
  from inv_data [OF inv assms(1) assms(2) [OF this]] dom_om_ins [OF assms(1)] show ?thesis
    by (simp add: keeps_def)
qed

lemma keeps_call: "keeps t C st (rpc_call c st)"
  by (simp add: keeps_def rpc_call_def)

lemma conn_view_update:
  "om_get (rpc_connections st) u = Some c \<Longrightarrow> conn_id c' = conn_id c \<Longrightarrow>
   conn_view (st\<lparr>rpc_connections := om_ins u c' (rpc_connections st)\<rparr>) = conn_view st"
  by (simp add: conn_view_def fun_eq_iff)

lemma inv_connection:
  assumes "rpc_inv st" and "om_get (rpc_connections st) u = Some c" and "conn_id c' = conn_id c"
  shows "rpc_inv (st\<lparr>rpc_connections := om_ins u c' (rpc_connections st)\<rparr>)"
  using assms(1) conn_view_update [OF assms(2,3)] by (simp add: rpc_inv_def om_ok_ins)

lemma GetConnection_Some: "om_ok cs \<Longrightarrow> GetConnection cid cs = Some (u, c) \<Longrightarrow> om_get cs u = Some c \<and> conn_id c = cid"
  by (auto simp: GetConnection_def find_Some_iff om_get_def om_ok_def strict_sorted_iff map_of_eq_Some_iff) (metis nth_mem)

lemma inv_queue: "rpc_inv st \<Longrightarrow> rpc_inv (queue_message cid m st)"
proof (cases "GetConnection cid (rpc_connections st)")
  case None
  then show "rpc_inv st \<Longrightarrow> ?thesis" by (simp add: queue_message_def)
next
  case (Some p)
  obtain u c where p: "p = (u, c)" by fastforce
  assume inv: "rpc_inv st"
  then have "om_get (rpc_connections st) u = Some c" using GetConnection_Some Some p by (auto simp: rpc_inv_def)
  from inv_connection [OF inv this] Some p show ?thesis by (simp add: queue_message_def)
qed

lemma queue_message_simps [simp]:
  "rpc_mutex (queue_message cid m st) = rpc_mutex st" "rpc_data (queue_message cid m st) = rpc_data st"
  "rpc_calls (queue_message cid m st) = rpc_calls st" "rpc_endpoint (queue_message cid m st) = rpc_endpoint st"
  by (simp_all add: queue_message_def split: option.split)

lemma keeps_queue: "keeps t C st (queue_message cid m st)"
  by (auto simp: keeps_def inv_queue)

lemma post_send: "post (keeps t C) (\<lambda>x. x) st (SendJsonMessageToClient J t cid j st)"
  by (rule post_keepsI) (auto simp: Send_eq post_def keeps_queue)

lemma post_get: "post (keeps t C) snd st (GetConnectionData J t cid ty st)"
  by (rule post_keepsI) (auto simp: GetConnectionData_eq post_def ret_iff kp.refl)

lemma post_ids: "post (keeps t C) snd st (GetAllConnectionIds E t st)"
  by (rule post_keepsI) (auto simp: GetAllConnectionIds_eq post_def ret_iff kp.refl)

lemma post_set:
  assumes "\<And>cd cd'. om_get (rpc_data st) cid = Some cd \<Longrightarrow> cd_ok cd \<Longrightarrow> set_field J ty v cd = Inr cd' \<Longrightarrow> cd_ok cd'" and "cid \<in> C"
  shows "post (keeps t C) (\<lambda>x. x) st (SetConnectionData J t cid ty v st)"
proof (rule post_keepsI)
  assume l: "may_lock t st" and "C \<subseteq> dom (om_get (rpc_data st))"
  with assms(2) obtain cd where cd: "om_get (rpc_data st) cid = Some cd" by auto
  then show ?thesis
    using assms(1) by (auto simp: SetConnectionData_eq [OF l cd] post_def ret_iff intro!: keeps_data)
qed

section \<open>The handlers keep the invariant\<close>

lemma set_method_ok:
  assumes "jsonlib_ok J" and "s \<in> set (if app then supported_app_to_terminal else supported_terminal_to_app)" and "cid \<in> C"
  shows "post (keeps t C) (\<lambda>x. x) st (SetConnectionData J t cid
    (if app then NegotiateMethodsAppToTerminal else NegotiateMethodsTerminalToApp) (jc_of_string J s) st)"
proof (cases app)
  case True
  with assms show ?thesis
    by (intro post_set) (auto simp: set_field_def json_string cd_ok_def methods_ok_def media_ok_def)
next
  case False
  with assms show ?thesis
    by (intro post_set) (auto simp: set_field_def json_string cd_ok_def methods_ok_def media_ok_def)
qed

lemma set_subscribed_ok:
  assumes "jsonlib_ok J" and "GetAccessibilityFeatureId (feature_of s) \<noteq> -1" and "ty = SubscribedMethods \<or> ty = UnsubscribedMethods" and "cid \<in> C"
  shows "post (keeps t C) (\<lambda>x. x) st (SetConnectionData J t cid ty (jc_of_string J s) st)"
proof (rule post_set [OF _ assms(4)])
  fix cd cd'
  assume "cd_ok cd" and "set_field J ty (jc_of_string J s) cd = Inr cd'"
  with assms(3) show "cd_ok cd'"
    using assms(2) by (elim disjE) (auto simp: set_field_def json_string [OF assms(1)] cd_ok_def methods_ok_def media_ok_def)
qed

lemma set_voice_ok: "cid \<in> C \<Longrightarrow> post (keeps t C) (\<lambda>x. x) st (SetConnectionData J t cid VoiceReady v st)"
  by (intro post_set) (auto simp: set_field_def cd_ok_def methods_ok_def media_ok_def ret_iff)

lemma set_media_ok:
  assumes "media_ok m" and "cid \<in> C"
  shows "post (keeps t C) (\<lambda>x. x) st (SetStateMediaToConnectionData t cid m st)"
proof (rule post_keepsI)
  assume l: "may_lock t st" and "C \<subseteq> dom (om_get (rpc_data st))"
  with assms(2) obtain cd where cd: "om_get (rpc_data st) cid = Some cd" by auto
  have "cd_ok cd \<Longrightarrow> cd_ok (copy_media m cd)"
    using assms(1) by (simp add: cd_ok_def methods_ok_def media_ok_def copy_media_def)
  with cd show ?thesis by (auto simp: SetStateMedia_eq [OF l cd] post_def intro!: keeps_data)
qed

lemma post_respond: "post (keeps t C) (\<lambda>x. x) st (respond J t cid i ms st)"
  unfolding respond_def by (rule kp.post_rules post_send)+

lemma post_respond_call: "post (keeps t C) (\<lambda>x. x) st (respond J t cid i ms (rpc_call c st))"
  unfolding post_def using kp.trans [OF keeps_call] postD [OF post_respond] by blast

lemma post_error: "post (keeps t C) (\<lambda>x. x) st (RespondError J t cid i c m st)"
  unfolding RespondError_def by (rule kp.post_rules post_send)+

lemma post_reject: "post (keeps t C) snd st (reject s st)"
  by (simp add: reject_def post_def kp.refl)

lemma post_succeed: "post (keeps t C) snd st (succeed c st)"
  by (simp add: succeed_def post_def keeps_call)

lemma post_with_id: "(\<And>i. post (keeps t C) snd st (k i)) \<Longrightarrow> post (keeps t C) snd st (with_id E obj st k)"
  unfolding with_id_def Let_def by (rule post_reject kp.post_rules | assumption)+

lemma post_with_param: "(\<And>i v. post (keeps t C) snd st (k i v)) \<Longrightarrow> post (keeps t C) snd st (with_param E obj n ty st k)"
  unfolding with_param_def Let_def by (rule post_with_id post_reject kp.post_rules | assumption)+

lemma post_filter_loop:
  "jsonlib_ok J \<Longrightarrow> cid \<in> C \<Longrightarrow> post (keeps Looper C) snd st (filter_loop J cid app ms new st)"
proof (induction J cid app ms new st rule: filter_loop.induct)
  case (2 J cid app m ms new st)
  show ?case
    unfolding filter_loop.simps
    by (rule kp.post_rules set_method_ok 2 | assumption)+
qed (simp add: post_def kp.refl)

lemma post_subscribe_loop:
  "jsonlib_ok J \<Longrightarrow> ty = SubscribedMethods \<or> ty = UnsubscribedMethods \<Longrightarrow> cid \<in> C \<Longrightarrow>
   post (keeps Looper C) snd st (subscribe_loop J cid ty ms fl st)"
proof (induction J cid ty ms fl st rule: subscribe_loop.induct)
  case (2 J cid ty m ms fl st)
  show ?case
    unfolding subscribe_loop.simps Let_def
    by (rule kp.post_rules set_subscribed_ok 2 | assumption | simp)+
qed (simp add: post_def kp.refl)

lemmas post_handler = post_with_param post_with_id post_reject post_succeed post_respond_call post_error

lemma post_negotiate: "rpc_env_ok E \<Longrightarrow> post (keeps Looper {cid}) snd st (RequestNegotiateMethods E cid obj st)"
  unfolding RequestNegotiateMethods_def Let_def FilterMethods_def RespondNegotiateMethods_def
  by (rule post_handler post_filter_loop kp.post_rules | simp add: rpc_env_okD)+

lemma post_subscribe: "rpc_env_ok E \<Longrightarrow> post (keeps Looper {cid}) snd st (RequestSubscribe E cid obj st)"
  unfolding RequestSubscribe_def Let_def RespondSubscribe_def
  by (rule post_handler post_subscribe_loop kp.post_rules | simp add: rpc_env_okD)+

lemma post_unsubscribe: "rpc_env_ok E \<Longrightarrow> post (keeps Looper {cid}) snd st (RequestUnsubscribe E cid obj st)"
  unfolding RequestUnsubscribe_def Let_def RespondUnsubscribe_def
  by (rule post_handler post_subscribe_loop kp.post_rules | simp add: rpc_env_okD)+

lemma post_feature: "post (keeps Looper C) snd st (feature_request E obj cb st)"
  unfolding feature_request_def by (rule post_handler kp.post_rules)+

lemma post_override: "post (keeps Looper C) snd st (RequestDialogueEnhancementOverride E cid obj st)"
  unfolding RequestDialogueEnhancementOverride_def Let_def by (rule post_handler kp.post_rules)+

lemma post_trigger: "post (keeps Looper C) snd st (RequestTriggerResponseToUserAction E cid obj st)"
  unfolding RequestTriggerResponseToUserAction_def by (rule post_handler kp.post_rules)+

lemma post_voice: "post (keeps Looper {cid}) snd st (NotifyVoiceReady E cid obj st)"
  unfolding NotifyVoiceReady_def Let_def by (rule post_handler set_voice_ok kp.post_rules | simp)+

lemma post_confirm: "post (keeps Looper C) snd st (ReceiveIntentConfirm E cid obj st)"
  unfolding ReceiveIntentConfirm_def Let_def by (rule post_handler kp.post_rules)+

lemma post_receive_error: "post (keeps Looper C) snd st (ReceiveError E cid obj st)"
  unfolding ReceiveError_def Let_def by (rule post_handler kp.post_rules)+

section \<open>The state of the media\<close>

lemma store_media_ok: "media_ok m \<Longrightarrow> post (keeps Looper {cid}) snd st (store_media cid m st)"
  unfolding store_media_def by (rule kp.post_state set_media_ok post_succeed | simp)+

lemma media_actions_ok:
  "media_actions J a m = Inr m' \<Longrightarrow> cd_state m' = cd_state m \<and> cd_startTime m' = cd_startTime m \<and> cd_endTime m' = cd_endTime m
     \<and> cd_biasToSystemTime m' = cd_biasToSystemTime m"
  by (auto simp: media_actions_def ret_iff)

lemma media_metadata_ok:
  "media_metadata J a m = Inr m' \<Longrightarrow> cd_state m' = cd_state m \<and> cd_startTime m' = cd_startTime m \<and> cd_endTime m' = cd_endTime m
     \<and> cd_biasToSystemTime m' = cd_biasToSystemTime m"
  by (auto simp: media_metadata_def ret_iff)

lemma to_int_range: "in_int (to_int i)"
  by (simp add: in_int_def to_int_def INT_MIN_def INT_MAX_def)

lemma int_op_iff [ret_iff]: "int_op i = Inr j \<longleftrightarrow> in_int i \<and> j = i"
  by (auto simp: int_op_def)

lemma trunc_range: "rpc_env_ok E \<Longrightarrow> trunc E d = Inr i \<Longrightarrow> in_int i"
  by (auto simp: trunc_def rpc_env_okD(2) split: option.splits)

lemma media_times_range:
  "rpc_env_ok E \<Longrightarrow> media_times E now c s e = Inr (Some (bias, cur, start, end)) \<Longrightarrow> in_int bias \<and> in_int end"
  by (auto simp: media_times_def Let_def ret_iff to_int_range split: if_splits dest: trunc_range)
     (auto simp: in_int_def INT_MIN_def INT_MAX_def)

lemma post_position:
  "rpc_env_ok E \<Longrightarrow> media_ok m \<Longrightarrow> post (keeps Looper {cid}) snd st (media_position E now cid params m st)"
  unfolding media_position_def Let_def
  apply (rule post_handler kp.post_pure kp.post_if)+
  apply (simp split: option.split prod.split add: post_reject)
  apply (intro allI impI kp.post_rules post_handler store_media_ok)
  apply (auto simp: media_ok_def in_int_def dest: media_times_range)
  done

lemma post_details:
  "rpc_env_ok E \<Longrightarrow> media_ok m \<Longrightarrow> post (keeps Looper {cid}) snd st (media_details E now cid params m st)"
  unfolding media_details_def Let_def
  by (rule post_position store_media_ok post_handler kp.post_rules | assumption | auto simp: media_ok_def dest: media_metadata_ok)+

lemma post_state_media: "rpc_env_ok E \<Longrightarrow> post (keeps Looper {cid}) snd st (NotifyStateMedia E now cid obj st)"
  unfolding NotifyStateMedia_def Let_def
  by (rule post_details store_media_ok post_handler kp.post_rules | assumption
      | (drule media_actions_ok, simp add: media_ok_def ConnectionData_new_def in_int_def INT_MIN_def INT_MAX_def))+

lemma post_handle: "rpc_env_ok E \<Longrightarrow> post (keeps Looper {cid}) snd st (handle E now h cid obj st)"
  by (cases h)
     (simp_all add: handle_def post_negotiate post_subscribe post_unsubscribe post_feature post_override post_trigger post_voice
        post_state_media post_confirm RequestFeatureSupportInfo_def RequestFeatureSettingsQuery_def RequestFeatureSuppress_def)

end
