(* ===== verification/JsonRpcRun.thy ===== *)
theory JsonRpcRun
  imports JsonRpcProofs
begin

section \<open>Messages and callbacks\<close>

lemma post_find_method: "post (keeps Looper C) snd st (find_method E cid obj st)"
  unfolding find_method_def Let_def by (rule kp.post_pair [OF post_get] kp.post_rules | simp only: prod.case)+

lemma post_dispatch: "rpc_env_ok E \<Longrightarrow> post (keeps Looper {cid}) snd st (dispatch E now cid obj st)"
  unfolding dispatch_def
  apply (rule kp.post_pair [OF post_find_method])
  apply (simp split: sum.split option.split add: post_reject post_handle)
  done

lemma post_message_status: "rpc_env_ok E \<Longrightarrow> post (keeps Looper {cid}) snd st (message_status E now cid obj st)"
  unfolding message_status_def Let_def
  by (rule post_dispatch post_receive_error post_reject kp.post_rules | assumption)+

lemma post_OnMessageReceived: "rpc_env_ok E \<Longrightarrow> post (keeps Looper {cid}) (\<lambda>x. x) st (OnMessageReceived E now cid text st)"
  unfolding OnMessageReceived_def Let_def
  apply (rule kp.post_option post_error)+
  apply (rule kp.post_pair [OF post_message_status], assumption)
  apply simp
  apply (rule post_error kp.post_rules impI conjI)+
  done

lemma inv_id: "rpc_inv st \<Longrightarrow> om_get (rpc_connections st) u = Some c \<Longrightarrow> conn_id c \<in> dom (om_get (rpc_data st))"
  by (auto simp: rpc_inv_def conn_view_def ran_def)

lemma fragment_inv:
  assumes "rpc_env_ok E" and "may_lock Looper st" and "rpc_inv st" and "om_get (rpc_connections st) user = Some c"
    and "rpc_OnFragmentReceived E now user c d f l b st = Inr st'"
  shows "rpc_inv st' \<and> rpc_mutex st' = rpc_mutex st"
proof (cases "b")
  case True
  with assms show ?thesis by (simp add: rpc_OnFragmentReceived_def)
next
  case False
  define c' where "c' = c\<lparr>text_buffer := (if f then d else text_buffer c @ d)\<rparr>"
  define s1 where "s1 = st\<lparr>rpc_connections := om_ins user c' (rpc_connections st)\<rparr>"
  have c': "conn_id c' = conn_id c" by (simp add: c'_def)
  have s1: "rpc_inv s1" "may_lock Looper s1" "rpc_mutex s1 = rpc_mutex st" "{conn_id c} \<subseteq> dom (om_get (rpc_data s1))"
    using inv_connection [OF assms(3,4) c'] assms(2) inv_id [OF assms(3,4)] by (simp_all add: s1_def may_lock_def)
  have "(if l then OnMessageReceived E now (conn_id c) (text_buffer c') s1 else Inr s1) = Inr st'"
    using assms(5) False by (cases l) (simp_all add: rpc_OnFragmentReceived_def Let_def c'_def s1_def)
  with postD [OF post_OnMessageReceived [OF assms(1)]] s1 show ?thesis
    by (auto simp: keeps_def split: if_splits)
qed

lemma established_inv:
  assumes "may_lock Looper st" and "rpc_inv st" and "om_get (rpc_connections st) user = None" and "rpc_established user u st = Inr st'"
  shows "rpc_inv st' \<and> rpc_mutex st' = rpc_mutex st"
proof -
  define cid where "cid = rpc_next_id st"
  have new: "om_get (rpc_data st) cid = None" "cid \<notin> ran (conn_view st)"
    using assms(2) by (auto simp: rpc_inv_def cid_def dom_def)
  let ?st = "st\<lparr>rpc_next_id := cid + 1\<rparr>"
  have nid: "int_op (cid + 1) = Inr n \<Longrightarrow> n = cid + 1" for n by (simp add: int_op_def split: if_splits)
  have view: "conn_view ?st = conn_view st" by (simp add: conn_view_def)
  have lock: "may_lock Looper ?st" using assms(1) by (simp add: may_lock_def)
  define cd where "cd = ConnectionData_new\<lparr>cd_intentIdCount := 0, cd_appToTerminal := [MD_NEGOTIATE_METHODS]\<rparr>"
  have cd: "cd_ok cd"
    by (simp add: cd_def cd_ok_def methods_ok_def media_ok_def ConnectionData_new_def supported_app_to_terminal_def in_int_def
        INT_MIN_def INT_MAX_def)
  have init: "InitialConnectionData Looper cid ?st = Inr (?st\<lparr>rpc_data := om_ins cid cd (rpc_data st)\<rparr>)"
    using new lock by (simp add: InitialConnectionData_def rpc_lock_eq rpc_unlock_eq Let_def cd_def ConnectionData_new_def)
  define c where "c = \<lparr>conn_uri = u, write_queue = [], conn_id = cid, paired_connection = None, text_buffer = []\<rparr>"
  consider "st' = ?st" | "st' = ?st\<lparr>rpc_data := om_ins cid cd (rpc_data st), rpc_connections := om_ins user c (rpc_connections st)\<rparr>"
    using assms(4) by (auto simp: rpc_established_def rpc_OnConnection_def Let_def init cid_def [symmetric] c_def ret_iff dest!: nid split: if_splits)
  then show ?thesis
  proof cases
    case 1
    with assms(2) view show ?thesis by (auto simp: rpc_inv_def cid_def)
  next
    case 2
    have v: "conn_view st' = (conn_view st)(user \<mapsto> cid)"
      by (auto simp: 2 conn_view_def c_def fun_eq_iff)
    have unused: "conn_view st y \<noteq> Some (rpc_next_id st)" for y using new(2) by (auto simp: cid_def intro: ranI)
    have none: "conn_view st user = None" using assms(3) by (simp add: conn_view_def)
    have "rpc_inv st'"
      using assms(2) cd new(1) unused none unfolding rpc_inv_def v
      by (auto simp: 2 om_ok_ins ran_map_upd inj_on_fun_updI cid_def om_get_ins_eq inj_on_def split: if_splits)
    then show ?thesis by (simp add: 2)
  qed
qed

lemma closed_inv:
  assumes "may_lock Looper st" and "rpc_inv st" and "om_get (rpc_connections st) user = Some c"
    and "rpc_OnDisconnected (conn_id c) st = Inr s1"
  shows "rpc_inv (s1\<lparr>rpc_connections := om_del user (rpc_connections s1)\<rparr>) \<and> rpc_mutex s1 = rpc_mutex st"
proof -
  have s1: "s1 = st\<lparr>rpc_data := om_del (conn_id c) (rpc_data st)\<rparr>"
    using assms(1,4) by (simp add: rpc_OnDisconnected_def rpc_lock_eq rpc_unlock_eq)
  let ?st = "s1\<lparr>rpc_connections := om_del user (rpc_connections s1)\<rparr>"
  have v: "conn_view ?st = (conn_view st)(user := None)"
    by (auto simp: s1 conn_view_def fun_eq_iff)
  have u: "conn_view st user = Some (conn_id c)" using assms(3) by (simp add: conn_view_def)
  have inj: "inj_on (conn_view st) (dom (conn_view st))" using assms(2) by (simp add: rpc_inv_def)
  have ran: "ran ((conn_view st)(user := None)) = ran (conn_view st) - {conn_id c}"
    using u inj by (auto simp: ran_def inj_on_def dom_def) (metis option.inject)
  have "inj_on ((conn_view st)(user := None)) (dom (conn_view st) - {user})"
    using inj by (auto simp: inj_on_def)
  then have "rpc_inv ?st"
    using assms(2) unfolding rpc_inv_def v ran by (auto simp: s1 om_ok_del om_get_del_eq dom_fun_upd split: if_splits)
  then show ?thesis by (simp add: s1)
qed

lemma callback_inv:
  assumes "rpc_env_ok E" and "rpc_inv st" and "rpc_mutex st = None" and "rpc_fresh st reason" and "rpc_LwsCallback E now reason st = Inr st'"
  shows "rpc_inv st' \<and> rpc_mutex st' = None"
proof -
  define s0 where "s0 = st\<lparr>rpc_mutex := Some (Looper, 0)\<rparr>"
  have s0: "rpc_inv s0" "may_lock Looper s0" "rpc_mutex s0 = Some (Looper, 0)" "rpc_connections s0 = rpc_connections st"
    using assms(2) by (simp_all add: s0_def may_lock_def)
  have unlock: "rpc_inv s \<and> rpc_mutex s = Some (Looper, 0) \<Longrightarrow> rpc_unlock Looper s = Inr st' \<Longrightarrow> ?thesis" for s
    by (auto simp: rpc_unlock_def)
  from assms(3) have lock: "rpc_lock Looper st = Inr s0" by (simp add: rpc_lock_def s0_def)
  note step = assms(5) [unfolded rpc_LwsCallback_def lock bindR_Inr]
  show ?thesis
  proof (cases reason)
    case (CALLBACK_ESTABLISHED user u args)
    with assms(4) s0(4) have "om_get (rpc_connections s0) user = None" by simp
    moreover from step CALLBACK_ESTABLISHED obtain s1 where s1: "rpc_established user (if args \<noteq> [] then u @ ''?'' @ args else u) s0 = Inr s1"
      "rpc_unlock Looper s1 = Inr st'"
      by (auto elim!: bindR_InrE)
    ultimately show ?thesis
      using established_inv [OF s0(2,1) _ s1(1)] s0(3) by (intro unlock [OF _ s1(2)]) simp
  next
    case (CALLBACK_CLOSED user)
    show ?thesis
    proof (cases "om_get (rpc_connections s0) user")
      case None
      with step CALLBACK_CLOSED s0 show ?thesis by (intro unlock [of s0]) simp_all
    next
      case (Some c)
      with step CALLBACK_CLOSED obtain s1 where s1: "rpc_OnDisconnected (conn_id c) s0 = Inr s1"
        "rpc_unlock Looper (s1\<lparr>rpc_connections := om_del user (rpc_connections s1)\<rparr>) = Inr st'"
        by (auto elim!: bindR_InrE)
      from closed_inv [OF s0(2,1) Some s1(1)] s0(3) show ?thesis by (intro unlock [OF _ s1(2)]) simp
    qed
  next
    case (CALLBACK_SERVER_WRITEABLE user ok)
    show ?thesis
    proof (cases "om_get (rpc_connections s0) user")
      case None
      with step CALLBACK_SERVER_WRITEABLE s0 show ?thesis by (intro unlock [of s0]) simp_all
    next
      case (Some c)
      obtain rest out r where d: "drain ok (write_queue c) = (rest, out, r)" by (metis prod_cases3)
      show ?thesis
        by (rule unlock [where s = "s0\<lparr>rpc_connections := om_ins user (c\<lparr>write_queue := rest\<rparr>) (rpc_connections s0)\<rparr>"])
           (use step CALLBACK_SERVER_WRITEABLE Some d s0(3) inv_connection [OF s0(1) Some] in simp_all)
    qed
  next
    case (CALLBACK_RECEIVE user d f l b)
    show ?thesis
    proof (cases "om_get (rpc_connections s0) user")
      case None
      with step CALLBACK_RECEIVE s0 show ?thesis by (intro unlock [of s0]) simp_all
    next
      case (Some c)
      with step CALLBACK_RECEIVE obtain s1 where s1: "rpc_OnFragmentReceived E now user c d f l b s0 = Inr s1"
        "rpc_unlock Looper s1 = Inr st'"
        by (auto elim!: bindR_InrE)
      from fragment_inv [OF assms(1) s0(2,1) Some s1(1)] s0(3) show ?thesis by (intro unlock [OF _ s1(2)]) simp
    qed
  qed
qed

section \<open>Calls of the platform\<close>

text \<open>What a relation between states must allow so that every call of the platform stays in it.\<close>

locale platform_effect = step_relation R for R :: "json_rpc \<Rightarrow> json_rpc \<Rightarrow> bool" +
  fixes E :: "'j rpc_env" and t :: rpc_thread
  assumes get: "post R snd st (GetConnectionData (re_json E) t cid ty st)"
    and ids: "post R snd st (GetAllConnectionIds E t st)"
    and send: "post R (\<lambda>x. x) st (SendJsonMessageToClient (re_json E) t cid j st)"
    and generate: "post R snd st (GenerateId E t cid st)"
    and tell: "R st (rpc_call c st)"
begin

lemma effect_respond: "post R (\<lambda>x. x) st (respond (re_json E) t cid i ms st)"
  unfolding respond_def by (rule post_rules send)+

lemma effect_respond_feature: "post R (\<lambda>x. x) st (respond_feature (re_json E) t cid i m f v st)"
  unfolding respond_feature_def by (rule effect_respond post_rules)+

lemma effect_settings: "post R (\<lambda>x. x) st (RespondFeatureSettings (re_json E) t cid i s st)"
  unfolding RespondFeatureSettings_def by (rule send post_rules)+

lemma effect_error_data: "post R (\<lambda>x. x) st (RespondErrorData (re_json E) t cid i c m d st)"
  unfolding RespondErrorData_def by (rule send post_rules)+

lemma effect_notify_ids: "post R snd st (notify_ids (re_json E) t m is st)"
proof (induction "is" arbitrary: st)
  case (Cons i "is")
  show ?case
    unfolding notify_ids.simps by (rule post_pair [OF get] Cons post_rules | simp only: prod.case)+
qed (simp add: post_def refl)

lemma effect_notify: "post R (\<lambda>x. x) st (NotifyFeature E t s st)"
  unfolding NotifyFeature_def SendNotifyMessage_def GetNotifyConnectionIds_def Let_def
  by (rule post_pair [OF ids] effect_notify_ids post_foldR send post_rules | simp only: prod.case)+

lemma effect_get_fields: "post R snd st (get_fields (re_json E) t cid tys st)"
proof (induction tys arbitrary: st)
  case (Cons ty tys)
  show ?case
    unfolding get_fields.simps by (rule post_pair [OF get] Cons post_rules | simp only: prod.case)+
qed (simp add: post_def refl)

lemma effect_intent_target: "post R snd st (intent_target (re_json E) t m i st)"
  unfolding intent_target_def
  by (rule post_pair [OF get] post_pair [OF effect_get_fields] post_rules | simp only: prod.case)+

lemma effect_check_intent: "post R snd st (check_intent (re_json E) t m is st)"
proof (induction "is" arbitrary: st)
  case (Cons i "is")
  show ?case
    unfolding check_intent.simps by (rule post_pair [OF effect_intent_target] Cons post_rules | simp only: prod.case)+
qed (simp add: post_def refl)

lemma effect_adjust: "post R snd st (AdjustTimeRange E t now cid m params st)"
  unfolding AdjustTimeRange_def Let_def
  by (rule post_pair [OF get] post_rules | simp only: prod.case)+

lemma effect_send_intents: "post R (\<lambda>x. x) st (send_intents E t now m cids params st)"
proof (induction cids arbitrary: params st)
  case (Cons cid cids)
  show ?case
    unfolding send_intents.simps
    by (rule post_pair [OF generate] post_pair [OF effect_adjust] Cons send post_rules | simp only: prod.case)+
qed (simp add: post_def refl)

lemma effect_intent: "post R (\<lambda>x. x) st (SendIntent E t now i st)"
  unfolding SendIntent_def SendIntentMessage_def CheckIntentMethod_def Let_def
  by (rule post_pair [OF ids] effect_check_intent effect_send_intents post_rules | simp only: prod.case)+

lemma effect_after_call: "post R p (rpc_call c st) m \<Longrightarrow> post R p st m"
  unfolding post_def using trans [OF tell] by blast

lemma effect_describe_loop: "post R (\<lambda>x. x) st (describe_loop (re_json E) t cids st)"
proof (induction cids arbitrary: st)
  case (Cons cid cids)
  show ?case
    unfolding describe_loop.simps
    by (rule post_pair [OF get] effect_after_call [OF Cons] post_rules tell | simp only: prod.case not_False_eq_True)+
qed (simp add: post_def refl)

lemma effect_platform: "post R (\<lambda>x. x) st (rpc_platform E t now ev st)"
  by (cases ev) (simp_all add: post_def [where m = "Inr st"] refl RespondFeatureSupportInfo_def RespondFeatureSuppress_def effect_respond_feature
      effect_settings RespondDialogueEnhancementOverride_def RespondTriggerResponseToUserAction_def effect_respond effect_error_data
      effect_notify effect_intent VoiceRequestDescription_def post_pair [OF ids] effect_describe_loop)

end

lemma keeps_generate:
  assumes "rpc_env_ok E"
  shows "post (keeps t C) snd st (GenerateId E t cid st)"
proof (rule post_keepsI)
  assume l: "may_lock t st"
  have J: "jsonlib_ok (re_json E)" by (rule rpc_env_okD(1) [OF assms])
  show ?thesis
  proof (cases "om_get (rpc_data st) cid")
    case None
    then show ?thesis
      by (simp add: GenerateId_def GetConnectionData_eq [OF l] GenerateId_store_def Let_def json_null [OF J] post_def kp.refl)
  next
    case (Some cd)
    have "set_field (re_json E) IntentIdCount v cd = Inr cd' \<Longrightarrow> cd_ok cd \<Longrightarrow> cd_ok cd'" for v cd'
      by (auto simp: set_field_def ret_iff cd_ok_def methods_ok_def media_ok_def dest: json_int(3) [OF J])
    with keeps_data [OF Some] show ?thesis
      by (auto simp: GenerateId_def GetConnectionData_eq [OF l] get_field_def Some GenerateId_store_def Let_def
          SetConnectionData_eq [OF l Some] post_def ret_iff kp.refl split: if_splits)
  qed
qed

text \<open>Calls of the platform keep the invariant.\<close>

definition keeps_if_ok :: "'j rpc_env \<Rightarrow> rpc_thread \<Rightarrow> json_rpc \<Rightarrow> json_rpc \<Rightarrow> bool" where
  "keeps_if_ok E t st st' \<longleftrightarrow> (rpc_env_ok E \<longrightarrow> keeps t {} st st')"

lemma post_if_ok: "(rpc_env_ok E \<Longrightarrow> post (keeps t {}) p st m) \<Longrightarrow> post (keeps_if_ok E t) p st m"
  by (auto simp: post_def keeps_if_ok_def)

interpretation kept: platform_effect "keeps_if_ok E t" E t for E t
proof unfold_locales
  show "keeps_if_ok E t s s" for s by (simp add: keeps_if_ok_def kp.refl)
  show "keeps_if_ok E t s s' \<Longrightarrow> keeps_if_ok E t s' s'' \<Longrightarrow> keeps_if_ok E t s s''" for s s' s''
    using kp.trans by (fastforce simp: keeps_if_ok_def)
  show "keeps_if_ok E t st (rpc_call c st)" for st c by (simp add: keeps_if_ok_def keeps_call)
qed (intro post_if_ok post_get post_ids post_send keeps_generate; assumption)+

lemma post_platform: "rpc_env_ok E \<Longrightarrow> post (keeps t {}) (\<lambda>x. x) st (rpc_platform E t now ev st)"
  using kept.effect_platform [of E t st now ev] by (simp add: post_def keeps_if_ok_def)

text \<open>A call of the platform is a sequence of sections: between them it only reads.\<close>

definition in_sections :: "'j rpc_env \<Rightarrow> nat \<Rightarrow> json_rpc \<Rightarrow> json_rpc \<Rightarrow> bool" where
  "in_sections E n st st' \<longleftrightarrow> (may_lock (Platform n) st \<longrightarrow>
     may_lock (Platform n) st' \<and> (\<exists>secs. run (rpc_section E) st secs = Inr st'))"

lemma one_section:
  assumes "rpc_section E st (now, sec) = Inr st'" and "may_lock (Platform n) st'"
  shows "in_sections E n st st'"
proof -
  have "run (rpc_section E) st [(now, sec)] = Inr st'" using assms(1) by simp
  with assms(2) show ?thesis unfolding in_sections_def by blast
qed

lemma in_sectionsI: "(may_lock (Platform n) st \<Longrightarrow> in_sections E n st st') \<Longrightarrow> in_sections E n st st'"
  by (simp add: in_sections_def)

lemma in_sections_refl: "in_sections E n st st"
  unfolding in_sections_def by (auto intro: exI [of _ "[]"])

lemma post_sectionsI: "(may_lock (Platform n) st \<Longrightarrow> post (in_sections E n) p st m) \<Longrightarrow> post (in_sections E n) p st m"
  by (auto simp: post_def in_sections_def)

lemma store_lock: "may_lock t st \<Longrightarrow> GenerateId_store E t cid data st = Inr (i, st') \<Longrightarrow> may_lock t st'"
  by (cases "om_get (rpc_data st) cid")
    (auto simp: GenerateId_store_def Let_def ret_iff SetConnectionData_eq SetConnectionData_unknown may_lock_def deeper_def
      split: if_splits option.splits)

lemma queue_lock: "may_lock t (queue_message cid m st) = may_lock t st"
  by (cases "GetConnection cid (rpc_connections st)") (auto simp: queue_message_def may_lock_def)

interpretation sections: platform_effect "in_sections E n" E "Platform n" for E n
proof unfold_locales
  show "in_sections E n s s' \<Longrightarrow> in_sections E n s' s'' \<Longrightarrow> in_sections E n s s''" for s s' s''
    unfolding in_sections_def by (metis run_append bindR_Inr)
  fix st cid ty
  show "post (in_sections E n) snd st (GetConnectionData (re_json E) (Platform n) cid ty st)"
    by (rule post_sectionsI) (auto simp: GetConnectionData_eq post_def ret_iff in_sections_refl)
next
  fix st
  show "post (in_sections E n) snd st (GetAllConnectionIds E (Platform n) st)"
    by (rule post_sectionsI) (auto simp: GetAllConnectionIds_eq post_def ret_iff in_sections_refl)
next
  fix st cid j
  show "post (in_sections E n) (\<lambda>x. x) st (SendJsonMessageToClient (re_json E) (Platform n) cid j st)"
  proof (rule post_sectionsI)
    assume l: "may_lock (Platform n) st"
    have "rpc_section E st (0, Send_section n cid j) = Inr (queue_message cid (jc_write (re_json E) j) st)"
      by (simp add: rpc_section_def Send_eq [OF l])
    from one_section [OF this] l show "post (in_sections E n) (\<lambda>x. x) st (SendJsonMessageToClient (re_json E) (Platform n) cid j st)"
      by (simp add: post_def Send_eq [OF l] queue_lock)
  qed
next
  fix st cid
  show "post (in_sections E n) snd st (GenerateId E (Platform n) cid st)"
  proof (rule post_sectionsI)
    assume l: "may_lock (Platform n) st"
    have "in_sections E n st st'" if "GenerateId_store E (Platform n) cid data st = Inr (i, st')" for data i st'
      using one_section [of E st 0 "Store_section n cid data" st' n] store_lock [OF l that] that by (simp add: rpc_section_def)
    then show "post (in_sections E n) snd st (GenerateId E (Platform n) cid st)"
      by (auto simp: post_def GenerateId_def GetConnectionData_eq [OF l] ret_iff split: option.splits)
  qed
next
  fix st c
  show "in_sections E n st (rpc_call c st)"
    by (rule in_sectionsI, rule one_section [of _ _ 0 "Tell_section c"]) (simp_all add: rpc_section_def rpc_call_def may_lock_def)
qed (rule in_sections_refl)

section \<open>Steps\<close>

lemma step_inv:
  assumes "rpc_env_ok E" and "rpc_inv st \<and> rpc_mutex st = None" and "rpc_step E st ev = Inr st'"
  shows "rpc_inv st' \<and> rpc_mutex st' = None"
proof -
  obtain n now e where ev: "ev = (n, now, e)" by (metis prod_cases3)
  show ?thesis
  proof (cases "\<exists>reason. e = Lws reason")
    case True
    then obtain reason where e: "e = Lws reason" by blast
    show ?thesis
    proof (cases "rpc_fresh st reason")
      case True
      with assms(3) have "rpc_LwsCallback E now reason st = Inr st'" by (simp add: rpc_step_def ev e)
      with True assms(2) show ?thesis by (intro callback_inv [OF assms(1)]) simp_all
    next
      case False
      with assms(2,3) show ?thesis by (simp add: rpc_step_def ev e)
    qed
  next
    case False
    then have "rpc_platform E (Platform n) now e st = Inr st'"
      using assms(3) by (cases e) (simp_all add: rpc_step_def ev)
    from postD [OF post_platform [OF assms(1), of "Platform n"] this] assms(2) show ?thesis
      by (simp add: keeps_def may_lock_def)
  qed
qed

definition rpc_good :: "'j rpc_env \<Rightarrow> json_rpc \<Rightarrow> bool" where
  "rpc_good E st \<longleftrightarrow> (rpc_env_ok E \<longrightarrow> rpc_inv st \<and> rpc_mutex st = None)"

interpretation rpc: event_system "rpc_step E" "rpc_good E" for E
  by unfold_locales (auto simp: rpc_good_def dest: step_inv)

lemma rpc_new_inv: "rpc_inv (JsonRpcService_new endpoint)"
  by (simp add: JsonRpcService_new_def rpc_inv_def conn_view_def om_ok_def dom_def)

lemma rpc_reachable:
  assumes "rpc_env_ok E" and "run (rpc_step E) (JsonRpcService_new endpoint) evs = Inr st"
  shows "rpc_inv st" and "rpc_mutex st = None"
proof -
  have "rpc_good E (JsonRpcService_new endpoint)"
    using rpc_new_inv by (simp add: rpc_good_def) (simp add: JsonRpcService_new_def)
  from rpc.run_inv [OF this assms(2)] assms(1) show "rpc_inv st" "rpc_mutex st = None"
    by (simp_all add: rpc_good_def)
qed

text \<open>Every step is a sequence of sections.\<close>

lemma step_sections:
  assumes "rpc_mutex st = None" and "rpc_step E st (n, now, ev) = Inr st'"
  shows "\<exists>secs. run (rpc_section E) st secs = Inr st'"
proof (cases "\<exists>reason. ev = Lws reason")
  case True
  then obtain reason where "ev = Lws reason" by blast
  with assms(2) have "run (rpc_section E) st [(now, Callback_section reason)] = Inr st'"
    by (simp add: rpc_section_def rpc_step_def)
  then show ?thesis by blast
next
  case False
  with assms(2) have "rpc_platform E (Platform n) now ev st = Inr st'" by (cases ev) (simp_all add: rpc_step_def)
  from postD [OF sections.effect_platform this] assms(1) show ?thesis by (auto simp: in_sections_def may_lock_def)
qed

section \<open>Sections\<close>

text \<open>The invariant between sections: the mutex is free, or a thread of the platform has left it locked.\<close>

definition section_good :: "'j rpc_env \<Rightarrow> json_rpc \<Rightarrow> bool" where
  "section_good E st \<longleftrightarrow> (rpc_env_ok E \<longrightarrow> rpc_inv st \<and> (\<forall>t k. rpc_mutex st = Some (t, k) \<longrightarrow> t \<noteq> Looper))"

lemma store_inv:
  assumes "rpc_env_ok E" and "rpc_inv st" and "GenerateId_store E (Platform n) cid data st = Inr (i, st')"
  shows "rpc_inv st' \<and> (rpc_mutex st' = rpc_mutex st \<or> (\<exists>k. rpc_mutex st' = Some (Platform n, k)))"
proof (cases "st' = st")
  case False
  from assms(3) False obtain m where set: "SetConnectionData (re_json E) (Platform n) cid IntentIdCount (jv_of_int (re_json E) m) st = Inr st'"
    by (auto simp: GenerateId_store_def Let_def ret_iff split: if_splits)
  then have l: "may_lock (Platform n) st"
    by (auto simp: SetConnectionData_def rpc_lock_def may_lock_def ret_iff split: option.splits if_splits)
  show ?thesis
  proof (cases "om_get (rpc_data st) cid")
    case None
    with set have "st' = st\<lparr>rpc_mutex := deeper (Platform n) (rpc_mutex st)\<rparr>"
      by (simp add: SetConnectionData_unknown [OF l])
    with assms(2) show ?thesis by (auto simp: deeper_def split: option.splits)
  next
    case (Some cd)
    with set obtain k where k: "in_int k" "st' = st\<lparr>rpc_data := om_ins cid (cd\<lparr>cd_intentIdCount := k\<rparr>) (rpc_data st)\<rparr>"
      by (auto simp: SetConnectionData_eq [OF l Some] set_field_def ret_iff or_throw_def split: option.splits
          dest: json_int(3) [OF rpc_env_okD(1) [OF assms(1)]])
    have "cd_ok cd" using assms(2) Some by (auto simp: rpc_inv_def)
    then have "cd_ok (cd\<lparr>cd_intentIdCount := k\<rparr>)" using k(1) by (simp add: cd_ok_def methods_ok_def media_ok_def)
    from inv_data [OF assms(2) Some this] show ?thesis by (simp add: k(2))
  qed
qed (use assms(2) in simp)

lemma send_inv:
  assumes "rpc_inv st" and "SendJsonMessageToClient J t cid j st = Inr st'"
  shows "rpc_inv st' \<and> rpc_mutex st' = rpc_mutex st"
proof -
  from assms(2) have l: "may_lock t st"
    by (auto simp: SendJsonMessageToClient_def rpc_lock_def may_lock_def ret_iff split: option.splits if_splits)
  from assms(2) have "st' = queue_message cid (jc_write J j) st" by (simp add: Send_eq [OF l])
  with inv_queue [OF assms(1), of cid] show ?thesis by (simp add: queue_message_def split: option.splits prod.splits)
qed

lemma callback_unlocked: "rpc_LwsCallback E now reason st = Inr st' \<Longrightarrow> rpc_mutex st \<noteq> Some (Platform n, k)"
  by (auto simp: rpc_LwsCallback_def rpc_lock_def ret_iff)

lemma section_inv:
  assumes "rpc_env_ok E" and "section_good E st" and "rpc_section E st e = Inr st'"
  shows "section_good E st'"
proof -
  obtain now sec where e: "e = (now, sec)" by (cases e)
  have inv: "rpc_inv st" and m: "\<And>t k. rpc_mutex st = Some (t, k) \<Longrightarrow> t \<noteq> Looper"
    using assms(1,2) by (auto simp: section_good_def)
  show ?thesis
  proof (cases sec)
    case (Callback_section reason)
    with assms(3) have step: "rpc_step E st (0, now, Lws reason) = Inr st'" by (simp add: rpc_section_def e)
    show ?thesis
    proof (cases "rpc_fresh st reason")
      case True
      with step have cb: "rpc_LwsCallback E now reason st = Inr st'" by (simp add: rpc_step_def)
      have "rpc_mutex st = None"
      proof (cases "rpc_mutex st")
        case (Some u)
        obtain t k where "u = (t, k)" by (cases u)
        with Some m callback_unlocked [OF cb] show ?thesis by (cases t) auto
      qed
      with step_inv [OF assms(1) _ step] inv show ?thesis by (simp add: section_good_def)
    next
      case False
      with step assms(2) show ?thesis by (simp add: rpc_step_def)
    qed
  next
    case (Store_section n cid data)
    with assms(3) obtain i where "GenerateId_store E (Platform n) cid data st = Inr (i, st')"
      by (auto simp: rpc_section_def e ret_iff)
    from store_inv [OF assms(1) inv this] m show ?thesis by (auto simp: section_good_def)
  next
    case (Send_section n cid j)
    with assms(3) have "SendJsonMessageToClient (re_json E) (Platform n) cid j st = Inr st'" by (simp add: rpc_section_def e)
    from send_inv [OF inv this] m show ?thesis by (simp add: section_good_def)
  next
    case (Tell_section c)
    with assms(3) have "st' = rpc_call c st" by (simp add: rpc_section_def e)
    with inv m show ?thesis by (simp add: section_good_def rpc_call_def)
  qed
qed

interpretation rpcs: event_system "rpc_section E" "section_good E" for E
  by unfold_locales (metis section_good_def section_inv)

lemma sections_reachable:
  assumes "rpc_env_ok E" and "run (rpc_section E) (JsonRpcService_new endpoint) secs = Inr st"
  shows "rpc_inv st" and "rpc_mutex st = Some (t, k) \<Longrightarrow> t \<noteq> Looper"
proof -
  have "section_good E (JsonRpcService_new endpoint)"
    using rpc_new_inv by (simp add: section_good_def) (simp add: JsonRpcService_new_def)
  from rpcs.run_inv [OF this assms(2)] assms(1) show "rpc_inv st" "rpc_mutex st = Some (t, k) \<Longrightarrow> t \<noteq> Looper"
    by (auto simp: section_good_def)
qed

end
