(* ===== verification/JsonRpcEffects.thy ===== *)
theory JsonRpcEffects
  imports JsonRpcRun
begin

text \<open>
  What a step of the JSON-RPC service does in a state that satisfies the invariant: which request is refused, which
  connections an intent or a notification goes to, where a seek ends, and what is left of the mutex when a connection
  closes inside a call of the platform.
\<close>

section \<open>Requests that were not negotiated\<close>

lemma GetConnection_known:
  assumes "om_get cs u = Some c"
  obtains u' c' where "GetConnection (conn_id c) cs = Some (u', c')"
proof -
  from assms have "(u, c) \<in> set cs" by (auto simp: om_get_def dest: map_of_SomeD)
  then have "GetConnection (conn_id c) cs \<noteq> None" by (auto simp: GetConnection_def find_None_iff)
  then show ?thesis using that by auto
qed

lemma queue_sent:
  assumes "rpc_inv st" and "cid \<in> dom (om_get (rpc_data st))"
  shows "rpc_sent (queue_message cid m st) = rpc_sent st @ [(cid, m)]"
proof -
  from assms obtain u c where "om_get (rpc_connections st) u = Some c" "conn_id c = cid"
    by (auto simp: rpc_inv_def conn_view_def ran_def)
  then obtain u' c' where "GetConnection cid (rpc_connections st) = Some (u', c')"
    using GetConnection_known by metis
  then show ?thesis by (simp add: queue_message_def)
qed

lemma dispatch_refused:
  assumes "rpc_env_ok E" and "may_lock Looper st" and "om_get (rpc_data st) cid = Some cd"
    and "HasParam (re_json E) obj ''method'' stringValue = Inr True" and "j_member (re_json E) obj ''method'' = Inr v"
    and "j_string (re_json E) v = Inr m" and "m \<notin> set (cd_appToTerminal cd)"
  shows "dispatch E now cid obj st = Inr (METHOD_NOT_FOUND, st)"
proof -
  have J: "jsonlib_ok (re_json E)" by (rule rpc_env_okD(1) [OF assms(1)])
  obtain a where a: "GetMethodsInJsonArray (re_json E) (cd_appToTerminal cd) = Inr a"
    using methods_array [OF J, of "cd_appToTerminal cd"] by blast
  have "IsMethodInJsonArray (re_json E) a m = Inr False"
    using method_in_array(1) [OF J a, of m] assms(7) by simp
  with a show ?thesis
    by (simp add: dispatch_def find_method_def Let_def assms(3-6) GetConnectionData_eq [OF assms(2)] get_field_def reject_def)
qed

lemma status_refused:
  assumes "rpc_env_ok E" and "may_lock Looper st" and "om_get (rpc_data st) cid = Some cd"
    and "HasParam (re_json E) obj ''method'' stringValue = Inr True" and "j_member (re_json E) obj ''method'' = Inr v"
    and "j_string (re_json E) v = Inr m" and "m \<notin> set (cd_appToTerminal cd)"
    and "HasJsonParam (re_json E) obj ''error'' = Inr False" and "message_status E now cid obj st = Inr (s, st')"
  shows "st' = st \<and> s \<in> {INVALID_REQUEST, METHOD_NOT_FOUND}"
  using assms(9) dispatch_refused [OF assms(1-7)] assms(8)
  by (auto simp: message_status_def Let_def reject_def ret_iff split: if_splits)

lemma RespondError_eq:
  assumes "may_lock t st" and "RespondError J t cid i code msg st = Inr st'"
  obtains r where "st' = queue_message cid r st"
  using assms by (auto simp: RespondError_def Send_eq ret_iff)

text \<open>A message in one fragment, from the callback to its handler.\<close>

lemma receive_step:
  assumes "rpc_mutex st = None" and "om_get (rpc_connections st) u = Some c"
    and "rpc_step E st (n, now, Lws (CALLBACK_RECEIVE u d True True False)) = Inr st'"
  defines "s1 \<equiv> st\<lparr>rpc_mutex := Some (Looper, 0), rpc_connections := om_ins u (c\<lparr>text_buffer := d\<rparr>) (rpc_connections st)\<rparr>"
  obtains s2 where "OnMessageReceived E now (conn_id c) d s1 = Inr s2" and "rpc_unlock Looper s2 = Inr st'"
  using assms(3) unfolding rpc_step_def
  by (auto simp: rpc_LwsCallback_def rpc_lock_def assms(1,2) rpc_OnFragmentReceived_def Let_def s1_def ret_iff intro: that)

section \<open>Intents\<close>

definition actions_of :: "ConnectionData \<Rightarrow> bool list" where
  "actions_of cd = [cd_actionPause cd, cd_actionPlay cd, cd_actionFastForward cd, cd_actionFastReverse cd, cd_actionStop cd,
     cd_actionSeekContent cd, cd_actionSeekRelative cd, cd_actionSeekLive cd, cd_actionSeekWallclock cd]"

text \<open>An application gets an intent when it is ready for the voice control, has negotiated the intent, and the state of its
  media allows it.\<close>

definition intent_eligible :: "string \<Rightarrow> ConnectionData \<Rightarrow> bool" where
  "intent_eligible method cd \<longleftrightarrow> cd_voiceReady cd \<and> method \<in> set (cd_terminalToApp cd) \<and> intent_allowed method (cd_state cd) (actions_of cd)"

lemma as_bools_of: "jsonlib_ok J \<Longrightarrow> as_bools J (map (jv_of_bool J) bs) = Inr bs"
  by (induction bs) (simp_all add: json_bool or_throw_def)

lemma intent_fields_of:
  assumes "may_lock t st" and "om_get (rpc_data st) i = Some cd"
  shows "get_fields J t i intent_fields st = Inr (jc_of_string J (cd_state cd) # map (jv_of_bool J) (actions_of cd), st)"
  by (rule get_fields_eq [OF assms]) (simp add: intent_fields_def actions_of_def get_field_def)

lemma intent_target_eq:
  assumes "jsonlib_ok J" and "may_lock t st" and "om_get (rpc_data st) i = Some cd"
  shows "intent_target J t m i st = Inr (intent_eligible m cd, st)"
proof -
  obtain a where a: "GetMethodsInJsonArray J (cd_terminalToApp cd) = Inr a"
    using methods_array [OF assms(1), of "cd_terminalToApp cd"] by blast
  note ma = method_in_array [OF assms(1) a]
  have "list_all (jv_is_bool J) (map (jv_of_bool J) (actions_of cd))"
    by (simp add: list_all_iff json_bool [OF assms(1)])
  then show ?thesis
    by (auto simp: intent_target_def GetConnectionData_eq [OF assms(2)] assms(3) get_field_def a ma json_bool [OF assms(1)]
        intent_fields_of [OF assms(2,3)] json_string [OF assms(1)] as_bools_of [OF assms(1)] or_throw_def intent_eligible_def)
qed

lemma check_intent_eq:
  assumes "jsonlib_ok J" and "may_lock t st" and "set ids \<subseteq> dom (om_get (rpc_data st))"
  shows "check_intent J t m ids st = Inr (filter (\<lambda>i. intent_eligible m (the (om_get (rpc_data st) i))) ids, st)"
  using assms(3) by (induction ids) (auto simp: intent_target_eq [OF assms(1,2)])

lemma GenerateId_eq:
  assumes "jsonlib_ok (re_json E)" and "may_lock t st" and "om_get (rpc_data st) cid = Some cd" and "cd_ok cd"
  shows "GenerateId E t cid st = bindR (int_op (cd_intentIdCount cd + 1)) (\<lambda>n.
    Inr (jv_write_string (re_json E) (jc_of_string (re_json E) (''IntentId'' @ dec_int n)),
         st\<lparr>rpc_data := om_ins cid (cd\<lparr>cd_intentIdCount := n\<rparr>) (rpc_data st)\<rparr>))"
proof -
  have "in_int (cd_intentIdCount cd)" using assms(4) by (simp add: cd_ok_def)
  then show ?thesis
    by (auto simp: GenerateId_def GetConnectionData_eq [OF assms(2)] assms(3) get_field_def GenerateId_store_def Let_def
        json_int [OF assms(1)] or_throw_def SetConnectionData_eq [OF assms(2,3)] set_field_def EncodeJsonId_def
        json_string [OF assms(1)] int_op_def)
qed

lemma Adjust_state: "may_lock t st \<Longrightarrow> AdjustTimeRange E t now cid m params st = Inr (params', st') \<Longrightarrow> st' = st"
  by (auto simp: AdjustTimeRange_def Let_def GetConnectionData_eq ret_iff split: if_splits)

text \<open>The message that carries an intent, with the id made of the number of intents sent on the connection.\<close>

definition intent_message :: "'j rpc_env \<Rightarrow> string \<Rightarrow> int \<Rightarrow> 'j \<Rightarrow> 'j res" where
  "intent_message E method n params =
     (let J = re_json E in
      CreateIntentResponse J (jv_write_string J (jc_of_string J (''IntentId'' @ dec_int n))) method params)"

definition carries :: "'j rpc_env \<Rightarrow> string \<Rightarrow> int \<Rightarrow> string \<Rightarrow> bool" where
  "carries E method n msg \<longleftrightarrow> (\<exists>params r. intent_message E method n params = Inr r \<and> msg = jc_write (re_json E) r)"

definition intent_count :: "json_rpc \<Rightarrow> int \<Rightarrow> int" where
  "intent_count st cid = cd_intentIdCount (the (om_get (rpc_data st) cid))"

definition counted :: "int set \<Rightarrow> json_rpc \<Rightarrow> int \<Rightarrow> ConnectionData option" where
  "counted C st k = (if k \<in> C then map_option (\<lambda>cd. cd\<lparr>cd_intentIdCount := cd_intentIdCount cd + 1\<rparr>) (om_get (rpc_data st) k)
     else om_get (rpc_data st) k)"

text \<open>The first round of the loop over the connections: the counter is stored, the parameters are adjusted, the message is
  queued.\<close>

lemma send_intents_Cons:
  assumes "rpc_env_ok E" and "may_lock t st" and "rpc_inv st" and "om_get (rpc_data st) cid = Some cd"
    and "send_intents E t now method (cid # cids) params st = Inr st'"
  defines "s1 \<equiv> st\<lparr>rpc_data := om_ins cid (cd\<lparr>cd_intentIdCount := cd_intentIdCount cd + 1\<rparr>) (rpc_data st)\<rparr>"
  obtains p r s2 where "AdjustTimeRange E t now cid method params s1 = Inr (p, s1)" and "may_lock t s1" and "rpc_inv s1"
    and "intent_message E method (cd_intentIdCount cd + 1) p = Inr r" and "may_lock t s2" and "rpc_inv s2"
    and "rpc_data s2 = rpc_data s1" and "rpc_calls s2 = rpc_calls st" and "rpc_sent s2 = rpc_sent st @ [(cid, jc_write (re_json E) r)]"
    and "send_intents E t now method cids p s2 = Inr st'"
proof -
  have J: "jsonlib_ok (re_json E)" by (rule rpc_env_okD(1) [OF assms(1)])
  have ok: "cd_ok cd" using assms(3,4) by (auto simp: rpc_inv_def)
  define n where "n = cd_intentIdCount cd + 1"
  have lock1: "may_lock t s1" using assms(2) by (simp add: s1_def may_lock_def)
  define rest where "rest = (\<lambda>(p, s). bindR (CreateIntentResponse (re_json E) (jv_write_string (re_json E)
      (jc_of_string (re_json E) (''IntentId'' @ dec_int n))) method p) (\<lambda>r. bindR (SendJsonMessageToClient (re_json E) t cid r s) (\<lambda>s.
      send_intents E t now method cids p s)))"
  from assms(5) obtain p s where n: "in_int n" and adj: "AdjustTimeRange E t now cid method params s1 = Inr (p, s)"
    and "rest (p, s) = Inr st'"
    by (auto simp: GenerateId_eq [OF J assms(2,4) ok] n_def [symmetric] ret_iff s1_def rest_def)
  with Adjust_state [OF lock1 adj] obtain r where r: "intent_message E method n p = Inr r"
      and rest: "send_intents E t now method cids p (queue_message cid (jc_write (re_json E) r) s1) = Inr st'"
    by (auto simp: rest_def intent_message_def Let_def ret_iff Send_eq [OF lock1])
  have inv1: "rpc_inv s1" unfolding s1_def
    by (rule inv_data [OF assms(3,4)]) (use ok n in \<open>simp add: cd_ok_def methods_ok_def media_ok_def n_def\<close>)
  have "cid \<in> dom (om_get (rpc_data s1))" by (simp add: s1_def dom_def)
  from queue_sent [OF inv1 this] have sent: "rpc_sent (queue_message cid (jc_write (re_json E) r) s1) = rpc_sent st @ [(cid, jc_write (re_json E) r)]"
    by simp (simp add: s1_def)
  show thesis
    by (rule that [of p r "queue_message cid (jc_write (re_json E) r) s1"])
      (use adj Adjust_state [OF lock1 adj] lock1 inv1 r rest sent inv_queue [OF inv1] in \<open>simp_all add: n_def may_lock_def\<close>, simp add: s1_def)
qed

lemma send_intents_effect:
  assumes "rpc_env_ok E" and "may_lock t st" and "rpc_inv st" and "distinct cids" and "set cids \<subseteq> dom (om_get (rpc_data st))"
    and "send_intents E t now method cids params st = Inr st'"
  shows "rpc_calls st' = rpc_calls st \<and> om_get (rpc_data st') = counted (set cids) st
    \<and> (\<exists>msgs. rpc_sent st' = rpc_sent st @ msgs \<and> list_all2 (\<lambda>cid (k, m). k = cid \<and> carries E method (intent_count st cid + 1) m) cids msgs)"
  using assms(2-6)
proof (induction cids arbitrary: st params)
  case Nil
  then show ?case by (auto simp: counted_def fun_eq_iff)
next
  case (Cons cid cids)
  obtain cd where cd: "om_get (rpc_data st) cid = Some cd" using Cons.prems(4) by auto
  define s1 where "s1 = st\<lparr>rpc_data := om_ins cid (cd\<lparr>cd_intentIdCount := cd_intentIdCount cd + 1\<rparr>) (rpc_data st)\<rparr>"
  obtain p r s2 where r: "intent_message E method (cd_intentIdCount cd + 1) p = Inr r"
    and s2: "may_lock t s2" "rpc_inv s2" "rpc_data s2 = rpc_data s1" "rpc_calls s2 = rpc_calls st"
    and sent: "rpc_sent s2 = rpc_sent st @ [(cid, jc_write (re_json E) r)]" and rest: "send_intents E t now method cids p s2 = Inr st'"
    by (rule send_intents_Cons [OF assms(1) Cons.prems(1,2) cd Cons.prems(5)]) (auto simp: s1_def)
  have dom: "set cids \<subseteq> dom (om_get (rpc_data s2))" and counts: "\<And>k. k \<in> set cids \<Longrightarrow> intent_count s2 k = intent_count st k"
    using Cons.prems(3,4) by (auto simp: s2 s1_def intent_count_def)
  from Cons.IH [OF s2(1,2) _ dom rest] Cons.prems(3) obtain msgs
    where ih: "rpc_calls st' = rpc_calls s2" "om_get (rpc_data st') = counted (set cids) s2" "rpc_sent st' = rpc_sent s2 @ msgs"
      "list_all2 (\<lambda>cid (k, m). k = cid \<and> carries E method (intent_count s2 cid + 1) m) cids msgs" by auto
  have "carries E method (intent_count st cid + 1) (jc_write (re_json E) r)"
    using r cd by (auto simp: carries_def intent_count_def)
  moreover have "list_all2 (\<lambda>cid (k, m). k = cid \<and> carries E method (intent_count st cid + 1) m) cids msgs"
    using ih(4) counts by (auto elim!: list.rel_mono_strong)
  moreover have "om_get (rpc_data st') = counted (set (cid # cids)) st"
    using Cons.prems(3) cd by (auto simp: ih(2) counted_def s2 s1_def fun_eq_iff)
  ultimately show ?case using ih(1,3) s2(4) sent by auto
qed

text \<open>The connections that an intent goes to, in the order in which the table is visited.\<close>

definition targets :: "'j rpc_env \<Rightarrow> string \<Rightarrow> json_rpc \<Rightarrow> int list" where
  "targets E method st = filter (\<lambda>i. intent_eligible method (the (om_get (rpc_data st) i))) (re_order E (map fst (rpc_data st)))"

lemma data_keys:
  assumes "rpc_inv st"
  shows "set (map fst (rpc_data st)) = dom (om_get (rpc_data st))" and "distinct (map fst (rpc_data st))"
  using assms om.keys_get [of "rpc_data st"] om.keys_distinct [of "rpc_data st"] by (auto simp: rpc_inv_def om_keys_def)

lemma SendIntent_effect:
  assumes "rpc_env_ok E" and "may_lock t st" and "rpc_inv st" and "SendIntent E t now i st = Inr st'"
  shows "rpc_calls st' = rpc_calls st \<and> om_get (rpc_data st') = counted (set (targets E (intent_method i) st)) st
    \<and> (\<exists>msgs. rpc_sent st' = rpc_sent st @ msgs \<and>
         list_all2 (\<lambda>cid (k, m). k = cid \<and> carries E (intent_method i) (intent_count st cid + 1) m) (targets E (intent_method i) st) msgs)"
proof -
  let ?ids = "re_order E (map fst (rpc_data st))"
  have ids: "set ?ids = dom (om_get (rpc_data st))" "distinct ?ids"
    using data_keys [OF assms(3)] rpc_env_okD(3,4) [OF assms(1)] by auto
  from assms(4) obtain params where "send_intents E t now (intent_method i) (targets E (intent_method i) st) params st = Inr st'"
    by (auto simp: SendIntent_def SendIntentMessage_def CheckIntentMethod_def Let_def ret_iff GetAllConnectionIds_eq [OF assms(2)]
        check_intent_eq [OF rpc_env_okD(1) [OF assms(1)] assms(2)] ids targets_def)
  from send_intents_effect [OF assms(1-3) _ _ this] ids show ?thesis
    by (auto simp: targets_def)
qed

section \<open>Notifications\<close>

definition subscribed_to :: "string \<Rightarrow> ConnectionData \<Rightarrow> bool" where
  "subscribed_to msgType cd \<longleftrightarrow> msgType \<in> set (cd_subscribed cd) \<and> MD_NOTIFY \<in> set (cd_terminalToApp cd)"

lemma notify_ids_eq:
  assumes "jsonlib_ok J" and "may_lock t st" and "set ids \<subseteq> dom (om_get (rpc_data st))"
  shows "notify_ids J t m ids st = Inr (filter (\<lambda>i. subscribed_to m (the (om_get (rpc_data st) i))) ids, st)"
  using assms(3)
proof (induction ids)
  case (Cons i ids)
  then obtain cd where cd: "om_get (rpc_data st) i = Some cd" by auto
  obtain a b where a: "GetMethodsInJsonArray J (cd_subscribed cd) = Inr a" and b: "GetMethodsInJsonArray J (cd_terminalToApp cd) = Inr b"
    using methods_array [OF assms(1), of "cd_subscribed cd"] methods_array [OF assms(1), of "cd_terminalToApp cd"] by metis
  note ma = method_in_array [OF assms(1) a] method_in_array [OF assms(1) b]
  from Cons show ?case
    by (auto simp: GetConnectionData_eq [OF assms(2)] cd get_field_def a b ma subscribed_to_def)
qed simp

lemma foldR_send:
  assumes "may_lock t st" and "rpc_inv st" and "set ids \<subseteq> dom (om_get (rpc_data st))"
    and "foldR (\<lambda>i. SendJsonMessageToClient J t i r) ids st = Inr st'"
  shows "rpc_calls st' = rpc_calls st \<and> rpc_data st' = rpc_data st \<and> rpc_sent st' = rpc_sent st @ map (\<lambda>i. (i, jc_write J r)) ids"
  using assms
proof (induction ids arbitrary: st)
  case (Cons i ids)
  let ?s = "queue_message i (jc_write J r) st"
  have "may_lock t ?s" "rpc_inv ?s" "set ids \<subseteq> dom (om_get (rpc_data ?s))"
    using Cons.prems inv_queue by (simp_all add: may_lock_def)
  moreover have "foldR (\<lambda>i. SendJsonMessageToClient J t i r) ids ?s = Inr st'"
    using Cons.prems(4) by (simp add: Send_eq [OF Cons.prems(1)])
  moreover have "rpc_sent ?s = rpc_sent st @ [(i, jc_write J r)]"
    using Cons.prems by (intro queue_sent) auto
  ultimately show ?case using Cons.IH [of ?s] by simp
qed simp

lemma feature_id: "map_of ACCESSIBILITY_FEATURE_NAMES (GetAccessibilityFeatureId (feature_name s)) = Some (feature_name s)"
  by (cases s) (simp_all add: GetAccessibilityFeatureId_def ACCESSIBILITY_FEATURE_IDS_def ACCESSIBILITY_FEATURE_NAMES_def F_NAMES_def)

lemma Notify_effect:
  assumes "rpc_env_ok E" and "may_lock t st" and "rpc_inv st" and "NotifyFeature E t s st = Inr st'"
  shows "rpc_calls st' = rpc_calls st \<and> rpc_data st' = rpc_data st \<and> (\<exists>m. rpc_sent st' = rpc_sent st @
    map (\<lambda>i. (i, m)) (filter (\<lambda>i. subscribed_to (feature_name s @ ''PrefChange'') (the (om_get (rpc_data st) i))) (re_order E (map fst (rpc_data st)))))"
proof -
  let ?ids = "re_order E (map fst (rpc_data st))"
  let ?to = "filter (\<lambda>i. subscribed_to (feature_name s @ ''PrefChange'') (the (om_get (rpc_data st) i))) ?ids"
  have ids: "set ?ids = dom (om_get (rpc_data st))"
    using data_keys [OF assms(3)] rpc_env_okD(3) [OF assms(1)] by auto
  from assms(4) obtain r where "foldR (\<lambda>i. SendJsonMessageToClient (re_json E) t i r) ?to st = Inr st'"
    by (auto simp: NotifyFeature_def SendNotifyMessage_def GetNotifyConnectionIds_def Let_def ret_iff feature_id
        GetAllConnectionIds_eq [OF assms(2)] notify_ids_eq [OF rpc_env_okD(1) [OF assms(1)] assms(2)] ids)
  from foldR_send [OF assms(2,3) _ this] ids show ?thesis by auto
qed

section \<open>Seeking\<close>

lemma seek_offset_range:
  assumes "jsonlib_ok J" and "jv_type J params \<in> {nullValue, objectValue}" and "lo \<le> hi"
    and "seek_offset J now bias lo hi params = Inr params'"
  shows "\<exists>anchor old new v w. seek_anchor J now bias lo hi params = Inr anchor
    \<and> jc_get J params ''offset'' = Some v \<and> jv_as_int J v = Some old
    \<and> jc_get J params' ''offset'' = Some w \<and> jv_as_int J w = Some new
    \<and> lo \<le> anchor + new \<and> anchor + new \<le> hi \<and> (lo \<le> anchor + old \<and> anchor + old \<le> hi \<longrightarrow> new = old)"
proof -
  from assms(4) obtain anchor v old where a: "seek_anchor J now bias lo hi params = Inr anchor" "jc_get J params ''offset'' = Some v"
    "jv_as_int J v = Some old" "in_int (min (max (anchor + old) lo) hi - anchor)"
    and p: "jc_put J params ''offset'' (jv_of_int J (min (max (anchor + old) lo) hi - anchor)) = Some params'"
    by (auto simp: seek_offset_def ret_iff j_member_def)
  define x where "x = jv_of_int J (min (max (anchor + old) lo) hi - anchor)"
  obtain p' where "jc_put J params ''offset'' x = Some p'" and "jv_type J p' = objectValue"
    and g: "\<And>k'. jc_get J p' k' = (if k' = ''offset'' then Some x else jc_get J params k')"
    and "\<And>k'. jv_is_member J p' k' = (if k' = ''offset'' then Some True else jv_is_member J params k')"
    by (rule json_put [OF assms(1,2), where k = "''offset''" and x = x]) (rule that)
  with p have "p' = params'" by (simp add: x_def)
  with g have "jc_get J params' ''offset'' = Some (jv_of_int J (min (max (anchor + old) lo) hi - anchor))" by (simp add: x_def)
  moreover have "jv_as_int J (jv_of_int J (min (max (anchor + old) lo) hi - anchor)) = Some (min (max (anchor + old) lo) hi - anchor)"
    by (rule json_int(2) [OF assms(1) a(4)])
  ultimately show ?thesis using a(1-3) assms(3) by (intro exI conjI) (assumption | simp | linarith)+
qed

lemma AdjustTimeRange_eq:
  assumes "jsonlib_ok (re_json E)" and "may_lock t st" and "om_get (rpc_data st) cid = Some cd" and "cd_ok cd" and "cd_startTime cd \<noteq> -1"
  shows "AdjustTimeRange E t now cid method params st =
    bindR (if method = MD_INTENT_PLAYBACK then or_throw (jv_is_member (re_json E) params ''offset'') else Inr False) (\<lambda>po.
    bindR (if method \<in> {MD_INTENT_MEDIA_SEEK_CONTENT, MD_INTENT_MEDIA_SEEK_RELATIVE, MD_INTENT_MEDIA_SEEK_LIVE} \<or> po
             then seek_offset (re_json E) now (cd_biasToSystemTime cd) (cd_startTime cd) (cd_endTime cd) params
           else if method = MD_INTENT_MEDIA_SEEK_WALLCLOCK then seek_wallclock E (cd_startTime cd) (cd_endTime cd) params
           else Inr params) (\<lambda>p. Inr (p, st)))"
proof -
  have r: "in_int (cd_biasToSystemTime cd)" "in_int (cd_startTime cd)" "in_int (cd_endTime cd)" "cd_endTime cd \<noteq> -1"
    using assms(4,5) by (auto simp: cd_ok_def media_ok_def in_int_def INT_MIN_def INT_MAX_def)
  show ?thesis
    by (simp add: AdjustTimeRange_def Let_def GetConnectionData_eq [OF assms(2)] assms(3) get_field_def
        json_int [OF assms(1)] r assms(5) or_throw_def)
qed

lemma Adjust_no_media:
  assumes "jsonlib_ok (re_json E)" and "may_lock t st" and "om_get (rpc_data st) cid = Some cd" and "cd_ok cd" and "cd_startTime cd = -1"
  shows "AdjustTimeRange E t now cid method params st = Inr (params, st)"
proof -
  have r: "in_int (cd_biasToSystemTime cd)" "in_int (cd_startTime cd)" "in_int (cd_endTime cd)"
    using assms(4,5) by (auto simp: cd_ok_def media_ok_def in_int_def INT_MIN_def INT_MAX_def)
  show ?thesis
    by (simp add: AdjustTimeRange_def Let_def GetConnectionData_eq [OF assms(2)] assms(3) get_field_def
        json_int [OF assms(1)] r(1,3) r(2) [unfolded assms(5)] assms(5) or_throw_def)
qed

text \<open>The offset of parameters that are an object, and what a connection makes of it. The anchor does not depend on the offset.\<close>

definition offset_of :: "'j jsonlib \<Rightarrow> 'j \<Rightarrow> int option" where
  "offset_of J p = (case jc_get J p ''offset'' of None \<Rightarrow> None | Some v \<Rightarrow> jv_as_int J v)"

definition clamped :: "'j jsonlib \<Rightarrow> int \<Rightarrow> ConnectionData \<Rightarrow> 'j \<Rightarrow> int \<Rightarrow> int \<Rightarrow> bool" where
  "clamped J now cd p old new \<longleftrightarrow>
     (if cd_startTime cd = -1 then new = old
      else \<exists>anchor. seek_anchor J now (cd_biasToSystemTime cd) (cd_startTime cd) (cd_endTime cd) p = Inr anchor
        \<and> cd_startTime cd \<le> anchor + new \<and> anchor + new \<le> cd_endTime cd
        \<and> (cd_startTime cd \<le> anchor + old \<and> anchor + old \<le> cd_endTime cd \<longrightarrow> new = old))"

abbreviation seek_methods :: "string set" where
  "seek_methods \<equiv> {MD_INTENT_MEDIA_SEEK_CONTENT, MD_INTENT_MEDIA_SEEK_RELATIVE, MD_INTENT_MEDIA_SEEK_LIVE}"

lemma Adjust_clamps:
  assumes "jsonlib_ok (re_json E)" and "may_lock t st" and "om_get (rpc_data st) cid = Some cd" and "cd_ok cd"
    and "method \<in> seek_methods" and "jv_type (re_json E) p = objectValue" and "offset_of (re_json E) p = Some old"
    and "AdjustTimeRange E t now cid method p st = Inr (p', st')"
  obtains new where "jv_type (re_json E) p' = objectValue" and "offset_of (re_json E) p' = Some new"
    and "clamped (re_json E) now cd p' old new"
proof (cases "cd_startTime cd = -1")
  case True
  with assms(8) Adjust_no_media [OF assms(1-4) True] have "p' = p" by simp
  with assms(6,7) True show thesis by (intro that [of old]) (simp_all add: clamped_def)
next
  case False
  let ?J = "re_json E"
  from assms(5) have "method \<noteq> MD_INTENT_PLAYBACK"
    by (auto simp: MD_INTENT_MEDIA_SEEK_CONTENT_def MD_INTENT_MEDIA_SEEK_RELATIVE_def MD_INTENT_MEDIA_SEEK_LIVE_def MD_INTENT_PLAYBACK_def)
  with assms(5,8) have sk: "seek_offset ?J now (cd_biasToSystemTime cd) (cd_startTime cd) (cd_endTime cd) p = Inr p'"
    unfolding AdjustTimeRange_eq [OF assms(1-4) False] by (simp add: ret_iff)
  have le: "cd_startTime cd \<le> cd_endTime cd" using assms(4) False by (auto simp: cd_ok_def media_ok_def)
  obtain anchor old' new v w where r: "seek_anchor ?J now (cd_biasToSystemTime cd) (cd_startTime cd) (cd_endTime cd) p = Inr anchor"
    "jc_get ?J p ''offset'' = Some v" "jv_as_int ?J v = Some old'" "jc_get ?J p' ''offset'' = Some w" "jv_as_int ?J w = Some new"
    "cd_startTime cd \<le> anchor + new" "anchor + new \<le> cd_endTime cd"
    "cd_startTime cd \<le> anchor + old' \<and> anchor + old' \<le> cd_endTime cd \<longrightarrow> new = old'"
    using seek_offset_range [OF assms(1) _ le sk] assms(6) by blast
  from sk obtain x where put: "jc_put ?J p ''offset'' x = Some p'" by (auto simp: seek_offset_def ret_iff)
  obtain q where q: "jc_put ?J p ''offset'' x = Some q" "jv_type ?J q = objectValue"
    "\<And>k'. jc_get ?J q k' = (if k' = ''offset'' then Some x else jc_get ?J p k')"
    "\<And>k'. jv_is_member ?J q k' = (if k' = ''offset'' then Some True else jv_is_member ?J p k')"
    by (rule json_put [OF assms(1), of p "''offset''" x]) (use assms(6) that in auto)
  with put have "q = p'" by simp
  with q(3) have "j_member ?J p' ''anchor'' = j_member ?J p ''anchor''" by (simp add: j_member_def)
  with q(4) \<open>q = p'\<close> have "seek_anchor ?J now b lo hi p' = seek_anchor ?J now b lo hi p" for b lo hi
    by (simp add: seek_anchor_def cong: if_cong)
  with r q \<open>q = p'\<close> assms(7) False show thesis
    by (intro that [of new]) (auto simp: offset_of_def clamped_def)
qed

text \<open>The messages of a seek: each application gets the offset of the one before, clamped to the range of its own media.\<close>

fun seek_messages :: "'j rpc_env \<Rightarrow> json_rpc \<Rightarrow> int \<Rightarrow> string \<Rightarrow> int list \<Rightarrow> int \<Rightarrow> (int \<times> string) list \<Rightarrow> bool" where
  "seek_messages E st now method [] old msgs \<longleftrightarrow> msgs = []"
| "seek_messages E st now method (cid # cids) old msgs \<longleftrightarrow>
     (\<exists>cd p r new rest. om_get (rpc_data st) cid = Some cd \<and> intent_message E method (cd_intentIdCount cd + 1) p = Inr r
       \<and> msgs = (cid, jc_write (re_json E) r) # rest \<and> offset_of (re_json E) p = Some new
       \<and> clamped (re_json E) now cd p old new \<and> seek_messages E st now method cids new rest)"

lemma seek_messages_cong: "(\<And>k. k \<in> set cids \<Longrightarrow> om_get (rpc_data s) k = om_get (rpc_data st) k) \<Longrightarrow>
    seek_messages E s now method cids old msgs = seek_messages E st now method cids old msgs"
  by (induction cids arbitrary: old msgs) auto

lemma clamped_count [simp]: "clamped J now (cd\<lparr>cd_intentIdCount := n\<rparr>) p old new = clamped J now cd p old new"
  by (simp add: clamped_def)

lemma send_seeks:
  assumes "rpc_env_ok E" and "may_lock t st" and "rpc_inv st" and "distinct cids" and "set cids \<subseteq> dom (om_get (rpc_data st))"
    and "send_intents E t now method cids p st = Inr st'" and "method \<in> seek_methods"
    and "jv_type (re_json E) p = objectValue" and "offset_of (re_json E) p = Some old"
  shows "\<exists>msgs. rpc_sent st' = rpc_sent st @ msgs \<and> seek_messages E st now method cids old msgs"
  using assms(2-6,8,9)
proof (induction cids arbitrary: st p old)
  case (Cons cid cids)
  have J: "jsonlib_ok (re_json E)" by (rule rpc_env_okD(1) [OF assms(1)])
  obtain cd where cd: "om_get (rpc_data st) cid = Some cd" using Cons.prems(4) by auto
  define s1 where "s1 = st\<lparr>rpc_data := om_ins cid (cd\<lparr>cd_intentIdCount := cd_intentIdCount cd + 1\<rparr>) (rpc_data st)\<rparr>"
  obtain p' r s2 where adj: "AdjustTimeRange E t now cid method p s1 = Inr (p', s1)" "may_lock t s1" "rpc_inv s1"
    and r: "intent_message E method (cd_intentIdCount cd + 1) p' = Inr r"
    and s2: "may_lock t s2" "rpc_inv s2" "rpc_data s2 = rpc_data s1" "rpc_sent s2 = rpc_sent st @ [(cid, jc_write (re_json E) r)]"
    and rest: "send_intents E t now method cids p' s2 = Inr st'"
    by (rule send_intents_Cons [OF assms(1) Cons.prems(1,2) cd Cons.prems(5)]) (auto simp: s1_def)
  have d1: "om_get (rpc_data s1) cid = Some (cd\<lparr>cd_intentIdCount := cd_intentIdCount cd + 1\<rparr>)" by (simp add: s1_def)
  with adj(3) have "cd_ok (cd\<lparr>cd_intentIdCount := cd_intentIdCount cd + 1\<rparr>)" by (auto simp: rpc_inv_def)
  from Adjust_clamps [OF J adj(2) d1 this assms(7) Cons.prems(6,7) adj(1)] obtain new where
    new: "jv_type (re_json E) p' = objectValue" "offset_of (re_json E) p' = Some new" "clamped (re_json E) now cd p' old new" by auto
  have same: "k \<in> set cids \<Longrightarrow> om_get (rpc_data s2) k = om_get (rpc_data st) k" for k
    using Cons.prems(3) by (auto simp: s2 s1_def)
  then have dom: "set cids \<subseteq> dom (om_get (rpc_data s2))" using Cons.prems(4) by auto
  from Cons.IH [OF s2(1,2) _ dom rest new(1,2)] Cons.prems(3) obtain msgs
    where "rpc_sent st' = rpc_sent s2 @ msgs" "seek_messages E s2 now method cids new msgs" by auto
  moreover from this(2) have "seek_messages E st now method cids new msgs"
    by (simp only: seek_messages_cong [of cids s2 st, OF same])
  with cd r new have "seek_messages E st now method (cid # cids) old ((cid, jc_write (re_json E) r) # msgs)" by auto
  ultimately show ?case using s2(4) by auto
qed simp

text \<open>The offset that a seek asks for.\<close>

fun requested_offset :: "intent \<Rightarrow> int option" where
  "requested_offset (SeekContent a n) = Some n"
| "requested_offset (SeekRelative n) = Some n"
| "requested_offset (SeekLive n) = Some n"
| "requested_offset _ = None"

lemma put_all_type:
  assumes "jsonlib_ok J" and "jv_type J j \<in> {nullValue, objectValue}" and "j_put_all J ms j = Inr p"
  shows "jv_type J p \<in> {nullValue, objectValue}"
proof -
  have step: "jv_type J w \<in> {nullValue, objectValue}"
    if v: "jv_type J v \<in> {nullValue, objectValue}" and w: "(case x of (k, y) \<Rightarrow> \<lambda>j. or_throw (jc_put J j k y)) v = Inr w" for x v w
  proof -
    obtain k y where x: "x = (k, y)" by (cases x)
    obtain u where "jc_put J v k y = Some u" and "jv_type J u = objectValue"
      by (rule json_put [OF assms(1) v]) (use that in blast)
    with w show ?thesis by (simp add: x or_throw_def)
  qed
  show ?thesis
    by (rule foldR_inv [of ms "\<lambda>v. jv_type J v \<in> {nullValue, objectValue}", OF step assms(2) assms(3) [unfolded j_put_all_def]])
qed

lemma object_last:
  assumes "jsonlib_ok J" and "j_object J (ms @ [(k, x)]) = Inr p"
  shows "jv_type J p = objectValue \<and> jc_get J p k = Some x"
proof -
  from assms(2) obtain q where q: "j_put_all J ms (jc_null J) = Inr q" "jc_put J q k x = Some p"
    by (auto simp: j_object_def j_put_all_def foldR_append ret_iff or_throw_def split: option.splits)
  from put_all_type [OF assms(1) _ q(1)] have qt: "jv_type J q \<in> {nullValue, objectValue}" by (simp add: json_null [OF assms(1)])
  obtain w where "jc_put J q k x = Some w" and "jv_type J w = objectValue" and "jc_get J w k = Some x"
    by (rule json_put [OF assms(1) qt, of k x]) (use that in simp)
  with q(2) show ?thesis by simp
qed

lemma seek_params:
  assumes "jsonlib_ok J" and "requested_offset i = Some old" and "in_int old"
    and "j_object J ((''origin'', jc_of_string J ''voice'') # intent_params J i) = Inr p"
  shows "intent_method i \<in> seek_methods \<and> jv_type J p = objectValue \<and> offset_of J p = Some old"
proof -
  from assms(2) obtain ms where i: "intent_method i \<in> seek_methods" and ms: "intent_params J i = ms @ [(''offset'', jv_of_int J old)]"
    by (cases i) auto
  from object_last [OF assms(1), of "(''origin'', jc_of_string J ''voice'') # ms"] assms(4) ms
  have "jv_type J p = objectValue" "jc_get J p ''offset'' = Some (jv_of_int J old)" by simp_all
  with i show ?thesis by (simp add: offset_of_def json_int(2) [OF assms(1,3)])
qed

lemma SendIntent_seek:
  assumes "rpc_env_ok E" and "may_lock t st" and "rpc_inv st" and "SendIntent E t now i st = Inr st'"
    and "requested_offset i = Some old" and "in_int old"
  shows "\<exists>msgs. rpc_sent st' = rpc_sent st @ msgs \<and> seek_messages E st now (intent_method i) (targets E (intent_method i) st) old msgs"
proof -
  let ?ids = "re_order E (map fst (rpc_data st))"
  have ids: "set ?ids = dom (om_get (rpc_data st))" "distinct ?ids"
    using data_keys [OF assms(3)] rpc_env_okD(3,4) [OF assms(1)] by auto
  from assms(4) obtain p where p: "j_object (re_json E) ((''origin'', jc_of_string (re_json E) ''voice'') # intent_params (re_json E) i) = Inr p"
    and send: "send_intents E t now (intent_method i) (targets E (intent_method i) st) p st = Inr st'"
    by (auto simp: SendIntent_def SendIntentMessage_def CheckIntentMethod_def Let_def ret_iff GetAllConnectionIds_eq [OF assms(2)]
        check_intent_eq [OF rpc_env_okD(1) [OF assms(1)] assms(2)] ids targets_def)
  from seek_params [OF rpc_env_okD(1) [OF assms(1)] assms(5,6) p] have sp: "intent_method i \<in> seek_methods"
    "jv_type (re_json E) p = objectValue" "offset_of (re_json E) p = Some old" by auto
  from send_seeks [OF assms(1-3) _ _ send sp] ids show ?thesis by (auto simp: targets_def)
qed

section \<open>Calls that interleave\<close>

text \<open>Two calls that read the counter before either of them stores it give their messages the same id.\<close>

lemma interleaved_ids:
  assumes "GenerateId_store E t cid data st = Inr (i, st1)" and "GenerateId_store E u cid data st1 = Inr (j, st2)"
  shows "j = i"
  using assms by (auto simp: GenerateId_store_def Let_def ret_iff split: if_splits)

lemma close_step:
  assumes "rpc_mutex st = None" and "om_get (rpc_connections st) u = Some c"
  obtains st1 where "rpc_step E st (n, now, Lws (CALLBACK_CLOSED u)) = Inr st1" and "rpc_mutex st1 = None"
    and "rpc_data st1 = om_del (conn_id c) (rpc_data st)"
  using assms by (auto simp: rpc_step_def rpc_LwsCallback_def rpc_lock_def rpc_unlock_def rpc_OnDisconnected_def)

lemma store_after_close:
  assumes "jsonlib_ok (re_json E)" and "rpc_mutex st = None" and "om_get (rpc_data st) cid = None" and "in_int m" and "in_int (m + 1)"
  shows "\<exists>i st'. GenerateId_store E t cid (jv_of_int (re_json E) m) st = Inr (i, st') \<and> rpc_mutex st' = Some (t, 0)"
proof -
  have l: "may_lock t st" using assms(2) by (simp add: may_lock_def)
  show ?thesis
    by (simp add: GenerateId_store_def Let_def json_int [OF assms(1)] assms(4,5) or_throw_def int_op_def EncodeJsonId_def json_string [OF assms(1)]
        SetConnectionData_unknown [OF l assms(3)] deeper_def assms(2))
qed

end
