(* ===== verification/JsonRpcDemo.thy ===== *)
theory JsonRpcDemo
  imports JsonRpcEffects Json
begin

text \<open>
  The properties of the JSON-RPC service, with a run of it on a library of JSON whose parser knows four messages.
\<close>

section \<open>Concrete inputs\<close>

definition demo_call :: "string \<Rightarrow> (string \<times> json) list \<Rightarrow> json" where
  "demo_call method params = JObject [(''id'', JInt 1), (''jsonrpc'', JString ''2.0''), (''method'', JString method), (''params'', JObject params)]"

definition demo_media :: "(string \<times> json) list" where
  "demo_media =
     (let both = JObject [(''available'', JBool True), (''enabled'', JBool False)] in
      [(''accessibility'', JObject [(''audioDescription'', both), (''signLanguage'', both), (''subtitles'', both)]),
       (''availableActions'', JObject [(''seek-relative'', JBool True)]), (''currentTime'', JInt 10), (''kind'', JString ''audio''),
       (''metadata'', JObject [(''title'', JString ''News'')]), (''range'', JObject [(''end'', JInt 100), (''start'', JInt 0)]),
       (''state'', JString ''playing''), (''type'', JString ''live'')])"

definition demo_parse :: "string \<Rightarrow> json option" where
  "demo_parse s =
     (if s = ''negotiate'' then
        Some (demo_call MD_NEGOTIATE_METHODS [(''appToTerminal'', JArray [JString MD_SUBSCRIBE, JString MD_VOICE_READY, JString MD_STATE_MEDIA, JString ''other'']),
          (''terminalToApp'', JArray [JString MD_NOTIFY, JString MD_INTENT_SEARCH, JString MD_INTENT_MEDIA_SEEK_RELATIVE])])
      else if s = ''subscribe'' then Some (demo_call MD_SUBSCRIBE [(''msgType'', JArray [JString ''subtitlesPrefChange''])])
      else if s = ''ready'' then Some (demo_call MD_VOICE_READY [(''ready'', JBool True)])
      else if s = ''media'' then Some (demo_call MD_STATE_MEDIA demo_media)
      else if s = ''unsubscribe'' then Some (demo_call MD_UNSUBSCRIBE [(''msgType'', JArray [JString ''subtitlesPrefChange''])])
      else None)"

definition demo_json :: "json jsonlib" where
  "demo_json = \<lparr>
     jc_parse = demo_parse, jc_write = (\<lambda>j. []), jc_null = JNull,
     jc_is_null = (\<lambda>j. j = JNull),
     jc_is_string = (\<lambda>j. case j of JString s \<Rightarrow> True | _ \<Rightarrow> False),
     jc_is_array = (\<lambda>j. case j of JArray s \<Rightarrow> True | _ \<Rightarrow> False),
     jc_get = (\<lambda>j k. case j of JObject ms \<Rightarrow> Some (case om_get ms k of None \<Rightarrow> JNull | Some v \<Rightarrow> v) | JNull \<Rightarrow> Some JNull | _ \<Rightarrow> None),
     jc_touch = (\<lambda>j k. j),
     jc_put = (\<lambda>j k v. case j of JObject ms \<Rightarrow> Some (JObject (om_ins k v ms)) | JNull \<Rightarrow> Some (JObject [(k, v)]) | _ \<Rightarrow> None),
     jc_append = (\<lambda>j v. case j of JArray xs \<Rightarrow> Some (JArray (xs @ [v])) | JNull \<Rightarrow> Some (JArray [v]) | _ \<Rightarrow> None),
     jc_elems = (\<lambda>j. case j of JArray xs \<Rightarrow> xs | _ \<Rightarrow> []),
     jc_remove = (\<lambda>j i. j),
     jc_of_string = JString,
     jc_of_uint = (\<lambda>w. JInt (uint w)),
     jc_as_string = (\<lambda>j. case j of JString s \<Rightarrow> Some s | JNull \<Rightarrow> Some [] | _ \<Rightarrow> None),
     jc_as_uint = (\<lambda>j. case j of JInt i \<Rightarrow> Some (word_of_int i) | JNull \<Rightarrow> Some 0 | _ \<Rightarrow> None),
     jc_as_double = (\<lambda>j. case j of JInt i \<Rightarrow> Some (word_of_int i) | JNull \<Rightarrow> Some 0 | _ \<Rightarrow> None),
     jc_of_object = JObject, jc_eq = (=),
     jv_type = (\<lambda>j. case j of JNull \<Rightarrow> nullValue | JBool b \<Rightarrow> booleanValue | JInt i \<Rightarrow> intValue | JFloat d \<Rightarrow> realValue
        | JString s \<Rightarrow> stringValue | JArray xs \<Rightarrow> arrayValue | JObject ms \<Rightarrow> objectValue),
     jv_is_member = (\<lambda>j k. case j of JObject ms \<Rightarrow> Some (om_get ms k \<noteq> None) | JNull \<Rightarrow> Some False | _ \<Rightarrow> None),
     jv_is_object = (\<lambda>j. case j of JObject ms \<Rightarrow> True | _ \<Rightarrow> False),
     jv_is_int = (\<lambda>j. case j of JInt i \<Rightarrow> in_int i | _ \<Rightarrow> False),
     jv_is_bool = (\<lambda>j. case j of JBool b \<Rightarrow> True | _ \<Rightarrow> False),
     jv_of_int = JInt, jv_of_bool = JBool,
     jv_as_int = (\<lambda>j. case j of JInt i \<Rightarrow> if in_int i then Some i else None | _ \<Rightarrow> None),
     jv_as_bool = (\<lambda>j. case j of JBool b \<Rightarrow> Some b | _ \<Rightarrow> None),
     jv_put_index = (\<lambda>j n v. case j of JArray xs \<Rightarrow> if n = length xs then Some (JArray (xs @ [v])) else None
        | JNull \<Rightarrow> if n = 0 then Some (JArray [v]) else None | _ \<Rightarrow> None),
     jv_write_string = (\<lambda>j. []), jv_parse_stream = (\<lambda>s. None)\<rparr>"

definition demo_rpc :: "json rpc_env" where
  "demo_rpc = \<lparr>re_json = demo_json, re_zone = (\<lambda>t. t),
     re_junk = \<lparr>tm_sec = 0, tm_min = 0, tm_hour = 0, tm_mday = 0, tm_mon = 0, tm_year = 0, tm_isdst = 0\<rparr>,
     re_double = word_of_int, re_add = (+), re_sub = (-), re_less = (\<lambda>a b. sint a < sint b),
     re_trunc = (\<lambda>d. if in_int (sint d) then Some (sint d) else None), re_text = (\<lambda>d. []), re_order = (\<lambda>ids. ids)\<rparr>"

lemma demo_json_simps:
  "jc_parse demo_json = demo_parse" "jc_write demo_json j = []" "jc_null demo_json = JNull"
  "jc_is_string demo_json j = (case j of JString s \<Rightarrow> True | _ \<Rightarrow> False)"
  "jc_is_array demo_json j = (case j of JArray s \<Rightarrow> True | _ \<Rightarrow> False)"
  "jc_get demo_json j k = (case j of JObject ms \<Rightarrow> Some (case om_get ms k of None \<Rightarrow> JNull | Some v \<Rightarrow> v) | JNull \<Rightarrow> Some JNull | _ \<Rightarrow> None)"
  "jc_put demo_json j k v = (case j of JObject ms \<Rightarrow> Some (JObject (om_ins k v ms)) | JNull \<Rightarrow> Some (JObject [(k, v)]) | _ \<Rightarrow> None)"
  "jc_append demo_json j v = (case j of JArray xs \<Rightarrow> Some (JArray (xs @ [v])) | JNull \<Rightarrow> Some (JArray [v]) | _ \<Rightarrow> None)"
  "jc_elems demo_json j = (case j of JArray xs \<Rightarrow> xs | _ \<Rightarrow> [])" "jc_of_string demo_json = JString"
  "jc_as_string demo_json j = (case j of JString s \<Rightarrow> Some s | JNull \<Rightarrow> Some [] | _ \<Rightarrow> None)" "jc_eq demo_json = (=)"
  "jc_touch demo_json j k = j" "jc_as_double demo_json j = (case j of JInt i \<Rightarrow> Some (word_of_int i) | JNull \<Rightarrow> Some 0 | _ \<Rightarrow> None)"
  "jv_type demo_json j = (case j of JNull \<Rightarrow> nullValue | JBool b \<Rightarrow> booleanValue | JInt i \<Rightarrow> intValue | JFloat d \<Rightarrow> realValue
     | JString s \<Rightarrow> stringValue | JArray xs \<Rightarrow> arrayValue | JObject ms \<Rightarrow> objectValue)"
  "jv_is_member demo_json j k = (case j of JObject ms \<Rightarrow> Some (om_get ms k \<noteq> None) | JNull \<Rightarrow> Some False | _ \<Rightarrow> None)"
  "jv_is_object demo_json j = (case j of JObject ms \<Rightarrow> True | _ \<Rightarrow> False)"
  "jv_is_int demo_json j = (case j of JInt i \<Rightarrow> in_int i | _ \<Rightarrow> False)"
  "jv_is_bool demo_json j = (case j of JBool b \<Rightarrow> True | _ \<Rightarrow> False)" "jv_of_int demo_json = JInt" "jv_of_bool demo_json = JBool"
  "jv_as_int demo_json j = (case j of JInt i \<Rightarrow> if in_int i then Some i else None | _ \<Rightarrow> None)"
  "jv_as_bool demo_json j = (case j of JBool b \<Rightarrow> Some b | _ \<Rightarrow> None)"
  "jv_put_index demo_json j n v = (case j of JArray xs \<Rightarrow> if n = length xs then Some (JArray (xs @ [v])) else None
     | JNull \<Rightarrow> if n = 0 then Some (JArray [v]) else None | _ \<Rightarrow> None)"
  "jv_write_string demo_json j = []" "jv_parse_stream demo_json s = None"
  by (simp_all add: demo_json_def)

lemma demo_rpc_simps:
  "re_json demo_rpc = demo_json" "re_order demo_rpc ids = ids" "re_double demo_rpc = word_of_int" "re_add demo_rpc = (+)"
  "re_sub demo_rpc = (-)" "re_less demo_rpc = (\<lambda>a b. sint a < sint b)"
  "re_trunc demo_rpc = (\<lambda>d. if in_int (sint d) then Some (sint d) else None)"
  by (simp_all add: demo_rpc_def)

lemma om_get_single: "om_get [(k, x)] k' = (if k' = k then Some x else None)"
  by (simp add: om_get_def)

lemma demo_json_ok: "jsonlib_ok demo_json"
  unfolding jsonlib_ok_def demo_json_simps
  by (intro conjI) (auto simp: om_get_single split: json.splits if_splits)

lemma demo_env_ok: "rpc_env_ok demo_rpc"
  using demo_json_ok by (auto simp: rpc_env_ok_def demo_rpc_def split: if_splits)

definition demo_receive :: "string \<Rightarrow> nat \<times> int \<times> rpc_event" where
  "demo_receive m = (0, 0, Lws (CALLBACK_RECEIVE 7 m True True False))"

definition demo_open :: "(nat \<times> int \<times> rpc_event) list" where
  "demo_open = [(0, 0, Lws (CALLBACK_ESTABLISHED 7 ''/e'' [])), demo_receive ''negotiate'']"

definition demo_service :: "(nat \<times> int \<times> rpc_event) list \<Rightarrow> json_rpc res" where
  "demo_service evs = run (rpc_step demo_rpc) (JsonRpcService_new ''/e'') evs"

lemmas method_names = MD_NEGOTIATE_METHODS_def MD_SUBSCRIBE_def MD_UNSUBSCRIBE_def MD_NOTIFY_def MD_AF_FEATURE_SUPPORT_INFO_def
  MD_AF_FEATURE_SETTINGS_QUERY_def MD_AF_FEATURE_SUPPRESS_def MD_AF_DIALOGUE_ENHANCEMENT_OVERRIDE_def
  MD_AF_TRIGGER_RESPONSE_TO_USER_ACTION_def MD_VOICE_READY_def MD_STATE_MEDIA_def MD_INTENT_MEDIA_PAUSE_def
  MD_INTENT_MEDIA_PLAY_def MD_INTENT_MEDIA_FAST_FORWARD_def MD_INTENT_MEDIA_FAST_REVERSE_def MD_INTENT_MEDIA_STOP_def
  MD_INTENT_MEDIA_SEEK_CONTENT_def MD_INTENT_MEDIA_SEEK_RELATIVE_def MD_INTENT_MEDIA_SEEK_LIVE_def
  MD_INTENT_MEDIA_SEEK_WALLCLOCK_def MD_INTENT_SEARCH_def MD_INTENT_DISPLAY_def MD_INTENT_PLAYBACK_def

lemmas rpc_eval = Let_def or_throw_def om_get_def om_del_def bindR_def returns_def
  j_member_def j_string_def j_put_all_def j_object_def INT_MIN_def INT_MAX_def in_int_def to_int_def int_op_def
  F_NAMES_def sizeOfAccessibilityFeature_def ACCESSIBILITY_FEATURE_IDS_def GetAccessibilityFeatureId_def
  HasParam_def HasJsonParam_def has_id_def EncodeJsonId_def DecodeJsonId_def GetMethodsInJsonArray_def IsMethodInJsonArray_def
  CreateJsonResponse_def CreateJsonErrorResponse_def ConnectionData_new_def rpc_lock_def rpc_unlock_def rpc_call_def
  supported_app_to_terminal_def intent_methods_def supported_terminal_to_app_def InitialConnectionData_def set_field_def
  SetConnectionData_def get_field_def GetConnectionData_def GetConnection_def SendJsonMessageToClient_def respond_def
  RespondNegotiateMethods_def RespondSubscribe_def reject_def succeed_def with_id_def with_param_def FilterMethods_def
  RequestNegotiateMethods_def feature_of_def RequestSubscribe_def NotifyVoiceReady_def json_rpc_methods_def handle_def
  find_method_def dispatch_def message_status_def OnMessageReceived_def rpc_OnConnection_def rpc_OnFragmentReceived_def
  rpc_established_def rpc_LwsCallback_def rpc_step_def JsonRpcService_new_def demo_receive_def demo_open_def demo_service_def
  is_true_def string_or_empty_def media_actions_def media_metadata_def is_number_def shifted_def outside_int_def trunc_def
  media_times_def access_kind_def access_complete_def media_accessibility_def SetStateMediaToConnectionData_def copy_media_def
  store_media_def media_position_def media_details_def media_states_def NotifyStateMedia_def demo_media_def
  error_id_def RespondError_def mk_fragment_def GenerateId_store_def rpc_section_def demo_parse_def demo_call_def demo_rpc_simps demo_json_simps method_names

lemma demo_opened: "returns (demo_service demo_open) (\<lambda>st. \<exists>c cd. om_get (rpc_connections st) 7 = Some c \<and> conn_id c = 0
   \<and> om_get (rpc_data st) 0 = Some cd \<and> cd_appToTerminal cd = [MD_STATE_MEDIA, MD_VOICE_READY, MD_SUBSCRIBE, MD_NEGOTIATE_METHODS])"
  by (simp add: rpc_eval cong: lazy)

definition demo_talk :: "(nat \<times> int \<times> rpc_event) list" where
  "demo_talk = demo_open @ [demo_receive ''subscribe'', demo_receive ''ready'']"

lemma demo_talked: "returns (demo_service demo_talk) (\<lambda>st. map fst (rpc_data st) = [0] \<and> (\<exists>c cd. om_get (rpc_connections st) 7 = Some c
   \<and> conn_id c = 0 \<and> om_get (rpc_data st) 0 = Some cd \<and> cd_voiceReady cd \<and> cd_terminalToApp cd = [MD_INTENT_MEDIA_SEEK_RELATIVE, MD_INTENT_SEARCH, MD_NOTIFY]
   \<and> cd_subscribed cd = [''subtitlesPrefChange''] \<and> cd_intentIdCount cd = 0))"
  by (simp add: rpc_eval demo_talk_def cong: lazy)

definition demo_watch :: "(nat \<times> int \<times> rpc_event) list" where
  "demo_watch = demo_talk @ [(0, 1000, Lws (CALLBACK_RECEIVE 7 ''media'' True True False))]"

lemma demo_watched: "returns (demo_service demo_watch) (\<lambda>st. map fst (rpc_data st) = [0] \<and> (\<exists>cd. om_get (rpc_data st) 0 = Some cd
   \<and> cd_startTime cd = 990 \<and> cd_endTime cd = 1090 \<and> cd_biasToSystemTime cd = 0
   \<and> intent_eligible MD_INTENT_MEDIA_SEEK_RELATIVE cd))"
  by (simp add: rpc_eval demo_talk_def demo_watch_def intent_eligible_def intent_allowed_def actions_of_def cong: lazy)

definition demo_sections :: "(int \<times> json rpc_section) list" where
  "demo_sections = [(0, Callback_section (CALLBACK_ESTABLISHED 7 ''/e'' [])), (0, Callback_section (CALLBACK_CLOSED 7)), (0, Store_section 1 0 (JInt 0))]"

lemma demo_sectioned: "returns (run (rpc_section demo_rpc) (JsonRpcService_new ''/e'') demo_sections) (\<lambda>st. rpc_mutex st = Some (Platform 1, 0))"
  by (simp add: rpc_eval demo_sections_def dec_int_def deeper_def rpc_OnDisconnected_def cong: lazy)

lemma demo_service_iff: "demo_service evs = Inr st \<longleftrightarrow> run (rpc_step demo_rpc) (JsonRpcService_new ''/e'') evs = Inr st"
  by (simp add: demo_service_def)

section \<open>Properties\<close>

text \<open>C7. However the calls of the platform and the callbacks interleave between their critical sections, the data of the
  connections stay well formed: the connections that are open are those with data, no two share an id, the methods an
  application has negotiated are methods the service supports, its subscriptions name features and the range of its
  media is a range. No callback of libwebsockets leaves the mutex locked; a call of the platform can (C15).\<close>

theorem rpc_wellformed:
  assumes "rpc_env_ok E" and "run (rpc_section E) (JsonRpcService_new endpoint) secs = Inr st"
  shows "rpc_inv st \<and> (\<forall>k. rpc_mutex st \<noteq> Some (Looper, k))"
  using sections_reachable [OF assms] by blast

theorem rpc_wellformed_witness: "\<exists>st. run (rpc_section demo_rpc) (JsonRpcService_new ''/e'') demo_sections = Inr st \<and> rpc_inv st
  \<and> rpc_mutex st = Some (Platform 1, 0)"
proof -
  from demo_sectioned obtain st where "run (rpc_section demo_rpc) (JsonRpcService_new ''/e'') demo_sections = Inr st"
    and "rpc_mutex st = Some (Platform 1, 0)" by (auto elim: returnsE)
  with rpc_wellformed [OF demo_env_ok] show ?thesis by blast
qed

text \<open>C8. A request for a method that the application has not negotiated has no effect: the data of all connections
  stay as they are, the platform is not called, and one message goes to that application.\<close>

theorem rpc_refused:
  assumes "rpc_env_ok E" and "run (rpc_step E) (JsonRpcService_new endpoint) evs = Inr st"
    and "om_get (rpc_connections st) u = Some c" and "om_get (rpc_data st) (conn_id c) = Some cd"
    and "jc_parse (re_json E) d = Some obj" and "HasJsonParam (re_json E) obj ''error'' = Inr False"
    and "HasParam (re_json E) obj ''method'' stringValue = Inr True" and "j_member (re_json E) obj ''method'' = Inr v"
    and "j_string (re_json E) v = Inr m" and "m \<notin> set (cd_appToTerminal cd)"
    and "rpc_step E st (n, now, Lws (CALLBACK_RECEIVE u d True True False)) = Inr st'"
  shows "rpc_data st' = rpc_data st \<and> rpc_calls st' = rpc_calls st \<and> (\<exists>r. rpc_sent st' = rpc_sent st @ [(conn_id c, r)])"
proof -
  note inv = rpc_reachable [OF assms(1,2)]
  define s1 where "s1 = st\<lparr>rpc_mutex := Some (Looper, 0), rpc_connections := om_ins u (c\<lparr>text_buffer := d\<rparr>) (rpc_connections st)\<rparr>"
  obtain s2 where s2: "OnMessageReceived E now (conn_id c) d s1 = Inr s2" "rpc_unlock Looper s2 = Inr st'"
    using receive_step [OF inv(2) assms(3,11)] by (auto simp: s1_def)
  have lock: "may_lock Looper s1" and cd: "om_get (rpc_data s1) (conn_id c) = Some cd" using assms(4) by (simp_all add: s1_def may_lock_def)
  have "s1 = st\<lparr>rpc_connections := om_ins u (c\<lparr>text_buffer := d\<rparr>) (rpc_connections st)\<rparr>\<lparr>rpc_mutex := Some (Looper, 0)\<rparr>"
    by (simp add: s1_def)
  then have inv1: "rpc_inv s1"
    using inv_connection [OF inv(1) assms(3), of "c\<lparr>text_buffer := d\<rparr>"] by (simp only: inv_frame) simp
  from s2(1) obtain status s3 where s3: "message_status E now (conn_id c) obj s1 = Inr (status, s3)"
    and rest: "(if status = SUCCESS \<or> status = NOTIFICATION_ERROR then Inr s3 else bindR (error_id E status obj) (\<lambda>i.
       RespondError (re_json E) Looper (conn_id c) i (status_code status) (GetErrorMessage status) s3)) = Inr s2"
    by (auto simp: OnMessageReceived_def Let_def assms(5) ret_iff)
  from status_refused [OF assms(1) lock cd assms(7-10,6) s3] rest obtain i where
    "RespondError (re_json E) Looper (conn_id c) i (status_code status) (GetErrorMessage status) s1 = Inr s2"
    by (auto simp: ret_iff)
  from RespondError_eq [OF lock this] obtain r where "s2 = queue_message (conn_id c) r s1" .
  moreover have "rpc_sent (queue_message (conn_id c) r s1) = rpc_sent st @ [(conn_id c, r)]"
    using queue_sent [OF inv1, of "conn_id c" r] cd by (auto simp: s1_def)
  ultimately show ?thesis using s2(2) by (auto simp: rpc_unlock_def s1_def split: option.splits if_splits)
qed

theorem rpc_refused_witness:
  "\<exists>st st'. demo_service demo_open = Inr st \<and> rpc_step demo_rpc st (demo_receive ''unsubscribe'') = Inr st' \<and> rpc_data st' = rpc_data st"
proof -
  from demo_opened obtain st c cd where st: "demo_service demo_open = Inr st" "om_get (rpc_connections st) 7 = Some c"
    "om_get (rpc_data st) (conn_id c) = Some cd" "cd_appToTerminal cd = [MD_STATE_MEDIA, MD_VOICE_READY, MD_SUBSCRIBE, MD_NEGOTIATE_METHODS]"
    by (auto elim!: returnsE)
  have "returns (demo_service (demo_open @ [demo_receive ''unsubscribe''])) (\<lambda>st. True)"
    by (simp add: rpc_eval cong: lazy)
  with st(1) obtain st' where st': "rpc_step demo_rpc st (demo_receive ''unsubscribe'') = Inr st'"
    by (auto simp: demo_service_def run_append ret_iff elim!: returnsE)
  have "MD_UNSUBSCRIBE \<notin> set (cd_appToTerminal cd)" by (simp add: st(4) method_names)
  from rpc_refused [OF demo_env_ok _ st(2,3) _ _ _ _ _ this, where v = "JString MD_UNSUBSCRIBE" and endpoint = "''/e''" and evs = demo_open
      and d = "''unsubscribe''" and n = 0 and now = 0 and st' = st'
      and obj = "demo_call MD_UNSUBSCRIBE [(''msgType'', JArray [JString ''subtitlesPrefChange''])]"]
  have "rpc_data st' = rpc_data st"
    using st(1) st' by (simp add: demo_service_iff demo_receive_def demo_parse_def demo_rpc_simps demo_json_simps HasJsonParam_def HasParam_def
        j_member_def j_string_def demo_call_def om_get_def or_throw_def)
  with st(1) st' show ?thesis by blast
qed

text \<open>C9. An intent whose call no other call or callback interrupts goes to the applications that are ready for the voice
  control, have negotiated its method and whose media allow it, to each once and to no other. Each message is made with
  the number that follows the counter of its connection, and nothing but the counters of those connections changes, each
  by one. That the numbers differ in all calls does not hold: two that interleave take the same (\<open>interleaved_ids\<close>).\<close>

theorem rpc_intents:
  assumes "rpc_env_ok E" and "run (rpc_step E) (JsonRpcService_new endpoint) evs = Inr st"
    and "rpc_step E st (n, now, Intent i) = Inr st'"
  shows "set (targets E (intent_method i) st) = {k. \<exists>cd. om_get (rpc_data st) k = Some cd \<and> intent_eligible (intent_method i) cd}
    \<and> distinct (targets E (intent_method i) st)
    \<and> (\<exists>msgs. rpc_sent st' = rpc_sent st @ msgs \<and>
         list_all2 (\<lambda>cid (k, m). k = cid \<and> carries E (intent_method i) (intent_count st cid + 1) m) (targets E (intent_method i) st) msgs)
    \<and> om_get (rpc_data st') = counted (set (targets E (intent_method i) st)) st \<and> rpc_calls st' = rpc_calls st"
proof -
  note inv = rpc_reachable [OF assms(1,2)]
  have "may_lock (Platform n) st" using inv(2) by (simp add: may_lock_def)
  from SendIntent_effect [OF assms(1) this inv(1), of now i st'] assms(3) have "rpc_calls st' = rpc_calls st"
    "om_get (rpc_data st') = counted (set (targets E (intent_method i) st)) st"
    "\<exists>msgs. rpc_sent st' = rpc_sent st @ msgs \<and>
       list_all2 (\<lambda>cid (k, m). k = cid \<and> carries E (intent_method i) (intent_count st cid + 1) m) (targets E (intent_method i) st) msgs"
    by (simp_all add: rpc_step_def)
  moreover have "set (targets E (intent_method i) st) = {k. \<exists>cd. om_get (rpc_data st) k = Some cd \<and> intent_eligible (intent_method i) cd}"
    "distinct (targets E (intent_method i) st)"
    using data_keys [OF inv(1)] rpc_env_okD(3,4) [OF assms(1), of "map fst (rpc_data st)"] by (auto simp: targets_def dom_def)
  ultimately show ?thesis by blast
qed

lemma demo_search: "returns (demo_service (demo_talk @ [(1, 0, Intent (Search ''news''))])) (\<lambda>st. True)"
  by (simp add: rpc_eval demo_talk_def SendIntent_def SendIntentMessage_def CheckIntentMethod_def GetAllConnectionIds_def
      intent_target_def intent_fields_def intent_allowed_def GenerateId_def GenerateId_store_def AdjustTimeRange_def
      CreateIntentResponse_def dec_int_def cong: lazy)

theorem rpc_intents_witness:
  "\<exists>st st'. demo_service demo_talk = Inr st \<and> rpc_step demo_rpc st (1, 0, Intent (Search ''news'')) = Inr st'
     \<and> map fst (rpc_sent st') = map fst (rpc_sent st) @ [0]"
proof -
  from demo_talked obtain st cd where st: "demo_service demo_talk = Inr st" "map fst (rpc_data st) = [0]" "om_get (rpc_data st) 0 = Some cd"
    "cd_voiceReady cd" "cd_terminalToApp cd = [MD_INTENT_MEDIA_SEEK_RELATIVE, MD_INTENT_SEARCH, MD_NOTIFY]"
    by (auto elim!: returnsE)
  with demo_search obtain st' where st': "rpc_step demo_rpc st (1, 0, Intent (Search ''news'')) = Inr st'"
    by (auto simp: demo_service_def run_append ret_iff elim!: returnsE)
  have "targets demo_rpc (intent_method (Search ''news'')) st = [0]"
    using st by (simp add: targets_def demo_rpc_simps intent_eligible_def intent_allowed_def)
  with rpc_intents [OF demo_env_ok st(1) [unfolded demo_service_iff] st'] show ?thesis
    using st(1) st' by (auto simp: list_all2_Cons1)
qed

text \<open>C13. A change of settings is announced to the applications that have subscribed to it and have negotiated
  notifications, to each once, with the same message, and nothing else changes.\<close>

theorem rpc_notify:
  assumes "rpc_env_ok E" and "run (rpc_step E) (JsonRpcService_new endpoint) evs = Inr st"
    and "rpc_step E st (n, now, Notification s) = Inr st'"
  shows "\<exists>to m. rpc_sent st' = rpc_sent st @ map (\<lambda>i. (i, m)) to \<and> distinct to
    \<and> set to = {k. \<exists>cd. om_get (rpc_data st) k = Some cd \<and> subscribed_to (feature_name s @ ''PrefChange'') cd}
    \<and> rpc_data st' = rpc_data st \<and> rpc_calls st' = rpc_calls st"
proof -
  note inv = rpc_reachable [OF assms(1,2)]
  have "may_lock (Platform n) st" using inv(2) by (simp add: may_lock_def)
  from Notify_effect [OF assms(1) this inv(1), of s st'] assms(3) show ?thesis
    using data_keys [OF inv(1)] rpc_env_okD(3,4) [OF assms(1), of "map fst (rpc_data st)"]
    by (auto simp: rpc_step_def dom_def intro!: exI [of _ "filter (\<lambda>i. subscribed_to (feature_name s @ ''PrefChange'') (the (om_get (rpc_data st) i)))
      (re_order E (map fst (rpc_data st)))"])
qed

lemma demo_magnify: "returns (demo_service (demo_talk @ [(1, 0, Notification (InVisionSigning True))])) (\<lambda>st. True)"
  by (simp add: rpc_eval demo_talk_def NotifyFeature_def SendNotifyMessage_def GetNotifyConnectionIds_def GetAllConnectionIds_def
      notify_members_def CreateNotifyRequest_def ACCESSIBILITY_FEATURE_NAMES_def cong: lazy)

theorem rpc_notify_witness:
  "\<exists>st st'. demo_service demo_talk = Inr st \<and> rpc_step demo_rpc st (1, 0, Notification (InVisionSigning True)) = Inr st'
     \<and> rpc_sent st' = rpc_sent st"
proof -
  from demo_talked obtain st cd where st: "demo_service demo_talk = Inr st" "map fst (rpc_data st) = [0]" "om_get (rpc_data st) 0 = Some cd"
    "cd_subscribed cd = [''subtitlesPrefChange'']"
    by (auto elim!: returnsE)
  with demo_magnify obtain st' where st': "rpc_step demo_rpc st (1, 0, Notification (InVisionSigning True)) = Inr st'"
    by (auto simp: demo_service_def run_append ret_iff elim!: returnsE)
  have "om_get (rpc_data st) k = Some cd' \<Longrightarrow> k = 0" for k cd'
    using st(2) by (auto simp: om_get_def dest!: map_of_SomeD)
  then have none: "{k. \<exists>cd. om_get (rpc_data st) k = Some cd \<and> subscribed_to (feature_name (InVisionSigning True) @ ''PrefChange'') cd} = {}"
    using st(3,4) by (fastforce simp: subscribed_to_def)
  from rpc_notify [OF demo_env_ok st(1) [unfolded demo_service_iff] st', unfolded none] show ?thesis
    using st(1) st' by auto
qed

text \<open>C14. A seek stays within the media of each application that it goes to. Where an application has described a range,
  the offset in its message leads from the anchor to a position in that range, and it is the offset handed to it whenever
  that one does; where it has not, the offset is passed on. The first application is handed the offset that was requested,
  every later one the offset sent to the one before it, as the code changes the shared parameters in place.\<close>

theorem seek_clamped:
  assumes "rpc_env_ok E" and "run (rpc_step E) (JsonRpcService_new endpoint) evs = Inr st"
    and "requested_offset i = Some old" and "in_int old" and "rpc_step E st (n, now, Intent i) = Inr st'"
  shows "\<exists>msgs. rpc_sent st' = rpc_sent st @ msgs \<and> seek_messages E st now (intent_method i) (targets E (intent_method i) st) old msgs"
proof -
  note inv = rpc_reachable [OF assms(1,2)]
  have "may_lock (Platform n) st" using inv(2) by (simp add: may_lock_def)
  from SendIntent_seek [OF assms(1) this inv(1) _ assms(3,4)] assms(5) show ?thesis by (simp add: rpc_step_def)
qed

lemma demo_seek: "returns (demo_service (demo_watch @ [(1, 1000, Intent (SeekRelative 500))])) (\<lambda>st. True)"
  by (simp add: rpc_eval demo_watch_def demo_talk_def SendIntent_def SendIntentMessage_def CheckIntentMethod_def GetAllConnectionIds_def
      intent_target_def intent_fields_def intent_allowed_def GenerateId_def AdjustTimeRange_def seek_offset_def seek_anchor_def
      CreateIntentResponse_def dec_int_def cong: lazy)

theorem seek_clamped_witness:
  "\<exists>st st' m p new anchor. demo_service demo_watch = Inr st \<and> rpc_step demo_rpc st (1, 1000, Intent (SeekRelative 500)) = Inr st'
     \<and> rpc_sent st' = rpc_sent st @ [(0, m)] \<and> offset_of demo_json p = Some new
     \<and> seek_anchor demo_json 1000 0 990 1090 p = Inr anchor \<and> 990 \<le> anchor + new \<and> anchor + new \<le> 1090"
proof -
  from demo_watched obtain st cd where st: "demo_service demo_watch = Inr st" "map fst (rpc_data st) = [0]" "om_get (rpc_data st) 0 = Some cd"
    "cd_startTime cd = 990" "cd_endTime cd = 1090" "cd_biasToSystemTime cd = 0" "intent_eligible MD_INTENT_MEDIA_SEEK_RELATIVE cd"
    by (auto elim!: returnsE)
  with demo_seek obtain st' where st': "rpc_step demo_rpc st (1, 1000, Intent (SeekRelative 500)) = Inr st'"
    by (auto simp: demo_service_def run_append ret_iff elim!: returnsE)
  have "targets demo_rpc (intent_method (SeekRelative 500)) st = [0]"
    using st(2,3,7) by (simp add: targets_def demo_rpc_simps)
  with seek_clamped [OF demo_env_ok st(1) [unfolded demo_service_iff] _ _ st', of 500] st(3-6)
  obtain m p new anchor where "rpc_sent st' = rpc_sent st @ [(0, m)]" "offset_of demo_json p = Some new"
    "seek_anchor demo_json 1000 0 990 1090 p = Inr anchor" "990 \<le> anchor + new" "anchor + new \<le> 1090"
    by (auto simp: clamped_def demo_rpc_simps in_int_def INT_MIN_def INT_MAX_def)
  with st(1) st' show ?thesis by blast
qed

text \<open>C15. When a connection closes while a call of the platform is between reading the counter of its intents and
  storing it, the mutex is never unlocked again: every later callback of libwebsockets waits for ever.\<close>

theorem intent_race_blocks:
  assumes "rpc_env_ok E" and "run (rpc_step E) (JsonRpcService_new endpoint) evs = Inr st"
    and "om_get (rpc_connections st) u = Some c" and "om_get (rpc_data st) (conn_id c) = Some cd" and "cd_intentIdCount cd < INT_MAX"
  shows "\<exists>data st1 i st2. GetConnectionData (re_json E) (Platform k) (conn_id c) IntentIdCount st = Inr (data, st)
    \<and> rpc_step E st (n, now, Lws (CALLBACK_CLOSED u)) = Inr st1
    \<and> GenerateId_store E (Platform k) (conn_id c) data st1 = Inr (i, st2)
    \<and> (\<forall>now reason. rpc_LwsCallback E now reason st2 = Inl Blocked)"
proof -
  note inv = rpc_reachable [OF assms(1,2)]
  have l: "may_lock (Platform k) st" using inv(2) by (simp add: may_lock_def)
  have "cd_ok cd" using inv(1) assms(4) by (auto simp: rpc_inv_def)
  then have m: "in_int (cd_intentIdCount cd)" "in_int (cd_intentIdCount cd + 1)"
    using assms(5) by (simp_all add: cd_ok_def in_int_def)
  obtain st1 where st1: "rpc_step E st (n, now, Lws (CALLBACK_CLOSED u)) = Inr st1" "rpc_mutex st1 = None"
    "rpc_data st1 = om_del (conn_id c) (rpc_data st)"
    by (rule close_step [OF inv(2) assms(3)])
  then have "om_get (rpc_data st1) (conn_id c) = None" by simp
  from store_after_close [OF rpc_env_okD(1) [OF assms(1)] st1(2) this m, of "Platform k"] obtain i st2
    where "GenerateId_store E (Platform k) (conn_id c) (jv_of_int (re_json E) (cd_intentIdCount cd)) st1 = Inr (i, st2)"
      and "rpc_mutex st2 = Some (Platform k, 0)" by blast
  moreover have "GetConnectionData (re_json E) (Platform k) (conn_id c) IntentIdCount st = Inr (jv_of_int (re_json E) (cd_intentIdCount cd), st)"
    by (simp add: GetConnectionData_eq [OF l] assms(4) get_field_def)
  ultimately show ?thesis using st1(1) by (fastforce simp: rpc_LwsCallback_def rpc_lock_def)
qed

theorem intent_race_blocks_witness:
  "\<exists>st data st1 i st2. demo_service demo_talk = Inr st
     \<and> rpc_step demo_rpc st (0, 0, Lws (CALLBACK_CLOSED 7)) = Inr st1 \<and> GenerateId_store demo_rpc (Platform 1) 0 data st1 = Inr (i, st2)
     \<and> rpc_LwsCallback demo_rpc 0 (CALLBACK_ESTABLISHED 8 ''/e'' []) st2 = Inl Blocked"
proof -
  from demo_talked obtain st c cd where st: "demo_service demo_talk = Inr st" "om_get (rpc_connections st) 7 = Some c" "conn_id c = 0"
    "om_get (rpc_data st) (conn_id c) = Some cd" "cd_intentIdCount cd = 0"
    by (auto elim!: returnsE)
  have "cd_intentIdCount cd < INT_MAX" using st(5) by (simp add: INT_MAX_def)
  from intent_race_blocks [OF demo_env_ok st(1) [unfolded demo_service_iff] st(2,4) this, of 1 0 0, unfolded st(3)] st(1) show ?thesis
    by blast
qed

end
