(* ===== verification/Spec2Isabelle.thy ===== *)
theory Spec2Isabelle
  imports CppStrings OrderedMap Utils Timeout AitTypes AitSelect AitParse AitSection AitRoundtrip HbbtvApp XmlParser OpApp AppManager AppManagerRun AppManagerSelect Demo Base64 Sha256 Uri Json TokenManager App2App App2AppPairing WallClock CssTypes MediaSync MediaSyncTimelines MediaSyncProofs MediaSyncRun IsoTime JsonRpcTypes JsonRpc JsonRpcRequests JsonRpcPlatform JsonRpcLaws JsonRpcProofs JsonRpcRun JsonRpcEffects JsonRpcDemo
begin

text \<open>
  Verification of the C++ core of the Open Red Button (ORB) software, an HbbTV terminal: the components under
  \<open>src/components\<close> and the library of the RDK port under \<open>src/rdk/ORB/library\<close>.

  The parts and how they interact. The DVB stack of the platform delivers the application information tables
  (AIT) of a service as sections, or the browser fetches an XML AIT. The \<^emph>\<open>application manager\<close> parses
  them, chooses the application to start, and starts and stops applications in the browser through the
  \<^emph>\<open>session callback\<close>; a timer thread kills the application if the AIT of a new service does not arrive.
  Applications see the terminal through JSON requests, which the manager allows or refuses and, on RDK, a
  \<^emph>\<open>token\<close> authenticates. The \<^emph>\<open>network services\<close> connect companion screens: \<^emph>\<open>app-to-app\<close> pairs a
  local with a remote websocket of the same name, the \<^emph>\<open>JSON-RPC service\<close> connects applications with the
  accessibility settings and the voice assistant of the terminal, the \<^emph>\<open>media synchroniser\<close> (DVB-CSS) tells companions
  the content and its timelines, and answers wall clock requests over UDP; a \<^emph>\<open>service manager\<close> owns the
  threads of all of them.

  Theories, in the order of the code. A definition has the name of the C++ function it models, with a prefix
  where two functions have one name or Isabelle has the name already.

  \<^item> \<open>Prelude\<close>: machine integers, the faults of an execution (out of bounds, null, use after free, deadlock, no
    termination, an exception nobody catches) as values, the result type with its sequencing \<open>bindR\<close>, checked
    reads and writes, and the locales \<open>event_system\<close> and \<open>total_system\<close>, the contract of a component that
    handles events: an invariant of its steps holds in its runs. \<open>OrderedMap\<close>: the contract of \<open>std::map\<close>
    (\<open>map_store\<close>, \<open>ordered_store\<close>) and its interpretation on association lists. \<open>CppStrings\<close>: \<open>std::string\<close>.
  \<^item> \<open>Utils\<close>, \<open>Timeout\<close> (\<open>application_manager/utils.cpp\<close>): locators, origins and boundaries, equivalent to a
    same-origin check; the timer, interpreted as \<open>total_system\<close>.
  \<^item> \<open>AitTypes\<close>, \<open>AitSelect\<close>, \<open>AitParse\<close>, \<open>AitSection\<close>, \<open>AitRoundtrip\<close> (\<open>ait.h\<close>, \<open>ait.cpp\<close>): the tables; the queries,
    with what \<open>AutoStartApp\<close> promises; the parser of sections over byte buffers with checked accesses; the
    encoder of TS 102 809, which the parser inverts; the mask of received sections.
  \<^item> \<open>XmlParser\<close> (\<open>xml_parser.cpp\<close>): the parser of XML AITs over the tree that libxml2 returns.
  \<^item> \<open>HbbtvApp\<close>, \<open>OpApp\<close> (\<open>hbbtv_app.cpp\<close>, \<open>opapp.cpp\<close>): applications, key sets, the states of operator
    applications (locale \<open>stateful_app\<close>, interpreted for both kinds).
  \<^item> \<open>Session\<close>, \<open>AppManager\<close>, \<open>AppManagerRun\<close>, \<open>AppManagerSelect\<close> (\<open>application_session_callback.h\<close>,
    \<open>application_manager.cpp\<close>): the manager, every public operation a step; the invariant of its slots
    (interpretation \<open>manager\<close>), and which application runs after an AIT. \<open>Demo\<close>: inputs for the witnesses.
  \<^item> \<open>Base64\<close>, \<open>Sha256\<close>, \<open>Uri\<close>, \<open>Json\<close>, \<open>TokenManager\<close> (\<open>rdk/ORB/library/src/core\<close>): base 64 against RFC 4648, the hash
    against FIPS 180-4, the parser of URIs, tokens.
  \<^item> \<open>App2App\<close>, \<open>App2AppPairing\<close> (\<open>app2app/\<close>, \<open>websocket_service.cpp\<close>): connections as objects on a heap, the callback
    of libwebsockets and the loops of both services as steps; the pairing invariant (interpretation \<open>a2a\<close>), and
    when pointers dangle.
  \<^item> \<open>WallClock\<close> (\<open>UdpSocketService.cpp\<close>, \<open>WallClockService.cpp\<close>): datagrams bit for bit, on hosts of both
    endiannesses.
  \<^item> \<open>CssTypes\<close>, \<open>MediaSync\<close>, \<open>MediaSyncTimelines\<close>, \<open>MediaSyncProofs\<close>, \<open>MediaSyncRun\<close> (\<open>media_synchroniser/\<close>,
    \<open>service_manager.cpp\<close>): messages, timelines, sources and clocks, the services and their manager; well-formed
    states (interpretation \<open>ms\<close>), and the refinement of the abstract subscriptions of companions.
  \<^item> \<open>IsoTime\<close>, \<open>JsonRpcTypes\<close> (static functions of \<open>json_rpc/JsonRpcService.cpp\<close>): wall-clock times, method names, the
    values of settings. \<open>JsonRpc\<close>, \<open>JsonRpcRequests\<close>, \<open>JsonRpcPlatform\<close>: the data of the connections under the mutex;
    what applications send, with the callback of libwebsockets; what the platform calls. \<open>JsonRpcLaws\<close>: the laws of jsoncpp
    and what each accessor does. \<open>JsonRpcProofs\<close> (locale \<open>step_relation\<close>, interpretation \<open>kp\<close>): the invariant,
    kept by every operation; \<open>JsonRpcRun\<close> (interpretations \<open>rpc\<close>, and \<open>rpcs\<close> for critical sections that
    interleave): runs; \<open>JsonRpcEffects\<close>: who gets an intent, with what offset, and who a notification. \<open>JsonRpcDemo\<close>: a jsoncpp for the witnesses, and the properties.

  The state of a class is a record with its fields; an operation takes the state and returns it updated, in the
  result type where it can fault. Objects that the code shares by pointer are on a heap, a map from addresses.
  Threads that a mutex serialises are interleaved step by step; where the order of locks matters (the
  timer, the end of a service, the recursive mutex of the JSON-RPC service) the locks are part of the state; elsewhere a
  handler is one step, and waiting for a mutex is not modelled (\<open>app2app\<close>). The JSON-RPC service has two step functions:
  \<open>rpc_step\<close> runs a call of the platform without interruption, \<open>rpc_section\<close> one critical section that changes the state, so
  that calls and callbacks interleave (\<open>rpc_wellformed\<close>); \<open>step_sections\<close> shows that every step is a run of sections. What is outside the repository is a parameter:
  the answers of the platform (\<open>Session\<close>), libxml2's tree, jsoncpp (records \<open>jsoncpp\<close> and \<open>jsonlib\<close>), UUIDs, readings of clocks, the time zone,
  doubles and the order of a hash table (record \<open>rpc_env\<close>), the contents of uninitialised memory where the code returns it.

  Bounds and termination. Loops over buffers recurse on the remaining length, proved to decrease; machine
  integers keep their width, and the properties say where they wrap around (\<open>wc_bounds\<close>, the numbers of
  profiles and of applications). Two loops that may not end return \<open>Diverge\<close>, and \<open>update_returns\<close> says exactly
  when. The walk over the tree of clocks has as fuel the number of clocks plus one, which is more than the length of any
  path without a cycle; for a cycle the model returns \<open>Diverge\<close>, as the code does not return. A clock whose parent has been
  destroyed faults where the code follows the pointer (\<open>clock_chain\<close>, \<open>live_parent\<close>).

  The properties of this theory are those of the application manager, which span its components; the others
  stand at the end of the theory of their component: the theories of the AIT and of the library, \<open>App2AppPairing\<close>,
  \<open>WallClock\<close>, \<open>MediaSyncRun\<close>, \<open>IsoTime\<close> and \<open>JsonRpcDemo\<close>. Properties of kind error show what the code does wrong.

  Not modelled: the conversions between clocks and their rates, computed in floating point (what a clock shows is a
  parameter); data races on state that no mutex protects; the manager of media
  synchronisers, the request handlers, queries and metadata search of the RDK library; platform glue (JNI,
  Thunder, WebKit), the mock platform, JavaScript and Java, and vendored code (mongoose, the DIAL server,
  nlohmann json). Logging is left out everywhere.
\<close>

section \<open>The application manager\<close>

text \<open>
  C1. In every state the manager can reach, the running applications are exactly the ones its two
  slots name, without repetition: at most one HbbTV application and one operator application. Each is
  stored under its own id, in the slot of its type, and none is trusted.
\<close>

theorem manager_slots:
  assumes "run am_step ApplicationManager_new es = Inr m"
  shows "distinct (GetRunningAppIds m)
    \<and> set (GetRunningAppIds m) = {m_hbbtvAppId m, m_opAppId m} - {INVALID_APP_ID}
    \<and> (\<forall>i a. om_get (m_apps m) i = Some a \<longrightarrow>
          m_id a = i \<and> 0 < i \<and> i \<le> g_id m \<and> \<not> m_isTrusted a
        \<and> i = (if m_type a = OPAPP_TYPE then m_opAppId m else m_hbbtvAppId m))"
proof (intro conjI allI impI)
  note ok = reachable_ok [OF assms]
  show "distinct (GetRunningAppIds m)" by (rule running_ids [OF ok])
  show "set (GetRunningAppIds m) = {m_hbbtvAppId m, m_opAppId m} - {INVALID_APP_ID}"
    by (rule running_ids [OF ok])
  fix i a
  assume "om_get (m_apps m) i = Some a"
  from mgr_ok_id [OF ok this] show "m_id a = i" "0 < i" "i \<le> g_id m" "\<not> m_isTrusted a"
    "i = (if m_type a = OPAPP_TYPE then m_opAppId m else m_hbbtvAppId m)"
    by (auto simp: app_fits_def slot_of_def split: app_type.splits)
qed

theorem manager_slots_witness:
  "\<exists>m. run am_step ApplicationManager_new demo_opapp = Inr m \<and> set (GetRunningAppIds m) = {1, 2}"
proof -
  have "after demo_opapp (\<lambda>m. m_hbbtvAppId m = 2 \<and> m_opAppId m = 1)" by code_simp
  then obtain m where m: "run am_step ApplicationManager_new demo_opapp = Inr m"
    "m_hbbtvAppId m = 2" "m_opAppId m = 1" by (auto elim: afterE)
  from manager_slots [OF m(1)] m show ?thesis by (auto simp: INVALID_APP_ID_def)
qed

text \<open>
  C2. When the first complete AIT of a service has been handled, an HbbTV application that is running
  then (kept, transitioned or started) is broadcast-related, carries the description of an entry of
  that AIT whose control code is not KILL, and passes the session's parental control.
\<close>

theorem first_ait_application:
  assumes "run am_step ApplicationManager_new es = Inr m"
    and "ProcessAitSection se pid sid d m = Inr m'"
    and "\<not> m_currentServiceReceivedFirstAit m" and "m_currentServiceReceivedFirstAit m'"
    and "hbbtv_app m' = Some a"
  shows "\<exists>t. Ait_Get (mg_ait m') = Some t \<and> m_isBroadcast a
    \<and> m_aitDesc a \<in> set (take (unat (numApps t)) (appArray t))
    \<and> controlCode (m_aitDesc a) \<noteq> control_code APP_CTL_KILL
    \<and> IsAllowedByParentalControl se (m_aitDesc a)"
  using section_app(2) [OF reachable_ok [OF assms(1)] assms(2,5,3,4)] by (auto simp: signalled_by_def)

theorem first_ait_application_witness:
  "\<exists>m m' a t. run am_step ApplicationManager_new demo_tuned = Inr m
     \<and> ProcessAitSection demo_session 100 3 demo_section m = Inr m' \<and> hbbtv_app m' = Some a
     \<and> Ait_Get (mg_ait m') = Some t \<and> m_aitDesc a \<in> set (take (unat (numApps t)) (appArray t))"
proof -
  have "after demo_tuned (\<lambda>m. \<not> m_currentServiceReceivedFirstAit m \<and>
      returns (ProcessAitSection demo_session 100 3 demo_section m)
        (\<lambda>m'. m_currentServiceReceivedFirstAit m' \<and> hbbtv_app m' \<noteq> None))" by code_simp
  then obtain m m' a where m: "run am_step ApplicationManager_new demo_tuned = Inr m"
    "ProcessAitSection demo_session 100 3 demo_section m = Inr m'"
    "\<not> m_currentServiceReceivedFirstAit m" "m_currentServiceReceivedFirstAit m'" "hbbtv_app m' = Some a"
    by (auto elim!: afterE returnsE)
  from first_ait_application [OF m] m(1,2,5) show ?thesis by blast
qed

text \<open>
  C3. Any section of an AIT either leaves the running HbbTV application exactly as it was, or what
  runs afterwards is signalled in the completed table in the same sense.
\<close>

theorem section_application:
  assumes "run am_step ApplicationManager_new es = Inr m"
    and "ProcessAitSection se pid sid d m = Inr m'" and "hbbtv_app m' = Some a"
    and "hbbtv_app m' \<noteq> hbbtv_app m"
  shows "\<exists>t. Ait_Get (mg_ait m') = Some t \<and> m_isBroadcast a
    \<and> m_aitDesc a \<in> set (take (unat (numApps t)) (appArray t))
    \<and> controlCode (m_aitDesc a) \<noteq> control_code APP_CTL_KILL
    \<and> IsAllowedByParentalControl se (m_aitDesc a)"
  using section_app(1) [OF reachable_ok [OF assms(1)] assms(2,3)] assms(4) by (auto simp: signalled_by_def)

theorem section_application_witness:
  "\<exists>m m' a t. run am_step ApplicationManager_new demo_tuned = Inr m
     \<and> ProcessAitSection demo_session 200 3 demo_section m = Inr m' \<and> hbbtv_app m' = Some a
     \<and> Ait_Get (mg_ait m') = Some t \<and> m_isBroadcast a"
proof -
  have "after demo_tuned (\<lambda>m. hbbtv_app m = None \<and>
      returns (ProcessAitSection demo_session 200 3 demo_section m) (\<lambda>m'. hbbtv_app m' \<noteq> None))" by code_simp
  then obtain m m' a where m: "run am_step ApplicationManager_new demo_tuned = Inr m"
    "ProcessAitSection demo_session 200 3 demo_section m = Inr m'" "hbbtv_app m' = Some a" "hbbtv_app m' \<noteq> hbbtv_app m"
    by (auto elim!: afterE returnsE)
  from section_application [OF m] m(1-3) show ?thesis by blast
qed

text \<open>
  C4. When the broadcast stops, the manager returns with no AIT, no service, and no broadcast-related
  HbbTV application; the applications that were running still run. So the application is never killed, although the comments
  of \<open>OnBroadcastStopped\<close> announce that it may be, depending on the signalling: the branch that kills it is dead, because
  \<open>HbbTVApp::TransitionToBroadcastIndependent\<close> never fails.
\<close>

theorem broadcast_stopped:
  assumes "run am_step ApplicationManager_new es = Inr m"
  shows "\<exists>m'. OnBroadcastStopped m = Inr m' \<and> Ait_Get (mg_ait m') = None
    \<and> IsInvalidDvbTriplet (m_currentService m')
    \<and> (\<forall>a. hbbtv_app m' = Some a \<longrightarrow> \<not> m_isBroadcast a)
    \<and> set (GetRunningAppIds m') = set (GetRunningAppIds m)"
proof -
  note ok = reachable_ok [OF assms]
  obtain m' where m': "OnBroadcastStopped m = Inr m'" and s: "Ait_Get (mg_ait m') = None"
      "IsInvalidDvbTriplet (m_currentService m')" "\<forall>a. hbbtv_app m' = Some a \<longrightarrow> \<not> m_isBroadcast a"
      "m_hbbtvAppId m' = m_hbbtvAppId m" "m_opAppId m' = m_opAppId m"
    using stopped_result [of m] by blast
  from running_ids(2) [OF ok] running_ids(2) [OF OnBroadcastStopped_ok [OF ok m']] m' s show ?thesis by simp
qed

theorem broadcast_stopped_witness:
  "\<exists>m m'. run am_step ApplicationManager_new demo_on_air = Inr m \<and> OnBroadcastStopped m = Inr m'
     \<and> set (GetRunningAppIds m') = {1} \<and> (\<forall>a. hbbtv_app m' = Some a \<longrightarrow> \<not> m_isBroadcast a)"
proof -
  have "after demo_on_air (\<lambda>m. set (GetRunningAppIds m) = {1})" by code_simp
  then obtain m where m: "run am_step ApplicationManager_new demo_on_air = Inr m" "set (GetRunningAppIds m) = {1}"
    by (auto elim!: afterE)
  from broadcast_stopped [OF m(1)] m show ?thesis by metis
qed

text \<open>No reachable state allows a request that requires a trusted application.\<close>

theorem trusted_requests_refused:
  assumes "run am_step ApplicationManager_new es = Inr m"
  shows "\<not> IsRequestAllowed m i url FOR_TRUSTED_APP_ONLY"
  using mgr_ok_id [OF reachable_ok [OF assms]]
  by (auto simp: IsRequestAllowed_def app_fits_def split: option.splits)

theorem trusted_requests_refused_witness:
  "\<exists>m. run am_step ApplicationManager_new demo_on_air = Inr m
     \<and> IsRequestAllowed m 1 ''http://ai'' FOR_RUNNING_APP_ONLY
     \<and> \<not> IsRequestAllowed m 1 ''http://ai'' FOR_TRUSTED_APP_ONLY"
proof -
  have "after demo_on_air (\<lambda>m. IsRequestAllowed m 1 ''http://ai'' FOR_RUNNING_APP_ONLY)" by code_simp
  then obtain m where m: "run am_step ApplicationManager_new demo_on_air = Inr m"
    "IsRequestAllowed m 1 ''http://ai'' FOR_RUNNING_APP_ONLY" by (auto elim!: afterE)
  from trusted_requests_refused [OF m(1)] m show ?thesis by blast
qed

text \<open>
  C5. Requests are allowed to the running HbbTV application only: never to the operator application,
  whatever the requirement, and never from an empty or blank page.
\<close>

theorem requests_from_hbbtv_only:
  assumes "run am_step ApplicationManager_new es = Inr m" and "IsRequestAllowed m i url req"
  shows "i = m_hbbtvAppId m \<and> i \<noteq> m_opAppId m \<and> hbbtv_app m \<noteq> None
    \<and> url \<noteq> [] \<and> \<not> CompareUrls url ''about:blank''
    \<and> IsRequestAllowed m i url FOR_RUNNING_APP_ONLY"
proof -
  note ok = reachable_ok [OF assms(1)]
  from assms(2) obtain a where a: "om_get (m_apps m) (m_hbbtvAppId m) = Some a"
    and i: "i = m_hbbtvAppId m" and u: "url \<noteq> []" "\<not> CompareUrls url ''about:blank''"
    by (auto simp: IsRequestAllowed_def split: option.splits if_splits)
  from mgr_ok_id [OF ok a] ok have "m_hbbtvAppId m \<noteq> m_opAppId m"
    by (auto simp: mgr_ok_def app_fits_def INVALID_APP_ID_def)
  with a i u show ?thesis by (simp add: IsRequestAllowed_def hbbtv_app_def)
qed

theorem requests_from_hbbtv_only_witness:
  "\<exists>m. run am_step ApplicationManager_new demo_opapp = Inr m
     \<and> IsRequestAllowed m 2 ''http://ai'' FOR_BROADCAST_APP_ONLY \<and> 2 \<noteq> m_opAppId m"
proof -
  have "after demo_opapp (\<lambda>m. IsRequestAllowed m 2 ''http://ai'' FOR_BROADCAST_APP_ONLY)" by code_simp
  then obtain m where m: "run am_step ApplicationManager_new demo_opapp = Inr m"
    "IsRequestAllowed m 2 ''http://ai'' FOR_BROADCAST_APP_ONLY" by (auto elim!: afterE)
  from requests_from_hbbtv_only [OF m] m show ?thesis by blast
qed

text \<open>
  C6. When the timer that a channel change started expires and its callback runs, no HbbTV
  application is left running; the operator application is not touched.
\<close>

theorem ait_timeout_kills:
  assumes "run am_step ApplicationManager_new es = Inr m"
    and "to_waiting (m_aitTimeout m)" and "\<not> to_stopped (m_aitTimeout m)" and "to_holder (m_aitTimeout m) = None"
  shows "\<exists>m'. run am_step m [EvAitTimerExpires, EvAitTimerCallback] = Inr m' \<and> hbbtv_app m' = None
    \<and> om_get (m_apps m') (m_opAppId m) = om_get (m_apps m) (m_opAppId m)
    \<and> \<not> to_waiting (m_aitTimeout m') \<and> to_holder (m_aitTimeout m') = None"
  using timer_kills [OF reachable_ok [OF assms(1)] assms(2-4)] .

theorem ait_timeout_kills_witness:
  "\<exists>m m'. run am_step ApplicationManager_new (demo_on_air @ [EvChannelChanged 0 1 2 4]) = Inr m
     \<and> hbbtv_app m \<noteq> None
     \<and> run am_step m [EvAitTimerExpires, EvAitTimerCallback] = Inr m' \<and> hbbtv_app m' = None"
proof -
  have "after (demo_on_air @ [EvChannelChanged 0 1 2 4]) (\<lambda>m. hbbtv_app m \<noteq> None \<and> to_waiting (m_aitTimeout m)
      \<and> \<not> to_stopped (m_aitTimeout m) \<and> to_holder (m_aitTimeout m) = None)" by code_simp
  then obtain m where m: "run am_step ApplicationManager_new (demo_on_air @ [EvChannelChanged 0 1 2 4]) = Inr m"
    "to_waiting (m_aitTimeout m)" "\<not> to_stopped (m_aitTimeout m)" "to_holder (m_aitTimeout m) = None"
    "hbbtv_app m \<noteq> None" by (auto elim!: afterE)
  from ait_timeout_kills [OF m(1-4)] m(1,5) show ?thesis by blast
qed

text \<open>
  Stopping the broadcast does not stop the AIT timer: an application that became
  broadcast-independent is still killed when the timer of the abandoned channel expires.
\<close>

theorem timer_outlives_broadcast:
  assumes "run am_step ApplicationManager_new es = Inr m"
    and "to_waiting (m_aitTimeout m)" and "\<not> to_stopped (m_aitTimeout m)" and "to_holder (m_aitTimeout m) = None"
  shows "\<exists>m1 m2. OnBroadcastStopped m = Inr m1 \<and> set (GetRunningAppIds m1) = set (GetRunningAppIds m)
    \<and> run am_step m1 [EvAitTimerExpires, EvAitTimerCallback] = Inr m2 \<and> hbbtv_app m2 = None"
proof -
  note ok = reachable_ok [OF assms(1)]
  obtain m1 where m1: "OnBroadcastStopped m = Inr m1" and s: "m_aitTimeout m1 = m_aitTimeout m"
      "m_hbbtvAppId m1 = m_hbbtvAppId m" "m_opAppId m1 = m_opAppId m"
    using stopped_result [of m] by blast
  note ok1 = OnBroadcastStopped_ok [OF ok m1]
  from timer_kills [OF ok1] assms(2-4) s obtain m2
    where "run am_step m1 [EvAitTimerExpires, EvAitTimerCallback] = Inr m2" "hbbtv_app m2 = None" by auto
  with m1 s running_ids(2) [OF ok] running_ids(2) [OF ok1] show ?thesis by simp
qed

theorem timer_outlives_broadcast_witness:
  "\<exists>m m1 m2. run am_step ApplicationManager_new (demo_on_air @ [EvChannelChanged 0 1 2 4]) = Inr m
     \<and> OnBroadcastStopped m = Inr m1 \<and> set (GetRunningAppIds m1) = {1}
     \<and> run am_step m1 [EvAitTimerExpires, EvAitTimerCallback] = Inr m2 \<and> hbbtv_app m2 = None"
proof -
  have "after (demo_on_air @ [EvChannelChanged 0 1 2 4]) (\<lambda>m. set (GetRunningAppIds m) = {1} \<and> to_waiting (m_aitTimeout m)
      \<and> \<not> to_stopped (m_aitTimeout m) \<and> to_holder (m_aitTimeout m) = None)" by code_simp
  then obtain m where m: "run am_step ApplicationManager_new (demo_on_air @ [EvChannelChanged 0 1 2 4]) = Inr m"
    "to_waiting (m_aitTimeout m)" "\<not> to_stopped (m_aitTimeout m)" "to_holder (m_aitTimeout m) = None"
    "set (GetRunningAppIds m) = {1}" by (auto elim!: afterE)
  from timer_outlives_broadcast [OF m(1-4)] m(1,5) show ?thesis by metis
qed

text \<open>
  C16. The timer's thread holds the timer's mutex while its callback waits for the manager's lock. A
  channel change that holds the manager's lock then waits for the timer's mutex: neither returns.
\<close>

theorem channel_change_blocked:
  assumes "to_joinable (m_aitTimeout m)" and "to_waiting (m_aitTimeout m)"
    and "\<not> to_stopped (m_aitTimeout m)" and "to_holder (m_aitTimeout m) = None"
  shows "run am_step m [EvAitTimerExpires, EvChannelChanged now onid tsid sid] = Inl Blocked"
  using assms
  by (simp add: am_step_def ait_timer_expires_def OnChannelChanged_def timeout_defs Let_def)

theorem channel_change_blocked_witness:
  "\<exists>m. run am_step ApplicationManager_new demo_tuned = Inr m
     \<and> run am_step m [EvAitTimerExpires, EvChannelChanged 5001 1 2 4] = Inl Blocked"
proof -
  have "after demo_tuned (\<lambda>m. to_joinable (m_aitTimeout m) \<and> to_waiting (m_aitTimeout m)
      \<and> \<not> to_stopped (m_aitTimeout m) \<and> to_holder (m_aitTimeout m) = None)" by code_simp
  then obtain m where m: "run am_step ApplicationManager_new demo_tuned = Inr m"
    "to_joinable (m_aitTimeout m)" "to_waiting (m_aitTimeout m)"
    "\<not> to_stopped (m_aitTimeout m)" "to_holder (m_aitTimeout m) = None" by (auto elim!: afterE)
  from channel_change_blocked [OF m(2-5)] m(1) show ?thesis by blast
qed

text \<open>
  Only the operator application can start another operator application: for any other caller,
  a request to run as an operator application starts nothing and changes no application or service.
\<close>

theorem opapp_creation:
  assumes "run am_step ApplicationManager_new es = Inr m"
    and "CreateApplication se i url True m = Inr (r, m')" and "i \<noteq> m_opAppId m"
  shows "r = INVALID_APP_ID \<and> m_apps m' = m_apps m \<and> m_hbbtvAppId m' = m_hbbtvAppId m
    \<and> m_opAppId m' = m_opAppId m \<and> g_id m' = g_id m \<and> m_currentService m' = m_currentService m"
proof (cases "om_get (m_apps m) i")
  case None
  with assms(2) show ?thesis by (simp add: CreateApplication_def running_def)
next
  case (Some a)
  from mgr_ok_id [OF reachable_ok [OF assms(1)] Some] assms(3) have "m_type a \<noteq> OPAPP_TYPE"
    by (auto simp: app_fits_def slot_of_def)
  with Some assms(2) show ?thesis
    by (auto simp: CreateApplication_def running_def deref_def split: if_splits)
qed

theorem opapp_creation_witness:
  "\<exists>m m'. run am_step ApplicationManager_new demo_opapp = Inr m
     \<and> CreateApplication demo_session 2 ''http://c'' True m = Inr (0, m') \<and> m_opAppId m' = 1"
proof -
  have "after demo_opapp (\<lambda>m. m_opAppId m = 1 \<and>
      returns (CreateApplication demo_session 2 ''http://c'' True m) (\<lambda>r. True))" by code_simp
  then obtain m r m' where m: "run am_step ApplicationManager_new demo_opapp = Inr m"
    "CreateApplication demo_session 2 ''http://c'' True m = Inr (r, m')" "m_opAppId m = 1"
    by (auto elim!: afterE returnsE)
  from opapp_creation [OF m(1,2)] m show ?thesis by (auto simp: INVALID_APP_ID_def)
qed

text \<open>C17. After \<open>DestroyApplication\<close> the destroyed application no longer runs.\<close>

theorem destroyed_gone:
  assumes "run am_step ApplicationManager_new es = Inr m"
    and "DestroyApplication se i m = Inr m'" and "i \<noteq> INVALID_APP_ID"
  shows "\<not> running m' i"
proof (cases "running m i")
  case False
  with assms(2,3) show ?thesis by (simp add: DestroyApplication_def)
next
  case True
  note ok = reachable_ok [OF assms(1)]
  from True assms(2,3) have "OnRunningAppExited se (KillRunningApp i m) = Inr m'"
    by (simp add: DestroyApplication_def)
  from exited_running [OF this, of i] killed [OF ok True] running_bound [OF ok True]
  show ?thesis by auto
qed

theorem destroyed_gone_witness:
  "\<exists>m m'. run am_step ApplicationManager_new demo_on_air = Inr m \<and> running m 1
     \<and> DestroyApplication demo_session 1 m = Inr m' \<and> \<not> running m' 1"
proof -
  have "after demo_on_air (\<lambda>m. running m 1 \<and> returns (DestroyApplication demo_session 1 m) (\<lambda>r. True))"
    by code_simp
  then obtain m m' where m: "run am_step ApplicationManager_new demo_on_air = Inr m"
    "DestroyApplication demo_session 1 m = Inr m'" "running m 1"
    by (auto elim!: afterE returnsE)
  from destroyed_gone [OF m(1,2)] m show ?thesis by (auto simp: INVALID_APP_ID_def)
qed

text \<open>
  The failure to load an application that carries ids but is not in the current AIT dereferences
  a null pointer.
\<close>

theorem load_failed_null:
  assumes "\<not> IsInvalidDvbTriplet (m_currentService m)" and "om_get (m_apps m) i = Some a"
    and "Ait_Get (mg_ait m) = Some t" and "wf_table t"
    and "appId (m_aitDesc a) \<noteq> 0" and "orgId (m_aitDesc a) \<noteq> 0"
    and "\<forall>k < unat (numApps t). \<not> (orgId (appArray t ! k) = orgId (m_aitDesc a) \<and> appId (appArray t ! k) = appId (m_aitDesc a))"
  shows "OnLoadApplicationFailed se i m = Inl NullDeref"
proof -
  obtain ix where ix: "FindAppIx (Some t) (orgId (m_aitDesc a)) (appId (m_aitDesc a)) = Inr ix"
    and "case ix of None \<Rightarrow> True | Some k \<Rightarrow> k < unat (numApps t)
      \<and> orgId (appArray t ! k) = orgId (m_aitDesc a) \<and> appId (appArray t ! k) = appId (m_aitDesc a)"
    using FindAppIx_ok [OF assms(4), of "orgId (m_aitDesc a)" "appId (m_aitDesc a)"]
    by (auto split: option.splits)
  with assms(7) have "ix = None" by (auto split: option.splits)
  with assms(1-3,5,6) ix show ?thesis
    by (simp add: OnLoadApplicationFailed_def running_def deref_def note_failed_transport_def Let_def
        mark_transport_failed_def AppSetTransportFailedToLoad_def)
qed

theorem load_failed_null_witness:
  "\<exists>m. run am_step ApplicationManager_new demo_opapp = Inr m
     \<and> OnLoadApplicationFailed demo_session 1 m = Inl NullDeref"
proof -
  have "after demo_opapp (\<lambda>m. \<not> IsInvalidDvbTriplet (m_currentService m)
      \<and> (case (om_get (m_apps m) 1, Ait_Get (mg_ait m)) of
          (Some a, Some t) \<Rightarrow> appId (m_aitDesc a) = 8 \<and> orgId (m_aitDesc a) = 7 \<and> numApps t = 1
             \<and> orgId (appArray t ! 0) = 19 | _ \<Rightarrow> False))" by code_simp
  then obtain m a t where m: "run am_step ApplicationManager_new demo_opapp = Inr m"
    and s: "\<not> IsInvalidDvbTriplet (m_currentService m)" and a: "om_get (m_apps m) 1 = Some a"
    and t: "Ait_Get (mg_ait m) = Some t"
    and v: "appId (m_aitDesc a) = 8" "orgId (m_aitDesc a) = 7" "numApps t = 1" "orgId (appArray t ! 0) = 19"
    by (auto elim!: afterE split: option.splits)
  have "wf_table t" using tables_wf_Get [OF mgr_ok_tables [OF reachable_ok [OF m]] t] .
  from load_failed_null [OF s a t this] v m show ?thesis by auto
qed

text \<open>
  Whatever application it starts, \<open>ProcessXmlAit\<close> returns 0 or 1, not the id of the application.
\<close>

theorem xml_ait_result:
  assumes "ProcessXmlAit se xml isDvbi sch m = Inr (r, m')"
  shows "r = 0 \<or> r = 1"
  using assms by (cases rule: ProcessXmlAit_cases) (auto simp: bool_to_int_def)

theorem xml_ait_result_witness:
  "\<exists>m r m'. run am_step ApplicationManager_new demo_opapp = Inr m
     \<and> ProcessXmlAit (demo_xml_session [demo_app_node []]) ''xml'' False [] m = Inr (r, m')
     \<and> m_hbbtvAppId m' = 3 \<and> r \<noteq> 3"
proof -
  have "after demo_opapp (\<lambda>m. returns (ProcessXmlAit (demo_xml_session [demo_app_node []]) ''xml'' False [] m)
      (\<lambda>(r, m'). m_hbbtvAppId m' = 3))" by code_simp
  then obtain m r m' where m: "run am_step ApplicationManager_new demo_opapp = Inr m"
    and x: "ProcessXmlAit (demo_xml_session [demo_app_node []]) ''xml'' False [] m = Inr (r, m')"
    and "m_hbbtvAppId m' = 3" by (auto elim!: afterE returnsE)
  with xml_ait_result [OF x] show ?thesis by auto
qed

text \<open>
  Showing the running HbbTV application always returns: it ends in the foreground, and the browser
  is told exactly when it was not there before.
\<close>

theorem show_hbbtv:
  assumes "run am_step ApplicationManager_new es = Inr m" and "hbbtv_app m = Some a"
  shows "\<exists>m'. ShowApplication now (m_hbbtvAppId m) m = Inr m'
    \<and> hbbtv_app m' = Some (a\<lparr>m_state := FOREGROUND_STATE\<rparr>)
    \<and> events m' = events m @ (if m_state a = FOREGROUND_STATE then [] else [ShowApp (m_id a)])"
proof -
  from assms(2) have a: "om_get (m_apps m) (m_hbbtvAppId m) = Some a" by (simp add: hbbtv_app_def)
  from mgr_ok_id [OF reachable_ok [OF assms(1)] a] reachable_ok [OF assms(1)]
  have "m_type a = HBBTV_APP_TYPE"
    by (auto simp: app_fits_def slot_of_def mgr_ok_def INVALID_APP_ID_def split: app_type.splits)
  with a show ?thesis
    by (auto simp: ShowApplication_def set_app_state_def running_def deref_def App_SetState_def
        HbbTVApp_SetState_def hbbtv_app_def emit_def put_app_def)
qed

theorem show_hbbtv_witness:
  "\<exists>m m'. run am_step ApplicationManager_new demo_on_air = Inr m \<and> ShowApplication 0 1 m = Inr m'
     \<and> events m' = events m @ [ShowApp 1]"
proof -
  have "after demo_on_air (\<lambda>m. m_hbbtvAppId m = 1 \<and> (case hbbtv_app m of None \<Rightarrow> False
      | Some a \<Rightarrow> m_id a = 1 \<and> m_state a = BACKGROUND_STATE))" by code_simp
  then obtain m a where m: "run am_step ApplicationManager_new demo_on_air = Inr m" "hbbtv_app m = Some a"
    "m_hbbtvAppId m = 1" "m_id a = 1" "m_state a = BACKGROUND_STATE" by (auto elim!: afterE split: option.splits)
  from show_hbbtv [OF m(1,2), of 0] m show ?thesis by auto
qed

text \<open>
  C25. A running operator application is always in the background, and no request to show it is ever
  followed: the call returns without a command to the browser and without changing the application.
\<close>

theorem opapp_never_shown:
  assumes "run am_step ApplicationManager_new es = Inr m" and "om_get (m_apps m) (m_opAppId m) = Some a"
  shows "m_state a = BACKGROUND_STATE
    \<and> (\<exists>m'. ShowApplication now (m_opAppId m) m = Inr m' \<and> events m' = events m
          \<and> om_get (m_apps m') (m_opAppId m) = Some a)"
proof -
  from mgr_ok_id [OF reachable_ok [OF assms(1)] assms(2)] reachable_ok [OF assms(1)]
  have ty: "m_type a = OPAPP_TYPE" and rest: "at_rest a"
    by (auto simp: app_fits_def slot_of_def mgr_ok_def INVALID_APP_ID_def split: app_type.splits)
  from OpApp_SetState_at_rest [OF rest ty, of Caller now FOREGROUND_STATE]
  have "ShowApplication now (m_opAppId m) m = Inr (emit [] (put_app (m_opAppId m) a m))"
    using assms(2) ty by (simp add: ShowApplication_def set_app_state_def running_def deref_def App_SetState_def)
  with rest ty show ?thesis by (simp add: at_rest_def emit_def put_app_def)
qed

theorem opapp_never_shown_witness:
  "\<exists>m m'. run am_step ApplicationManager_new demo_opapp = Inr m \<and> m_opAppId m = 1 \<and> running m 1
     \<and> ShowApplication 7 1 m = Inr m' \<and> events m' = events m"
proof -
  have "after demo_opapp (\<lambda>m. m_opAppId m = 1 \<and> running m 1)" by code_simp
  then obtain m a where m: "run am_step ApplicationManager_new demo_opapp = Inr m"
    "om_get (m_apps m) (m_opAppId m) = Some a" "m_opAppId m = 1"
    by (auto elim!: afterE simp: running_def)
  from opapp_never_shown [OF m(1,2), of 7] m show ?thesis by (auto simp: running_def)
qed

end
